(* ===== verification/Prelude.thy ===== *)
theory Prelude
  imports Main
begin

text \<open>
  Shared vocabulary of the development: the collections the component theories feed
  (\<open>decimal_simps\<close>, \<open>script_simps\<close>, \<open>store_simps\<close>), the result type of fallible code,
  list lemmas used by more than one component, and two interfaces that several components
  implement: idempotent consumers (redelivery is harmless) and guarded transitions
  (a guarded update preserves an invariant along a run).
\<close>

named_theorems decimal_simps \<open>values and shapes of decimal strings\<close>
named_theorems script_simps \<open>unfolding of the Redis scripts\<close>
named_theorems store_simps \<open>reads and writes of the PostgreSQL tables\<close>

section \<open>Fallible code\<close>

text \<open>A thrown error is \<open>Inl\<close>, a normal return is \<open>Inr\<close>.\<close>

type_synonym ('e, 'a) result = "'e + 'a"

abbreviation throws :: "'e \<Rightarrow> ('e, 'a) result" where "throws e \<equiv> Inl e"
abbreviation returns :: "'a \<Rightarrow> ('e, 'a) result" where "returns x \<equiv> Inr x"

definition bind_result :: "('e, 'a) result \<Rightarrow> ('a \<Rightarrow> ('e, 'b) result) \<Rightarrow> ('e, 'b) result" where
  "bind_result r k = (case r of Inl e \<Rightarrow> Inl e | Inr x \<Rightarrow> k x)"

lemma bind_result_simps [simp]:
  "bind_result (Inl e) k = Inl e"
  "bind_result (Inr x) k = k x"
  by (simp_all add: bind_result_def)

lemma bind_result_Inr_iff:
  "bind_result r k = Inr y \<longleftrightarrow> (\<exists>x. r = Inr x \<and> k x = Inr y)"
  by (cases r) simp_all

fun is_ok :: "('e, 'a) result \<Rightarrow> bool" where
  "is_ok (Inl _) = False"
| "is_ok (Inr _) = True"

lemma is_ok_iff: "is_ok r \<longleftrightarrow> (\<exists>x. r = Inr x)"
  by (cases r) simp_all

text \<open>\<open>value ?? fallback\<close> of the source.\<close>

definition coalesce :: "'a option \<Rightarrow> 'a \<Rightarrow> 'a" where
  "coalesce x d = (case x of None \<Rightarrow> d | Some v \<Rightarrow> v)"

lemma coalesce_simps [simp]: "coalesce None d = d" "coalesce (Some v) d = v"
  by (simp_all add: coalesce_def)

section \<open>Lists\<close>

lemma distinct_append_take:
  "distinct (xs @ ys) \<Longrightarrow> distinct (xs @ take n ys)"
  by (auto dest: in_set_takeD)

lemma map_filter_length_le: "length (filter P xs) \<le> length xs"
  by simp

lemma fold_unchanged:
  "\<forall>x \<in> set xs. f x s = s \<Longrightarrow> fold f xs s = s"
  by (induction xs) auto

lemma distinct_map_snoc:
  "distinct (map f (xs @ [x])) \<longleftrightarrow> distinct (map f xs) \<and> f x \<notin> f ` set xs"
  by auto

section \<open>Idempotent consumers\<close>

text \<open>
  A consumer that records what it has handled: handling marks the event as seen, what was
  seen stays seen, and handling a seen event changes nothing. Then redelivering any
  events of a batch after the batch is harmless, in any order and any number of times.
\<close>

locale idempotent_consumer =
  fixes handle :: "'e \<Rightarrow> 's \<Rightarrow> 's"
    and seen :: "'s \<Rightarrow> 'e \<Rightarrow> bool"
    and ready :: "'s \<Rightarrow> 'e \<Rightarrow> bool"
  assumes marks: "ready s e \<Longrightarrow> seen (handle e s) e"
    and keeps: "seen s e \<Longrightarrow> seen (handle e' s) e"
    and skips: "seen s e \<Longrightarrow> handle e s = s"
begin

lemma seen_fold: "seen s e \<Longrightarrow> seen (fold handle es s) e"
  by (induction es arbitrary: s) (auto intro: keeps)

lemma redelivery_once: "ready s e \<Longrightarrow> handle e (handle e s) = handle e s"
  by (rule skips) (rule marks)

lemma redelivery_of_seen:
  "\<forall>e \<in> set es. seen s e \<Longrightarrow> fold handle es s = s"
  by (rule fold_unchanged) (simp add: skips)

lemma redelivery_later:
  assumes "ready s e"
  shows "handle e (fold handle es (handle e s)) = fold handle es (handle e s)"
  by (rule skips) (rule seen_fold, rule marks, rule assms)

end

section \<open>Guarded runs\<close>

text \<open>
  A state machine given as a step function with an invariant its steps keep.
\<close>

locale kept_invariant =
  fixes step :: "'i \<Rightarrow> 's \<Rightarrow> 's"
    and admissible :: "'i \<Rightarrow> bool"
    and inv :: "'s \<Rightarrow> bool"
  assumes kept: "admissible i \<Longrightarrow> inv s \<Longrightarrow> inv (step i s)"
begin

lemma run_kept: "\<forall>i \<in> set is. admissible i \<Longrightarrow> inv s \<Longrightarrow> inv (fold step is s)"
  by (induction "is" arbitrary: s) (auto intro: kept)

end

end
