(* ===== verification/Lua_Decimals.thy ===== *)
theory Lua_Decimals
  imports Decimal_Strings
begin

text \<open>
  The decimal arithmetic of auction-mutate.lua. Lua numbers are doubles, so the script keeps
  BIGINT amounts as strings and computes on their digits: \<open>trim\<close>, \<open>compare\<close>, \<open>add\<close>,
  \<open>minimum\<close>, \<open>pad\<close> and \<open>rankMember\<close>. The lemmas show that on digit strings these are the
  operations on the numbers the strings denote, whatever leading zeros they carry, and that the
  padded members of the ranking sort as the pairs they encode. Lua's \<open><\<close> on strings is the
  byte order of the C locale Redis runs with.
\<close>

section \<open>The script's operations\<close>

definition lua_trim :: "string \<Rightarrow> string" where
  "lua_trim value =
     (let normalized = dropWhile (\<lambda>c. c = CHR ''0'') value
      in if normalized = [] then ''0'' else normalized)"

fun lua_less :: "string \<Rightarrow> string \<Rightarrow> bool" where
  "lua_less _ [] = False"
| "lua_less [] (_ # _) = True"
| "lua_less (c # s) (d # t) =
     ((of_char c :: nat) < of_char d \<or> (c = d \<and> lua_less s t))"

definition lua_compare :: "string \<Rightarrow> string \<Rightarrow> int" where
  "lua_compare left0 right0 =
     (let left = lua_trim left0; right = lua_trim right0
      in if length left \<noteq> length right then (if length left < length right then -1 else 1)
         else if left = right then 0
         else if lua_less left right then -1 else 1)"

text \<open>\<open>tonumber\<close> of one character, \<open>or 0\<close>.\<close>

definition lua_digit :: "char \<Rightarrow> nat" where
  "lua_digit c = (if is_digit c then digit_val c else 0)"

function add_loop :: "string \<Rightarrow> string \<Rightarrow> nat \<Rightarrow> nat \<Rightarrow> nat \<Rightarrow> string \<Rightarrow> string" where
  "add_loop left right li ri carry output =
     (if li > 0 \<or> ri > 0 \<or> carry > 0
      then let ld = (if li > 0 then lua_digit (left ! (li - 1)) else 0);
               rd = (if ri > 0 then lua_digit (right ! (ri - 1)) else 0);
               sum = ld + rd + carry
           in add_loop left right (li - 1) (ri - 1) (sum div 10) (digit_char (sum mod 10) # output)
      else output)"
  by pat_completeness auto

termination
  by (relation "measures [\<lambda>(_, _, li, ri, _, _). li + ri, \<lambda>(_, _, _, _, carry, _). carry]") auto

declare add_loop.simps [simp del]

definition lua_add :: "string \<Rightarrow> string \<Rightarrow> string" where
  "lua_add left0 right0 =
     (let left = lua_trim left0; right = lua_trim right0
      in lua_trim (add_loop left right (length left) (length right) 0 []))"

definition lua_minimum :: "string \<Rightarrow> string \<Rightarrow> string" where
  "lua_minimum left right = (if lua_compare left right \<le> 0 then lua_trim left else lua_trim right)"

definition lua_pad :: "string \<Rightarrow> string" where
  "lua_pad value0 =
     (let value = lua_trim value0 in replicate (19 - length value) (CHR ''0'') @ value)"

definition rank_member :: "string \<Rightarrow> string \<Rightarrow> string" where
  "rank_member amount bidder = lua_pad amount @ '':'' @ lua_pad bidder"

definition max_bigint :: string where
  "max_bigint = ''9223372036854775807''"

section \<open>Same length\<close>

lemma dec_val_inj_length:
  "digits s \<Longrightarrow> digits t \<Longrightarrow> length s = length t \<Longrightarrow> dec_val s = dec_val t \<Longrightarrow> s = t"
proof (induction s arbitrary: t rule: rev_induct)
  case Nil
  then show ?case by simp
next
  case (snoc c s)
  then obtain d u where t: "t = u @ [d]" by (cases t rule: rev_cases) auto
  have bounds: "digit_val c < 10" "digit_val d < 10"
    using snoc.prems t by (auto intro: digit_val_bound)
  have "10 * dec_val s + digit_val c = 10 * dec_val u + digit_val d"
    using snoc.prems(4) by (simp add: t dec_val_snoc)
  with bounds have "dec_val s = dec_val u" "digit_val c = digit_val d" by presburger+
  moreover have "is_digit c" "is_digit d" "digits s" "digits u" "length s = length u"
    using snoc.prems t by auto
  ultimately show ?case using snoc.IH [of u] by (simp add: t digit_val_inj)
qed

lemma lua_less_val:
  "digits s \<Longrightarrow> digits t \<Longrightarrow> length s = length t \<Longrightarrow> lua_less s t \<longleftrightarrow> dec_val s < dec_val t"
proof (induction s t rule: lua_less.induct)
  case (3 c s d t)
  then have len: "length s = length t" and ih: "c = d \<Longrightarrow> lua_less s t \<longleftrightarrow> dec_val s < dec_val t"
    by auto
  have ds: "dec_val s < 10 ^ length t" "dec_val t < 10 ^ length t"
    using 3(2,3) dec_val_bound [of s] dec_val_bound [of t] len by auto
  have dig: "is_digit c" "is_digit d" using 3(2,3) by auto
  have less: "(of_char c :: nat) < of_char d \<longleftrightarrow> digit_val c < digit_val d"
    using dig unfolding is_digit_def digit_val_def by linarith
  have step: "a * 10 ^ length t + x < b * 10 ^ length t + y"
    if "a < b" "x < 10 ^ length t" for a b x y :: nat
  proof -
    have "Suc a * 10 ^ length t \<le> b * 10 ^ length t"
      using that(1) by (intro mult_le_mono1) simp
    with that(2) show ?thesis by simp
  qed
  show ?case
  proof (cases "digit_val c" "digit_val d" rule: linorder_cases)
    case less
    with step [OF less ds(1)] \<open>(of_char c :: nat) < of_char d \<longleftrightarrow> _\<close> len show ?thesis
      by (simp add: dec_val_Cons)
  next
    case equal
    with dig have "c = d" by (simp add: digit_val_inj)
    with ih len show ?thesis by (simp add: dec_val_Cons)
  next
    case greater
    with dig have "c \<noteq> d" by auto
    with step [OF greater ds(2), of "dec_val s"] less greater len show ?thesis
      by (simp add: dec_val_Cons)
  qed
qed simp_all

lemma lua_less_append:
  "length s = length t \<Longrightarrow>
   lua_less (s @ u) (t @ v) \<longleftrightarrow> lua_less s t \<or> (s = t \<and> lua_less u v)"
  by (induction s t rule: list_induct2) auto

lemma lua_less_irrefl [simp]: "\<not> lua_less s s"
  by (induction s) auto

lemma lua_less_trans: "lua_less s t \<Longrightarrow> lua_less t u \<Longrightarrow> lua_less s u"
proof (induction s t arbitrary: u rule: lua_less.induct)
  case (3 c s d t)
  then show ?case by (cases u) auto
next
  case (2 d t)
  then show ?case by (cases u) auto
qed simp

lemma lua_less_total: "s \<noteq> t \<Longrightarrow> lua_less s t \<or> lua_less t s"
proof (induction s t rule: lua_less.induct)
  case (3 c s d t)
  then show ?case
    by (cases "(of_char c :: nat)" "(of_char d :: nat)" rule: linorder_cases) auto
qed (auto simp: neq_Nil_conv)

section \<open>Canonical strings\<close>

lemma canonical_inj:
  assumes "canonical s" "canonical t" "dec_val s = dec_val t"
  shows "s = t"
proof -
  have "length s = length t"
    using canonical_length_less [of s t] canonical_length_less [of t s] assms
    by (cases "length s" "length t" rule: linorder_cases) auto
  with assms show ?thesis by (intro dec_val_inj_length canonical_digits)
qed

lemma canonical_show: "canonical s \<Longrightarrow> show_nat (dec_val s) = s"
  by (rule canonical_inj) simp_all

lemma trim_canonical: "digits s \<Longrightarrow> canonical (lua_trim s)"
proof (induction s)
  case Nil
  then show ?case by (simp add: lua_trim_def canonical_def)
next
  case (Cons c s)
  then show ?case
    by (cases "c = CHR ''0''") (simp_all add: lua_trim_def canonical_def Let_def)
qed

lemma trim_val: "digits s \<Longrightarrow> dec_val (lua_trim s) = dec_val s"
proof (induction s)
  case (Cons c s)
  then show ?case
    by (cases "c = CHR ''0''") (simp_all add: lua_trim_def Let_def dec_val_Cons)
qed (simp add: lua_trim_def dec_val_Cons)

lemma trim_show [decimal_simps]: "digits s \<Longrightarrow> lua_trim s = show_nat (dec_val s)"
  using canonical_show [OF trim_canonical, of s] by (simp add: trim_val)

lemma trim_show_nat [simp]: "lua_trim (show_nat n) = show_nat n"
  by (simp add: trim_show)

lemma length_show_nat_less: "length (show_nat m) < length (show_nat n) \<Longrightarrow> m < n"
  using canonical_length_less [of "show_nat m" "show_nat n"] by simp

lemma lua_less_show_nat:
  "length (show_nat m) = length (show_nat n) \<Longrightarrow> lua_less (show_nat m) (show_nat n) \<longleftrightarrow> m < n"
  by (simp add: lua_less_val)

section \<open>Arithmetic\<close>

lemma compare_show_nat [decimal_simps, simp]:
  "lua_compare (show_nat m) (show_nat n) = (if m < n then -1 else if m = n then 0 else 1)"
proof -
  consider "length (show_nat m) < length (show_nat n)" | "length (show_nat n) < length (show_nat m)"
    | "length (show_nat m) = length (show_nat n)" by linarith
  then show ?thesis
  proof cases
    case 1
    with length_show_nat_less [OF 1] show ?thesis by (simp add: lua_compare_def)
  next
    case 2
    with length_show_nat_less [OF 2] show ?thesis by (simp add: lua_compare_def)
  next
    case 3
    then show ?thesis by (simp add: lua_compare_def lua_less_show_nat)
  qed
qed

lemma compare_trim: "lua_compare (lua_trim s) (lua_trim t) = lua_compare s t" if "digits s" "digits t"
  using that by (simp add: lua_compare_def trim_show)

lemma compare_val [decimal_simps]:
  "digits s \<Longrightarrow> digits t \<Longrightarrow>
   lua_compare s t = (if dec_val s < dec_val t then -1 else if dec_val s = dec_val t then 0 else 1)"
  using compare_trim [of s t] by (simp add: trim_show)

lemma dec_val_take:
  assumes "digits s" "i \<le> length s"
  shows "dec_val (take i s) =
    10 * dec_val (take (i - 1) s) + (if i > 0 then lua_digit (s ! (i - 1)) else 0)"
proof (cases i)
  case (Suc j)
  moreover from this assms have "is_digit (s ! j)" by (simp add: list_all_length)
  ultimately show ?thesis using assms(2)
    by (simp add: take_Suc_conv_app_nth dec_val_snoc lua_digit_def)
qed simp

lemma add_loop_val:
  "digits l \<Longrightarrow> digits r \<Longrightarrow> li \<le> length l \<Longrightarrow> ri \<le> length r \<Longrightarrow> digits out \<Longrightarrow>
    digits (add_loop l r li ri carry out) \<and>
    dec_val (add_loop l r li ri carry out) =
      (dec_val (take li l) + dec_val (take ri r) + carry) * 10 ^ length out + dec_val out"
proof (induction l r li ri carry out rule: add_loop.induct)
  case (1 l r li ri carry out)
  show ?case
  proof (cases "li > 0 \<or> ri > 0 \<or> carry > 0")
    case False
    then show ?thesis using 1(6) by (simp add: add_loop.simps [of l r 0 0 0 out])
  next
    case True
    define ld where "ld = (if li > 0 then lua_digit (l ! (li - 1)) else 0)"
    define rd where "rd = (if ri > 0 then lua_digit (r ! (ri - 1)) else 0)"
    define sum where "sum = ld + rd + carry"
    have l: "dec_val (take li l) = 10 * dec_val (take (li - 1) l) + ld"
      using dec_val_take [OF 1(2,4)] by (simp only: ld_def)
    have r: "dec_val (take ri r) = 10 * dec_val (take (ri - 1) r) + rd"
      using dec_val_take [OF 1(3,5)] by (simp only: rd_def)
    have unfold: "add_loop l r li ri carry out =
        add_loop l r (li - 1) (ri - 1) (sum div 10) (digit_char (sum mod 10) # out)"
      using True by (subst add_loop.simps) (simp only: if_True Let_def ld_def rd_def sum_def)
    have ih: "digits (add_loop l r li ri carry out) \<and> dec_val (add_loop l r li ri carry out) =
        (dec_val (take (li - 1) l) + dec_val (take (ri - 1) r) + sum div 10) * 10 ^ Suc (length out)
        + dec_val (digit_char (sum mod 10) # out)"
      using 1(1) [OF True ld_def rd_def sum_def] 1(2-6) unfolding unfold by simp
    define rest where "rest = dec_val (take (li - 1) l) + dec_val (take (ri - 1) r)"
    have total: "dec_val (take li l) + dec_val (take ri r) + carry = 10 * rest + sum"
      by (simp add: l r sum_def rest_def)
    have "(10 * rest + sum) * k = (rest + sum div 10) * (10 * k) + sum mod 10 * k" for k
      by (metis add.assoc add_mult_distrib add_mult_distrib2 div_mult_mod_eq mult.assoc mult.commute)
    with ih show ?thesis unfolding total rest_def [symmetric] by (simp add: dec_val_Cons)
  qed
qed

lemma lua_add_val [decimal_simps]:
  assumes "digits s" "digits t"
  shows "lua_add s t = show_nat (dec_val s + dec_val t)"
proof -
  have c: "digits (lua_trim s)" "digits (lua_trim t)"
    using assms by (simp_all add: trim_show)
  show ?thesis
    using add_loop_val [OF c, of "length (lua_trim s)" "length (lua_trim t)" "[]" 0] assms
    by (simp add: lua_add_def trim_show Let_def)
qed

lemma lua_minimum_val [decimal_simps]:
  "digits s \<Longrightarrow> digits t \<Longrightarrow> lua_minimum s t = show_nat (min (dec_val s) (dec_val t))"
  by (simp add: lua_minimum_def compare_val trim_show min_def)

lemma max_bigint_val [simp]: "dec_val max_bigint = 9223372036854775807" "digits max_bigint"
  by (simp_all add: max_bigint_def dec_val_def digit_val_def is_digit_def)

section \<open>Ranking members\<close>

lemma length_show_nat_le:
  assumes "n < 10 ^ k" "0 < k"
  shows "length (show_nat n) \<le> k"
proof (rule ccontr)
  assume "\<not> ?thesis"
  then have long: "k \<le> length (show_nat n) - 1" by simp
  then have "hd (show_nat n) \<noteq> CHR ''0''"
    using assms(2) canonical_show_nat [of n] by (auto simp: canonical_def)
  then have "10 ^ (length (show_nat n) - 1) \<le> n"
    using dec_val_lower [of "show_nat n"] by simp
  moreover have "(10::nat) ^ k \<le> 10 ^ (length (show_nat n) - 1)"
    using long by (intro power_increasing) simp_all
  ultimately show False using assms(1) by linarith
qed

lemma pad_facts:
  assumes "n < 10 ^ 19"
  shows "length (lua_pad (show_nat n)) = 19" "digits (lua_pad (show_nat n))"
    "dec_val (lua_pad (show_nat n)) = n"
  using length_show_nat_le [of n 19] assms by (simp_all add: lua_pad_def Let_def dec_val_append)

lemma pad_eq_iff: "m < 10 ^ 19 \<Longrightarrow> n < 10 ^ 19 \<Longrightarrow> lua_pad (show_nat m) = lua_pad (show_nat n) \<longleftrightarrow> m = n"
  using pad_facts(3) by metis

lemma rank_member_decode:
  assumes "a < 10 ^ 19" "b < 10 ^ 19"
  shows "lua_trim (take 19 (rank_member (show_nat a) (show_nat b))) = show_nat a"
    and "lua_trim (drop 20 (rank_member (show_nat a) (show_nat b))) = show_nat b"
  using pad_facts [OF assms(1)] pad_facts [OF assms(2)]
  by (simp_all add: rank_member_def trim_show)

lemma rank_member_less:
  assumes "a < 10 ^ 19" "b < 10 ^ 19" "a' < 10 ^ 19" "b' < 10 ^ 19"
  shows "lua_less (rank_member (show_nat a) (show_nat b)) (rank_member (show_nat a') (show_nat b'))
    \<longleftrightarrow> a < a' \<or> (a = a' \<and> b < b')"
  using pad_facts [OF assms(1)] pad_facts [OF assms(2)] pad_facts [OF assms(3)] pad_facts [OF assms(4)]
  by (simp add: rank_member_def lua_less_append lua_less_val pad_eq_iff [OF assms(1,3)])

lemma rank_member_inj:
  assumes "a < 10 ^ 19" "b < 10 ^ 19" "a' < 10 ^ 19" "b' < 10 ^ 19"
  shows "rank_member (show_nat a) (show_nat b) = rank_member (show_nat a') (show_nat b') \<longleftrightarrow> a = a' \<and> b = b'"
proof -
  have "lua_pad (show_nat a) @ '':'' @ lua_pad (show_nat b) = lua_pad (show_nat a') @ '':'' @ lua_pad (show_nat b')
      \<longleftrightarrow> lua_pad (show_nat a) = lua_pad (show_nat a') \<and> lua_pad (show_nat b) = lua_pad (show_nat b')"
    using pad_facts(1) [OF assms(1)] pad_facts(1) [OF assms(3)] by auto
  then show ?thesis
    by (simp add: rank_member_def pad_eq_iff [OF assms(1,3)] pad_eq_iff [OF assms(2,4)])
qed

end
