(* ===== verification/Money.thy ===== *)
theory Money
  imports Lua_Decimals
begin

text \<open>
  Money and the errors of the bidding domain: domain/money.ts, domain/bid.errors.ts and the
  operations of the proxy policies on bigints. A BIGINT amount is an \<open>int\<close>; its API form is the
  decimal string. The interface \<open>amounts\<close> is what the proxy rule needs of a money
  representation; it is interpreted on bigints and on the strings of the Lua script.
\<close>

section \<open>Errors of the bidding domain\<close>

record mutation_data =
  d_event_id :: string
  d_product_id :: string
  d_current_price :: string
  d_leader_id :: "string option"
  d_end_time_ms :: string
  d_sequence :: string
  d_version :: string
  d_order_id :: "string option"

datatype bid_error =
    BidDomainError (bid_message: string) (domain_status: int) (domain_code: string)
  | BidInfrastructureError (bid_message: string)
  | BidDurabilityUnconfirmedError (unconfirmed_data: mutation_data)
  | BidUnexpectedError (bid_message: string)

text \<open>\<open>statusCode\<close> and \<open>code\<close> as the constructors of the classes set them. A plain \<open>Error\<close>
  (\<open>BidUnexpectedError\<close>) has neither.\<close>

fun bid_status_code :: "bid_error \<Rightarrow> int option" where
  "bid_status_code (BidDomainError _ status _) = Some status"
| "bid_status_code (BidInfrastructureError _) = Some 503"
| "bid_status_code (BidDurabilityUnconfirmedError _) = Some 503"
| "bid_status_code (BidUnexpectedError _) = None"

fun bid_error_code :: "bid_error \<Rightarrow> string option" where
  "bid_error_code (BidDomainError _ _ code) = Some code"
| "bid_error_code (BidInfrastructureError _) = Some ''BID_AUTHORITY_UNAVAILABLE''"
| "bid_error_code (BidDurabilityUnconfirmedError _) = Some ''BID_DURABILITY_UNCONFIRMED''"
| "bid_error_code (BidUnexpectedError _) = None"

abbreviation bid_rejected :: "string \<Rightarrow> bid_error" where
  "bid_rejected message \<equiv> BidDomainError message 400 ''BID_REJECTED''"

section \<open>money.ts\<close>

text \<open>\<open>/^(0|[1-9]\\d{0,18})$/\<close>\<close>

definition vnd_pattern :: "string \<Rightarrow> bool" where
  "vnd_pattern value =
     (case value of
        [] \<Rightarrow> False
      | c # rest \<Rightarrow> (c = CHR ''0'' \<and> rest = [])
          \<or> (is_digit c \<and> c \<noteq> CHR ''0'' \<and> digits rest \<and> length rest \<le> 18))"

definition max_vnd :: int where
  "max_vnd = 9223372036854775807"

definition parse_money_vnd :: "string \<Rightarrow> string \<Rightarrow> (bid_error, int) result" where
  "parse_money_vnd value field =
     (if \<not> vnd_pattern value
      then throws (BidDomainError (field @ '' must be a base-10 VND integer string'') 400 ''INVALID_MONEY'')
      else let amount = int (dec_val value)
           in if amount \<le> 0 \<or> amount > max_vnd
              then throws (BidDomainError (field @ '' is outside the supported BIGINT range'') 400 ''INVALID_MONEY'')
              else returns amount)"

definition show_int :: "int \<Rightarrow> string" where
  "show_int n = (if n < 0 then CHR ''-'' # show_nat (nat (- n)) else show_nat (nat n))"

definition money_to_api :: "int option \<Rightarrow> string option" where
  "money_to_api value = (case value of None \<Rightarrow> None | Some v \<Rightarrow> Some (show_int v))"

definition min_money :: "int \<Rightarrow> int \<Rightarrow> int" where
  "min_money left right = (if left < right then left else right)"

lemma show_int_of_nat [simp]: "show_int (int n) = show_nat n"
  by (simp add: show_int_def)

lemma vnd_pattern_canonical: "vnd_pattern value \<longleftrightarrow> canonical value \<and> length value \<le> 19"
  by (cases "value") (auto simp: vnd_pattern_def canonical_def)

lemma parse_money_Inr:
  "parse_money_vnd value field = Inr amount \<longleftrightarrow>
   vnd_pattern value \<and> amount = int (dec_val value) \<and> 0 < amount \<and> amount \<le> max_vnd"
  by (auto simp: parse_money_vnd_def Let_def)

lemma parse_money_show_nat:
  assumes "0 < n" "int n \<le> max_vnd"
  shows "parse_money_vnd (show_nat n) field = Inr (int n)"
proof -
  have "length (show_nat n) \<le> 19"
    using assms(2) by (intro length_show_nat_le) (simp_all add: max_vnd_def)
  with assms show ?thesis by (simp add: parse_money_Inr vnd_pattern_canonical)
qed

lemma parse_money_digits: "parse_money_vnd value field = Inr amount \<Longrightarrow> digits value"
  by (simp add: parse_money_Inr vnd_pattern_canonical canonical_digits)

text \<open>Money survives the API. \<open>parseMoneyVnd\<close> accepts exactly the canonical decimal strings of
  the amounts from 1 to the BIGINT maximum, and for those \<open>moneyToApi\<close> gives the string back;
  every other string is refused with INVALID_MONEY and status 400.\<close>

theorem parse_money_roundtrip:
  "(parse_money_vnd value field = Inr amount
     \<longleftrightarrow> money_to_api (Some amount) = Some value \<and> 0 < amount \<and> amount \<le> max_vnd)
   \<and> (is_ok (parse_money_vnd value field)
      \<or> (\<exists>message. parse_money_vnd value field = Inl (BidDomainError message 400 ''INVALID_MONEY'')))"
proof
  show "parse_money_vnd value field = Inr amount
     \<longleftrightarrow> money_to_api (Some amount) = Some value \<and> 0 < amount \<and> amount \<le> max_vnd"
  proof
    assume "parse_money_vnd value field = Inr amount"
    then show "money_to_api (Some amount) = Some value \<and> 0 < amount \<and> amount \<le> max_vnd"
      by (auto simp: parse_money_Inr vnd_pattern_canonical money_to_api_def canonical_show)
  next
    assume "money_to_api (Some amount) = Some value \<and> 0 < amount \<and> amount \<le> max_vnd"
    then obtain n where "amount = int n" "value = show_nat n" "0 < n" "int n \<le> max_vnd"
      by (cases amount rule: int_cases2) (auto simp: money_to_api_def)
    then show "parse_money_vnd value field = Inr amount" by (simp add: parse_money_show_nat)
  qed
qed (auto simp: parse_money_vnd_def Let_def)

section \<open>The interface of a money representation\<close>

locale amounts =
  fixes reads :: "'a \<Rightarrow> int"
    and wellformed :: "'a \<Rightarrow> bool"
    and at_most :: "'a \<Rightarrow> 'a \<Rightarrow> bool"
    and plus_money :: "'a \<Rightarrow> 'a \<Rightarrow> 'a"
    and least :: "'a \<Rightarrow> 'a \<Rightarrow> 'a"
  assumes at_most: "wellformed x \<Longrightarrow> wellformed y \<Longrightarrow> at_most x y \<longleftrightarrow> reads x \<le> reads y"
    and plus_money: "wellformed x \<Longrightarrow> wellformed y \<Longrightarrow>
      wellformed (plus_money x y) \<and> reads (plus_money x y) = reads x + reads y"
    and least: "wellformed x \<Longrightarrow> wellformed y \<Longrightarrow>
      wellformed (least x y) \<and> reads (least x y) = min (reads x) (reads y)"
begin

text \<open>The second price: one step above the losing maximum, capped by the winning one.\<close>

lemma second_price:
  assumes "wellformed losing" "wellformed step" "wellformed winning"
  shows "reads (least (plus_money losing step) winning) = min (reads losing + reads step) (reads winning)"
  using assms plus_money least by metis

lemma second_price_bounds:
  assumes "wellformed losing" "wellformed step" "wellformed winning"
    and "at_most losing winning" "0 \<le> reads step"
  shows "reads losing \<le> reads (least (plus_money losing step) winning)"
    and "at_most (least (plus_money losing step) winning) winning"
proof -
  show "reads losing \<le> reads (least (plus_money losing step) winning)"
    using assms at_most by (simp add: second_price)
  have "wellformed (least (plus_money losing step) winning)"
    using assms(1-3) plus_money least by blast
  with assms(1-3) show "at_most (least (plus_money losing step) winning) winning"
    by (simp add: at_most second_price)
qed

end

interpretation bigint_money: amounts "\<lambda>n. n" "\<lambda>_. True" "(\<le>)" "(+)" min_money
  by unfold_locales (auto simp: min_money_def)

interpretation lua_money: amounts "\<lambda>s. int (dec_val s)" "\<lambda>s. digits s"
  "\<lambda>s t. lua_compare s t \<le> 0" lua_add lua_minimum
  by unfold_locales (auto simp: compare_val lua_add_val lua_minimum_val)

end
