(* ===== verification/Auction_Authority.thy ===== *)
theory Auction_Authority
  imports Money
begin

text \<open>
  The bidding authority: the script auction-mutate.lua that Redis runs atomically, step by step,
  over the keys it is given (redis-auction.keys.ts) and the request and result types of
  redis-auction.types.ts. Hash fields are optional strings as \<open>HMGET\<close> returns them, the ranking is
  the list a sorted set with equal scores is (ascending bytes), keys with a time to live carry the
  server time at which they expire. A Lua error that aborts the script before any write is the
  decision \<open>Fault\<close>. Numbers the script converts with \<open>tonumber\<close> are integers below \<open>10 ^ 14\<close> in
  absolute value (milliseconds, identifiers), for which \<open>tostring\<close> prints every digit.
\<close>

section \<open>Keys\<close>

record auction_hash =
  h_product_id :: "string option"
  h_seller_id :: "string option"
  h_status :: "string option"
  h_start_at :: "string option"
  h_end_at :: "string option"
  h_start_price :: "string option"
  h_current_price :: "string option"
  h_step_price :: "string option"
  h_buy_now_price :: "string option"
  h_leader_id :: "string option"
  h_leader_max :: "string option"
  h_sequence :: "string option"
  h_version :: "string option"
  h_auto_extend :: "string option"
  h_anti_snipe_window :: "string option"
  h_anti_snipe_extension :: "string option"
  h_last_event_id :: "string option"

record stream_event =
  e_event_id :: string
  e_correlation_id :: string
  e_idempotency_key :: string
  e_schema_version :: int
  e_type :: string
  e_product_id :: string
  e_actor_id :: string
  e_requested_max :: "string option"
  e_target_user_id :: "string option"
  e_current_price :: string
  e_leader_id :: string
  e_leader_max :: string
  e_end_at :: string
  e_status :: string
  e_sequence :: string
  e_version :: string
  e_occurred_at :: string
  e_order_id :: "string option"
  e_reason :: "string option"

datatype reply =
    ReplyError (reply_code: string) (reply_message: string) (reply_status: int)
  | ReplySuccess (reply_data: mutation_data)

record stored_reply =
  sr_fingerprint :: string
  sr_result :: reply

text \<open>\<open>k_idempotency\<close> is the family \<open>idempotency-request:<digest>\<close>, \<open>k_rate\<close> the family
  \<open>rate:<actor>\<close>; both pair the value with its expiry. \<open>k_legacy\<close> is the hash
  \<open>...:idempotency\<close> of earlier deployments with the expiry of the whole key, if it has one.
  \<open>k_mistyped\<close> says that one of the keys holds a value of another type.\<close>

record auction_store =
  k_mistyped :: bool
  k_state :: "auction_hash option"
  k_maxima :: "string \<rightharpoonup> string"
  k_ranking :: "string list"
  k_rank_members :: "string \<rightharpoonup> string"
  k_bans :: "string set"
  k_idempotency :: "string \<rightharpoonup> stored_reply \<times> int"
  k_legacy :: "string \<rightharpoonup> stored_reply"
  k_legacy_expiry :: "int option"
  k_rate :: "string \<rightharpoonup> int \<times> int option"
  k_deadlines :: "string \<rightharpoonup> int"
  k_stream :: "stream_event list"
  k_auction_fence :: bool
  k_fence :: bool

datatype operation = BID | BUY_NOW | BAN | CLOSE | CANCEL | OtherOperation

record request =
  rq_operation :: operation
  rq_product_id :: nat
  rq_actor_id :: nat
  rq_actor_role :: string
  rq_amount :: "string option"
  rq_target :: "nat option"
  rq_reason :: "string option"
  rq_order_id :: "string option"
  rq_event_id :: string
  rq_correlation_id :: string
  rq_idempotency_key :: string
  rq_fingerprint :: string
  rq_now :: string
  rq_rate_limit :: int
  rq_rate_window :: int
  rq_ttl :: int

section \<open>Lua helpers\<close>

definition lua_tonumber :: "string \<Rightarrow> int option" where
  "lua_tonumber s =
     (case s of
        [] \<Rightarrow> None
      | c # t \<Rightarrow> if c = CHR ''-'' then (if t \<noteq> [] \<and> digits t then Some (- int (dec_val t)) else None)
                 else if digits s then Some (int (dec_val s)) else None)"

text \<open>\<open>trim\<close> and \<open>compare\<close> of a value that may be absent: \<open>tostring(value or "")\<close>.\<close>

definition or_empty :: "string option \<Rightarrow> string" where
  "or_empty v = coalesce v ''''"

definition zadd :: "string \<Rightarrow> string list \<Rightarrow> string list" where
  "zadd m ms = (if m \<in> set ms then ms else takeWhile (\<lambda>x. lua_less x m) ms @ [m] @ dropWhile (\<lambda>x. lua_less x m) ms)"

definition zrem :: "string \<Rightarrow> string list \<Rightarrow> string list" where
  "zrem m ms = filter (\<lambda>x. x \<noteq> m) ms"

definition zrem_opt :: "string option \<Rightarrow> string list \<Rightarrow> string list" where
  "zrem_opt m ms = (case m of None \<Rightarrow> ms | Some x \<Rightarrow> zrem x ms)"

definition live :: "int \<Rightarrow> ('a \<times> int) option \<Rightarrow> 'a option" where
  "live clock entry = (case entry of Some (v, expiry) \<Rightarrow> if clock < expiry then Some v else None | None \<Rightarrow> None)"

lemma lua_tonumber_show_nat [simp]: "lua_tonumber (show_nat n) = Some (int n)"
proof -
  obtain c t where s: "show_nat n = c # t" by (cases "show_nat n") auto
  have "is_digit c" using digits_show_nat [of n] by (simp add: s)
  then have "c \<noteq> CHR ''-''" by (auto simp: is_digit_def)
  with s digits_show_nat [of n] dec_val_show_nat [of n] show ?thesis by (simp add: lua_tonumber_def)
qed

lemma lua_tonumber_show_int [simp]: "lua_tonumber (show_int n) = Some n"
  by (simp add: show_int_def) (simp add: lua_tonumber_def)

section \<open>Reading the state (lines 115-155)\<close>

record loaded =
  l_product_id :: string
  l_seller_id :: string
  l_status :: string
  l_start_at :: int
  l_end_at :: int
  l_start_price :: string
  l_current_price :: string
  l_step_price :: string
  l_buy_now_price :: "string option"
  l_leader_id :: "string option"
  l_leader_max :: "string option"
  l_sequence :: string
  l_version :: string
  l_auto_extend :: bool
  l_window :: "int option"
  l_extension :: "int option"
  l_now :: int

definition corrupt :: "string \<Rightarrow> reply" where
  "corrupt message = ReplyError ''CORRUPT_REDIS_STATE'' message 503"

definition promote :: "string \<Rightarrow> int \<Rightarrow> int \<Rightarrow> int \<Rightarrow> string" where
  "promote status now start_at end_at =
     (if status = ''PENDING'' \<and> now \<ge> start_at \<and> now < end_at then ''ACTIVE'' else status)"

definition load_state :: "auction_hash \<Rightarrow> request \<Rightarrow> (reply, loaded) result" where
  "load_state h rq =
     (case (h_product_id h, h_seller_id h, h_status h,
            Option.bind (h_start_at h) lua_tonumber, Option.bind (h_end_at h) lua_tonumber,
            h_start_price h, h_current_price h, h_step_price h, lua_tonumber (rq_now rq)) of
        (Some product, Some seller, Some status, Some start_at, Some end_at,
         Some start_price, Some current_price, Some step_price, Some now) \<Rightarrow>
          let sequence = coalesce (h_sequence h) ''0''; version = coalesce (h_version h) ''0''
          in if lua_compare sequence max_bigint \<ge> 0 \<or> lua_compare version max_bigint \<ge> 0
             then throws (corrupt ''Auction sequence or version is exhausted'')
             else if product \<noteq> show_nat (rq_product_id rq)
             then throws (corrupt ''Auction identifier does not match its key'')
             else returns \<lparr>l_product_id = product, l_seller_id = seller,
                    l_status = promote status now start_at end_at,
                    l_start_at = start_at, l_end_at = end_at, l_start_price = start_price,
                    l_current_price = current_price, l_step_price = step_price,
                    l_buy_now_price = h_buy_now_price h, l_leader_id = h_leader_id h,
                    l_leader_max = h_leader_max h, l_sequence = sequence, l_version = version,
                    l_auto_extend = (h_auto_extend h = Some ''1''),
                    l_window = lua_tonumber (coalesce (h_anti_snipe_window h) ''0''),
                    l_extension = lua_tonumber (coalesce (h_anti_snipe_extension h) ''0''),
                    l_now = now\<rparr>
      | _ \<Rightarrow> throws (corrupt ''Auction state is incomplete''))"

section \<open>Deciding (lines 157-242)\<close>

text \<open>The local variables \<open>nextStatus\<close> to \<open>oldRankMember\<close> once the operation is decided.\<close>

record plan =
  n_status :: string
  n_leader :: "string option"
  n_leader_max :: "string option"
  n_price :: string
  n_end_at :: int
  n_order :: "string option"
  n_type :: string
  n_new_member :: "string option"
  n_old_member :: "string option"

datatype decision = Reject string string int | Fault | Accept plan

definition stay :: "loaded \<Rightarrow> request \<Rightarrow> plan" where
  "stay l rq = \<lparr>n_status = l_status l, n_leader = l_leader_id l, n_leader_max = l_leader_max l,
     n_price = l_current_price l, n_end_at = l_end_at l, n_order = rq_order_id rq, n_type = '''',
     n_new_member = None, n_old_member = None\<rparr>"

definition no_leader :: "string option \<Rightarrow> bool" where
  "no_leader leader = (leader = None \<or> leader = Some '''')"

definition bidding_guard :: "loaded \<Rightarrow> string \<Rightarrow> string set \<Rightarrow> decision option" where
  "bidding_guard l actor bans =
     (if l_status l \<noteq> ''ACTIVE'' \<or> l_now l < l_start_at l \<or> l_now l \<ge> l_end_at l
      then Some (Reject ''AUCTION_NOT_ACTIVE'' ''Auction is not active'' 409)
      else if actor = l_seller_id l
      then Some (Reject ''SELLER_CANNOT_BID'' ''Seller cannot bid on their own auction'' 403)
      else if actor \<in> bans
      then Some (Reject ''BIDDER_BANNED'' ''Bidder is banned from this auction'' 403)
      else None)"

definition proxy_step :: "loaded \<Rightarrow> string \<Rightarrow> string \<Rightarrow> plan \<Rightarrow> plan" where
  "proxy_step l actor maximum p =
     (if no_leader (l_leader_id l) then p\<lparr>n_leader := Some actor, n_leader_max := Some maximum\<rparr>
      else if l_leader_id l = Some actor then p\<lparr>n_leader_max := Some maximum\<rparr>
      else if lua_compare maximum (or_empty (l_leader_max l)) \<le> 0
      then p\<lparr>n_price := lua_minimum (lua_add maximum (l_step_price l)) (or_empty (l_leader_max l))\<rparr>
      else p\<lparr>n_price := lua_minimum (lua_add (or_empty (l_leader_max l)) (l_step_price l)) maximum,
             n_leader := Some actor, n_leader_max := Some maximum\<rparr>)"

definition extend_end :: "loaded \<Rightarrow> int option" where
  "extend_end l =
     (if \<not> l_auto_extend l then Some (l_end_at l)
      else case l_window l of
        None \<Rightarrow> None
      | Some window \<Rightarrow>
          if \<not> window > 0 then Some (l_end_at l)
          else case l_extension l of
            None \<Rightarrow> None
          | Some extension \<Rightarrow>
              if extension > 0 \<and> l_end_at l - l_now l \<le> window then Some (l_end_at l + extension)
              else Some (l_end_at l))"

definition decide_bid :: "auction_store \<Rightarrow> loaded \<Rightarrow> request \<Rightarrow> decision" where
  "decide_bid st l rq =
     (let actor = show_nat (rq_actor_id rq);
          maximum = lua_trim (or_empty (rq_amount rq));
          minimum_bid = lua_add (l_current_price l) (l_step_price l);
          previous = k_maxima st actor
      in if lua_compare minimum_bid max_bigint > 0
         then Reject ''MONEY_OVERFLOW'' ''No higher BIGINT bid can be represented'' 409
         else if lua_compare maximum minimum_bid < 0
         then Reject ''BID_TOO_LOW'' ''Maximum bid does not meet the next bid step'' 409
         else if previous \<noteq> None \<and> lua_compare maximum (the previous) \<le> 0
         then Reject ''MAXIMUM_NOT_INCREASED'' ''Maximum bid must increase'' 409
         else case extend_end l of
           None \<Rightarrow> Fault
         | Some end_at \<Rightarrow>
             Accept ((proxy_step l actor maximum (stay l rq))
               \<lparr>n_end_at := end_at, n_type := ''BID_ACCEPTED'',
                n_old_member := k_rank_members st actor,
                n_new_member := Some (rank_member maximum actor)\<rparr>))"

definition decide_buy_now :: "loaded \<Rightarrow> request \<Rightarrow> decision" where
  "decide_buy_now l rq =
     (case l_buy_now_price l of
        None \<Rightarrow> Reject ''BUY_NOW_DISABLED'' ''Buy now is not available'' 409
      | Some price \<Rightarrow>
          if price = '''' then Reject ''BUY_NOW_DISABLED'' ''Buy now is not available'' 409
          else if lua_compare (or_empty (rq_amount rq)) price < 0
          then Reject ''BUY_NOW_PRICE_MISMATCH'' ''Buy now amount is too low'' 409
          else Accept ((stay l rq)\<lparr>n_status := ''SOLD'', n_leader := Some (show_nat (rq_actor_id rq)),
                 n_leader_max := Some price, n_price := price, n_end_at := l_now l,
                 n_type := ''BUY_NOW_COMPLETED''\<rparr>))"

definition decide_ban :: "auction_store \<Rightarrow> loaded \<Rightarrow> request \<Rightarrow> decision" where
  "decide_ban st l rq =
     (if l_status l \<noteq> ''ACTIVE'' then Reject ''AUCTION_NOT_ACTIVE'' ''Auction is not active'' 409
      else if show_nat (rq_actor_id rq) \<noteq> l_seller_id l \<and> rq_actor_role rq \<noteq> ''admin''
      then Reject ''FORBIDDEN'' ''Only the seller or admin can ban'' 403
      else case rq_target rq of
        None \<Rightarrow> Reject ''INVALID_TARGET'' ''A bidder is required'' 400
      | Some target \<Rightarrow>
          if show_nat target = l_seller_id l then Reject ''INVALID_TARGET'' ''Seller cannot be banned'' 409
          else if show_nat target \<in> k_bans st then Reject ''ALREADY_BANNED'' ''Bidder is already banned'' 409
          else Accept ((stay l rq)\<lparr>n_type := ''BIDDER_BANNED'',
                 n_old_member := k_rank_members st (show_nat target)\<rparr>))"

definition decide_close :: "loaded \<Rightarrow> request \<Rightarrow> decision" where
  "decide_close l rq =
     (if l_status l \<noteq> ''ACTIVE'' then Reject ''AUCTION_NOT_ACTIVE'' ''Auction is not active'' 409
      else if l_now l < l_end_at l then Reject ''AUCTION_NOT_DUE'' ''Auction deadline has not passed'' 409
      else Accept ((stay l rq)\<lparr>n_status := ''ENDED'', n_type := ''AUCTION_CLOSED'',
             n_order := (if no_leader (l_leader_id l) then None else rq_order_id rq)\<rparr>))"

definition decide_cancel :: "loaded \<Rightarrow> request \<Rightarrow> decision" where
  "decide_cancel l rq =
     (if l_status l \<noteq> ''PENDING'' \<and> l_status l \<noteq> ''ACTIVE''
      then Reject ''AUCTION_NOT_CANCELLABLE'' ''Auction cannot be cancelled'' 409
      else if show_nat (rq_actor_id rq) \<noteq> l_seller_id l \<and> rq_actor_role rq \<noteq> ''admin''
      then Reject ''FORBIDDEN'' ''Only the seller or admin can cancel'' 403
      else Accept ((stay l rq)\<lparr>n_status := ''CANCELLED'', n_type := ''AUCTION_CANCELLED''\<rparr>))"

definition throttled :: "operation \<Rightarrow> bool" where
  "throttled oper = (oper = BID \<or> oper = BUY_NOW)"

definition decide :: "auction_store \<Rightarrow> loaded \<Rightarrow> request \<Rightarrow> decision" where
  "decide st l rq =
     (let guard = (if throttled (rq_operation rq)
                   then bidding_guard l (show_nat (rq_actor_id rq)) (k_bans st) else None)
      in case guard of
           Some d \<Rightarrow> d
         | None \<Rightarrow>
             (case rq_operation rq of
                BID \<Rightarrow> decide_bid st l rq
              | BUY_NOW \<Rightarrow> decide_buy_now l rq
              | BAN \<Rightarrow> decide_ban st l rq
              | CLOSE \<Rightarrow> decide_close l rq
              | CANCEL \<Rightarrow> decide_cancel l rq
              | OtherOperation \<Rightarrow> Reject ''UNKNOWN_OPERATION'' ''Unknown auction mutation'' 400))"

section \<open>Committing (lines 244-345)\<close>

definition event_of :: "loaded \<Rightarrow> request \<Rightarrow> plan \<Rightarrow> stream_event" where
  "event_of l rq p =
     \<lparr>e_event_id = rq_event_id rq, e_correlation_id = rq_correlation_id rq,
      e_idempotency_key = rq_idempotency_key rq, e_schema_version = 1, e_type = n_type p,
      e_product_id = l_product_id l, e_actor_id = show_nat (rq_actor_id rq),
      e_requested_max = (if throttled (rq_operation rq)
        then Some (lua_trim (or_empty (rq_amount rq))) else None),
      e_target_user_id = map_option show_nat (rq_target rq),
      e_current_price = n_price p, e_leader_id = or_empty (n_leader p),
      e_leader_max = or_empty (n_leader_max p), e_end_at = show_int (n_end_at p),
      e_status = n_status p, e_sequence = lua_add (l_sequence l) ''1'',
      e_version = lua_add (l_version l) ''1'', e_occurred_at = show_int (l_now l),
      e_order_id = n_order p, e_reason = rq_reason rq\<rparr>"

text \<open>The rate counter as \<open>GET\<close> sees it, and after \<open>INCR\<close> and the \<open>PEXPIRE\<close> of the first count.\<close>

definition rate_count :: "int \<Rightarrow> (int \<times> int option) option \<Rightarrow> int" where
  "rate_count clock entry =
     (case entry of
        None \<Rightarrow> 0
      | Some (n, None) \<Rightarrow> n
      | Some (n, Some expiry) \<Rightarrow> if clock < expiry then n else 0)"

definition rate_expiry :: "int \<Rightarrow> (int \<times> int option) option \<Rightarrow> int option" where
  "rate_expiry clock entry =
     (case entry of
        None \<Rightarrow> None
      | Some (_, None) \<Rightarrow> None
      | Some (_, Some expiry) \<Rightarrow> if clock < expiry then Some expiry else None)"

definition bump_rate :: "int \<Rightarrow> request \<Rightarrow> auction_store \<Rightarrow> auction_store" where
  "bump_rate clock rq st =
     (let actor = show_nat (rq_actor_id rq);
          n = rate_count clock (k_rate st actor) + 1
      in if throttled (rq_operation rq)
         then st\<lparr>k_rate := (k_rate st)(actor \<mapsto>
                (n, if n = 1 then Some (clock + rq_rate_window rq)
                    else rate_expiry clock (k_rate st actor)))\<rparr>
         else st)"

text \<open>Lines 297-313: the leader after a ban is the top of what is left of the ranking.\<close>

definition ban_leader :: "loaded \<Rightarrow> string \<Rightarrow> string list \<Rightarrow> plan \<Rightarrow> plan" where
  "ban_leader l target ranking p =
     (if l_leader_id l \<noteq> Some target then p
      else case rev ranking of
        [] \<Rightarrow> p\<lparr>n_leader := Some '''', n_leader_max := Some '''', n_price := l_start_price l\<rparr>
      | [best] \<Rightarrow> p\<lparr>n_leader := Some (lua_trim (drop 20 best)), n_leader_max := Some (lua_trim (take 19 best)),
                   n_price := l_start_price l\<rparr>
      | best # second # _ \<Rightarrow>
          p\<lparr>n_leader := Some (lua_trim (drop 20 best)), n_leader_max := Some (lua_trim (take 19 best)),
            n_price := lua_minimum (lua_add (lua_trim (take 19 second)) (l_step_price l))
                         (lua_trim (take 19 best))\<rparr>)"

definition apply_bid :: "request \<Rightarrow> plan \<Rightarrow> auction_store \<Rightarrow> auction_store" where
  "apply_bid rq p st =
     (let actor = show_nat (rq_actor_id rq); member = or_empty (n_new_member p)
      in st\<lparr>k_maxima := (k_maxima st)(actor \<mapsto> lua_trim (or_empty (rq_amount rq))),
            k_rank_members := (k_rank_members st)(actor \<mapsto> member),
            k_ranking := zadd member (zrem_opt (n_old_member p) (k_ranking st))\<rparr>)"

definition apply_ban :: "string \<Rightarrow> plan \<Rightarrow> auction_store \<Rightarrow> auction_store" where
  "apply_ban target p st =
     st\<lparr>k_bans := insert target (k_bans st),
        k_maxima := (k_maxima st)(target := None),
        k_rank_members := (k_rank_members st)(target := None),
        k_ranking := zrem_opt (n_old_member p) (k_ranking st)\<rparr>"

text \<open>Lines 287-314. The decision of a BAN without a target is a rejection, so the script reaches
  the \<open>BAN\<close> branch only with one.\<close>

definition apply_bidders :: "loaded \<Rightarrow> request \<Rightarrow> plan \<Rightarrow> auction_store \<Rightarrow> plan \<times> auction_store" where
  "apply_bidders l rq p st =
     (case rq_operation rq of
        BID \<Rightarrow> (p, apply_bid rq p st)
      | BAN \<Rightarrow>
          (let target = or_empty (map_option show_nat (rq_target rq));
               st' = apply_ban target p st
           in (ban_leader l target (k_ranking st') p, st'))
      | _ \<Rightarrow> (p, st))"

definition save_state :: "loaded \<Rightarrow> request \<Rightarrow> plan \<Rightarrow> auction_store \<Rightarrow> auction_store" where
  "save_state l rq p st =
     st\<lparr>k_state := map_option (\<lambda>h. h
          \<lparr>h_status := Some (n_status p), h_current_price := Some (n_price p),
           h_leader_id := Some (or_empty (n_leader p)), h_leader_max := Some (or_empty (n_leader_max p)),
           h_end_at := Some (show_int (n_end_at p)), h_sequence := Some (lua_add (l_sequence l) ''1''),
           h_version := Some (lua_add (l_version l) ''1''), h_last_event_id := Some (rq_event_id rq)\<rparr>)
          (k_state st),
        k_deadlines := (k_deadlines st)
          (l_product_id l := (if n_status p = ''ACTIVE'' then Some (n_end_at p) else None))\<rparr>"

definition success_of :: "loaded \<Rightarrow> request \<Rightarrow> plan \<Rightarrow> reply" where
  "success_of l rq p = ReplySuccess
     \<lparr>d_event_id = rq_event_id rq, d_product_id = l_product_id l, d_current_price = n_price p,
      d_leader_id = n_leader p, d_end_time_ms = show_int (n_end_at p),
      d_sequence = lua_add (l_sequence l) ''1'', d_version = lua_add (l_version l) ''1'',
      d_order_id = n_order p\<rparr>"

definition remember :: "int \<Rightarrow> string \<Rightarrow> request \<Rightarrow> reply \<Rightarrow> auction_store \<Rightarrow> auction_store" where
  "remember clock slot rq r st =
     st\<lparr>k_idempotency := (k_idempotency st)(slot \<mapsto>
       (\<lparr>sr_fingerprint = rq_fingerprint rq, sr_result = r\<rparr>, clock + rq_ttl rq))\<rparr>"

definition commit :: "int \<Rightarrow> string \<Rightarrow> loaded \<Rightarrow> request \<Rightarrow> plan \<Rightarrow> auction_store \<Rightarrow> reply \<times> auction_store" where
  "commit clock slot l rq p st =
     (let st1 = st\<lparr>k_stream := k_stream st @ [event_of l rq p]\<rparr>;
          st2 = bump_rate clock rq st1;
          (p', st3) = apply_bidders l rq p st2;
          r = success_of l rq p'
      in (r, remember clock slot rq r (save_state l rq p' st3)))"

section \<open>The script\<close>

definition recovering :: "string \<Rightarrow> reply" where
  "recovering message = ReplyError ''AUCTION_AUTHORITY_RECOVERING'' message 503"

text \<open>Lines 88-96: the stored reply, copied from the legacy hash when only that has one.\<close>

definition find_replay :: "int \<Rightarrow> string \<Rightarrow> request \<Rightarrow> auction_store \<Rightarrow> stored_reply option \<times> auction_store" where
  "find_replay clock slot rq st =
     (case live clock (k_idempotency st slot) of
        Some stored \<Rightarrow> (Some stored, st)
      | None \<Rightarrow>
          (case (k_legacy st (rq_idempotency_key rq), k_legacy_expiry st) of
             (Some stored, Some expiry) \<Rightarrow>
               if clock < expiry
               then (Some stored, st\<lparr>k_idempotency := (k_idempotency st)(slot \<mapsto> (stored, expiry))\<rparr>)
               else (None, st)
           | (Some stored, None) \<Rightarrow> (Some stored, st)
           | _ \<Rightarrow> (None, st)))"

definition mutate_loaded :: "int \<Rightarrow> string \<Rightarrow> loaded \<Rightarrow> request \<Rightarrow> auction_store \<Rightarrow> reply option \<times> auction_store" where
  "mutate_loaded clock slot l rq st =
     (case decide st l rq of
        Fault \<Rightarrow> (None, st)
      | Reject code message status \<Rightarrow>
          (let r = ReplyError code message status in (Some r, remember clock slot rq r st))
      | Accept p \<Rightarrow>
          if throttled (rq_operation rq)
             \<and> rate_count clock (k_rate st (show_nat (rq_actor_id rq))) \<ge> rq_rate_limit rq
          then (Some (ReplyError ''RATE_LIMITED'' ''Too many auction mutations'' 429), st)
          else (let (r, st') = commit clock slot l rq p st in (Some r, st')))"

text \<open>One run of the script at server time \<open>clock\<close>; \<open>slot\<close> is the digest in the name of \<open>KEYS[6]\<close>.
  \<open>None\<close> is a script error.\<close>

definition mutate_script :: "int \<Rightarrow> string \<Rightarrow> request \<Rightarrow> auction_store \<Rightarrow> reply option \<times> auction_store" where
  "mutate_script clock slot rq st =
     (if k_mistyped st then (Some (corrupt ''Redis key has an unexpected type''), st)
      else if k_fence st then (Some (recovering ''Auction authority is recovering''), st)
      else if k_auction_fence st then (Some (recovering ''This auction is recovering''), st)
      else case find_replay clock slot rq st of
        (Some stored, st') \<Rightarrow>
          if sr_fingerprint stored \<noteq> rq_fingerprint rq
          then (Some (ReplyError ''IDEMPOTENCY_KEY_REUSED'' ''Idempotency key was used for another request'' 409), st')
          else (Some (sr_result stored), st')
      | (None, st') \<Rightarrow>
          (case k_state st' of
             None \<Rightarrow> (Some (ReplyError ''AUCTION_STATE_NOT_READY'' ''Auction is not loaded into the bidding authority'' 503), st')
           | Some h \<Rightarrow>
               (case load_state h rq of
                  Inl r \<Rightarrow> (Some r, st')
                | Inr l \<Rightarrow> mutate_loaded clock slot l rq st')))"

end
