(* ===== verification/Mutation_Client.thy ===== *)
theory Mutation_Client
  imports Auction_Authority
begin

text \<open>
  The client of the authority (redis-auction.authority.ts) and the commands the use cases give it:
  request and fingerprint, the pool of connections per shard, loading and running the script,
  the translation of its outcome, and the replica acknowledgement. Sharding follows
  config/redis.config.ts. Numbers read from the environment are arguments.
\<close>

section \<open>Commands\<close>

record command =
  c_operation :: operation
  c_product_id :: nat
  c_actor_id :: nat
  c_actor_role :: string
  c_idempotency_key :: string
  c_correlation_id :: string
  c_amount :: "string option"
  c_target :: "nat option"
  c_reason :: "string option"
  c_order_id :: "string option"
  c_now :: "int option"

fun operation_name :: "operation \<Rightarrow> string" where
  "operation_name BID = ''BID''"
| "operation_name BUY_NOW = ''BUY_NOW''"
| "operation_name BAN = ''BAN''"
| "operation_name CLOSE = ''CLOSE''"
| "operation_name CANCEL = ''CANCEL''"
| "operation_name OtherOperation = ''''"

definition join_colon :: "string list \<Rightarrow> string" where
  "join_colon parts = concat (map (\<lambda>(i, p). (if i = 0 then [] else '':'') @ p) (enumerate 0 parts))"

definition fingerprint :: "command \<Rightarrow> string" where
  "fingerprint c = join_colon [operation_name (c_operation c), show_nat (c_product_id c), show_nat (c_actor_id c),
     coalesce (c_amount c) '''', coalesce (map_option show_nat (c_target c)) '''', coalesce (c_reason c) '''']"

record mutation_config =
  g_rate_limit :: int
  g_rate_window :: int
  g_ttl :: int
  g_replicas :: int

text \<open>\<open>eventId\<close>, the fresh order id and the clock are drawn by the caller.\<close>

definition payload :: "mutation_config \<Rightarrow> command \<Rightarrow> string \<Rightarrow> string \<Rightarrow> int \<Rightarrow> request" where
  "payload g c event_id new_order now =
     \<lparr>rq_operation = c_operation c, rq_product_id = c_product_id c, rq_actor_id = c_actor_id c,
      rq_actor_role = c_actor_role c, rq_amount = c_amount c, rq_target = c_target c, rq_reason = c_reason c,
      rq_order_id = (case c_order_id c of
          Some order \<Rightarrow> Some order
        | None \<Rightarrow> if c_operation c = BUY_NOW \<or> c_operation c = CLOSE then Some new_order else None),
      rq_event_id = event_id, rq_correlation_id = c_correlation_id c,
      rq_idempotency_key = c_idempotency_key c, rq_fingerprint = fingerprint c,
      rq_now = show_int (coalesce (c_now c) now), rq_rate_limit = g_rate_limit g,
      rq_rate_window = g_rate_window g, rq_ttl = g_ttl g\<rparr>"

definition check_command :: "command \<Rightarrow> (bid_error, unit) result" where
  "check_command c =
     (if c_idempotency_key c = '''' \<or> length (c_idempotency_key c) > 255
      then throws (BidDomainError ''A valid idempotency key is required'' 400 ''IDEMPOTENCY_KEY_REQUIRED'')
      else case c_amount c of
        None \<Rightarrow> returns ()
      | Some amount \<Rightarrow> bind_result (parse_money_vnd amount ''amount'') (\<lambda>_. returns ()))"

text \<open>The Redis branches of place-bid, buy-now and ban-bidder, and the commands of
  mutate-auction.use-case.ts; \<open>cid\<close> is the correlation id given or drawn.\<close>

definition place_bid_command :: "nat \<Rightarrow> nat \<Rightarrow> string \<Rightarrow> string \<Rightarrow> string \<Rightarrow> string option \<Rightarrow> command" where
  "place_bid_command user product max_price key cid role =
     \<lparr>c_operation = BID, c_product_id = product, c_actor_id = user, c_actor_role = coalesce role ''user'',
      c_idempotency_key = key, c_correlation_id = cid, c_amount = Some max_price, c_target = None,
      c_reason = None, c_order_id = None, c_now = None\<rparr>"

definition buy_now_command :: "nat \<Rightarrow> nat \<Rightarrow> string \<Rightarrow> string \<Rightarrow> string \<Rightarrow> string option \<Rightarrow> command" where
  "buy_now_command user product buy_price key cid role =
     \<lparr>c_operation = BUY_NOW, c_product_id = product, c_actor_id = user, c_actor_role = coalesce role ''user'',
      c_idempotency_key = key, c_correlation_id = cid, c_amount = Some buy_price, c_target = None,
      c_reason = None, c_order_id = None, c_now = None\<rparr>"

definition ban_command :: "nat \<Rightarrow> string \<Rightarrow> nat \<Rightarrow> nat \<Rightarrow> string \<Rightarrow> string \<Rightarrow> string \<Rightarrow> command" where
  "ban_command actor role product banned reason key cid =
     \<lparr>c_operation = BAN, c_product_id = product, c_actor_id = actor, c_actor_role = role,
      c_idempotency_key = key, c_correlation_id = cid, c_amount = None, c_target = Some banned,
      c_reason = Some reason, c_order_id = None, c_now = None\<rparr>"

definition close_command :: "nat \<Rightarrow> string \<Rightarrow> string \<Rightarrow> int \<Rightarrow> command" where
  "close_command product deadline cid now =
     \<lparr>c_operation = CLOSE, c_product_id = product, c_actor_id = 0, c_actor_role = ''system'',
      c_idempotency_key = ''close:'' @ show_nat product @ '':'' @ deadline, c_correlation_id = cid,
      c_amount = None, c_target = None, c_reason = None, c_order_id = None, c_now = Some now\<rparr>"

definition cancel_command :: "nat \<Rightarrow> nat \<Rightarrow> string \<Rightarrow> string \<Rightarrow> string \<Rightarrow> string option \<Rightarrow> command" where
  "cancel_command product actor role key cid reason =
     \<lparr>c_operation = CANCEL, c_product_id = product, c_actor_id = actor, c_actor_role = role,
      c_idempotency_key = key, c_correlation_id = cid, c_amount = None, c_target = None,
      c_reason = reason, c_order_id = None, c_now = None\<rparr>"

section \<open>Sharding and connections\<close>

text \<open>The servers a connection can reach: \<open>AUCTION_REDIS_URL\<close> and the entries of
  \<open>AUCTION_REDIS_URLS\<close>. \<open>urls\<close> is the number of the latter.\<close>

datatype server = DefaultPrimary | ShardPrimary nat

definition shard_servers :: "nat \<Rightarrow> server list" where
  "shard_servers urls = (if urls > 0 then map ShardPrimary [0..<urls] else [DefaultPrimary])"

definition shard_count :: "nat \<Rightarrow> nat" where
  "shard_count urls = length (shard_servers urls)"

definition shard_for_product :: "nat \<Rightarrow> int \<Rightarrow> (string, nat) result" where
  "shard_for_product urls product =
     (if product > 9007199254740991 \<or> product < 0
      then throws ''productId must be a non-negative safe integer''
      else returns (nat product mod shard_count urls))"

definition client_for_product :: "nat \<Rightarrow> int \<Rightarrow> (string, server) result" where
  "client_for_product urls product =
     bind_result (shard_for_product urls product) (\<lambda>shard. returns (shard_servers urls ! shard))"

record pool_entry =
  pe_server :: server
  pe_busy :: bool

record 'w pools =
  p_entries :: "nat \<rightharpoonup> pool_entry list"
  p_waiters :: "nat \<rightharpoonup> 'w list"

definition initial_pools :: "'w pools" where
  "initial_pools = \<lparr>p_entries = [0 \<mapsto> [\<lparr>pe_server = DefaultPrimary, pe_busy = False\<rparr>]], p_waiters = Map.empty\<rparr>"

text \<open>\<open>configured\<close> is \<open>Number(BID_MUTATION_CONNECTIONS ?? 8)\<close>, \<open>None\<close> when not an integer.\<close>

definition pool_size :: "int option \<Rightarrow> nat" where
  "pool_size configured =
     (case configured of None \<Rightarrow> 8 | Some n \<Rightarrow> if n > 0 then nat (min n 64) else 8)"

definition pool_for :: "nat \<Rightarrow> nat \<Rightarrow> 'w pools \<Rightarrow> pool_entry list" where
  "pool_for urls shard ps =
     (case p_entries ps shard of
        Some entries \<Rightarrow> entries
      | None \<Rightarrow> [\<lparr>pe_server = shard_servers urls ! (shard mod shard_count urls), pe_busy = False\<rparr>])"

definition ensure_pool :: "nat \<Rightarrow> int option \<Rightarrow> nat \<Rightarrow> nat \<Rightarrow> 'w pools \<Rightarrow> 'w pools" where
  "ensure_pool urls configured shard product ps =
     (let entries = pool_for urls shard ps;
          fresh = \<lparr>pe_server = shard_servers urls ! (product mod shard_count urls), pe_busy = False\<rparr>
      in ps\<lparr>p_entries := (p_entries ps)
           (shard \<mapsto> entries @ replicate (pool_size configured - length entries) fresh)\<rparr>)"

fun first_free :: "pool_entry list \<Rightarrow> nat option" where
  "first_free [] = None"
| "first_free (e # es) = (if \<not> pe_busy e then Some 0 else map_option Suc (first_free es))"

definition set_busy :: "bool \<Rightarrow> nat \<Rightarrow> nat \<Rightarrow> 'w pools \<Rightarrow> 'w pools" where
  "set_busy b shard i ps =
     (case p_entries ps shard of
        None \<Rightarrow> ps
      | Some entries \<Rightarrow> ps\<lparr>p_entries := (p_entries ps)(shard \<mapsto> entries[i := (entries ! i)\<lparr>pe_busy := b\<rparr>])\<rparr>)"

text \<open>\<open>acquireMutationClient\<close>: the index of the leased entry, or \<open>None\<close> when \<open>w\<close> waits.\<close>

definition acquire :: "nat \<Rightarrow> int option \<Rightarrow> nat \<Rightarrow> 'w \<Rightarrow> 'w pools \<Rightarrow> nat option \<times> 'w pools" where
  "acquire urls configured product w ps =
     (let shard = product mod shard_count urls;
          ps1 = ensure_pool urls configured shard product ps
      in case first_free (pool_for urls shard ps1) of
           Some i \<Rightarrow> (Some i, set_busy True shard i ps1)
         | None \<Rightarrow> (None, ps1\<lparr>p_waiters := (p_waiters ps1)
             (shard \<mapsto> coalesce (p_waiters ps1 shard) [] @ [w])\<rparr>))"

text \<open>\<open>release\<close> of a lease: the entry goes to the first waiter, who is returned, or becomes free.\<close>

definition release :: "nat \<Rightarrow> nat \<Rightarrow> 'w pools \<Rightarrow> 'w option \<times> 'w pools" where
  "release shard i ps =
     (case coalesce (p_waiters ps shard) [] of
        w # ws \<Rightarrow> (Some w, set_busy True shard i (ps\<lparr>p_waiters := (p_waiters ps)(shard \<mapsto> ws)\<rparr>))
      | [] \<Rightarrow> (None, set_busy False shard i ps))"

section \<open>Metrics\<close>

definition record_sample :: "int list \<Rightarrow> int \<Rightarrow> int list" where
  "record_sample samples v =
     (let pushed = samples @ [v] in if length pushed > 1000 then tl pushed else pushed)"

text \<open>\<open>Math.ceil(n * 0.95)\<close> for the at most 1000 samples kept: the product of doubles does not
  exceed the exact one by enough to change the ceiling.\<close>

definition percentile95 :: "int list \<Rightarrow> int" where
  "percentile95 samples =
     (let ordered = sort samples; k = (95 * length ordered + 99) div 100 - 1
      in if k < length ordered then ordered ! k else 0)"

section \<open>Running the script\<close>

fun contains :: "string \<Rightarrow> string \<Rightarrow> bool" where
  "contains needle [] = (needle = [])"
| "contains needle (c # s) = (take (length needle) (c # s) = needle \<or> contains needle s)"

definition lower :: "string \<Rightarrow> string" where
  "lower s = map (\<lambda>c. if 65 \<le> (of_char c :: nat) \<and> (of_char c :: nat) \<le> 90 then char_of (of_char c + 32 :: nat) else c) s"

definition is_indeterminate :: "string \<Rightarrow> bool" where
  "is_indeterminate message = (contains ''oom'' (lower message) \<or> contains ''error running script'' (lower message))"

text \<open>A Redis connection as the client uses it: the commands answer with an error message or a
  value. \<open>'raw\<close> is what EVALSHA returns. The cached SHA belongs to the connection.\<close>

record ('srv, 'raw) redis_port =
  run_load :: "'srv \<Rightarrow> (string, string) result \<times> 'srv"
  run_evalsha :: "string \<Rightarrow> 'srv \<Rightarrow> (string, 'raw) result \<times> 'srv"

definition load_script :: "('srv, 'raw) redis_port \<Rightarrow> string option \<times> 'srv \<Rightarrow> (string, string) result \<times> string option \<times> 'srv" where
  "load_script port cs =
     (case run_load port (snd cs) of
        (Inl e, srv) \<Rightarrow> (Inl e, fst cs, srv)
      | (Inr sha, srv) \<Rightarrow> (Inr sha, Some sha, srv))"

definition evaluate :: "('srv, 'raw) redis_port \<Rightarrow> string option \<times> 'srv \<Rightarrow> (string, 'raw) result \<times> string option \<times> 'srv" where
  "evaluate port cs =
     (case (case fst cs of Some sha \<Rightarrow> (Inr sha, cs) | None \<Rightarrow> load_script port cs) of
        (Inl e, cs1) \<Rightarrow> (Inl e, cs1)
      | (Inr sha, cs1) \<Rightarrow>
          (case run_evalsha port sha (snd cs1) of
             (Inr raw, srv) \<Rightarrow> (Inr raw, fst cs1, srv)
           | (Inl e, srv) \<Rightarrow>
               if contains ''NOSCRIPT'' e
               then (case load_script port (fst cs1, srv) of
                       (Inl e', cs2) \<Rightarrow> (Inl e', cs2)
                     | (Inr sha', cs2) \<Rightarrow>
                         (case run_evalsha port sha' (snd cs2) of (r, srv') \<Rightarrow> (r, fst cs2, srv')))
               else (Inl e, fst cs1, srv)))"

section \<open>mutate\<close>

text \<open>What came back: not a string, a string that is not JSON, or the script's reply.\<close>

datatype raw_reply = RawOther | RawMalformed | RawReply reply

record 'w client =
  t_pools :: "'w pools"
  t_durability_unconfirmed :: nat
  t_indeterminate :: nat

definition release_client :: "nat \<Rightarrow> nat \<Rightarrow> 'w client \<Rightarrow> 'w client" where
  "release_client shard i cl = cl\<lparr>t_pools := snd (release shard i (t_pools cl))\<rparr>"

definition translate_error :: "string \<Rightarrow> string \<Rightarrow> int \<Rightarrow> bid_error" where
  "translate_error code message status =
     (if code = ''AUCTION_STATE_NOT_READY'' then BidDomainError message status code
      else if status \<ge> 500 then BidInfrastructureError message
      else BidDomainError message status code)"

text \<open>\<open>mutate\<close> from the lease (entry \<open>i\<close> of \<open>shard\<close>) on: \<open>outcome\<close> is the result of \<open>evaluate\<close>,
  \<open>acknowledged\<close> that of the probe write and \<open>WAIT\<close>.\<close>

definition finish_mutation ::
    "mutation_config \<Rightarrow> nat \<Rightarrow> nat \<Rightarrow> (string, raw_reply) result \<Rightarrow> (string, int) result \<Rightarrow> 'w client
     \<Rightarrow> (bid_error, mutation_data) result \<times> 'w client" where
  "finish_mutation g shard i outcome acknowledged cl =
     (case outcome of
        Inl e \<Rightarrow>
          (let cl1 = release_client shard i cl;
               cl2 = (if is_indeterminate e then cl1\<lparr>t_indeterminate := t_indeterminate cl1 + 1\<rparr> else cl1)
           in (throws (BidInfrastructureError ''Bidding authority is unavailable''), cl2))
      | Inr RawOther \<Rightarrow>
          (throws (BidInfrastructureError ''Bidding authority returned an invalid result''), release_client shard i cl)
      | Inr RawMalformed \<Rightarrow>
          (throws (BidInfrastructureError ''Bidding authority returned malformed JSON''), release_client shard i cl)
      | Inr (RawReply (ReplyError code message status)) \<Rightarrow>
          (throws (translate_error code message status), release_client shard i cl)
      | Inr (RawReply (ReplySuccess d)) \<Rightarrow>
          if g_replicas g > 0
          then (case acknowledged of
                  Inl e \<Rightarrow> (throws (BidUnexpectedError e), release_client shard i cl)
                | Inr n \<Rightarrow>
                    (let cl1 = release_client shard i cl
                     in if n < g_replicas g
                        then (throws (BidDurabilityUnconfirmedError d),
                              cl1\<lparr>t_durability_unconfirmed := t_durability_unconfirmed cl1 + 1\<rparr>)
                        else (returns d, cl1)))
          else (returns d, release_client shard i cl))"

section \<open>Fingerprints\<close>

lemma split_colon:
  assumes "CHR '':'' \<notin> set x" "CHR '':'' \<notin> set y" "x @ CHR '':'' # s = y @ CHR '':'' # t"
  shows "x = y \<and> s = t"
  using assms
proof (induction x arbitrary: y)
  case Nil
  then show ?case by (cases y) auto
next
  case (Cons c x)
  then show ?case by (cases y) auto
qed

lemma digit_no_colon: "digits s \<Longrightarrow> CHR '':'' \<notin> set s"
  by (auto simp: list_all_iff is_digit_def)

lemma show_nat_no_colon [simp]: "CHR '':'' \<notin> set (show_nat n)"
  by (rule digit_no_colon) simp

lemma operation_name_no_colon [simp]: "CHR '':'' \<notin> set (operation_name oper)"
  by (cases oper) simp_all

lemma operation_name_inj [simp]: "operation_name x = operation_name y \<longleftrightarrow> x = y"
  by (cases x; cases y) simp_all

definition amount_field :: "command \<Rightarrow> string" where
  "amount_field c = coalesce (c_amount c) ''''"

definition target_field :: "command \<Rightarrow> string" where
  "target_field c = coalesce (map_option show_nat (c_target c)) ''''"

lemma fingerprint_fields:
  "fingerprint c = operation_name (c_operation c) @ CHR '':'' # show_nat (c_product_id c) @ CHR '':'' #
     show_nat (c_actor_id c) @ CHR '':'' # amount_field c @ CHR '':'' # target_field c @ CHR '':'' #
     coalesce (c_reason c) ''''"
  by (simp add: fingerprint_def join_colon_def amount_field_def target_field_def)

lemma amount_no_colon: "check_command c = Inr () \<Longrightarrow> CHR '':'' \<notin> set (amount_field c)"
  by (auto simp: check_command_def amount_field_def bind_result_def
      dest: parse_money_digits digit_no_colon split: option.splits sum.splits if_splits)

lemma target_no_colon: "CHR '':'' \<notin> set (target_field c)"
  by (cases "c_target c") (simp_all add: target_field_def)

lemma amount_field_eq:
  "check_command c = Inr () \<Longrightarrow> check_command c' = Inr () \<Longrightarrow> amount_field c = amount_field c' \<Longrightarrow>
   c_amount c = c_amount c'"
  by (auto simp: check_command_def amount_field_def bind_result_def parse_money_vnd_def vnd_pattern_def
      split: option.splits sum.splits if_splits)

lemma target_field_eq: "target_field c = target_field c' \<Longrightarrow> c_target c = c_target c'"
  by (auto simp: target_field_def coalesce_def dest: sym split: option.splits)

text \<open>The fingerprint tells requests apart. Two commands that pass the client's checks have the
  same fingerprint exactly when they agree on operation, product, actor, amount, target and reason
  (an absent reason being the empty one), so the authority answers a retry from its record only
  when the retry asks for the same mutation.\<close>

theorem fingerprint_identifies_command:
  assumes "check_command c = Inr ()" "check_command c' = Inr ()"
  shows "fingerprint c = fingerprint c' \<longleftrightarrow>
    c_operation c = c_operation c' \<and> c_product_id c = c_product_id c' \<and> c_actor_id c = c_actor_id c'
    \<and> c_amount c = c_amount c' \<and> c_target c = c_target c' \<and> coalesce (c_reason c) '''' = coalesce (c_reason c') ''''"
proof
  assume eq: "fingerprint c = fingerprint c'"
  have "operation_name (c_operation c) = operation_name (c_operation c')
      \<and> show_nat (c_product_id c) = show_nat (c_product_id c') \<and> show_nat (c_actor_id c) = show_nat (c_actor_id c')
      \<and> amount_field c = amount_field c' \<and> target_field c = target_field c'
      \<and> coalesce (c_reason c) '''' = coalesce (c_reason c') ''''"
    using eq amount_no_colon [OF assms(1)] amount_no_colon [OF assms(2)] target_no_colon
    unfolding fingerprint_fields
    by (metis split_colon operation_name_no_colon show_nat_no_colon)
  then show "c_operation c = c_operation c' \<and> c_product_id c = c_product_id c' \<and> c_actor_id c = c_actor_id c'
    \<and> c_amount c = c_amount c' \<and> c_target c = c_target c' \<and> coalesce (c_reason c) '''' = coalesce (c_reason c') ''''"
    using amount_field_eq [OF assms] target_field_eq [of c c'] by simp
qed (simp add: fingerprint_fields amount_field_def target_field_def)

theorem fingerprint_identifies_command_witness:
  "fingerprint (place_bid_command 2 7 ''150'' ''k'' ''c'' None)
     \<noteq> fingerprint (place_bid_command 2 7 ''160'' ''k'' ''c'' None)"
  using fingerprint_identifies_command [of "place_bid_command 2 7 ''150'' ''k'' ''c'' None"
      "place_bid_command 2 7 ''160'' ''k'' ''c'' None"]
  by (simp add: place_bid_command_def check_command_def parse_money_vnd_def vnd_pattern_def is_digit_def
      dec_val_def digit_val_def max_vnd_def)

section \<open>The pool of connections\<close>

text \<open>A run of the pool with the leases that are out: who holds which entry of which shard.\<close>

inductive pool_run :: "nat \<Rightarrow> int option \<Rightarrow> 'w pools \<Rightarrow> ((nat \<times> nat) \<times> 'w) list \<Rightarrow> bool"
  for urls configured where
  start: "pool_run urls configured initial_pools []"
| leased: "pool_run urls configured ps ls \<Longrightarrow> acquire urls configured product w ps = (Some i, ps') \<Longrightarrow>
    pool_run urls configured ps' (((product mod shard_count urls, i), w) # ls)"
| queued: "pool_run urls configured ps ls \<Longrightarrow> acquire urls configured product w ps = (None, ps') \<Longrightarrow>
    pool_run urls configured ps' ls"
| handed: "pool_run urls configured ps (xs @ ((shard, i), w) # ys) \<Longrightarrow> release shard i ps = (Some w', ps') \<Longrightarrow>
    pool_run urls configured ps' (((shard, i), w') # xs @ ys)"
| freed: "pool_run urls configured ps (xs @ ((shard, i), w) # ys) \<Longrightarrow> release shard i ps = (None, ps') \<Longrightarrow>
    pool_run urls configured ps' (xs @ ys)"

definition busy_entry :: "'w pools \<Rightarrow> nat \<times> nat \<Rightarrow> bool" where
  "busy_entry ps k = (case p_entries ps (fst k) of
     None \<Rightarrow> False | Some es \<Rightarrow> snd k < length es \<and> pe_busy (es ! snd k))"

definition waiting :: "'w pools \<Rightarrow> nat \<Rightarrow> 'w list" where
  "waiting ps shard = coalesce (p_waiters ps shard) []"

definition saturated :: "int option \<Rightarrow> 'w pools \<Rightarrow> nat \<Rightarrow> bool" where
  "saturated configured ps shard = (\<exists>es. p_entries ps shard = Some es \<and> pool_size configured \<le> length es
     \<and> (\<forall>e \<in> set es. pe_busy e))"

definition pool_inv :: "int option \<Rightarrow> 'w pools \<Rightarrow> ((nat \<times> nat) \<times> 'w) list \<Rightarrow> bool" where
  "pool_inv configured ps ls = (distinct (map fst ls) \<and> (\<forall>k. busy_entry ps k \<longleftrightarrow> k \<in> fst ` set ls)
     \<and> (\<forall>shard. waiting ps shard \<noteq> [] \<longrightarrow> saturated configured ps shard))"

lemma first_free_Some: "first_free es = Some i \<Longrightarrow> i < length es \<and> \<not> pe_busy (es ! i)"
  by (induction es arbitrary: i) (auto split: if_splits)

lemma first_free_None: "first_free es = None \<longleftrightarrow> (\<forall>e \<in> set es. pe_busy e)"
  by (induction es) auto

lemma busy_set_busy:
  assumes "p_entries ps shard = Some es" "i < length es"
  shows "busy_entry (set_busy b shard i ps) k = (if k = (shard, i) then b else busy_entry ps k)"
  using assms by (cases k) (auto simp: busy_entry_def set_busy_def nth_list_update)

lemma busy_ensure_pool [simp]: "busy_entry (ensure_pool urls configured shard product ps) k = busy_entry ps k"
  by (cases k) (auto simp: busy_entry_def ensure_pool_def pool_for_def Let_def nth_append split: option.splits)

lemma pool_size_pos: "0 < pool_size configured"
  by (simp add: pool_size_def split: option.splits)

lemma ensure_pool_entries:
  "p_entries (ensure_pool urls configured shard product ps) shard \<noteq> None"
  "p_waiters (ensure_pool urls configured shard product ps) = p_waiters ps"
  by (simp_all add: ensure_pool_def Let_def)

lemma saturated_ensure_pool:
  "saturated configured ps k \<Longrightarrow> saturated configured (ensure_pool urls configured shard product ps) k"
  by (auto simp: saturated_def ensure_pool_def pool_for_def Let_def)

lemma saturated_no_free:
  "saturated configured ps shard \<Longrightarrow> first_free (pool_for urls shard ps) = None"
  by (auto simp: saturated_def pool_for_def first_free_None)

lemma saturated_set_busy:
  "saturated configured ps k \<Longrightarrow> k \<noteq> shard \<or> b \<Longrightarrow> saturated configured (set_busy b shard i ps) k"
  by (auto simp: saturated_def set_busy_def dest!: set_update_subset_insert [THEN subsetD]
      split: option.splits)

lemma full_saturated:
  assumes "first_free (pool_for urls shard (ensure_pool urls configured shard product ps)) = None"
  shows "saturated configured (ensure_pool urls configured shard product ps) shard"
  using assms by (auto simp: saturated_def ensure_pool_def pool_for_def Let_def first_free_None)

lemma waiting_frame [simp]:
  "waiting (set_busy b shard i ps) = waiting ps" "waiting (ensure_pool urls configured shard product ps) = waiting ps"
  by (auto simp: waiting_def set_busy_def ensure_pool_def Let_def fun_eq_iff split: option.splits)

lemma pool_inv_leased:
  assumes inv: "pool_inv configured ps ls" and acq: "acquire urls configured product w ps = (Some i, ps')"
  shows "pool_inv configured ps' (((product mod shard_count urls, i), w) # ls)"
proof -
  define shard where "shard = product mod shard_count urls"
  define ps1 where "ps1 = ensure_pool urls configured shard product ps"
  have free: "first_free (pool_for urls shard ps1) = Some i" and ps': "ps' = set_busy True shard i ps1"
    using acq by (auto simp: acquire_def Let_def shard_def [symmetric] ps1_def [symmetric] split: option.splits)
  obtain es where es: "p_entries ps1 shard = Some es"
    using ensure_pool_entries(1) [of urls configured shard product ps] by (auto simp: ps1_def)
  have i: "i < length es" "\<not> pe_busy (es ! i)"
    using first_free_Some [OF free] es by (simp_all add: pool_for_def)
  have idle: "\<not> busy_entry ps (shard, i)"
    using i es busy_ensure_pool [of urls configured shard product ps "(shard, i)"]
    by (simp add: busy_entry_def ps1_def)
  have sat: "saturated configured ps' k" if "saturated configured ps k" for k
    using saturated_set_busy [OF saturated_ensure_pool [OF that]] by (simp add: ps' ps1_def)
  have busy: "busy_entry ps' k = (k = (shard, i) \<or> busy_entry ps k)" for k
    using busy_set_busy [OF es i(1), of True k] by (simp add: ps' ps1_def)
  have "waiting ps' = waiting ps" by (simp add: ps' ps1_def)
  with inv idle sat busy show ?thesis by (auto simp: pool_inv_def shard_def [symmetric])
qed

lemma pool_inv_queued:
  assumes inv: "pool_inv configured ps ls" and acq: "acquire urls configured product w ps = (None, ps')"
  shows "pool_inv configured ps' ls"
proof -
  define shard where "shard = product mod shard_count urls"
  define ps1 where "ps1 = ensure_pool urls configured shard product ps"
  have none: "first_free (pool_for urls shard ps1) = None"
    and ps': "ps' = ps1\<lparr>p_waiters := (p_waiters ps1)(shard \<mapsto> coalesce (p_waiters ps1 shard) [] @ [w])\<rparr>"
    using acq by (auto simp: acquire_def Let_def shard_def [symmetric] ps1_def [symmetric] split: option.splits)
  have same: "busy_entry ps' k = busy_entry ps k" "saturated configured ps' j = saturated configured ps1 j" for k j
    using busy_ensure_pool [of urls configured shard product ps k]
    by (simp_all add: busy_entry_def saturated_def ps' ps1_def)
  have "saturated configured ps1 shard" using full_saturated none by (simp add: ps1_def)
  moreover have "waiting ps' j = waiting ps j" if "j \<noteq> shard" for j
    using that by (simp add: waiting_def ps' ps1_def ensure_pool_entries(2))
  moreover have "saturated configured ps1 j" if "saturated configured ps j" for j
    using saturated_ensure_pool [OF that] by (simp add: ps1_def)
  ultimately have "waiting ps' j \<noteq> [] \<longrightarrow> saturated configured ps1 j" for j
    using inv by (cases "j = shard") (simp_all add: pool_inv_def)
  then show ?thesis using inv by (simp add: pool_inv_def same)
qed

lemma pool_inv_released:
  assumes inv: "pool_inv configured ps ls" and k: "(shard, i) \<in> fst ` set ls"
    and rel: "release shard i ps = (next_w, ps')"
  shows "busy_entry ps' k = (if k = (shard, i) then next_w \<noteq> None else busy_entry ps k)"
    and "waiting ps' j \<noteq> [] \<Longrightarrow> saturated configured ps' j"
proof -
  have "busy_entry ps (shard, i)" using inv k by (simp add: pool_inv_def)
  then obtain es where es: "p_entries ps shard = Some es" "i < length es"
    by (auto simp: busy_entry_def split: option.splits)
  show "busy_entry ps' k = (if k = (shard, i) then next_w \<noteq> None else busy_entry ps k)"
  proof (cases "coalesce (p_waiters ps shard) []")
    case Nil
    with rel es show ?thesis by (auto simp: release_def busy_set_busy)
  next
    case (Cons w ws)
    have "busy_entry (ps\<lparr>p_waiters := (p_waiters ps)(shard \<mapsto> ws)\<rparr>) k = busy_entry ps k"
      by (simp add: busy_entry_def)
    with Cons rel es show ?thesis by (auto simp: release_def busy_set_busy)
  qed
  have sat: "waiting ps j \<noteq> [] \<Longrightarrow> saturated configured ps j" for j
    using inv by (simp add: pool_inv_def)
  show "waiting ps' j \<noteq> [] \<Longrightarrow> saturated configured ps' j"
  proof (cases "waiting ps shard")
    case Nil
    assume "waiting ps' j \<noteq> []"
    with Nil rel sat [of j] show ?thesis
      by (auto simp: release_def waiting_def [symmetric] intro!: saturated_set_busy)
  next
    case (Cons w ws)
    then have ps': "ps' = set_busy True shard i (ps\<lparr>p_waiters := (p_waiters ps)(shard \<mapsto> ws)\<rparr>)"
      using rel by (simp add: release_def waiting_def)
    assume "waiting ps' j \<noteq> []"
    then have "waiting ps j \<noteq> []"
      using Cons by (cases "j = shard") (auto simp: ps' waiting_def)
    then have "saturated configured (ps\<lparr>p_waiters := (p_waiters ps)(shard \<mapsto> ws)\<rparr>) j"
      using sat [of j] by (simp add: saturated_def)
    then show ?thesis unfolding ps' by (rule saturated_set_busy) simp
  qed
qed

lemma pool_run_inv: "pool_run urls configured ps ls \<Longrightarrow> pool_inv configured ps ls"
proof (induction rule: pool_run.induct)
  case start
  show ?case by (auto simp: pool_inv_def initial_pools_def busy_entry_def waiting_def nth_Cons split: if_splits nat.splits)
next
  case (leased ps ls product w i ps')
  then show ?case by (simp add: pool_inv_leased)
next
  case (queued ps ls product w ps')
  then show ?case by (simp add: pool_inv_queued)
next
  case (handed ps xs shard i w ys w' ps')
  note rel = pool_inv_released [OF handed.IH _ handed.hyps(2)]
  have "(shard, i) \<in> fst ` set (xs @ ((shard, i), w) # ys)" by simp
  from rel [OF this] handed.IH show ?case by (auto simp: pool_inv_def)
next
  case (freed ps xs shard i w ys ps')
  note rel = pool_inv_released [OF freed.IH _ freed.hyps(2)]
  have "(shard, i) \<in> fst ` set (xs @ ((shard, i), w) # ys)" by simp
  from rel [OF this] freed.IH show ?case by (auto simp: pool_inv_def)
qed

text \<open>C36: A Redis connection is never lent twice, and nobody waits while one is free. In every run
  of the pool, with any mutations starting and finishing in any order, the leases that are out are
  for different connections, all marked busy, and when a mutation of a shard waits the shard has at
  least the configured number of connections and all of them are lent.\<close>

theorem pool_leases_exclusive:
  assumes "pool_run urls configured ps ls"
  shows "distinct (map fst ls) \<and> (\<forall>l \<in> set ls. busy_entry ps (fst l))
    \<and> (waiting ps shard \<noteq> [] \<longrightarrow> pool_size configured \<le> card {k \<in> fst ` set ls. fst k = shard})"
proof -
  have inv: "pool_inv configured ps ls" using assms by (rule pool_run_inv)
  have "pool_size configured \<le> card {k \<in> fst ` set ls. fst k = shard}" if w: "waiting ps shard \<noteq> []"
  proof -
    obtain es where es: "p_entries ps shard = Some es" "pool_size configured \<le> length es" "\<forall>e \<in> set es. pe_busy e"
      using inv w by (auto simp: pool_inv_def saturated_def)
    then have "busy_entry ps (shard, j)" if "j < length es" for j
      using that by (simp add: busy_entry_def)
    then have "Pair shard ` {..<length es} \<subseteq> {k \<in> fst ` set ls. fst k = shard}"
      using inv by (auto simp: pool_inv_def)
    then have "card (Pair shard ` {..<length es}) \<le> card {k \<in> fst ` set ls. fst k = shard}"
      by (rule card_mono [rotated]) simp
    with es(2) show ?thesis by (simp add: card_image inj_on_def)
  qed
  moreover have "busy_entry ps (fst l)" if "l \<in> set ls" for l
    using inv that unfolding pool_inv_def by blast
  ultimately show ?thesis using inv by (simp add: pool_inv_def)
qed

theorem pool_leases_exclusive_witness:
  "\<exists>ps :: nat pools. pool_run 0 (Some 1) ps [((0, 0), 5)] \<and> waiting ps 0 = [6] \<and> distinct (map fst [((0::nat, 0::nat), 5::nat)])"
proof -
  obtain ps1 :: "nat pools" where a: "acquire 0 (Some 1) 3 5 initial_pools = (Some 0, ps1)"
      "first_free (pool_for 0 0 ps1) = None" "pool_size (Some 1) = 1" "length (pool_for 0 0 ps1) = 1" "waiting ps1 0 = []"
    by (simp add: acquire_def shard_count_def shard_servers_def ensure_pool_def pool_for_def initial_pools_def
        pool_size_def set_busy_def waiting_def)
  have run1: "pool_run 0 (Some 1) ps1 [((0, 0), 5)]"
    using pool_run.leased [OF pool_run.start a(1)] by (simp add: shard_count_def shard_servers_def)
  obtain ps2 where b: "acquire 0 (Some 1) 3 6 ps1 = (None, ps2)" "waiting ps2 0 = [6]"
    using a(2-5) by (simp add: acquire_def shard_count_def shard_servers_def ensure_pool_def pool_for_def waiting_def Let_def)
  have run2: "pool_run 0 (Some 1) ps2 [((0, 0), 5)]" using pool_run.queued [OF run1 b(1)] .
  from pool_leases_exclusive [OF run2] run2 b(2) show ?thesis by blast
qed

section \<open>The outcome of a mutation\<close>

text \<open>Every branch of \<open>mutate\<close> gives its connection back, exactly once, and it reports success
  exactly when the script accepted the mutation and, where replicas are required, enough of them
  acknowledged it; an accepted mutation that too few acknowledged is reported as
  BID_DURABILITY_UNCONFIRMED with its event, never as rejected.\<close>

theorem mutation_outcome:
  "t_pools (snd (finish_mutation g shard i outcome acknowledged cl)) = snd (release shard i (t_pools cl))
   \<and> (fst (finish_mutation g shard i outcome acknowledged cl) = Inr d
      \<longleftrightarrow> outcome = Inr (RawReply (ReplySuccess d))
        \<and> (g_replicas g \<le> 0 \<or> (\<exists>n. acknowledged = Inr n \<and> g_replicas g \<le> n)))
   \<and> (fst (finish_mutation g shard i outcome acknowledged cl) = Inl (BidDurabilityUnconfirmedError d)
      \<longleftrightarrow> outcome = Inr (RawReply (ReplySuccess d)) \<and> g_replicas g > 0
        \<and> (\<exists>n. acknowledged = Inr n \<and> n < g_replicas g))"
  by (auto simp: finish_mutation_def release_client_def translate_error_def Let_def
      split: sum.splits raw_reply.splits reply.splits)

section \<open>Running the script exactly once\<close>

text \<open>A server that knows some scripts by their SHA; \<open>exec\<close> runs the authority's script.\<close>

record 's script_server =
  v_scripts :: "string set"
  v_store :: 's

definition server_port :: "string \<Rightarrow> ('s \<Rightarrow> 'raw \<times> 's) \<Rightarrow> ('s script_server, 'raw) redis_port" where
  "server_port sha exec =
     \<lparr>run_load = (\<lambda>srv. (Inr sha, srv\<lparr>v_scripts := insert sha (v_scripts srv)\<rparr>)),
      run_evalsha = (\<lambda>s srv. if s \<in> v_scripts srv
        then (case exec (v_store srv) of (r, st) \<Rightarrow> (Inr r, srv\<lparr>v_store := st\<rparr>))
        else (Inl ''NOSCRIPT No matching script.'', srv))\<rparr>"

text \<open>Whatever the client remembers of the script, it runs it exactly once. With no SHA cached,
  with the right one, or with one the server has forgotten (it restarted or its scripts were
  flushed), \<open>evaluate\<close> ends with the script's answer and the store after one run.\<close>

theorem evaluate_runs_script_once:
  assumes "cached = None \<or> cached = Some sha"
  shows "\<exists>srv'. evaluate (server_port sha exec) (cached, srv) = (Inr (fst (exec (v_store srv))), Some sha, srv')
    \<and> v_store srv' = snd (exec (v_store srv)) \<and> sha \<in> v_scripts srv'"
  using assms
  by (cases "exec (v_store srv)") (auto simp: evaluate_def load_script_def server_port_def)

theorem evaluate_runs_script_once_witness:
  "\<exists>srv'. evaluate (server_port ''a1'' (\<lambda>n. (n, n + 1 :: nat))) (Some ''a1'', \<lparr>v_scripts = {}, v_store = 4\<rparr>)
     = (Inr 4, Some ''a1'', srv') \<and> v_store srv' = 5"
  using evaluate_runs_script_once [of "Some ''a1''" "''a1''" "\<lambda>n. (n, n + 1 :: nat)" "\<lparr>v_scripts = {}, v_store = 4\<rparr>"]
  by auto

section \<open>The first connection of shard 0\<close>

text \<open>With \<open>AUCTION_REDIS_URLS\<close> set, the first mutation of shard 0 goes to another server than
  the shard's. The pool of shard 0 is created with the connection to \<open>AUCTION_REDIS_URL\<close>, while the
  auction's state is kept on the first of \<open>AUCTION_REDIS_URLS\<close>.\<close>

theorem shard_zero_first_connection:
  assumes "0 < urls" "product mod urls = 0" "int product \<le> 9007199254740991"
  shows "client_for_product urls (int product) = Inr (ShardPrimary 0)
    \<and> fst (acquire urls configured product w initial_pools) = Some 0
    \<and> map pe_server (take 1 (pool_for urls 0 (snd (acquire urls configured product w initial_pools)))) = [DefaultPrimary]"
  using assms
  by (simp add: client_for_product_def shard_for_product_def shard_count_def shard_servers_def acquire_def
      ensure_pool_def pool_for_def initial_pools_def set_busy_def Let_def)

theorem shard_zero_first_connection_witness:
  "client_for_product 2 4 = Inr (ShardPrimary 0)
     \<and> fst (acquire 2 None 4 () initial_pools) = Some 0"
  using shard_zero_first_connection [of 2 4 None "()"] by simp

end
