(* ===== verification/Json.thy ===== *)
theory Json
  imports Money
begin

text \<open>
  JSON values and the parts of the JavaScript runtime the backend uses on them: truthiness, the
  text a regular expression sees, \<open>BigInt\<close> and \<open>Number\<close> of decimal strings, the UUID and DECIMAL
  patterns, and ISO dates. \<open>JSON.parse\<close> of a text is an \<open>option\<close>: \<open>None\<close> when it throws.
\<close>

datatype json =
    JNull
  | JBool bool
  | JInt int
  | JFraction string
  | JString string
  | JArray "json list"
  | JObject "(string \<times> json) list"

text \<open>\<open>value[field]\<close> of an object literal; \<open>None\<close> is \<open>undefined\<close>. A later duplicate key wins.\<close>

definition field_of :: "string \<Rightarrow> json \<Rightarrow> json option" where
  "field_of k v = (case v of JObject fs \<Rightarrow> map_of (rev fs) k | _ \<Rightarrow> None)"

fun truthy :: "json option \<Rightarrow> bool" where
  "truthy None = False"
| "truthy (Some JNull) = False"
| "truthy (Some (JBool b)) = b"
| "truthy (Some (JInt n)) = (n \<noteq> 0)"
| "truthy (Some (JFraction _)) = True"
| "truthy (Some (JString s)) = (s \<noteq> '''')"
| "truthy (Some _) = True"

fun is_object :: "json \<Rightarrow> bool" where
  "is_object (JObject _) = True"
| "is_object (JArray _) = True"
| "is_object _ = False"

text \<open>\<open>String(value)\<close>.\<close>

fun js_text :: "json \<Rightarrow> string" where
  "js_text JNull = ''null''"
| "js_text (JBool b) = (if b then ''true'' else ''false'')"
| "js_text (JInt n) = show_int n"
| "js_text (JFraction s) = s"
| "js_text (JString s) = s"
| "js_text (JArray vs) = (case vs of [] \<Rightarrow> '''' | v # rest \<Rightarrow>
      (if v = JNull then '''' else js_text v) @ concat (map (\<lambda>x. '','' @ (if x = JNull then '''' else js_text x)) rest))"
| "js_text (JObject _) = ''[object Object]''"

text \<open>\<open>BigInt(text)\<close> and \<open>Number(text)\<close> of decimal strings; other texts give \<open>None\<close>.\<close>

definition big_int :: "string \<Rightarrow> int option" where
  "big_int s =
     (case s of
        [] \<Rightarrow> Some 0
      | c # t \<Rightarrow> if c = CHR ''-'' then (if t \<noteq> [] \<and> digits t then Some (- int (dec_val t)) else None)
                 else if digits s then Some (int (dec_val s)) else None)"

definition is_hex :: "char \<Rightarrow> bool" where
  "is_hex c = (is_digit c \<or> (let n = (of_char c :: nat) in (65 \<le> n \<and> n \<le> 70) \<or> (97 \<le> n \<and> n \<le> 102)))"

text \<open>\<open>/^[0-9a-f]{8}-[0-9a-f]{4}-[1-5][0-9a-f]{3}-[89ab][0-9a-f]{3}-[0-9a-f]{12}$/i\<close>\<close>

definition uuid_pattern :: "string \<Rightarrow> bool" where
  "uuid_pattern s =
     (length s = 36
      \<and> list_all (\<lambda>i. s ! i = CHR ''-'') [8, 13, 18, 23]
      \<and> list_all (\<lambda>i. is_hex (s ! i)) (filter (\<lambda>i. i \<notin> {8, 13, 18, 23}) [0..<36])
      \<and> s ! 14 \<in> set ''12345'' \<and> s ! 19 \<in> set ''89abAB'')"

text \<open>The DECIMAL pattern is the VND pattern.\<close>

definition decimal_pattern :: "string \<Rightarrow> bool" where
  "decimal_pattern s = vnd_pattern s"

lemma big_int_show_nat [simp]: "big_int (show_nat n) = Some (int n)"
proof -
  obtain c t where s: "show_nat n = c # t" by (cases "show_nat n") auto
  have "is_digit c" using digits_show_nat [of n] by (simp add: s)
  then have "c \<noteq> CHR ''-''" by (auto simp: is_digit_def)
  with s digits_show_nat [of n] dec_val_show_nat [of n] show ?thesis by (simp add: big_int_def)
qed

lemma big_int_show_int [simp]: "big_int (show_int n) = Some n"
  by (simp add: show_int_def) (simp add: big_int_def)

lemma decimal_big_int: "decimal_pattern s \<Longrightarrow> big_int s = Some (int (dec_val s))"
  unfolding decimal_pattern_def vnd_pattern_canonical
  using big_int_show_nat [of "dec_val s"] canonical_show [of s] by simp

lemma decimal_show_nat: "n < 10 ^ 19 \<Longrightarrow> decimal_pattern (show_nat n)"
  by (simp add: decimal_pattern_def vnd_pattern_canonical length_show_nat_le)

section \<open>Dates\<close>

text \<open>\<open>Date.prototype.toISOString\<close> for the years 0 to 9999, from milliseconds since 1970: days to a
  proleptic Gregorian date by counting from 0000-03-01.\<close>

definition civil_of_days :: "int \<Rightarrow> int \<times> int \<times> int" where
  "civil_of_days days =
     (let z = days + 719468; era = z div 146097; doe = z mod 146097;
          yoe = (doe - doe div 1460 + doe div 36524 - doe div 146096) div 365;
          doy = doe - (365 * yoe + yoe div 4 - yoe div 100);
          mp = (5 * doy + 2) div 153; d = doy - (153 * mp + 2) div 5 + 1;
          m = (if mp < 10 then mp + 3 else mp - 9);
          y = yoe + era * 400
      in (if m \<le> 2 then y + 1 else y, m, d))"

definition pad_int :: "nat \<Rightarrow> int \<Rightarrow> string" where
  "pad_int w n = (let s = show_nat (nat n) in replicate (w - length s) (CHR ''0'') @ s)"

definition iso_string :: "int \<Rightarrow> string" where
  "iso_string ms =
     (let days = ms div 86400000; rest = ms mod 86400000; (y, m, d) = civil_of_days days
      in pad_int 4 y @ ''-'' @ pad_int 2 m @ ''-'' @ pad_int 2 d @ ''T''
         @ pad_int 2 (rest div 3600000) @ '':'' @ pad_int 2 (rest div 60000 mod 60) @ '':''
         @ pad_int 2 (rest div 1000 mod 60) @ ''.'' @ pad_int 3 (rest mod 1000) @ ''Z'')"

lemma iso_string_nonempty [simp]: "iso_string ms \<noteq> ''''"
  by (simp add: iso_string_def Let_def split_beta)

end
