(* ===== verification/Event_Contract.thy ===== *)
theory Event_Contract
  imports Json
begin

text \<open>
  The event contract between the services: the canonical event types and their legacy aliases
  (auction-event-contract.ts), the envelope of a published event (event-envelope.ts) and the Kafka
  topics the relay may publish to (kafka-topics.config.ts).
\<close>

section \<open>Event types\<close>

definition canonical_event_types :: "(string \<times> string) list" where
  "canonical_event_types =
     [(''BID_ACCEPTED'', ''bid.accepted.v1''),
      (''BUY_NOW_COMPLETED'', ''auction.buy_now_completed.v1''),
      (''BIDDER_BANNED'', ''bidder.banned.v1''),
      (''AUCTION_CLOSED'', ''auction.closed.v1''),
      (''AUCTION_CANCELLED'', ''auction.cancelled.v1'')]"

definition legacy_aliases :: "(string \<times> string) list" where
  "legacy_aliases =
     [(''bid.accepted'', ''bid.accepted.v1''),
      (''buy.now.completed'', ''auction.buy_now_completed.v1''),
      (''auction.buy_now_completed'', ''auction.buy_now_completed.v1''),
      (''bidder.banned'', ''bidder.banned.v1''),
      (''auction.closed'', ''auction.closed.v1''),
      (''auction.cancelled'', ''auction.cancelled.v1'')]"

definition canonical_event_type :: "string \<Rightarrow> string option" where
  "canonical_event_type kind = map_of canonical_event_types kind"

definition normalize_event_type :: "string \<Rightarrow> string option" where
  "normalize_event_type kind =
     (if kind \<in> set (map snd canonical_event_types) then Some kind else map_of legacy_aliases kind)"

section \<open>Topics\<close>

record topics =
  tp_bidding :: string
  tp_domain :: string
  tp_dashboard :: string
  tp_async_dlq :: string
  tp_dashboard_dlq :: string

text \<open>\<open>process.env.X || default\<close>: an empty value counts as absent.\<close>

definition env_or :: "string option \<Rightarrow> string \<Rightarrow> string" where
  "env_or v d = (case v of None \<Rightarrow> d | Some s \<Rightarrow> if s = '''' then d else s)"

definition kafka_topics :: "string option \<Rightarrow> string option \<Rightarrow> string option \<Rightarrow> string option \<Rightarrow> string option \<Rightarrow> topics" where
  "kafka_topics bidding domain dashboard async_dlq dashboard_dlq =
     \<lparr>tp_bidding = env_or bidding ''bidding_events'', tp_domain = env_or domain ''domain_events'',
      tp_dashboard = env_or dashboard ''dashboard_updates'', tp_async_dlq = env_or async_dlq ''async_events_dlq'',
      tp_dashboard_dlq = env_or dashboard_dlq ''dashboard_updates_dlq''\<rparr>"

definition relay_topics :: "topics \<Rightarrow> string set" where
  "relay_topics t = {tp_bidding t, tp_domain t, tp_dashboard t, tp_async_dlq t}"

section \<open>Envelopes\<close>

record envelope =
  ev_event_id :: string
  ev_event_type :: string
  ev_event_version :: int
  ev_aggregate_id :: string
  ev_occurred_at :: string
  ev_correlation_id :: string
  ev_causation_id :: "string option"
  ev_payload :: json

record envelope_input =
  ei_event_id :: "string option"
  ei_event_type :: string
  ei_event_version :: "int option"
  ei_aggregate_id :: string
  ei_occurred_at :: "int option"
  ei_correlation_id :: "string option"
  ei_causation_id :: "string option"
  ei_payload :: json

text \<open>\<open>uuid1\<close> and \<open>uuid2\<close> are the identifiers drawn when none is given, \<open>now\<close> the clock.\<close>

definition create_event_envelope :: "string \<Rightarrow> string \<Rightarrow> int \<Rightarrow> envelope_input \<Rightarrow> envelope" where
  "create_event_envelope uuid1 uuid2 now i =
     \<lparr>ev_event_id = coalesce (ei_event_id i) uuid1, ev_event_type = ei_event_type i,
      ev_event_version = coalesce (ei_event_version i) 1, ev_aggregate_id = ei_aggregate_id i,
      ev_occurred_at = iso_string (coalesce (ei_occurred_at i) now),
      ev_correlation_id = coalesce (ei_correlation_id i) uuid2,
      ev_causation_id = (case ei_causation_id i of Some c \<Rightarrow> if c = '''' then None else Some c | None \<Rightarrow> None),
      ev_payload = ei_payload i\<rparr>"

text \<open>The object \<open>JSON.stringify\<close> writes for an envelope.\<close>

definition envelope_json :: "envelope \<Rightarrow> json" where
  "envelope_json e = JObject
     ([(''eventId'', JString (ev_event_id e)), (''eventType'', JString (ev_event_type e)),
       (''eventVersion'', JInt (ev_event_version e)), (''aggregateId'', JString (ev_aggregate_id e)),
       (''occurredAt'', JString (ev_occurred_at e)), (''correlationId'', JString (ev_correlation_id e))]
      @ (case ev_causation_id e of None \<Rightarrow> [] | Some c \<Rightarrow> [(''causationId'', JString c)])
      @ [(''payload'', ev_payload e)])"

fun required_text :: "string \<Rightarrow> json \<Rightarrow> (string, string) result" where
  "required_text k v =
     (case field_of k v of
        Some (JString s) \<Rightarrow> if s = '''' then throws (''Invalid event field: '' @ k) else returns s
      | _ \<Rightarrow> throws (''Invalid event field: '' @ k))"

definition parse_event_envelope :: "json option \<Rightarrow> (string, envelope) result" where
  "parse_event_envelope parsed =
     (case parsed of
        None \<Rightarrow> throws ''SyntaxError''
      | Some v \<Rightarrow>
          if \<not> is_object v then throws ''Event must be an object''
          else bind_result (required_text ''eventId'' v) (\<lambda>event_id.
               bind_result (required_text ''eventType'' v) (\<lambda>event_type.
               bind_result (required_text ''aggregateId'' v) (\<lambda>aggregate_id.
               bind_result (required_text ''occurredAt'' v) (\<lambda>occurred_at.
               bind_result (required_text ''correlationId'' v) (\<lambda>correlation_id.
               (case field_of ''eventVersion'' v of
                  Some (JInt version) \<Rightarrow>
                    if version < 1 then throws ''Invalid eventVersion''
                    else (case field_of ''payload'' v of
                      Some (JObject fs) \<Rightarrow> returns
                        \<lparr>ev_event_id = event_id, ev_event_type = event_type, ev_event_version = version,
                         ev_aggregate_id = aggregate_id, ev_occurred_at = occurred_at,
                         ev_correlation_id = correlation_id,
                         ev_causation_id = (case field_of ''causationId'' v of Some (JString c) \<Rightarrow> Some c | _ \<Rightarrow> None),
                         ev_payload = JObject fs\<rparr>
                    | _ \<Rightarrow> throws ''Invalid payload'')
                | _ \<Rightarrow> throws ''Invalid eventVersion'')))))))"

section \<open>Properties\<close>

lemma canonical_types_distinct: "distinct (map snd canonical_event_types)"
  by (simp add: canonical_event_types_def)

text \<open>Producers and consumers agree on the event types. Every canonical type normalises to
  itself, distinct kinds of events have distinct types, the legacy alias of a type normalises to
  it, and normalising is idempotent.\<close>

theorem event_types_agree:
  "canonical_event_type kind = Some t \<Longrightarrow> normalize_event_type t = Some t
     \<and> (\<forall>kind'. canonical_event_type kind' = Some t \<longrightarrow> kind' = kind)
     \<and> (\<forall>old. normalize_event_type old = Some t \<longrightarrow> old = t \<or> (old, t) \<in> set legacy_aliases)"
proof -
  assume k: "canonical_event_type kind = Some t"
  have mem: "(kind', t) \<in> set canonical_event_types" if "canonical_event_type kind' = Some t" for kind'
    using that by (simp add: canonical_event_type_def map_of_SomeD)
  have t: "t \<in> set (map snd canonical_event_types)" using mem [OF k] by force
  have "kind' = kind" if "canonical_event_type kind' = Some t" for kind'
    using inj_onD [OF distinct_map [THEN iffD1, THEN conjunct2, OF canonical_types_distinct] _ mem [OF that] mem [OF k]]
    by simp
  moreover have "old = t \<or> (old, t) \<in> set legacy_aliases" if "normalize_event_type old = Some t" for old
    using that by (auto simp: normalize_event_type_def map_of_SomeD split: if_splits)
  ultimately show ?thesis using t by (simp add: normalize_event_type_def)
qed

theorem event_types_agree_witness:
  "normalize_event_type ''bid.accepted.v1'' = Some ''bid.accepted.v1''"
  using event_types_agree [of "''BID_ACCEPTED''" "''bid.accepted.v1''"]
  by (simp add: canonical_event_type_def canonical_event_types_def)

text \<open>An envelope survives the wire. What \<open>createEventEnvelope\<close> builds from non-empty
  identifiers, a positive version and an object payload is read back unchanged by
  \<open>parseEventEnvelope\<close>.\<close>

theorem envelope_roundtrip:
  assumes "ei_event_id i \<noteq> Some ''''" "uuid1 \<noteq> ''''" "ei_event_type i \<noteq> ''''" "ei_aggregate_id i \<noteq> ''''"
    and "ei_correlation_id i \<noteq> Some ''''" "uuid2 \<noteq> ''''" "ei_payload i = JObject fs"
    and "1 \<le> coalesce (ei_event_version i) 1"
  shows "parse_event_envelope (Some (envelope_json (create_event_envelope uuid1 uuid2 now i)))
    = Inr (create_event_envelope uuid1 uuid2 now i)"
  using assms
  by (auto simp: parse_event_envelope_def envelope_json_def create_event_envelope_def field_of_def
      coalesce_def split: option.splits)

theorem envelope_roundtrip_witness:
  "is_ok (parse_event_envelope (Some (envelope_json (create_event_envelope ''u1'' ''u2'' 0
     \<lparr>ei_event_id = Some ''e1'', ei_event_type = ''bid.accepted.v1'', ei_event_version = None,
      ei_aggregate_id = ''7'', ei_occurred_at = None, ei_correlation_id = None, ei_causation_id = Some '''',
      ei_payload = JObject []\<rparr>))))"
  using envelope_roundtrip [of "\<lparr>ei_event_id = Some ''e1'', ei_event_type = ''bid.accepted.v1'', ei_event_version = None,
      ei_aggregate_id = ''7'', ei_occurred_at = None, ei_correlation_id = None, ei_causation_id = Some '''',
      ei_payload = JObject []\<rparr>" "''u1''" "''u2''" "[]" 0]
  by simp

end
