(* ===== verification/Postgres_Store.thy ===== *)
theory Postgres_Store
  imports Auction_Authority Event_Contract
begin

text \<open>
  The PostgreSQL tables the bidding side writes (prisma/schema.prisma): products, transitions,
  bidding history, bans, orders, receipts of processed events, the outbox and the bid idempotency
  records. A table is the list of its rows in insertion order; a unique index is a symmetric clash
  of two rows, and an insert that clashes fails and aborts the transaction. The interface
  \<open>unique_table\<close> states what every such table guarantees.
\<close>

section \<open>Rows\<close>

record product_row =
  pr_seller :: int
  pr_start_price :: "int option"
  pr_step_price :: "int option"
  pr_current_price :: "int option"
  pr_buy_now_price :: "int option"
  pr_owner :: "int option"
  pr_turns :: "int option"
  pr_start_time :: "int option"
  pr_end_time :: "int option"
  pr_removed :: "bool option"
  pr_auto_extended :: "bool option"
  pr_status :: string
  pr_version :: int
  pr_sequence :: int

record transition_row =
  tr_event_id :: string
  tr_product :: int
  tr_type :: string
  tr_sequence :: int
  tr_version :: int
  tr_payload :: stream_event

record history_row =
  hi_event_id :: "string option"
  hi_product :: int
  hi_user :: int
  hi_max :: int
  hi_price :: int
  hi_owner :: "int option"
  hi_status :: "string option"
  hi_sequence :: "int option"
  hi_version :: "int option"

record ban_row =
  bn_product :: int
  bn_user :: int
  bn_reason :: "string option"

record order_row =
  od_public_id :: string
  od_product :: int
  od_user :: int
  od_sequence :: "int option"

record receipt_row =
  rc_event_id :: string
  rc_entry_id :: string
  rc_product :: int
  rc_sequence :: int
  rc_version :: int

datatype outbox_payload = EventPayload stream_event | JsonPayload json

record outbox_row =
  ob_event_id :: string
  ob_event_type :: string
  ob_event_version :: int
  ob_aggregate_id :: string
  ob_payload :: outbox_payload
  ob_topic :: string

record idempotency_row =
  id_operation :: string
  id_user :: int
  id_key :: string
  id_fingerprint :: string
  id_response :: json

record database =
  db_users :: "int set"
  db_products :: "int \<rightharpoonup> product_row"
  db_transitions :: "transition_row list"
  db_histories :: "history_row list"
  db_bans :: "ban_row list"
  db_orders :: "order_row list"
  db_receipts :: "receipt_row list"
  db_outbox :: "outbox_row list"
  db_idempotency :: "idempotency_row list"

section \<open>Unique indexes\<close>

definition same_some :: "'a option \<Rightarrow> 'a option \<Rightarrow> bool" where
  "same_some x y = (x \<noteq> None \<and> x = y)"

lemma same_some_sym: "same_some x y = same_some y x"
  unfolding same_some_def by metis

definition transition_clash :: "transition_row \<Rightarrow> transition_row \<Rightarrow> bool" where
  "transition_clash a b = (tr_event_id a = tr_event_id b
     \<or> (tr_product a = tr_product b \<and> tr_sequence a = tr_sequence b))"

definition history_clash :: "history_row \<Rightarrow> history_row \<Rightarrow> bool" where
  "history_clash a b = (same_some (hi_event_id a) (hi_event_id b)
     \<or> (hi_product a = hi_product b \<and> same_some (hi_sequence a) (hi_sequence b)))"

definition ban_clash :: "ban_row \<Rightarrow> ban_row \<Rightarrow> bool" where
  "ban_clash a b = (bn_product a = bn_product b \<and> bn_user a = bn_user b)"

definition order_clash :: "order_row \<Rightarrow> order_row \<Rightarrow> bool" where
  "order_clash a b = (od_public_id a = od_public_id b \<or> od_product a = od_product b)"

definition receipt_clash :: "receipt_row \<Rightarrow> receipt_row \<Rightarrow> bool" where
  "receipt_clash a b = (rc_event_id a = rc_event_id b \<or> rc_entry_id a = rc_entry_id b
     \<or> (rc_product a = rc_product b \<and> rc_sequence a = rc_sequence b))"

definition outbox_clash :: "outbox_row \<Rightarrow> outbox_row \<Rightarrow> bool" where
  "outbox_clash a b = (ob_event_id a = ob_event_id b)"

definition idempotency_clash :: "idempotency_row \<Rightarrow> idempotency_row \<Rightarrow> bool" where
  "idempotency_clash a b = (id_operation a = id_operation b \<and> id_user a = id_user b \<and> id_key a = id_key b)"

section \<open>Inserts\<close>

definition clashes :: "('r \<Rightarrow> 'r \<Rightarrow> bool) \<Rightarrow> 'r \<Rightarrow> 'r list \<Rightarrow> bool" where
  "clashes clash r rows = list_ex (clash r) rows"

definition insert_row :: "('r \<Rightarrow> 'r \<Rightarrow> bool) \<Rightarrow> 'r \<Rightarrow> 'r list \<Rightarrow> 'r list option" where
  "insert_row clash r rows = (if clashes clash r rows then None else Some (rows @ [r]))"

text \<open>\<open>createMany\<close>, and \<open>createMany\<close> with \<open>skipDuplicates\<close>.\<close>

fun insert_rows :: "('r \<Rightarrow> 'r \<Rightarrow> bool) \<Rightarrow> 'r list \<Rightarrow> 'r list \<Rightarrow> 'r list option" where
  "insert_rows clash [] rows = Some rows"
| "insert_rows clash (r # rs) rows =
     (case insert_row clash r rows of None \<Rightarrow> None | Some rows' \<Rightarrow> insert_rows clash rs rows')"

definition insert_skip :: "('r \<Rightarrow> 'r \<Rightarrow> bool) \<Rightarrow> 'r \<Rightarrow> 'r list \<Rightarrow> 'r list" where
  "insert_skip clash r rows = (if clashes clash r rows then rows else rows @ [r])"

definition unique_rows :: "('r \<Rightarrow> 'r \<Rightarrow> bool) \<Rightarrow> 'r list \<Rightarrow> bool" where
  "unique_rows clash rows = sorted_wrt (\<lambda>a b. \<not> clash a b) rows"

locale unique_table =
  fixes clash :: "'r \<Rightarrow> 'r \<Rightarrow> bool"
  assumes clash_sym: "clash a b \<longleftrightarrow> clash b a"
begin

lemma insert_row_iff:
  "insert_row clash r rows = Some rows' \<longleftrightarrow> rows' = rows @ [r] \<and> (\<forall>a \<in> set rows. \<not> clash r a)"
  by (auto simp: insert_row_def clashes_def list_ex_iff)

lemma unique_snoc: "unique_rows clash (rows @ [r]) \<longleftrightarrow> unique_rows clash rows \<and> (\<forall>a \<in> set rows. \<not> clash r a)"
  using clash_sym by (auto simp: unique_rows_def sorted_wrt_append)

lemma insert_row_unique:
  "insert_row clash r rows = Some rows' \<Longrightarrow> unique_rows clash rows \<Longrightarrow> unique_rows clash rows'"
  by (auto simp: insert_row_iff unique_snoc)

lemma insert_skip_unique: "unique_rows clash rows \<Longrightarrow> unique_rows clash (insert_skip clash r rows)"
  by (auto simp: insert_skip_def clashes_def list_ex_iff unique_snoc)

lemma insert_rows_append: "insert_rows clash rs rows = Some rows' \<Longrightarrow> rows' = rows @ rs"
  by (induction rs arbitrary: rows) (fastforce simp: insert_row_iff split: option.splits)+

lemma insert_rows_unique:
  "insert_rows clash rs rows = Some rows' \<Longrightarrow> unique_rows clash rows \<Longrightarrow> unique_rows clash rows'"
  by (induction rs arbitrary: rows) (auto intro: insert_row_unique split: option.splits)

lemma insert_rows_iff:
  "insert_rows clash rs rows = Some rows' \<longleftrightarrow>
   rows' = rows @ rs \<and> unique_rows clash rs \<and> (\<forall>r \<in> set rs. \<forall>a \<in> set rows. \<not> clash r a)"
proof (induction rs arbitrary: rows)
  case Nil
  then show ?case by (auto simp: unique_rows_def)
next
  case (Cons r rs)
  show ?case
  proof (cases "\<forall>a \<in> set rows. \<not> clash r a")
    case True
    then have "insert_row clash r rows = Some (rows @ [r])" by (simp add: insert_row_iff)
    with True Cons [of "rows @ [r]"] clash_sym show ?thesis by (auto simp: unique_rows_def)
  next
    case False
    then have "insert_row clash r rows = None" by (auto simp: insert_row_def clashes_def list_ex_iff)
    with False show ?thesis by auto
  qed
qed

lemma insert_rows_snoc:
  "insert_rows clash (rs @ [r]) rows =
   (case insert_rows clash rs rows of None \<Rightarrow> None | Some rows' \<Rightarrow> insert_row clash r rows')"
  by (induction rs arbitrary: rows) (auto split: option.splits)

lemma insert_rows_prefix:
  assumes "insert_rows clash (rs @ ss) rows = Some rows'"
  shows "insert_rows clash rs rows = Some (rows @ rs)"
  using assms
  by (induction rs arbitrary: rows) (auto simp: insert_row_iff split: option.splits)

lemma rejected_duplicate:
  "unique_rows clash rows \<Longrightarrow> a \<in> set rows \<Longrightarrow> clash r a \<Longrightarrow> insert_row clash r rows = None"
  by (auto simp: insert_row_def clashes_def list_ex_iff)

lemma at_most_one:
  assumes "unique_rows clash rows" "a \<in> set rows" "b \<in> set rows" "clash a b"
  shows "a = b"
proof -
  obtain i j where ij: "i < length rows" "rows ! i = a" "j < length rows" "rows ! j = b"
    using assms(2,3) by (auto simp: in_set_conv_nth)
  then show ?thesis
    using assms(1,4) clash_sym sorted_wrt_nth_less [of "\<lambda>a b. \<not> clash a b" rows]
    by (cases i j rule: linorder_cases) (auto simp: unique_rows_def)
qed

end

interpretation transitions: unique_table transition_clash
  by unfold_locales (auto simp: transition_clash_def)

interpretation histories: unique_table history_clash
  by unfold_locales (metis history_clash_def same_some_sym)

interpretation bans: unique_table ban_clash
  by unfold_locales (auto simp: ban_clash_def)

interpretation orders: unique_table order_clash
  by unfold_locales (auto simp: order_clash_def)

interpretation receipts: unique_table receipt_clash
  by unfold_locales (auto simp: receipt_clash_def)

interpretation outbox: unique_table outbox_clash
  by unfold_locales (auto simp: outbox_clash_def)

interpretation idempotency: unique_table idempotency_clash
  by unfold_locales (auto simp: idempotency_clash_def)

definition database_ok :: "database \<Rightarrow> bool" where
  "database_ok db =
     (unique_rows transition_clash (db_transitions db) \<and> unique_rows history_clash (db_histories db)
      \<and> unique_rows ban_clash (db_bans db) \<and> unique_rows order_clash (db_orders db)
      \<and> unique_rows receipt_clash (db_receipts db) \<and> unique_rows outbox_clash (db_outbox db)
      \<and> unique_rows idempotency_clash (db_idempotency db))"

end
