(* ===== verification/Projector.thy ===== *)
theory Projector
  imports Postgres_Store
begin

text \<open>
  The projector (redis-stream.projector.ts): it reads the events the authority appended to the Redis
  stream and writes them to PostgreSQL, one transaction per entry or per lane of one auction.
  \<open>parse_event\<close> reads an entry, \<open>project_entry\<close> is \<open>projectAuctionEntry\<close>, \<open>project_lane\<close> is
  \<open>projectAuctionLane\<close>, both from the first query to the commit; a thrown error rolls back.
  The lemmas show that the events of an auction are applied in sequence without gaps, each at most
  once, and that a lane does what its entries would do one after the other.
\<close>

section \<open>Entries and events\<close>

record entry =
  en_id :: string
  en_payload :: "json option"
  en_shard :: "nat option"

definition stream_receipt_id :: "entry \<Rightarrow> string" where
  "stream_receipt_id e = ''shard:'' @ show_nat (coalesce (en_shard e) 0) @ '':'' @ en_id e"

datatype projection_error =
    InvalidAuctionEvent string
  | ProjectionGap string
  | DatabaseFault string
  | SyntaxFault string

definition event_kinds :: "string set" where
  "event_kinds = {''BID_ACCEPTED'', ''BUY_NOW_COMPLETED'', ''BIDDER_BANNED'', ''AUCTION_CLOSED'', ''AUCTION_CANCELLED''}"

text \<open>A field as the checks read it: the empty text for a falsy value.\<close>

definition text_of :: "string \<Rightarrow> json \<Rightarrow> string" where
  "text_of k v = (case field_of k v of None \<Rightarrow> '''' | Some x \<Rightarrow> if truthy (Some x) then js_text x else '''')"

definition optional_text :: "string \<Rightarrow> json \<Rightarrow> string option" where
  "optional_text k v = (case field_of k v of None \<Rightarrow> None | Some JNull \<Rightarrow> None | Some x \<Rightarrow> Some (js_text x))"

definition given :: "string option \<Rightarrow> bool" where
  "given v = (v \<noteq> None \<and> v \<noteq> Some '''')"

definition contract_ok :: "json \<Rightarrow> bool" where
  "contract_ok v =
     (uuid_pattern (text_of ''eventId'' v)
      \<and> (case field_of ''type'' v of Some (JString t) \<Rightarrow> t \<in> event_kinds | _ \<Rightarrow> False)
      \<and> list_all (\<lambda>k. decimal_pattern (text_of k v))
          [''actorId'', ''productId'', ''currentPriceVnd'', ''endAtMs'', ''sequence'', ''version'', ''occurredAtMs'']
      \<and> field_of ''schemaVersion'' v = Some (JInt 1))"

definition read_event :: "json \<Rightarrow> stream_event" where
  "read_event v =
     \<lparr>e_event_id = text_of ''eventId'' v, e_correlation_id = text_of ''correlationId'' v,
      e_idempotency_key = text_of ''idempotencyKey'' v, e_schema_version = 1,
      e_type = text_of ''type'' v, e_product_id = text_of ''productId'' v, e_actor_id = text_of ''actorId'' v,
      e_requested_max = optional_text ''requestedMaxPriceVnd'' v,
      e_target_user_id = optional_text ''targetUserId'' v,
      e_current_price = text_of ''currentPriceVnd'' v, e_leader_id = text_of ''leaderId'' v,
      e_leader_max = text_of ''leaderMaxPriceVnd'' v, e_end_at = text_of ''endAtMs'' v,
      e_status = text_of ''status'' v, e_sequence = text_of ''sequence'' v, e_version = text_of ''version'' v,
      e_occurred_at = text_of ''occurredAtMs'' v, e_order_id = optional_text ''orderId'' v,
      e_reason = optional_text ''reason'' v\<rparr>"

definition parse_event :: "json option \<Rightarrow> (projection_error, stream_event) result" where
  "parse_event payload =
     (case payload of
        None \<Rightarrow> throws (InvalidAuctionEvent ''Stream payload is not JSON'')
      | Some v \<Rightarrow>
          if \<not> truthy (Some v) \<or> \<not> is_object v
          then throws (InvalidAuctionEvent ''Stream payload is not an object'')
          else if \<not> contract_ok v then throws (InvalidAuctionEvent ''Stream event contract is invalid'')
          else if given (optional_text ''orderId'' v) \<and> \<not> uuid_pattern (or_empty (optional_text ''orderId'' v))
          then throws (InvalidAuctionEvent ''Order UUID is invalid'')
          else returns (read_event v))"

section \<open>One entry\<close>

datatype projected = Applied | Duplicate

definition number_of :: "string \<Rightarrow> (projection_error, int) result" where
  "number_of s = (case big_int s of None \<Rightarrow> throws (SyntaxFault s) | Some n \<Rightarrow> returns n)"

definition leader_of :: "stream_event \<Rightarrow> (projection_error, int option) result" where
  "leader_of ev =
     (if e_leader_id ev = '''' then returns None
      else bind_result (number_of (e_leader_id ev)) (\<lambda>n. returns (Some n)))"

definition decimal_of :: "string \<Rightarrow> int" where
  "decimal_of s = int (dec_val s)"

definition insert_or_fail :: "('r \<Rightarrow> 'r \<Rightarrow> bool) \<Rightarrow> string \<Rightarrow> 'r \<Rightarrow> 'r list \<Rightarrow> (projection_error, 'r list) result" where
  "insert_or_fail clash name r rows =
     (case insert_row clash r rows of None \<Rightarrow> throws (DatabaseFault name) | Some rows' \<Rightarrow> returns rows')"

definition transition_of :: "stream_event \<Rightarrow> transition_row" where
  "transition_of ev =
     \<lparr>tr_event_id = e_event_id ev, tr_product = decimal_of (e_product_id ev), tr_type = e_type ev,
      tr_sequence = decimal_of (e_sequence ev), tr_version = decimal_of (e_version ev), tr_payload = ev\<rparr>"

definition history_of :: "stream_event \<Rightarrow> int \<Rightarrow> int option \<Rightarrow> history_row" where
  "history_of ev maximum leader =
     \<lparr>hi_event_id = Some (e_event_id ev), hi_product = decimal_of (e_product_id ev),
      hi_user = decimal_of (e_actor_id ev), hi_max = maximum, hi_price = decimal_of (e_current_price ev),
      hi_owner = leader, hi_status = None, hi_sequence = Some (decimal_of (e_sequence ev)),
      hi_version = Some (decimal_of (e_version ev))\<rparr>"

definition ban_of :: "stream_event \<Rightarrow> int \<Rightarrow> ban_row" where
  "ban_of ev user = \<lparr>bn_product = decimal_of (e_product_id ev), bn_user = user, bn_reason = e_reason ev\<rparr>"

definition order_of_event :: "stream_event \<Rightarrow> int \<Rightarrow> order_row" where
  "order_of_event ev leader =
     \<lparr>od_public_id = or_empty (e_order_id ev), od_product = decimal_of (e_product_id ev), od_user = leader,
      od_sequence = Some (decimal_of (e_sequence ev))\<rparr>"

definition receipt_of :: "entry \<Rightarrow> stream_event \<Rightarrow> receipt_row" where
  "receipt_of en ev =
     \<lparr>rc_event_id = e_event_id ev, rc_entry_id = stream_receipt_id en, rc_product = decimal_of (e_product_id ev),
      rc_sequence = decimal_of (e_sequence ev), rc_version = decimal_of (e_version ev)\<rparr>"

text \<open>The topic is the column's default.\<close>

definition outbox_of :: "stream_event \<Rightarrow> outbox_row" where
  "outbox_of ev =
     \<lparr>ob_event_id = e_event_id ev, ob_event_type = coalesce (canonical_event_type (e_type ev)) '''',
      ob_event_version = 1, ob_aggregate_id = e_product_id ev, ob_payload = EventPayload ev,
      ob_topic = ''bidding_events''\<rparr>"

definition mark_banned :: "int \<Rightarrow> int \<Rightarrow> history_row \<Rightarrow> history_row" where
  "mark_banned product user h =
     (if hi_product h = product \<and> hi_user h = user \<and> hi_status h = None then h\<lparr>hi_status := Some ''BANNED''\<rparr> else h)"

text \<open>Lines 270-299: the history row of a bid, or the ban.\<close>

definition write_bidders :: "stream_event \<Rightarrow> int option \<Rightarrow> database \<Rightarrow> (projection_error, database) result" where
  "write_bidders ev leader db =
     (if e_type ev = ''BID_ACCEPTED''
      then if \<not> given (e_requested_max ev) then throws (InvalidAuctionEvent ''Accepted bid has no maximum'')
           else bind_result (number_of (or_empty (e_requested_max ev))) (\<lambda>maximum.
             if decimal_of (e_actor_id ev) \<notin> db_users db then throws (DatabaseFault ''bidding_history_user'')
             else bind_result (insert_or_fail history_clash ''bidding_history'' (history_of ev maximum leader) (db_histories db))
               (\<lambda>rows. returns (db\<lparr>db_histories := rows\<rparr>)))
      else if e_type ev = ''BIDDER_BANNED'' \<and> given (e_target_user_id ev)
      then bind_result (number_of (or_empty (e_target_user_id ev))) (\<lambda>user.
             if user \<notin> db_users db then throws (DatabaseFault ''bidding_ban_user_user'')
             else returns (db\<lparr>db_bans := insert_skip ban_clash (ban_of ev user) (db_bans db),
                    db_histories := map (mark_banned (decimal_of (e_product_id ev)) user) (db_histories db)\<rparr>))
      else returns db)"

definition creates_order :: "stream_event \<Rightarrow> int option \<Rightarrow> bool" where
  "creates_order ev leader =
     (given (e_order_id ev) \<and> leader \<noteq> None \<and> (e_type ev = ''BUY_NOW_COMPLETED'' \<or> e_type ev = ''AUCTION_CLOSED''))"

definition write_order :: "stream_event \<Rightarrow> int option \<Rightarrow> database \<Rightarrow> (projection_error, database) result" where
  "write_order ev leader db =
     (if creates_order ev leader
      then if the leader \<notin> db_users db then throws (DatabaseFault ''orders_user'')
           else bind_result (insert_or_fail order_clash ''orders'' (order_of_event ev (the leader)) (db_orders db))
             (\<lambda>rows. returns (db\<lparr>db_orders := rows\<rparr>))
      else returns db)"

definition snapshot :: "stream_event \<Rightarrow> int option \<Rightarrow> product_row \<Rightarrow> product_row" where
  "snapshot ev leader p =
     p\<lparr>pr_current_price := Some (decimal_of (e_current_price ev)), pr_owner := leader,
       pr_end_time := Some (decimal_of (e_end_at ev)), pr_status := e_status ev,
       pr_removed := Some (e_status ev = ''CANCELLED''), pr_sequence := decimal_of (e_sequence ev),
       pr_version := decimal_of (e_version ev)\<rparr>"

definition write_product :: "stream_event \<Rightarrow> int option \<Rightarrow> database \<Rightarrow> (projection_error, database) result" where
  "write_product ev leader db =
     (case db_products db (decimal_of (e_product_id ev)) of
        None \<Rightarrow> throws (ProjectionGap ''Projection version fence rejected the snapshot update'')
      | Some p \<Rightarrow>
          if \<not> pr_version p < decimal_of (e_version ev)
          then throws (ProjectionGap ''Projection version fence rejected the snapshot update'')
          else returns (db\<lparr>db_products := (db_products db)(decimal_of (e_product_id ev) \<mapsto> snapshot ev leader p)\<rparr>))"

definition write_receipt :: "entry \<Rightarrow> stream_event \<Rightarrow> database \<Rightarrow> (projection_error, database) result" where
  "write_receipt en ev db =
     bind_result (insert_or_fail receipt_clash ''auction_processed_events'' (receipt_of en ev) (db_receipts db))
       (\<lambda>rows. bind_result (insert_or_fail outbox_clash ''auction_outbox'' (outbox_of ev) (db_outbox db))
         (\<lambda>rows'. returns (db\<lparr>db_receipts := rows, db_outbox := rows'\<rparr>)))"

definition processed :: "database \<Rightarrow> string \<Rightarrow> bool" where
  "processed db event_id = list_ex (\<lambda>r. rc_event_id r = event_id) (db_receipts db)"

definition sequence_taken :: "database \<Rightarrow> int \<Rightarrow> int \<Rightarrow> bool" where
  "sequence_taken db product sequence =
     list_ex (\<lambda>r. rc_product r = product \<and> rc_sequence r = sequence) (db_receipts db)"

definition apply_event :: "entry \<Rightarrow> stream_event \<Rightarrow> int option \<Rightarrow> database \<Rightarrow> (projection_error, database) result" where
  "apply_event en ev leader db =
     bind_result (insert_or_fail transition_clash ''auction_transitions'' (transition_of ev) (db_transitions db)) (\<lambda>rows.
     bind_result (write_bidders ev leader (db\<lparr>db_transitions := rows\<rparr>)) (\<lambda>db1.
     bind_result (write_order ev leader db1) (\<lambda>db2.
     bind_result (write_product ev leader db2) (\<lambda>db3.
     write_receipt en ev db3))))"

definition project_event :: "entry \<Rightarrow> stream_event \<Rightarrow> int option \<Rightarrow> database \<Rightarrow> (projection_error, projected \<times> database) result" where
  "project_event en ev leader db =
     (let product = decimal_of (e_product_id ev); sequence = decimal_of (e_sequence ev)
      in if processed db (e_event_id ev) then returns (Duplicate, db)
         else if sequence_taken db product sequence
         then throws (InvalidAuctionEvent (''Sequence '' @ e_sequence ev @ '' belongs to another event''))
         else case db_products db product of
           None \<Rightarrow> throws (InvalidAuctionEvent (''Auction '' @ e_product_id ev @ '' does not exist''))
         | Some p \<Rightarrow>
             if sequence \<noteq> pr_sequence p + 1 \<or> decimal_of (e_version ev) \<le> pr_version p
             then throws (ProjectionGap (''Projection fence rejected auction='' @ e_product_id ev))
             else bind_result (apply_event en ev leader db) (\<lambda>db'. returns (Applied, db')))"

definition project_entry :: "entry \<Rightarrow> database \<Rightarrow> (projection_error, projected \<times> database) result" where
  "project_entry en db =
     bind_result (parse_event (en_payload en)) (\<lambda>ev.
     bind_result (leader_of ev) (\<lambda>leader. project_event en ev leader db))"

section \<open>What an applied event does\<close>

lemma insert_or_fail_Inr:
  "insert_or_fail clash name r rows = Inr rows' \<longleftrightarrow> insert_row clash r rows = Some rows'"
  by (auto simp: insert_or_fail_def split: option.splits)

lemma insert_row_Some: "insert_row clash r rows = Some rows' \<Longrightarrow> rows' = rows @ [r]"
  by (auto simp: insert_row_def split: if_splits)

lemma write_bidders_frame:
  "write_bidders ev leader db = Inr db' \<Longrightarrow>
   db_transitions db' = db_transitions db \<and> db_orders db' = db_orders db \<and> db_products db' = db_products db
   \<and> db_receipts db' = db_receipts db \<and> db_outbox db' = db_outbox db \<and> db_users db' = db_users db
   \<and> db_idempotency db' = db_idempotency db"
  by (auto simp: write_bidders_def bind_result_Inr_iff split: if_splits)

lemma write_order_frame:
  "write_order ev leader db = Inr db' \<Longrightarrow>
   db_transitions db' = db_transitions db \<and> db_histories db' = db_histories db \<and> db_bans db' = db_bans db
   \<and> db_products db' = db_products db \<and> db_receipts db' = db_receipts db \<and> db_outbox db' = db_outbox db
   \<and> db_users db' = db_users db \<and> db_idempotency db' = db_idempotency db
   \<and> db_orders db' = db_orders db @ (if creates_order ev leader then [order_of_event ev (the leader)] else [])"
  by (auto simp: write_order_def bind_result_Inr_iff insert_or_fail_Inr dest: insert_row_Some split: if_splits)

lemma write_product_frame:
  "write_product ev leader db = Inr db' \<Longrightarrow>
   (\<exists>p. db_products db (decimal_of (e_product_id ev)) = Some p \<and> pr_version p < decimal_of (e_version ev)
     \<and> db' = db\<lparr>db_products := (db_products db)(decimal_of (e_product_id ev) \<mapsto> snapshot ev leader p)\<rparr>)"
  by (auto simp: write_product_def split: option.splits if_splits)

lemma write_receipt_frame:
  "write_receipt en ev db = Inr db' \<Longrightarrow>
   db' = db\<lparr>db_receipts := db_receipts db @ [receipt_of en ev], db_outbox := db_outbox db @ [outbox_of ev]\<rparr>
   \<and> \<not> clashes receipt_clash (receipt_of en ev) (db_receipts db) \<and> \<not> clashes outbox_clash (outbox_of ev) (db_outbox db)"
  by (auto simp: write_receipt_def bind_result_Inr_iff insert_or_fail_Inr insert_row_def split: if_splits)

lemma apply_event_effect:
  assumes "apply_event en ev leader db = Inr db'"
  shows "db_transitions db' = db_transitions db @ [transition_of ev]"
    "db_receipts db' = db_receipts db @ [receipt_of en ev]"
    "db_outbox db' = db_outbox db @ [outbox_of ev]"
    "db_orders db' = db_orders db @ (if creates_order ev leader then [order_of_event ev (the leader)] else [])"
    "\<exists>p. db_products db (decimal_of (e_product_id ev)) = Some p
       \<and> db_products db' = (db_products db)(decimal_of (e_product_id ev) \<mapsto> snapshot ev leader p)"
    "db_users db' = db_users db"
proof -
  obtain rows db1 db2 db3 where s:
    "insert_or_fail transition_clash ''auction_transitions'' (transition_of ev) (db_transitions db) = Inr rows"
    "write_bidders ev leader (db\<lparr>db_transitions := rows\<rparr>) = Inr db1"
    "write_order ev leader db1 = Inr db2" "write_product ev leader db2 = Inr db3"
    "write_receipt en ev db3 = Inr db'"
    using assms by (auto simp: apply_event_def bind_result_Inr_iff)
  have "rows = db_transitions db @ [transition_of ev]"
    using s(1) by (auto simp: insert_or_fail_Inr dest: insert_row_Some)
  with write_bidders_frame [OF s(2)] write_order_frame [OF s(3)] write_product_frame [OF s(4)]
    write_receipt_frame [OF s(5)]
  show "db_transitions db' = db_transitions db @ [transition_of ev]"
    "db_receipts db' = db_receipts db @ [receipt_of en ev]"
    "db_outbox db' = db_outbox db @ [outbox_of ev]"
    "db_orders db' = db_orders db @ (if creates_order ev leader then [order_of_event ev (the leader)] else [])"
    "\<exists>p. db_products db (decimal_of (e_product_id ev)) = Some p
       \<and> db_products db' = (db_products db)(decimal_of (e_product_id ev) \<mapsto> snapshot ev leader p)"
    "db_users db' = db_users db"
    by auto
qed

lemma project_event_cases:
  assumes "project_event en ev leader db = Inr (r, db')"
  obtains "r = Duplicate" "db' = db" "processed db (e_event_id ev)"
  | p where "r = Applied" "\<not> processed db (e_event_id ev)"
      "\<not> sequence_taken db (decimal_of (e_product_id ev)) (decimal_of (e_sequence ev))"
      "db_products db (decimal_of (e_product_id ev)) = Some p" "decimal_of (e_sequence ev) = pr_sequence p + 1"
      "pr_version p < decimal_of (e_version ev)" "apply_event en ev leader db = Inr db'"
  using assms
  by (auto simp: project_event_def Let_def bind_result_Inr_iff split: if_splits option.splits)

lemma project_entry_Inr:
  assumes "project_entry en db = Inr (r, db')"
  obtains ev leader where "parse_event (en_payload en) = Inr ev" "leader_of ev = Inr leader"
    "project_event en ev leader db = Inr (r, db')"
  using assms by (auto simp: project_entry_def bind_result_Inr_iff)

section \<open>Redelivery\<close>

definition project_step :: "entry \<Rightarrow> database \<Rightarrow> database" where
  "project_step en db = (case project_entry en db of Inl _ \<Rightarrow> db | Inr (_, db') \<Rightarrow> db')"

definition entry_seen :: "database \<Rightarrow> entry \<Rightarrow> bool" where
  "entry_seen db en = (case parse_event (en_payload en) of Inl _ \<Rightarrow> False | Inr ev \<Rightarrow> processed db (e_event_id ev))"

definition entry_applies :: "database \<Rightarrow> entry \<Rightarrow> bool" where
  "entry_applies db en = (case project_entry en db of Inr (Applied, _) \<Rightarrow> True | _ \<Rightarrow> False)"

lemma project_entry_receipts:
  assumes "project_entry en db = Inr (r, db')"
  shows "processed db x \<Longrightarrow> processed db' x"
    and "r = Applied \<Longrightarrow> parse_event (en_payload en) = Inr ev \<Longrightarrow> processed db' (e_event_id ev)"
proof -
  obtain ev' leader where e: "parse_event (en_payload en) = Inr ev'" "project_event en ev' leader db = Inr (r, db')"
    using assms by (rule project_entry_Inr)
  show "processed db x \<Longrightarrow> processed db' x"
    using e(2) by (cases rule: project_event_cases) (auto simp: processed_def dest: apply_event_effect(2))
  show "r = Applied \<Longrightarrow> parse_event (en_payload en) = Inr ev \<Longrightarrow> processed db' (e_event_id ev)"
    using e(2) e(1) by (cases rule: project_event_cases)
      (auto simp: processed_def receipt_of_def dest!: apply_event_effect(2))
qed

lemma project_seen:
  assumes "entry_seen db en"
  shows "project_step en db = db"
proof (cases "project_entry en db")
  case (Inr rd)
  obtain r db' where rd: "rd = (r, db')" by (cases rd)
  obtain ev leader where e: "parse_event (en_payload en) = Inr ev" "project_event en ev leader db = Inr (r, db')"
    using Inr unfolding rd by (rule project_entry_Inr)
  from e(2) have "db' = db"
    using assms e(1) by (cases rule: project_event_cases) (auto simp: entry_seen_def)
  with Inr rd show ?thesis by (simp add: project_step_def)
qed (simp add: project_step_def)

interpretation projector: idempotent_consumer project_step entry_seen entry_applies
proof
  fix db en
  assume "entry_applies db en"
  then obtain db' where p: "project_entry en db = Inr (Applied, db')"
    by (auto simp: entry_applies_def split: sum.splits prod.splits projected.splits)
  obtain ev where "parse_event (en_payload en) = Inr ev" using p by (rule project_entry_Inr)
  with project_entry_receipts(2) [OF p] p show "entry_seen (project_step en db) en"
    by (simp add: entry_seen_def project_step_def)
next
  fix db en en'
  assume "entry_seen db en"
  then show "entry_seen (project_step en' db) en"
    using project_entry_receipts(1) [of en' db]
    by (auto simp: entry_seen_def project_step_def split: sum.splits)
qed (rule project_seen)

section \<open>Sequences without gaps\<close>

definition sequences_of :: "database \<Rightarrow> int \<Rightarrow> int list" where
  "sequences_of db product = map rc_sequence (filter (\<lambda>r. rc_product r = product) (db_receipts db))"

definition gapless :: "database \<Rightarrow> bool" where
  "gapless db =
     (\<forall>product. case db_products db product of
        None \<Rightarrow> sequences_of db product = []
      | Some p \<Rightarrow> sequences_of db product = [pr_sequence p - int (length (sequences_of db product)) + 1..pr_sequence p])"

lemma upto_snoc: "i \<le> j + 1 \<Longrightarrow> [i..j] @ [j + 1] = [i..j + 1]"
  for i j :: int
  using upto_rec2 [of i "j + 1"] by simp

lemma gapless_project:
  assumes g: "gapless db" and p: "project_event en ev leader db = Inr (r, db')"
  shows "gapless db'"
  using p
proof (cases rule: project_event_cases)
  case 1
  with g show ?thesis by simp
next
  case (2 p)
  define product where "product = decimal_of (e_product_id ev)"
  obtain q where q: "db_products db product = Some q"
    "db_products db' = (db_products db)(product \<mapsto> snapshot ev leader q)"
    using apply_event_effect(5) [OF 2(7)] by (auto simp: product_def)
  have seqs: "sequences_of db' k = sequences_of db k @ (if k = product then [pr_sequence q + 1] else [])" for k
    using 2(4,5) q(1) by (simp add: sequences_of_def apply_event_effect(2) [OF 2(7)] receipt_of_def product_def)
  have "sequences_of db product = [pr_sequence q - int (length (sequences_of db product)) + 1..pr_sequence q]"
    using g q(1) by (simp add: gapless_def split: option.splits)
  then have new: "sequences_of db' product
      = [pr_sequence q + 1 - int (length (sequences_of db' product)) + 1..pr_sequence q + 1]"
    using upto_snoc [of "pr_sequence q - int (length (sequences_of db product)) + 1" "pr_sequence q"]
    by (simp add: seqs)
  have "pr_sequence (snapshot ev leader q) = pr_sequence q + 1"
    using 2(4,5) q(1) by (simp add: snapshot_def product_def)
  note own = this
  have other: "sequences_of db' k = sequences_of db k" "db_products db' k = db_products db k" if "k \<noteq> product" for k
    using that by (simp_all add: seqs q(2))
  show ?thesis
    unfolding gapless_def
  proof (intro allI)
    fix k
    show "case db_products db' k of None \<Rightarrow> sequences_of db' k = []
      | Some p \<Rightarrow> sequences_of db' k = [pr_sequence p - int (length (sequences_of db' k)) + 1..pr_sequence p]"
    proof (cases "k = product")
      case True
      then show ?thesis using new by (simp only: q(2) fun_upd_same option.case own)
    next
      case False
      then show ?thesis using spec [OF g [unfolded gapless_def], of k]
        by (simp only: other [OF False])
    qed
  qed
qed

lemma gapless_step: "gapless db \<Longrightarrow> gapless (project_step en db)"
proof (cases "project_entry en db")
  case (Inr rd)
  assume g: "gapless db"
  obtain r db' where rd: "rd = (r, db')" by (cases rd)
  obtain ev leader where "project_event en ev leader db = Inr (r, db')"
    using Inr unfolding rd by (rule project_entry_Inr)
  from gapless_project [OF g this] Inr rd show ?thesis by (simp add: project_step_def)
qed (simp add: project_step_def)

interpretation projection_run: kept_invariant project_step "\<lambda>_. True" gapless
  by unfold_locales (rule gapless_step)

lemma gapless_initial:
  "db_receipts db = [] \<Longrightarrow> gapless db"
  by (simp add: gapless_def sequences_of_def split: option.splits)

section \<open>Events of the authority\<close>

text \<open>What \<open>cjson.encode(event)\<close> writes: absent fields are left out.\<close>

definition opt_field :: "string \<Rightarrow> string option \<Rightarrow> (string \<times> json) list" where
  "opt_field k v = (case v of None \<Rightarrow> [] | Some s \<Rightarrow> [(k, JString s)])"

definition event_json :: "stream_event \<Rightarrow> json" where
  "event_json ev = JObject
     ([(''eventId'', JString (e_event_id ev)), (''correlationId'', JString (e_correlation_id ev)),
       (''idempotencyKey'', JString (e_idempotency_key ev)), (''schemaVersion'', JInt (e_schema_version ev)),
       (''type'', JString (e_type ev)), (''productId'', JString (e_product_id ev)),
       (''actorId'', JString (e_actor_id ev)), (''currentPriceVnd'', JString (e_current_price ev)),
       (''leaderId'', JString (e_leader_id ev)), (''leaderMaxPriceVnd'', JString (e_leader_max ev)),
       (''endAtMs'', JString (e_end_at ev)), (''status'', JString (e_status ev)),
       (''sequence'', JString (e_sequence ev)), (''version'', JString (e_version ev)),
       (''occurredAtMs'', JString (e_occurred_at ev))]
      @ opt_field ''requestedMaxPriceVnd'' (e_requested_max ev) @ opt_field ''targetUserId'' (e_target_user_id ev)
      @ opt_field ''orderId'' (e_order_id ev) @ opt_field ''reason'' (e_reason ev))"

definition event_ok :: "stream_event \<Rightarrow> bool" where
  "event_ok ev =
     (uuid_pattern (e_event_id ev) \<and> e_type ev \<in> event_kinds \<and> e_schema_version ev = 1
      \<and> list_all decimal_pattern [e_actor_id ev, e_product_id ev, e_current_price ev, e_end_at ev,
          e_sequence ev, e_version ev, e_occurred_at ev]
      \<and> (given (e_order_id ev) \<longrightarrow> uuid_pattern (or_empty (e_order_id ev))))"

lemma opt_field_lookup: "map_of (rev (opt_field k v)) k' = (if k' = k then map_option JString v else None)"
  by (cases v) (auto simp: opt_field_def)

lemma field_event_json:
  "field_of k (event_json ev) =
   (case map_of (rev (opt_field ''requestedMaxPriceVnd'' (e_requested_max ev) @ opt_field ''targetUserId'' (e_target_user_id ev)
        @ opt_field ''orderId'' (e_order_id ev) @ opt_field ''reason'' (e_reason ev))) k of
      Some v \<Rightarrow> Some v
    | None \<Rightarrow> map_of
      [(''eventId'', JString (e_event_id ev)), (''correlationId'', JString (e_correlation_id ev)),
       (''idempotencyKey'', JString (e_idempotency_key ev)), (''schemaVersion'', JInt (e_schema_version ev)),
       (''type'', JString (e_type ev)), (''productId'', JString (e_product_id ev)),
       (''actorId'', JString (e_actor_id ev)), (''currentPriceVnd'', JString (e_current_price ev)),
       (''leaderId'', JString (e_leader_id ev)), (''leaderMaxPriceVnd'', JString (e_leader_max ev)),
       (''endAtMs'', JString (e_end_at ev)), (''status'', JString (e_status ev)),
       (''sequence'', JString (e_sequence ev)), (''version'', JString (e_version ev)),
       (''occurredAtMs'', JString (e_occurred_at ev))] k)"
  unfolding event_json_def field_of_def json.case rev_append map_of_append map_add_def
  by (auto split: option.splits)

lemma text_event_json:
  "text_of ''eventId'' (event_json ev) = e_event_id ev"
  "text_of ''correlationId'' (event_json ev) = e_correlation_id ev"
  "text_of ''idempotencyKey'' (event_json ev) = e_idempotency_key ev"
  "text_of ''type'' (event_json ev) = e_type ev"
  "text_of ''productId'' (event_json ev) = e_product_id ev"
  "text_of ''actorId'' (event_json ev) = e_actor_id ev"
  "text_of ''currentPriceVnd'' (event_json ev) = e_current_price ev"
  "text_of ''leaderId'' (event_json ev) = e_leader_id ev"
  "text_of ''leaderMaxPriceVnd'' (event_json ev) = e_leader_max ev"
  "text_of ''endAtMs'' (event_json ev) = e_end_at ev"
  "text_of ''status'' (event_json ev) = e_status ev"
  "text_of ''sequence'' (event_json ev) = e_sequence ev"
  "text_of ''version'' (event_json ev) = e_version ev"
  "text_of ''occurredAtMs'' (event_json ev) = e_occurred_at ev"
  "field_of ''type'' (event_json ev) = Some (JString (e_type ev))"
  "field_of ''schemaVersion'' (event_json ev) = Some (JInt (e_schema_version ev))"
  by (simp_all add: text_of_def field_event_json map_add_def opt_field_lookup)

lemma optional_event_json:
  "optional_text ''requestedMaxPriceVnd'' (event_json ev) = e_requested_max ev"
  "optional_text ''targetUserId'' (event_json ev) = e_target_user_id ev"
  "optional_text ''orderId'' (event_json ev) = e_order_id ev"
  "optional_text ''reason'' (event_json ev) = e_reason ev"
  by (cases "e_requested_max ev"; cases "e_target_user_id ev"; cases "e_order_id ev"; cases "e_reason ev";
      simp add: optional_text_def field_event_json map_add_def opt_field_def)+

lemma parse_event_json:
  assumes "event_ok ev"
  shows "parse_event (Some (event_json ev)) = Inr ev"
proof -
  have "read_event (event_json ev) = ev"
    using assms by (simp add: read_event_def text_event_json optional_event_json event_ok_def)
  moreover have "contract_ok (event_json ev)"
    using assms by (simp add: contract_ok_def text_event_json event_ok_def)
  moreover have "truthy (Some (event_json ev))" "is_object (event_json ev)"
    by (simp_all add: event_json_def)
  ultimately show ?thesis
    using assms by (simp add: parse_event_def optional_event_json event_ok_def)
qed

definition example_event :: stream_event where
  "example_event =
     \<lparr>e_event_id = ''00000000-0000-4000-8000-000000000001'', e_correlation_id = ''c1'', e_idempotency_key = ''k1'',
      e_schema_version = 1, e_type = ''BID_ACCEPTED'', e_product_id = show_nat 7, e_actor_id = show_nat 3,
      e_requested_max = Some (show_nat 200), e_target_user_id = None, e_current_price = show_nat 160,
      e_leader_id = show_nat 3, e_leader_max = show_nat 200, e_end_at = show_nat 1000, e_status = ''ACTIVE'',
      e_sequence = show_nat 5, e_version = show_nat 5, e_occurred_at = show_nat 500, e_order_id = None,
      e_reason = None\<rparr>"

definition example_entry :: entry where
  "example_entry = \<lparr>en_id = ''1-0'', en_payload = Some (event_json example_event), en_shard = None\<rparr>"

definition example_product :: product_row where
  "example_product =
     \<lparr>pr_seller = 4, pr_start_price = Some 50, pr_step_price = Some 10, pr_current_price = Some 110,
      pr_buy_now_price = None, pr_owner = Some 2, pr_turns = None, pr_start_time = Some 0, pr_end_time = Some 1000,
      pr_removed = Some False, pr_auto_extended = None, pr_status = ''ACTIVE'', pr_version = 4, pr_sequence = 4\<rparr>"

definition example_database :: database where
  "example_database =
     \<lparr>db_users = {2, 3, 4}, db_products = [7 \<mapsto> example_product], db_transitions = [], db_histories = [],
      db_bans = [], db_orders = [], db_receipts = [], db_outbox = [], db_idempotency = []\<rparr>"

lemma example_event_ok: "event_ok example_event"
proof -
  have "uuid_pattern ''00000000-0000-4000-8000-000000000001''"
    by (simp add: uuid_pattern_def upt_rec is_hex_def is_digit_def)
  then show ?thesis
    by (simp add: event_ok_def example_event_def event_kinds_def decimal_show_nat given_def)
qed

lemma example_projected:
  "\<exists>db'. project_entry example_entry example_database = Inr (Applied, db')"
  "parse_event (en_payload example_entry) = Inr example_event"
proof -
  show parsed: "parse_event (en_payload example_entry) = Inr example_event"
    using parse_event_json [OF example_event_ok] by (simp add: example_entry_def)
  have "decimal_of (show_nat n) = int n" for n by (simp add: decimal_of_def)
  then have "\<exists>db'. project_event example_entry example_event (Some 3) example_database = Inr (Applied, db')"
    by (simp add: project_event_def example_event_def example_database_def example_product_def processed_def
        sequence_taken_def apply_event_def insert_or_fail_def insert_row_def clashes_def write_bidders_def given_def
        number_of_def write_order_def creates_order_def write_product_def write_receipt_def or_empty_def)
  moreover have "leader_of example_event = Inr (Some 3)"
    by (simp add: leader_of_def number_of_def example_event_def)
  ultimately show "\<exists>db'. project_entry example_entry example_database = Inr (Applied, db')"
    by (simp add: project_entry_def parsed)
qed

lemma applied_event_effect_product:
  assumes "project_entry en db = Inr (Applied, db')" "parse_event (en_payload en) = Inr ev"
  obtains leader p where "leader_of ev = Inr leader" "db_products db (decimal_of (e_product_id ev)) = Some p"
    "decimal_of (e_sequence ev) = pr_sequence p + 1" "pr_version p < decimal_of (e_version ev)"
    "db_products db' = (db_products db)(decimal_of (e_product_id ev) \<mapsto> snapshot ev leader p)"
proof -
  obtain leader where e: "leader_of ev = Inr leader" "project_event en ev leader db = Inr (Applied, db')"
    using assms by (auto elim!: project_entry_Inr)
  from e(2) show thesis
  proof (cases rule: project_event_cases)
    case (2 p)
    with apply_event_effect(5) [OF 2(7)] e(1) that show thesis by auto
  qed simp
qed

section \<open>Properties of single entries\<close>

text \<open>C17: An event is projected in one piece and exactly once. When \<open>projectAuctionEntry\<close> answers
  applied, the event was not processed before and continues its auction's sequence by one with a
  higher version; the commit adds exactly one transition, one receipt and one outbox row for it, at
  most one order, and the product row is the event's snapshot. Every later delivery of the event
  changes nothing, whatever was projected in between.\<close>

theorem applied_event_committed_once:
  assumes "project_entry en db = Inr (Applied, db')" "parse_event (en_payload en) = Inr ev"
  shows "\<not> processed db (e_event_id ev)
    \<and> db_transitions db' = db_transitions db @ [transition_of ev]
    \<and> db_receipts db' = db_receipts db @ [receipt_of en ev]
    \<and> db_outbox db' = db_outbox db @ [outbox_of ev]
    \<and> length (db_orders db') \<le> Suc (length (db_orders db))
    \<and> (\<exists>p leader. db_products db (decimal_of (e_product_id ev)) = Some p
        \<and> decimal_of (e_sequence ev) = pr_sequence p + 1 \<and> pr_version p < decimal_of (e_version ev)
        \<and> leader_of ev = Inr leader
        \<and> db_products db' = (db_products db)(decimal_of (e_product_id ev) \<mapsto> snapshot ev leader p))
    \<and> project_step en (fold project_step later db') = fold project_step later db'"
proof -
  obtain leader where e: "leader_of ev = Inr leader" "project_event en ev leader db = Inr (Applied, db')"
    using assms by (auto elim!: project_entry_Inr)
  have again: "project_step en (fold project_step later (project_step en db)) = fold project_step later (project_step en db)"
    by (rule projector.redelivery_later) (simp add: entry_applies_def assms(1))
  from e(2) show ?thesis
  proof (cases rule: project_event_cases)
    case (2 p)
    with apply_event_effect [OF 2(7)] e(1) again assms(1) show ?thesis by (auto simp: project_step_def)
  qed simp
qed

theorem applied_event_committed_once_witness:
  "\<exists>db'. project_entry example_entry example_database = Inr (Applied, db')
     \<and> db_receipts db' = [receipt_of example_entry example_event]
     \<and> project_step example_entry (fold project_step [example_entry] db') = fold project_step [example_entry] db'"
proof -
  obtain db' where p: "project_entry example_entry example_database = Inr (Applied, db')"
    using example_projected(1) by blast
  from applied_event_committed_once [OF p example_projected(2), of "[example_entry]"] p show ?thesis
    by (auto simp: example_database_def)
qed


text \<open>C18: The projection has no gaps and keeps the order. Starting without receipts and after any
  deliveries of any entries, duplicated, reordered or malformed, the receipts of every auction are,
  in the order of their insertion, exactly the consecutive sequence numbers that end with the
  sequence of its product row.\<close>

theorem projection_is_gapless:
  assumes "db_receipts db = []" "db_products (fold project_step entries db) product = Some p"
  shows "map rc_sequence (filter (\<lambda>r. rc_product r = product) (db_receipts (fold project_step entries db)))
    = [pr_sequence p - int (length (filter (\<lambda>r. rc_product r = product) (db_receipts (fold project_step entries db)))) + 1
       ..pr_sequence p]"
proof -
  have "gapless (fold project_step entries db)"
    using gapless_initial [OF assms(1)] by (intro projection_run.run_kept) simp_all
  then have "sequences_of (fold project_step entries db) product
      = [pr_sequence p - int (length (sequences_of (fold project_step entries db) product)) + 1..pr_sequence p]"
    using assms(2) by (simp add: gapless_def split: option.splits)
  then show ?thesis by (simp add: sequences_of_def)
qed

theorem projection_is_gapless_witness:
  "\<exists>p. db_products (fold project_step [example_entry, example_entry] example_database) 7 = Some p \<and>
     map rc_sequence (filter (\<lambda>r. rc_product r = 7) (db_receipts (fold project_step [example_entry, example_entry] example_database)))
     = [pr_sequence p - int (length (filter (\<lambda>r. rc_product r = 7)
          (db_receipts (fold project_step [example_entry, example_entry] example_database)))) + 1..pr_sequence p]"
proof -
  obtain db' where p: "project_entry example_entry example_database = Inr (Applied, db')"
    using example_projected(1) by blast
  obtain leader r where
    "db_products db' = (db_products example_database)(decimal_of (e_product_id example_event) \<mapsto> snapshot example_event leader r)"
    by (rule applied_event_effect_product [OF p example_projected(2)])
  moreover have "decimal_of (e_product_id example_event) = 7" by (simp add: example_event_def decimal_of_def)
  ultimately obtain q where "db_products db' 7 = Some q" by simp
  moreover have "project_step example_entry db' = db'"
    using projector.redelivery_once [of example_database example_entry] p
    by (simp add: entry_applies_def project_step_def)
  moreover have "project_step example_entry example_database = db'" using p by (simp add: project_step_def)
  ultimately have q: "db_products (fold project_step [example_entry, example_entry] example_database) 7 = Some q"
    by simp
  have "db_receipts example_database = []" by (simp add: example_database_def)
  from projection_is_gapless [OF this q] q show ?thesis by blast
qed

end
