(* ===== verification/Projector_Lane.thy ===== *)
theory Projector_Lane
  imports Projector
begin

text \<open>
  The fast path of the projector: \<open>projectAuctionLane\<close> projects the entries of one auction in one
  transaction, checking a rolling sequence and version against the entries collected so far and
  writing the collected rows in bulk at the end. The theorem shows that a lane that commits leaves
  the database its entries would leave one after the other through \<open>projectAuctionEntry\<close>.
\<close>

section \<open>The lane\<close>

record lane =
  ln_outcomes :: "string \<rightharpoonup> projected"
  ln_database :: database
  ln_sequence :: int
  ln_version :: int
  ln_final :: "stream_event option"
  ln_transitions :: "transition_row list"
  ln_histories :: "history_row list"
  ln_bans :: "ban_row list"
  ln_orders :: "order_row list"
  ln_receipts :: "receipt_row list"
  ln_outbox :: "outbox_row list"

text \<open>Lines 463-485 for one event: the pending rows of bids and bans. A ban also marks the rows
  collected so far and, at once, those of the database.\<close>

definition lane_bidders :: "stream_event \<Rightarrow> int option \<Rightarrow> lane \<Rightarrow> (projection_error, lane) result" where
  "lane_bidders ev leader ln =
     (if e_type ev = ''BID_ACCEPTED''
      then if \<not> given (e_requested_max ev) then throws (InvalidAuctionEvent ''Accepted bid has no maximum'')
           else bind_result (number_of (or_empty (e_requested_max ev))) (\<lambda>maximum.
             returns (ln\<lparr>ln_histories := ln_histories ln @ [history_of ev maximum leader]\<rparr>))
      else if e_type ev = ''BIDDER_BANNED'' \<and> given (e_target_user_id ev)
      then bind_result (number_of (or_empty (e_target_user_id ev))) (\<lambda>user.
             returns (ln\<lparr>ln_bans := ln_bans ln @ [ban_of ev user],
               ln_histories := map (mark_banned (decimal_of (e_product_id ev)) user) (ln_histories ln),
               ln_database := (ln_database ln)\<lparr>db_histories :=
                 map (mark_banned (decimal_of (e_product_id ev)) user) (db_histories (ln_database ln))\<rparr>\<rparr>))
      else returns ln)"

definition lane_collect :: "entry \<Rightarrow> stream_event \<Rightarrow> int option \<Rightarrow> lane \<Rightarrow> lane" where
  "lane_collect en ev leader ln =
     ln\<lparr>ln_orders := ln_orders ln @ (if creates_order ev leader then [order_of_event ev (the leader)] else []),
        ln_receipts := ln_receipts ln @ [receipt_of en ev], ln_outbox := ln_outbox ln @ [outbox_of ev],
        ln_sequence := decimal_of (e_sequence ev), ln_version := decimal_of (e_version ev),
        ln_final := Some ev, ln_outcomes := (ln_outcomes ln)(en_id en \<mapsto> Applied)\<rparr>"

text \<open>\<open>start\<close> is the database the transaction's queries saw.\<close>

definition lane_step :: "database \<Rightarrow> entry \<times> stream_event \<Rightarrow> lane \<Rightarrow> (projection_error, lane) result" where
  "lane_step start item ln =
     (let en = fst item; ev = snd item
      in if processed start (e_event_id ev) then returns (ln\<lparr>ln_outcomes := (ln_outcomes ln)(en_id en \<mapsto> Duplicate)\<rparr>)
         else if list_ex (\<lambda>r. rc_product r = decimal_of (e_product_id ev) \<and> rc_sequence r = decimal_of (e_sequence ev)
                   \<and> rc_event_id r \<noteq> e_event_id ev) (db_receipts start)
         then throws (InvalidAuctionEvent (''Sequence '' @ e_sequence ev @ '' belongs to another event''))
         else if decimal_of (e_sequence ev) \<noteq> ln_sequence ln + 1 \<or> decimal_of (e_version ev) \<le> ln_version ln
         then throws (ProjectionGap (''Projection fence rejected auction='' @ e_product_id ev))
         else bind_result (leader_of ev) (\<lambda>leader.
              bind_result (lane_bidders ev leader (ln\<lparr>ln_transitions := ln_transitions ln @ [transition_of ev]\<rparr>))
                (\<lambda>ln'. returns (lane_collect en ev leader ln'))))"

fun lane_run :: "database \<Rightarrow> (entry \<times> stream_event) list \<Rightarrow> lane \<Rightarrow> (projection_error, lane) result" where
  "lane_run start [] ln = returns ln"
| "lane_run start (item # items) ln = bind_result (lane_step start item ln) (lane_run start items)"

definition insert_all :: "('r \<Rightarrow> 'r \<Rightarrow> bool) \<Rightarrow> string \<Rightarrow> 'r list \<Rightarrow> 'r list \<Rightarrow> (projection_error, 'r list) result" where
  "insert_all clash name rs rows =
     (case insert_rows clash rs rows of None \<Rightarrow> throws (DatabaseFault name) | Some rows' \<Rightarrow> returns rows')"

text \<open>Lines 504-525: the bulk writes and the snapshot of the last event.\<close>

definition lane_commit :: "lane \<Rightarrow> (projection_error, database) result" where
  "lane_commit ln =
     (let db = ln_database ln
      in case ln_final ln of
        None \<Rightarrow> returns db
      | Some ev \<Rightarrow>
          bind_result (insert_all transition_clash ''auction_transitions'' (ln_transitions ln) (db_transitions db)) (\<lambda>transitions.
          if list_ex (\<lambda>h. hi_user h \<notin> db_users db) (ln_histories ln) then throws (DatabaseFault ''bidding_history_user'') else
          bind_result (insert_all history_clash ''bidding_history'' (ln_histories ln) (db_histories db)) (\<lambda>histories.
          if list_ex (\<lambda>b. bn_user b \<notin> db_users db) (ln_bans ln) then throws (DatabaseFault ''bidding_ban_user_user'') else
          (let bans = fold (insert_skip ban_clash) (ln_bans ln) (db_bans db) in
          if list_ex (\<lambda>r. od_user r \<notin> db_users db) (ln_orders ln) then throws (DatabaseFault ''orders_user'') else
          bind_result (insert_all order_clash ''orders'' (ln_orders ln) (db_orders db)) (\<lambda>orders.
          bind_result (insert_all receipt_clash ''auction_processed_events'' (ln_receipts ln) (db_receipts db)) (\<lambda>receipts.
          bind_result (insert_all outbox_clash ''auction_outbox'' (ln_outbox ln) (db_outbox db)) (\<lambda>outbox.
          bind_result (leader_of ev) (\<lambda>leader.
          (case db_products db (decimal_of (e_product_id ev)) of
             None \<Rightarrow> throws (ProjectionGap ''Projection version fence rejected the snapshot update'')
           | Some p \<Rightarrow>
               if \<not> pr_version p < ln_version ln
               then throws (ProjectionGap ''Projection version fence rejected the snapshot update'')
               else returns (db\<lparr>db_transitions := transitions, db_histories := histories, db_bans := bans,
                 db_orders := orders, db_receipts := receipts, db_outbox := outbox,
                 db_products := (db_products db)(decimal_of (e_product_id ev) \<mapsto> snapshot ev leader p)\<rparr>)))))))))) "

fun parse_all :: "entry list \<Rightarrow> (projection_error, (entry \<times> stream_event) list) result" where
  "parse_all [] = returns []"
| "parse_all (en # ens) = bind_result (parse_event (en_payload en)) (\<lambda>ev.
     bind_result (parse_all ens) (\<lambda>items. returns ((en, ev) # items)))"

definition lane_start :: "database \<Rightarrow> product_row \<Rightarrow> lane" where
  "lane_start db p =
     \<lparr>ln_outcomes = Map.empty, ln_database = db, ln_sequence = pr_sequence p, ln_version = pr_version p, ln_final = None,
      ln_transitions = [], ln_histories = [], ln_bans = [], ln_orders = [], ln_receipts = [], ln_outbox = []\<rparr>"

definition project_lane :: "entry list \<Rightarrow> database \<Rightarrow> (projection_error, (string \<rightharpoonup> projected) \<times> database) result" where
  "project_lane entries db =
     (if entries = [] then returns (Map.empty, db)
      else bind_result (parse_all entries) (\<lambda>items.
        let product = decimal_of (e_product_id (snd (hd items)))
        in if list_ex (\<lambda>item. decimal_of (e_product_id (snd item)) \<noteq> product) items
           then throws (InvalidAuctionEvent ''A projector lane contains more than one auction'')
           else case db_products db product of
             None \<Rightarrow> throws (InvalidAuctionEvent ''Auction does not exist'')
           | Some p \<Rightarrow>
               bind_result (lane_run db items (lane_start db p)) (\<lambda>ln.
               bind_result (lane_commit ln) (\<lambda>db'. returns (ln_outcomes ln, db')))))"

section \<open>A lane that commits is its entries one after the other\<close>

definition free_rows :: "('r \<Rightarrow> 'r \<Rightarrow> bool) \<Rightarrow> 'r list \<Rightarrow> 'r list \<Rightarrow> bool" where
  "free_rows clash rs rows = (unique_rows clash rs \<and> (\<forall>r \<in> set rs. \<forall>a \<in> set rows. \<not> clash r a))"

definition lane_fits :: "lane \<Rightarrow> bool" where
  "lane_fits ln =
     (free_rows transition_clash (ln_transitions ln) (db_transitions (ln_database ln))
      \<and> free_rows history_clash (ln_histories ln) (db_histories (ln_database ln))
      \<and> free_rows order_clash (ln_orders ln) (db_orders (ln_database ln))
      \<and> free_rows receipt_clash (ln_receipts ln) (db_receipts (ln_database ln))
      \<and> free_rows outbox_clash (ln_outbox ln) (db_outbox (ln_database ln))
      \<and> (\<forall>h \<in> set (ln_histories ln). hi_user h \<in> db_users (ln_database ln))
      \<and> (\<forall>b \<in> set (ln_bans ln). bn_user b \<in> db_users (ln_database ln))
      \<and> (\<forall>r \<in> set (ln_orders ln). od_user r \<in> db_users (ln_database ln)))"

definition known_leader :: "stream_event \<Rightarrow> int option" where
  "known_leader ev = (case leader_of ev of Inl _ \<Rightarrow> None | Inr leader \<Rightarrow> leader)"

definition final_products :: "int \<Rightarrow> product_row \<Rightarrow> stream_event option \<Rightarrow> (int \<rightharpoonup> product_row) \<Rightarrow> int \<rightharpoonup> product_row" where
  "final_products product p final products =
     (case final of None \<Rightarrow> products | Some ev \<Rightarrow> products(product \<mapsto> snapshot ev (known_leader ev) p))"

definition lane_merged :: "int \<Rightarrow> product_row \<Rightarrow> lane \<Rightarrow> database" where
  "lane_merged product p ln = (let db = ln_database ln in
     db\<lparr>db_transitions := db_transitions db @ ln_transitions ln,
        db_histories := db_histories db @ ln_histories ln,
        db_bans := fold (insert_skip ban_clash) (ln_bans ln) (db_bans db),
        db_orders := db_orders db @ ln_orders ln, db_receipts := db_receipts db @ ln_receipts ln,
        db_outbox := db_outbox db @ ln_outbox ln,
        db_products := final_products product p (ln_final ln) (db_products db)\<rparr>)"

text \<open>What holds of a lane while it collects.\<close>

definition lane_inv :: "database \<Rightarrow> int \<Rightarrow> product_row \<Rightarrow> lane \<Rightarrow> bool" where
  "lane_inv start product p ln =
     ((\<exists>rows. ln_database ln = start\<lparr>db_histories := rows\<rparr>) \<and> db_products start product = Some p
      \<and> (case ln_final ln of
           None \<Rightarrow> ln_sequence ln = pr_sequence p \<and> ln_version ln = pr_version p \<and> ln_database ln = start
             \<and> ln_transitions ln = [] \<and> ln_histories ln = [] \<and> ln_bans ln = [] \<and> ln_orders ln = []
             \<and> ln_receipts ln = [] \<and> ln_outbox ln = []
         | Some ev \<Rightarrow> decimal_of (e_product_id ev) = product \<and> ln_sequence ln = decimal_of (e_sequence ev)
             \<and> ln_version ln = decimal_of (e_version ev) \<and> is_ok (leader_of ev)))"

lemma lane_inv_start [simp]: "db_products start product = Some p \<Longrightarrow> lane_inv start product p (lane_start start p)"
  by (auto simp: lane_inv_def lane_start_def intro: exI [where x = "db_histories start"])

lemma lane_inv_frame:
  assumes "lane_inv start product p ln"
  shows "db_users (ln_database ln) = db_users start" "db_products (ln_database ln) = db_products start"
    "db_transitions (ln_database ln) = db_transitions start" "db_bans (ln_database ln) = db_bans start"
    "db_orders (ln_database ln) = db_orders start" "db_receipts (ln_database ln) = db_receipts start"
    "db_outbox (ln_database ln) = db_outbox start" "db_products start product = Some p"
  using assms by (auto simp: lane_inv_def)

lemma lane_product:
  assumes "lane_inv start product p ln"
  shows "\<exists>q. db_products (lane_merged product p ln) product = Some q \<and> pr_sequence q = ln_sequence ln
    \<and> pr_version q = ln_version ln \<and> (\<forall>ev leader. snapshot ev leader q = snapshot ev leader p)"
proof (cases "ln_final ln")
  case None
  with assms show ?thesis by (auto simp: lane_inv_def lane_merged_def final_products_def Let_def)
next
  case (Some ev)
  then show ?thesis
    using assms by (auto simp: lane_inv_def lane_merged_def final_products_def Let_def snapshot_def)
qed

lemma free_rows_snoc:
  assumes "free_rows clash (rs @ [r]) rows" "\<And>a b. clash a b = clash b a"
  shows "free_rows clash rs rows" "insert_row clash r (rows @ rs) = Some (rows @ rs @ [r])"
  using assms by (auto simp: free_rows_def unique_rows_def sorted_wrt_append insert_row_def clashes_def list_ex_iff)

lemma mark_banned_clash [simp]:
  "history_clash (mark_banned product user a) b = history_clash a b"
  "history_clash a (mark_banned product user b) = history_clash a b"
  by (simp_all add: history_clash_def mark_banned_def)

lemma mark_banned_user [simp]: "hi_user (mark_banned product user h) = hi_user h"
  by (simp add: mark_banned_def)

lemma unique_rows_map:
  "(\<And>a b. clash (f a) (f b) = clash a b) \<Longrightarrow> unique_rows clash (map f rs) = unique_rows clash rs"
  by (simp add: unique_rows_def sorted_wrt_map)

lemma free_rows_banned [simp]:
  "free_rows history_clash (map (mark_banned product user) rs) (map (mark_banned product user) rows)
   = free_rows history_clash rs rows"
  by (simp add: free_rows_def unique_rows_map)

lemma lane_bidders_step:
  assumes "lane_bidders ev leader ln = Inr ln2"
    and "free_rows history_clash (ln_histories ln2) (db_histories (ln_database ln2))"
    and "\<forall>h \<in> set (ln_histories ln2). hi_user h \<in> db_users (ln_database ln2)"
    and "\<forall>b \<in> set (ln_bans ln2). bn_user b \<in> db_users (ln_database ln2)"
  shows "write_bidders ev leader (lane_merged product p ln) = Inr (lane_merged product p ln2)"
    and "free_rows history_clash (ln_histories ln) (db_histories (ln_database ln))"
    and "\<forall>h \<in> set (ln_histories ln). hi_user h \<in> db_users (ln_database ln)"
    and "\<forall>b \<in> set (ln_bans ln). bn_user b \<in> db_users (ln_database ln)"
proof -
  consider (bid) maximum where "e_type ev = ''BID_ACCEPTED''" "given (e_requested_max ev)"
      "number_of (or_empty (e_requested_max ev)) = Inr maximum"
      "ln2 = ln\<lparr>ln_histories := ln_histories ln @ [history_of ev maximum leader]\<rparr>"
    | (ban) user where "e_type ev = ''BIDDER_BANNED''" "given (e_target_user_id ev)"
      "number_of (or_empty (e_target_user_id ev)) = Inr user"
      "ln2 = ln\<lparr>ln_bans := ln_bans ln @ [ban_of ev user],
               ln_histories := map (mark_banned (decimal_of (e_product_id ev)) user) (ln_histories ln),
               ln_database := (ln_database ln)\<lparr>db_histories :=
                 map (mark_banned (decimal_of (e_product_id ev)) user) (db_histories (ln_database ln))\<rparr>\<rparr>"
    | (other) "e_type ev \<noteq> ''BID_ACCEPTED''" "\<not> (e_type ev = ''BIDDER_BANNED'' \<and> given (e_target_user_id ev))" "ln2 = ln"
    using assms(1) by (auto simp: lane_bidders_def bind_result_Inr_iff split: if_splits)
  note cases = this
  show "write_bidders ev leader (lane_merged product p ln) = Inr (lane_merged product p ln2)"
    using cases
  proof cases
    case bid
    have "insert_row history_clash (history_of ev maximum leader) (db_histories (ln_database ln) @ ln_histories ln)
        = Some (db_histories (ln_database ln) @ ln_histories ln @ [history_of ev maximum leader])"
      using assms(2) bid(4) by (intro free_rows_snoc(2)) (simp_all add: histories.clash_sym)
    moreover have "decimal_of (e_actor_id ev) \<in> db_users (ln_database ln)"
      using assms(3) bid(4) by (simp add: history_of_def)
    ultimately show ?thesis
      using bid by (simp add: write_bidders_def lane_merged_def Let_def insert_or_fail_def cong: option.case_cong)
  next
    case ban
    then have "user \<in> db_users (ln_database ln)" using assms(4) by (simp add: ban_of_def)
    with ban show ?thesis
      by (auto intro!: database.equality simp: write_bidders_def lane_merged_def Let_def)
  next
    case other
    then show ?thesis by (auto simp: write_bidders_def)
  qed
  show "free_rows history_clash (ln_histories ln) (db_histories (ln_database ln))"
    using cases assms(2) by cases (auto dest: free_rows_snoc(1) simp: histories.clash_sym)
  show "\<forall>h \<in> set (ln_histories ln). hi_user h \<in> db_users (ln_database ln)"
    using cases assms(3) by cases auto
  show "\<forall>b \<in> set (ln_bans ln). bn_user b \<in> db_users (ln_database ln)"
    using cases assms(4) by cases auto
qed

lemma lane_bidders_frame:
  "lane_bidders ev leader ln = Inr ln2 \<Longrightarrow>
   ln_transitions ln2 = ln_transitions ln \<and> ln_orders ln2 = ln_orders ln \<and> ln_receipts ln2 = ln_receipts ln
   \<and> ln_outbox ln2 = ln_outbox ln \<and> ln_final ln2 = ln_final ln \<and> ln_sequence ln2 = ln_sequence ln
   \<and> ln_version ln2 = ln_version ln \<and> (\<exists>rows. ln_database ln2 = (ln_database ln)\<lparr>db_histories := rows\<rparr>)"
  by (auto simp: lane_bidders_def bind_result_Inr_iff split: if_splits
      intro: exI [where x = "db_histories (ln_database ln)"])

lemma lane_step_applied:
  assumes inv: "lane_inv start product p ln" and fits: "lane_fits (lane_collect en ev leader ln2)"
    and ev: "decimal_of (e_product_id ev) = product" "leader_of ev = Inr leader"
    and seq: "decimal_of (e_sequence ev) = ln_sequence ln + 1" "ln_version ln < decimal_of (e_version ev)"
    and bidders: "lane_bidders ev leader (ln\<lparr>ln_transitions := ln_transitions ln @ [transition_of ev]\<rparr>) = Inr ln2"
  shows "apply_event en ev leader (lane_merged product p ln) = Inr (lane_merged product p (lane_collect en ev leader ln2))"
    and "lane_fits ln"
proof -
  define ln1 where "ln1 = ln\<lparr>ln_transitions := ln_transitions ln @ [transition_of ev]\<rparr>"
  note frame = lane_bidders_frame [OF bidders]
  have f: "free_rows transition_clash (ln_transitions ln @ [transition_of ev]) (db_transitions (ln_database ln))"
    "free_rows history_clash (ln_histories ln2) (db_histories (ln_database ln2))"
    "free_rows order_clash (ln_orders ln @ (if creates_order ev leader then [order_of_event ev (the leader)] else []))
       (db_orders (ln_database ln))"
    "free_rows receipt_clash (ln_receipts ln @ [receipt_of en ev]) (db_receipts (ln_database ln))"
    "free_rows outbox_clash (ln_outbox ln @ [outbox_of ev]) (db_outbox (ln_database ln))"
    "\<forall>h \<in> set (ln_histories ln2). hi_user h \<in> db_users (ln_database ln2)"
    "\<forall>b \<in> set (ln_bans ln2). bn_user b \<in> db_users (ln_database ln2)"
    "\<forall>r \<in> set (ln_orders ln @ (if creates_order ev leader then [order_of_event ev (the leader)] else [])).
       od_user r \<in> db_users (ln_database ln)"
    using fits frame by (auto simp: lane_fits_def lane_collect_def)
  note b = lane_bidders_step [OF bidders f(2,6,7), folded ln1_def]
  have d1: "insert_or_fail transition_clash ''auction_transitions'' (transition_of ev) (db_transitions (lane_merged product p ln))
      = Inr (db_transitions (lane_merged product p ln1))"
    and d1': "(lane_merged product p ln)\<lparr>db_transitions := db_transitions (lane_merged product p ln1)\<rparr> = lane_merged product p ln1"
    using free_rows_snoc(2) [OF f(1) transitions.clash_sym]
    by (simp_all add: insert_or_fail_def lane_merged_def ln1_def Let_def)
  define ln3 where "ln3 = ln2\<lparr>ln_orders := ln_orders ln2 @ (if creates_order ev leader then [order_of_event ev (the leader)] else [])\<rparr>"
  have d3: "write_order ev leader (lane_merged product p ln2) = Inr (lane_merged product p ln3)"
    using f(3,8) frame free_rows_snoc(2) [where clash = order_clash, OF _ orders.clash_sym]
    by (auto simp: write_order_def lane_merged_def Let_def ln3_def insert_or_fail_def order_of_event_def)
  obtain q where q: "db_products (lane_merged product p ln) product = Some q" "pr_version q = ln_version ln"
    "\<forall>ev leader. snapshot ev leader q = snapshot ev leader p"
    using lane_product [OF inv] by blast
  define ln4 where "ln4 = ln3\<lparr>ln_final := Some ev\<rparr>"
  have p3: "db_products (lane_merged product p ln3) = db_products (lane_merged product p ln)"
    using frame by (auto simp: lane_merged_def Let_def ln3_def)
  have "(db_products (lane_merged product p ln))(product \<mapsto> snapshot ev leader p)
      = (db_products (ln_database ln))(product \<mapsto> snapshot ev leader p)"
    by (auto simp: lane_merged_def final_products_def Let_def split: option.splits)
  then have d4: "write_product ev leader (lane_merged product p ln3) = Inr (lane_merged product p ln4)"
    using q seq(2) frame ev(2)
    by (auto simp: write_product_def p3 ev(1) ln4_def final_products_def known_leader_def)
      (auto simp: lane_merged_def final_products_def known_leader_def Let_def ln3_def)
  have d5: "write_receipt en ev (lane_merged product p ln4) = Inr (lane_merged product p (lane_collect en ev leader ln2))"
    using free_rows_snoc(2) [OF f(4) receipts.clash_sym] free_rows_snoc(2) [OF f(5) outbox.clash_sym] frame
    by (auto simp: write_receipt_def insert_or_fail_def lane_merged_def Let_def ln4_def ln3_def lane_collect_def)
  show "apply_event en ev leader (lane_merged product p ln) = Inr (lane_merged product p (lane_collect en ev leader ln2))"
    by (simp add: apply_event_def d1 d1' b(1) d3 d4 d5)
  have "free_rows order_clash (ln_orders ln) (db_orders (ln_database ln))"
    using f(3) free_rows_snoc(1) [where clash = order_clash, OF _ orders.clash_sym]
    by (cases "creates_order ev leader") auto
  with b(2-4) f(8) free_rows_snoc(1) [OF f(1) transitions.clash_sym] free_rows_snoc(1) [OF f(4) receipts.clash_sym]
    free_rows_snoc(1) [OF f(5) outbox.clash_sym]
  show "lane_fits ln" by (simp add: lane_fits_def ln1_def)
qed

lemma not_processed_merged:
  assumes inv: "lane_inv start product p ln" and fresh: "\<not> processed start (e_event_id ev)"
    and free: "free_rows receipt_clash (ln_receipts ln @ [receipt_of en ev]) (db_receipts (ln_database ln))"
    and owner: "\<not> list_ex (\<lambda>r. rc_product r = decimal_of (e_product_id ev) \<and> rc_sequence r = decimal_of (e_sequence ev)
        \<and> rc_event_id r \<noteq> e_event_id ev) (db_receipts start)"
  shows "\<not> processed (lane_merged product p ln) (e_event_id ev)"
    and "\<not> sequence_taken (lane_merged product p ln) (decimal_of (e_product_id ev)) (decimal_of (e_sequence ev))"
proof -
  have rows: "db_receipts (lane_merged product p ln) = db_receipts start @ ln_receipts ln"
    using lane_inv_frame(6) [OF inv] by (simp add: lane_merged_def Let_def)
  have new: "\<forall>r \<in> set (ln_receipts ln). \<not> receipt_clash r (receipt_of en ev)"
    using free by (simp add: free_rows_def unique_rows_def sorted_wrt_append)
  then show "\<not> processed (lane_merged product p ln) (e_event_id ev)"
    using fresh by (auto simp: processed_def rows list_ex_iff receipt_clash_def receipt_of_def)
  show "\<not> sequence_taken (lane_merged product p ln) (decimal_of (e_product_id ev)) (decimal_of (e_sequence ev))"
    using new fresh owner
    by (auto simp: sequence_taken_def processed_def rows list_ex_iff receipt_clash_def receipt_of_def)
qed

lemma lane_outcomes [simp]:
  "lane_inv start product p (ln\<lparr>ln_outcomes := outs\<rparr>) = lane_inv start product p ln"
  "lane_fits (ln\<lparr>ln_outcomes := outs\<rparr>) = lane_fits ln"
  "lane_merged product p (ln\<lparr>ln_outcomes := outs\<rparr>) = lane_merged product p ln"
  by (cases "ln_final ln"; simp add: lane_inv_def lane_fits_def lane_merged_def)+

lemma lane_step_new:
  assumes "lane_step start (en, ev) ln = Inr ln'" "\<not> processed start (e_event_id ev)"
  obtains leader ln2 where "leader_of ev = Inr leader"
      "lane_bidders ev leader (ln\<lparr>ln_transitions := ln_transitions ln @ [transition_of ev]\<rparr>) = Inr ln2"
      "ln' = lane_collect en ev leader ln2" "decimal_of (e_sequence ev) = ln_sequence ln + 1"
      "ln_version ln < decimal_of (e_version ev)"
      "\<not> list_ex (\<lambda>r. rc_product r = decimal_of (e_product_id ev) \<and> rc_sequence r = decimal_of (e_sequence ev)
        \<and> rc_event_id r \<noteq> e_event_id ev) (db_receipts start)"
  using assms by (auto simp: lane_step_def Let_def bind_result_Inr_iff split: if_splits)

lemma lane_step_inv:
  assumes inv: "lane_inv start product p ln" and step: "lane_step start (en, ev) ln = Inr ln'"
    and product: "decimal_of (e_product_id ev) = product"
  shows "lane_inv start product p ln'"
proof (cases "processed start (e_event_id ev)")
  case True
  with step inv show ?thesis by (auto simp: lane_step_def)
next
  case False
  with step obtain leader ln2 where s: "leader_of ev = Inr leader"
      "lane_bidders ev leader (ln\<lparr>ln_transitions := ln_transitions ln @ [transition_of ev]\<rparr>) = Inr ln2"
      "ln' = lane_collect en ev leader ln2"
    by (rule lane_step_new)
  show ?thesis
    using inv lane_bidders_frame [OF s(2)] product s(1) by (auto simp: lane_inv_def s(3) lane_collect_def)
qed

lemma lane_step_simulates:
  assumes inv: "lane_inv start product p ln" and step: "lane_step start (en, ev) ln = Inr ln'"
    and fits: "lane_fits ln'" and product: "decimal_of (e_product_id ev) = product"
    and parsed: "parse_event (en_payload en) = Inr ev"
  shows "lane_fits ln \<and> project_step en (lane_merged product p ln) = lane_merged product p ln'"
proof (cases "processed start (e_event_id ev)")
  case True
  then have ln': "ln' = ln\<lparr>ln_outcomes := (ln_outcomes ln)(en_id en \<mapsto> Duplicate)\<rparr>"
    using step by (simp add: lane_step_def)
  have "entry_seen (lane_merged product p ln) en"
    using True lane_inv_frame(6) [OF inv]
    by (simp add: entry_seen_def parsed processed_def lane_merged_def Let_def)
  with fits show ?thesis by (simp add: ln' project_seen)
next
  case False
  with step obtain leader ln2 where s: "leader_of ev = Inr leader"
      "lane_bidders ev leader (ln\<lparr>ln_transitions := ln_transitions ln @ [transition_of ev]\<rparr>) = Inr ln2"
      "ln' = lane_collect en ev leader ln2" "decimal_of (e_sequence ev) = ln_sequence ln + 1"
      "ln_version ln < decimal_of (e_version ev)"
      and owner: "\<not> list_ex (\<lambda>r. rc_product r = decimal_of (e_product_id ev) \<and> rc_sequence r = decimal_of (e_sequence ev)
        \<and> rc_event_id r \<noteq> e_event_id ev) (db_receipts start)"
    by (rule lane_step_new)
  note ap = lane_step_applied [OF inv fits [unfolded s(3)] product s(1,4,5,2)]
  have "free_rows receipt_clash (ln_receipts ln @ [receipt_of en ev]) (db_receipts (ln_database ln))"
    using fits lane_bidders_frame [OF s(2)] by (auto simp: s(3) lane_fits_def lane_collect_def)
  note np = not_processed_merged [OF inv False this owner]
  obtain q where "db_products (lane_merged product p ln) product = Some q" "pr_sequence q = ln_sequence ln"
    "pr_version q = ln_version ln" using lane_product [OF inv] by blast
  then have "project_event en ev leader (lane_merged product p ln) = Inr (Applied, lane_merged product p ln')"
    using np s(4,5) ap(1) by (simp add: project_event_def product s(3))
  then show ?thesis
    using ap(2) s(1) by (simp add: project_step_def project_entry_def parsed)
qed

lemma lane_run_simulates:
  assumes "lane_run start items ln = Inr ln'" "lane_inv start product p ln" "lane_fits ln'"
    and "\<forall>(en, ev) \<in> set items. decimal_of (e_product_id ev) = product \<and> parse_event (en_payload en) = Inr ev"
  shows "lane_fits ln \<and> fold project_step (map fst items) (lane_merged product p ln) = lane_merged product p ln'"
  using assms
proof (induction items arbitrary: ln)
  case Nil
  then show ?case by simp
next
  case (Cons item items)
  obtain en ev where item: "item = (en, ev)" by (cases item)
  obtain ln1 where s: "lane_step start (en, ev) ln = Inr ln1" "lane_run start items ln1 = Inr ln'"
    using Cons.prems(1) by (auto simp: item bind_result_Inr_iff)
  have pe: "decimal_of (e_product_id ev) = product" "parse_event (en_payload en) = Inr ev"
    using Cons.prems(4) by (auto simp: item)
  have ih: "lane_fits ln1 \<and> fold project_step (map fst items) (lane_merged product p ln1) = lane_merged product p ln'"
    using Cons.IH [OF s(2) lane_step_inv [OF Cons.prems(2) s(1) pe(1)] Cons.prems(3)] Cons.prems(4) by simp
  with lane_step_simulates [OF Cons.prems(2) s(1) _ pe] show ?case by (simp add: item)
qed

lemma lane_run_inv:
  assumes "lane_run start items ln = Inr ln'" "lane_inv start product p ln"
    and "\<forall>(en, ev) \<in> set items. decimal_of (e_product_id ev) = product"
  shows "lane_inv start product p ln'"
  using assms
proof (induction items arbitrary: ln)
  case (Cons item items)
  then show ?case
    by (cases item) (auto simp: bind_result_Inr_iff intro: lane_step_inv)
qed simp

lemma insert_all_Inr:
  "insert_all clash name rs rows = Inr rows' \<longleftrightarrow> insert_rows clash rs rows = Some rows'"
  by (auto simp: insert_all_def split: option.splits)

lemma lane_commit_merged:
  assumes inv: "lane_inv start product p ln" and commit: "lane_commit ln = Inr db'"
  shows "lane_fits ln" "db' = lane_merged product p ln"
proof -
  have "lane_fits ln \<and> db' = lane_merged product p ln"
  proof (cases "ln_final ln")
    case None
    with inv commit show ?thesis
      by (auto simp: lane_inv_def lane_commit_def lane_fits_def free_rows_def unique_rows_def lane_merged_def
          final_products_def Let_def)
  next
    case (Some ev)
    have ev: "decimal_of (e_product_id ev) = product" "db_products (ln_database ln) product = Some p"
      using inv Some lane_inv_frame(2,8) [OF inv] by (auto simp: lane_inv_def)
    show ?thesis
      using commit ev
      by (auto simp: lane_commit_def Some Let_def bind_result_Inr_iff insert_all_Inr lane_fits_def free_rows_def
          transitions.insert_rows_iff histories.insert_rows_iff orders.insert_rows_iff receipts.insert_rows_iff
          outbox.insert_rows_iff list_ex_iff lane_merged_def final_products_def known_leader_def split: if_splits)
  qed
  then show "lane_fits ln" "db' = lane_merged product p ln" by simp_all
qed

lemma parse_all_items:
  "parse_all ens = Inr items \<Longrightarrow>
   map fst items = ens \<and> (\<forall>(en, ev) \<in> set items. parse_event (en_payload en) = Inr ev)"
  by (induction ens arbitrary: items) (auto simp: bind_result_Inr_iff)

lemma project_lane_merged:
  assumes "project_lane entries db = Inr (outcomes, db')"
  shows "fold project_step entries db = db'"
proof (cases "entries = []")
  case True
  with assms show ?thesis by (simp add: project_lane_def)
next
  case False
  obtain items where items: "parse_all entries = Inr items"
    using assms False by (auto simp: project_lane_def bind_result_Inr_iff)
  define product where "product = decimal_of (e_product_id (snd (hd items)))"
  obtain p ln where p: "db_products db product = Some p" and run: "lane_run db items (lane_start db p) = Inr ln"
    and commit: "lane_commit ln = Inr db'"
    and same: "\<not> list_ex (\<lambda>item. decimal_of (e_product_id (snd item)) \<noteq> product) items"
    using assms False items
    by (auto simp: project_lane_def bind_result_Inr_iff product_def [symmetric] Let_def split: if_splits option.splits)
  have pe: "\<forall>(en, ev) \<in> set items. decimal_of (e_product_id ev) = product \<and> parse_event (en_payload en) = Inr ev"
    using same parse_all_items [OF items] by (auto simp: list_ex_iff)
  have inv: "lane_inv db product p ln"
    using pe by (intro lane_run_inv [OF run lane_inv_start [OF p]]) auto
  note c = lane_commit_merged [OF inv commit]
  have "fold project_step (map fst items) (lane_merged product p (lane_start db p)) = db'"
    using lane_run_simulates [OF run lane_inv_start [OF p] c(1) pe] c(2) by simp
  moreover have "lane_merged product p (lane_start db p) = db"
    by (simp add: lane_merged_def lane_start_def final_products_def)
  ultimately show ?thesis using parse_all_items [OF items] by simp
qed

lemma lane_run_receipts:
  "lane_run start items ln = Inr ln' \<Longrightarrow>
   (\<exists>rows. ln_receipts ln' = ln_receipts ln @ rows)
   \<and> (\<forall>(en, ev) \<in> set items. processed start (e_event_id ev) \<or> list_ex (\<lambda>r. rc_event_id r = e_event_id ev) (ln_receipts ln'))"
proof (induction items arbitrary: ln)
  case (Cons item items)
  obtain en ev where item: "item = (en, ev)" by (cases item)
  obtain ln1 where s: "lane_step start (en, ev) ln = Inr ln1" "lane_run start items ln1 = Inr ln'"
    using Cons.prems by (auto simp: item bind_result_Inr_iff)
  have "processed start (e_event_id ev) \<and> ln_receipts ln1 = ln_receipts ln
      \<or> ln_receipts ln1 = ln_receipts ln @ [receipt_of en ev]"
  proof (cases "processed start (e_event_id ev)")
    case True
    with s(1) show ?thesis by (auto simp: lane_step_def)
  next
    case False
    from s(1) False show ?thesis
    proof (rule lane_step_new)
      fix leader ln2
      assume "lane_bidders ev leader (ln\<lparr>ln_transitions := ln_transitions ln @ [transition_of ev]\<rparr>) = Inr ln2"
        "ln1 = lane_collect en ev leader ln2"
      from lane_bidders_frame [OF this(1)] this(2) show ?thesis by (simp add: lane_collect_def)
    qed
  qed
  with Cons.IH [OF s(2)] show ?case by (auto simp: item receipt_of_def)
qed simp

lemma project_lane_seen:
  assumes "project_lane entries db = Inr (outcomes, db')" "en \<in> set entries"
  shows "entry_seen db' en"
proof -
  obtain items where items: "parse_all entries = Inr items"
    using assms by (auto simp: project_lane_def bind_result_Inr_iff split: if_splits)
  define product where "product = decimal_of (e_product_id (snd (hd items)))"
  obtain p ln where p: "db_products db product = Some p" and run: "lane_run db items (lane_start db p) = Inr ln"
    and commit: "lane_commit ln = Inr db'"
    and same: "\<not> list_ex (\<lambda>item. decimal_of (e_product_id (snd item)) \<noteq> product) items"
    using assms items
    by (auto simp: project_lane_def bind_result_Inr_iff product_def [symmetric] Let_def split: if_splits option.splits)
  have pe: "\<forall>(en, ev) \<in> set items. decimal_of (e_product_id ev) = product"
    using same by (auto simp: list_ex_iff)
  have inv: "lane_inv db product p ln"
    using pe by (intro lane_run_inv [OF run lane_inv_start [OF p]]) auto
  have rows: "db_receipts db' = db_receipts db @ ln_receipts ln"
    using lane_inv_frame(6) [OF inv] by (simp add: lane_commit_merged(2) [OF inv commit] lane_merged_def Let_def)
  have "en \<in> fst ` set items" using parse_all_items [OF items] assms(2) by (auto simp flip: set_map)
  then obtain ev where ev: "(en, ev) \<in> set items" by auto
  with lane_run_receipts [OF run] have "processed db (e_event_id ev) \<or> list_ex (\<lambda>r. rc_event_id r = e_event_id ev) (ln_receipts ln)"
    by blast
  moreover have "parse_event (en_payload en) = Inr ev" using parse_all_items [OF items] ev by auto
  ultimately show ?thesis by (auto simp: entry_seen_def processed_def rows)
qed

text \<open>C16: The bulk path of the projector is the slow path. When \<open>projectAuctionLane\<close> commits, the
  database it leaves - transitions, bidding history with the marks of bans, bans, orders, receipts,
  outbox, product row, with the rows in the same order - is exactly the one that projecting the
  lane's entries one at a time with \<open>projectAuctionEntry\<close> leaves.\<close>

theorem lane_equals_entries:
  assumes "project_lane entries db = Inr (outcomes, db')"
  shows "fold project_step entries db = db'"
  using assms by (rule project_lane_merged)

lemma example_lane:
  "\<exists>outcomes db'. project_lane [example_entry] example_database = Inr (outcomes, db')"
proof -
  have d: "decimal_of (show_nat n) = int n" for n by (simp add: decimal_of_def)
  have l: "leader_of example_event = Inr (Some 3)"
    by (simp add: leader_of_def number_of_def example_event_def)
  have e: "e_product_id example_event = show_nat 7" "e_sequence example_event = show_nat 5"
    "e_version example_event = show_nat 5" "e_type example_event = ''BID_ACCEPTED''"
    "e_requested_max example_event = Some (show_nat 200)" "e_order_id example_event = None"
    "e_actor_id example_event = show_nat 3"
    by (simp_all add: example_event_def)
  have db: "db_products example_database = [7 \<mapsto> example_product]" "db_receipts example_database = []"
    "db_transitions example_database = []" "db_histories example_database = []" "db_orders example_database = []"
    "db_outbox example_database = []" "db_users example_database = {2, 3, 4}"
    "pr_sequence example_product = 4" "pr_version example_product = 4"
    by (simp_all add: example_database_def example_product_def)
  have "\<exists>ln. lane_run example_database [(example_entry, example_event)] (lane_start example_database example_product) = Inr ln
      \<and> (\<exists>db'. lane_commit ln = Inr db')"
    by (simp add: lane_step_def processed_def db e d l lane_start_def lane_bidders_def given_def number_of_def or_empty_def
        lane_collect_def creates_order_def lane_commit_def insert_all_def insert_row_def clashes_def history_of_def)
  then show ?thesis
    by (auto simp: project_lane_def example_projected(2) e d db)
qed

theorem lane_equals_entries_witness:
  "\<exists>outcomes db'. project_lane [example_entry] example_database = Inr (outcomes, db')
     \<and> project_step example_entry example_database = db'"
proof -
  obtain outcomes db' where "project_lane [example_entry] example_database = Inr (outcomes, db')"
    using example_lane by blast
  from this lane_equals_entries [OF this] show ?thesis by simp
qed

end
