(* ===== verification/Worker_Pool.thy ===== *)
theory Worker_Pool
  imports Prelude "HOL-Library.Sublist"
begin

text \<open>
  The two worker pools of the backend: \<open>mapWithConcurrency\<close> (bounded-map.ts) and \<open>runKeyedLanes\<close>
  (redis-stream.projector.ts). Each starts a few asynchronous workers that take the next job from a
  shared cursor until none is left. JavaScript runs one worker at a time and switches only where a
  worker awaits its handler, so a run is a schedule: the list of the workers in the order they move.
  The lemmas hold for every schedule: items with one key are handled in order, each once, the
  results do not depend on the schedule, and every fair schedule ends.
\<close>

section \<open>Workers\<close>

text \<open>\<open>Handling (x # xs)\<close> awaits the handler of \<open>x\<close>; a worker whose handler rejects is \<open>Broken\<close> and
  drops what it still had.\<close>

datatype 'a worker = Waiting | Handling "'a list" | Stopped | Broken "'a list"

record ('a, 'b, 'e) pool =
  pl_cursor :: nat
  pl_workers :: "'a worker list"
  pl_log :: "('a \<times> 'b) list"
  pl_rejected :: "'e option"

definition move :: "'a list list \<Rightarrow> ('a \<Rightarrow> ('e, 'b) result) \<Rightarrow> nat \<Rightarrow> ('a, 'b, 'e) pool \<Rightarrow> ('a, 'b, 'e) pool" where
  "move jobs handler w p =
     (if length (pl_workers p) \<le> w then p
      else case pl_workers p ! w of
        Waiting \<Rightarrow>
          if pl_cursor p < length jobs
          then p\<lparr>pl_cursor := pl_cursor p + 1, pl_workers := (pl_workers p)[w := Handling (jobs ! pl_cursor p)]\<rparr>
          else p\<lparr>pl_workers := (pl_workers p)[w := Stopped]\<rparr>
      | Handling [] \<Rightarrow> p\<lparr>pl_workers := (pl_workers p)[w := Waiting]\<rparr>
      | Handling (x # xs) \<Rightarrow>
          (case handler x of
             Inl e \<Rightarrow> p\<lparr>pl_workers := (pl_workers p)[w := Broken (x # xs)],
                        pl_rejected := Some (coalesce (pl_rejected p) e)\<rparr>
           | Inr y \<Rightarrow> p\<lparr>pl_log := pl_log p @ [(x, y)], pl_workers := (pl_workers p)[w := Handling xs]\<rparr>)
      | Stopped \<Rightarrow> p
      | Broken _ \<Rightarrow> p)"

definition pool_start :: "nat \<Rightarrow> ('a, 'b, 'e) pool" where
  "pool_start n = \<lparr>pl_cursor = 0, pl_workers = replicate n Waiting, pl_log = [], pl_rejected = None\<rparr>"

definition pool_run :: "'a list list \<Rightarrow> ('a \<Rightarrow> ('e, 'b) result) \<Rightarrow> nat \<Rightarrow> nat list \<Rightarrow> ('a, 'b, 'e) pool" where
  "pool_run jobs handler n schedule = fold (move jobs handler) schedule (pool_start n)"

definition resolved :: "('a, 'b, 'e) pool \<Rightarrow> bool" where
  "resolved p = list_all (\<lambda>w. w = Stopped) (pl_workers p)"

fun halted :: "'a worker \<Rightarrow> bool" where
  "halted Stopped = True"
| "halted (Broken _) = True"
| "halted _ = False"

section \<open>The two pools\<close>

text \<open>\<open>new Map\<close>: lanes in the order their keys first appear.\<close>

fun add_to_lane :: "'k \<Rightarrow> 'a \<Rightarrow> ('k \<times> 'a list) list \<Rightarrow> ('k \<times> 'a list) list" where
  "add_to_lane k x [] = [(k, [x])]"
| "add_to_lane k x ((k', lane) # lanes) =
     (if k' = k then (k', lane @ [x]) # lanes else (k', lane) # add_to_lane k x lanes)"

definition lanes_of :: "('a \<Rightarrow> 'k) \<Rightarrow> 'a list \<Rightarrow> ('k \<times> 'a list) list" where
  "lanes_of key_of items = fold (\<lambda>x. add_to_lane (key_of x) x) items []"

definition lane_workers :: "int \<Rightarrow> nat \<Rightarrow> nat" where
  "lane_workers concurrency lanes = min (nat (max 1 concurrency)) lanes"

definition run_keyed_lanes ::
  "'a list \<Rightarrow> ('a \<Rightarrow> 'k) \<Rightarrow> ('a \<Rightarrow> ('e, 'b) result) \<Rightarrow> int \<Rightarrow> nat list \<Rightarrow> ('a, 'b, 'e) pool" where
  "run_keyed_lanes items key_of handler concurrency schedule =
     (let lanes = map snd (lanes_of key_of items)
      in pool_run lanes handler (lane_workers concurrency (length lanes)) schedule)"

text \<open>\<open>Math.floor(requested) || 1\<close>: \<open>None\<close> is NaN, a fraction is given by its floor.\<close>

definition map_workers :: "nat \<Rightarrow> int option \<Rightarrow> nat" where
  "map_workers items requested =
     nat (max 1 (min (int items) (case requested of None \<Rightarrow> 1 | Some r \<Rightarrow> if r = 0 then 1 else r)))"

definition map_pool :: "'a list \<Rightarrow> int option \<Rightarrow> ('a \<Rightarrow> nat \<Rightarrow> ('e, 'b) result) \<Rightarrow> nat list \<Rightarrow> (nat, 'b, 'e) pool" where
  "map_pool items requested mapper schedule =
     pool_run (map (\<lambda>i. [i]) [0..<length items]) (\<lambda>i. mapper (items ! i) i)
       (if items = [] then 0 else map_workers (length items) requested) schedule"

definition results_of :: "nat \<Rightarrow> (nat \<times> 'b) list \<Rightarrow> 'b option list" where
  "results_of n log = fold (\<lambda>(i, y) results. results[i := Some y]) log (replicate n None)"

text \<open>What the promise of \<open>mapWithConcurrency\<close> gives once the workers are done.\<close>

definition map_with_concurrency ::
  "'a list \<Rightarrow> int option \<Rightarrow> ('a \<Rightarrow> nat \<Rightarrow> ('e, 'b) result) \<Rightarrow> nat list \<Rightarrow> ('e, 'b option list) result option" where
  "map_with_concurrency items requested mapper schedule =
     (let p = map_pool items requested mapper schedule
      in case pl_rejected p of
        Some e \<Rightarrow> Some (throws e)
      | None \<Rightarrow> if resolved p then Some (returns (results_of (length items) (pl_log p))) else None)"

section \<open>Lanes\<close>

definition only :: "('a \<Rightarrow> 'k) \<Rightarrow> 'k \<Rightarrow> 'a list \<Rightarrow> 'a list" where
  "only key_of k xs = filter (\<lambda>x. key_of x = k) xs"

lemma only_simps [simp]:
  "only key_of k [] = []" "only key_of k (xs @ ys) = only key_of k xs @ only key_of k ys"
  "only key_of k (x # xs) = (if key_of x = k then x # only key_of k xs else only key_of k xs)"
  by (simp_all add: only_def)

text \<open>One lane per key.\<close>

definition separated :: "('a \<Rightarrow> 'k) \<Rightarrow> 'a list list \<Rightarrow> bool" where
  "separated key_of jobs =
     (\<forall>k. \<forall>i < length jobs. only key_of k (jobs ! i) \<noteq> [] \<longrightarrow> only key_of k (concat (drop (Suc i) jobs)) = [])"

definition well_laned :: "('a \<Rightarrow> 'k) \<Rightarrow> ('k \<times> 'a list) list \<Rightarrow> bool" where
  "well_laned key_of lanes = (distinct (map fst lanes) \<and> (\<forall>(k, lane) \<in> set lanes. \<forall>x \<in> set lane. key_of x = k))"

lemma add_to_lane_keys: "set (map fst (add_to_lane k x lanes)) = insert k (set (map fst lanes))"
proof (induction lanes)
  case (Cons kl lanes)
  then show ?case by (cases kl) (auto simp del: set_map)
qed simp

lemma well_laned_Cons:
  "well_laned key_of ((k, lane) # lanes) \<longleftrightarrow>
   k \<notin> set (map fst lanes) \<and> (\<forall>x \<in> set lane. key_of x = k) \<and> well_laned key_of lanes"
  by (auto simp: well_laned_def)

lemma add_to_lane_well: "well_laned key_of lanes \<Longrightarrow> well_laned key_of (add_to_lane (key_of x) x lanes)"
proof (induction lanes)
  case Nil
  then show ?case by (simp add: well_laned_def)
next
  case (Cons kl lanes)
  obtain k lane where kl: "kl = (k, lane)" by (cases kl)
  show ?case
    using Cons add_to_lane_keys [of "key_of x" x lanes]
    by (simp add: kl well_laned_Cons) (auto simp: well_laned_Cons simp del: set_map)
qed

lemma well_laned_only:
  "well_laned key_of lanes \<Longrightarrow> k \<notin> set (map fst lanes) \<Longrightarrow> only key_of k (concat (map snd lanes)) = []"
  by (fastforce simp: well_laned_def only_def filter_empty_conv)

lemma only_own: "\<forall>x \<in> set lane. key_of x = k \<Longrightarrow> only key_of k' lane = (if k' = k then lane else [])"
  by (auto simp: only_def filter_empty_conv)

lemma add_to_lane_only:
  "well_laned key_of lanes \<Longrightarrow>
   only key_of k' (concat (map snd (add_to_lane (key_of x) x lanes))) = only key_of k' (concat (map snd lanes)) @ only key_of k' [x]"
proof (induction lanes)
  case (Cons kl lanes)
  obtain k lane where kl: "kl = (k, lane)" by (cases kl)
  show ?case
    using Cons well_laned_only [of key_of lanes k] by (auto simp: kl well_laned_Cons only_own)
qed simp

lemma lanes_of_snoc: "lanes_of key_of (xs @ [x]) = add_to_lane (key_of x) x (lanes_of key_of xs)"
  by (simp add: lanes_of_def)

lemma lanes_of_well: "well_laned key_of (lanes_of key_of items)"
proof (induction items rule: rev_induct)
  case Nil
  then show ?case by (simp add: lanes_of_def well_laned_def)
qed (simp add: lanes_of_snoc add_to_lane_well)

lemma lanes_of_only: "only key_of k (concat (map snd (lanes_of key_of items))) = only key_of k items"
proof (induction items rule: rev_induct)
  case Nil
  then show ?case by (simp add: lanes_of_def)
qed (simp add: lanes_of_snoc add_to_lane_only [OF lanes_of_well])

lemma separated_lanes: "well_laned key_of lanes \<Longrightarrow> separated key_of (map snd lanes)"
proof (induction lanes)
  case Nil
  then show ?case by (simp add: separated_def)
next
  case (Cons kl lanes)
  obtain k lane where kl: "kl = (k, lane)" by (cases kl)
  have "only key_of k' (concat (map snd lanes)) = []" if "only key_of k' lane \<noteq> []" for k'
    using that Cons.prems well_laned_only [of key_of lanes k']
    by (cases "k' = k") (auto simp: kl well_laned_Cons only_own [where k = k] simp del: set_map)
  with Cons show ?case
    by (auto simp: kl well_laned_Cons separated_def nth_Cons split: nat.splits)
qed

section \<open>Every schedule handles a lane in order\<close>

fun pending_of :: "'a worker \<Rightarrow> 'a list" where
  "pending_of (Handling xs) = xs"
| "pending_of (Broken xs) = xs"
| "pending_of _ = []"

definition in_order :: "nat \<Rightarrow> 'a list \<Rightarrow> 'a list \<Rightarrow> (nat \<Rightarrow> 'a list) \<Rightarrow> 'a list \<Rightarrow> bool" where
  "in_order n whole log held rest =
     ((log = [] \<and> rest = whole \<and> (\<forall>v < n. held v = []))
       \<or> (rest = [] \<and> (\<exists>w < n. log @ held w = whole \<and> (\<forall>v < n. v \<noteq> w \<longrightarrow> held v = []))))"

lemma in_order_cong:
  "in_order n whole log held rest \<Longrightarrow> (\<And>v. v < n \<Longrightarrow> held' v = held v) \<Longrightarrow> in_order n whole log held' rest"
  unfolding in_order_def by metis

lemma in_order_take:
  assumes "in_order n whole log held (new @ rest)" "w < n" "held w = []" "new = [] \<or> rest = []"
  shows "in_order n whole log (held(w := new)) rest"
  using assms unfolding in_order_def by (elim disjE conjE exE) (auto intro: exI [where x = w])

lemma in_order_handle:
  assumes "in_order n whole log held rest" "w < n" "held w = new @ xs"
  shows "in_order n whole (log @ new) (held(w := xs)) rest"
proof (cases "new = []")
  case True
  with assms show ?thesis by (auto intro: in_order_cong)
next
  case False
  with assms obtain u where u: "rest = []" "u < n" "log @ held u = whole" "\<forall>v < n. v \<noteq> u \<longrightarrow> held v = []"
    by (auto simp: in_order_def)
  with False assms have "u = w" by force
  with u assms(2,3) show ?thesis by (auto simp: in_order_def)
qed

lemma in_order_prefix: "in_order n whole log held rest \<Longrightarrow> prefix log whole"
  by (auto simp: in_order_def)

definition lane_kept :: "('a \<Rightarrow> 'k) \<Rightarrow> 'a list list \<Rightarrow> 'k \<Rightarrow> ('a, 'b, 'e) pool \<Rightarrow> bool" where
  "lane_kept key_of jobs k p =
     in_order (length (pl_workers p)) (only key_of k (concat jobs)) (only key_of k (map fst (pl_log p)))
       (\<lambda>v. only key_of k (pending_of (pl_workers p ! v))) (only key_of k (concat (drop (pl_cursor p) jobs)))"

lemma concat_drop: "i < length jobs \<Longrightarrow> concat (drop i jobs) = jobs ! i @ concat (drop (Suc i) jobs)"
  by (simp flip: Cons_nth_drop_Suc)

lemma move_cases:
  obtains "length (pl_workers p) \<le> w \<or> halted (pl_workers p ! w)" "move jobs handler w p = p"
  | "w < length (pl_workers p)" "pl_workers p ! w = Waiting" "pl_cursor p < length jobs"
    "move jobs handler w p = p\<lparr>pl_cursor := Suc (pl_cursor p), pl_workers := (pl_workers p)[w := Handling (jobs ! pl_cursor p)]\<rparr>"
  | "w < length (pl_workers p)" "pl_workers p ! w = Waiting" "length jobs \<le> pl_cursor p"
    "move jobs handler w p = p\<lparr>pl_workers := (pl_workers p)[w := Stopped]\<rparr>"
  | "w < length (pl_workers p)" "pl_workers p ! w = Handling []"
    "move jobs handler w p = p\<lparr>pl_workers := (pl_workers p)[w := Waiting]\<rparr>"
  | x xs y where "w < length (pl_workers p)" "pl_workers p ! w = Handling (x # xs)" "handler x = Inr y"
    "move jobs handler w p = p\<lparr>pl_log := pl_log p @ [(x, y)], pl_workers := (pl_workers p)[w := Handling xs]\<rparr>"
  | x xs e where "w < length (pl_workers p)" "pl_workers p ! w = Handling (x # xs)" "handler x = Inl e"
    "move jobs handler w p = p\<lparr>pl_workers := (pl_workers p)[w := Broken (x # xs)], pl_rejected := Some (coalesce (pl_rejected p) e)\<rparr>"
proof (cases "length (pl_workers p) \<le> w")
  case True
  then show ?thesis using that(1) by (simp add: move_def)
next
  case False
  then have w: "w < length (pl_workers p)" by simp
  show ?thesis
  proof (cases "pl_workers p ! w")
    case Waiting
    with w that(2,3) show ?thesis by (cases "pl_cursor p < length jobs") (simp_all add: move_def)
  next
    case (Handling ys)
    with w that(4,5,6) show ?thesis
      by (cases ys; cases "handler (hd ys)") (auto simp: move_def)
  qed (use w that(1) in \<open>simp_all add: move_def\<close>)
qed

lemma lane_kept_same:
  assumes "lane_kept key_of jobs k p" "pending_of v = pending_of (pl_workers p ! w)"
    and "pl_workers q = (pl_workers p)[w := v]" "pl_log q = pl_log p" "pl_cursor q = pl_cursor p"
  shows "lane_kept key_of jobs k q"
proof -
  have "pending_of ((pl_workers p)[w := v] ! u) = pending_of (pl_workers p ! u)" for u
    using assms(2) by (cases "w < length (pl_workers p)") (auto simp: nth_list_update list_update_beyond)
  with assms(1,3-5) show ?thesis by (simp add: lane_kept_def)
qed

lemma lane_kept_move:
  assumes sep: "separated key_of jobs" and inv: "lane_kept key_of jobs k p"
  shows "lane_kept key_of jobs k (move jobs handler w p)"
proof (cases rule: move_cases [where jobs = jobs and handler = handler and w = w and p = p])
  case 2
  have new: "only key_of k (jobs ! pl_cursor p) = [] \<or> only key_of k (concat (drop (Suc (pl_cursor p)) jobs)) = []"
    using sep 2 by (auto simp: separated_def)
  show ?thesis
    using in_order_take [OF inv [unfolded lane_kept_def concat_drop [OF 2(3)] only_simps] 2(1) _ new] 2
    by (simp add: lane_kept_def) (erule in_order_cong, simp add: nth_list_update)
next
  case (5 x xs y)
  then have "only key_of k (pending_of (pl_workers p ! w)) = only key_of k [x] @ only key_of k xs" by simp
  from in_order_handle [OF inv [unfolded lane_kept_def] 5(1) this] 5 show ?thesis
    by (simp add: lane_kept_def del: only_simps(3)) (simp add: only_simps(2) [symmetric] del: only_simps(2, 3),
      erule in_order_cong, simp add: nth_list_update)
qed (use inv in simp, (rule lane_kept_same [OF inv, of _ w], simp_all)+)

lemma move_length [simp]: "length (pl_workers (move jobs handler w p)) = length (pl_workers p)"
  by (cases rule: move_cases [where jobs = jobs and handler = handler and w = w and p = p]) simp_all

lemma pool_run_snoc: "pool_run jobs handler n (schedule @ [w]) = move jobs handler w (pool_run jobs handler n schedule)"
  by (simp add: pool_run_def)

lemma pool_run_Nil: "pool_run jobs handler n [] = pool_start n"
  by (simp add: pool_run_def)

lemma pool_run_length [simp]: "length (pl_workers (pool_run jobs handler n schedule)) = n"
  by (induction schedule rule: rev_induct) (simp_all add: pool_run_snoc pool_run_Nil pool_start_def)

lemma pool_run_kept: "separated key_of jobs \<Longrightarrow> lane_kept key_of jobs k (pool_run jobs handler n schedule)"
proof (induction schedule rule: rev_induct)
  case Nil
  then show ?case by (simp add: pool_run_Nil pool_start_def lane_kept_def in_order_def)
qed (simp add: pool_run_snoc lane_kept_move)

text \<open>A worker stops only when no job is left, and the log holds what the handler answered.\<close>

definition pool_inv :: "'a list list \<Rightarrow> ('a \<Rightarrow> ('e, 'b) result) \<Rightarrow> ('a, 'b, 'e) pool \<Rightarrow> bool" where
  "pool_inv jobs handler p =
     ((Stopped \<in> set (pl_workers p) \<longrightarrow> length jobs \<le> pl_cursor p)
      \<and> (\<forall>(x, y) \<in> set (pl_log p). handler x = Inr y)
      \<and> (pl_rejected p = None \<longrightarrow> (\<forall>xs. Broken xs \<notin> set (pl_workers p))))"

lemma schedule_inv: "pool_inv jobs handler (pool_run jobs handler n schedule)"
proof (induction schedule rule: rev_induct)
  case Nil
  then show ?case by (simp add: pool_run_Nil pool_start_def pool_inv_def)
next
  case (snoc w schedule)
  let ?p = "pool_run jobs handler n schedule"
  show ?case
    using snoc set_update_subset_insert [of "pl_workers ?p" w]
    by (cases rule: move_cases [where jobs = jobs and handler = handler and w = w and p = ?p]) (fastforce simp: pool_run_snoc pool_inv_def)+
qed

lemma resolved_log:
  assumes sep: "separated key_of jobs" and res: "resolved (pool_run jobs handler n schedule)" and n: "0 < n"
  shows "only key_of k (map fst (pl_log (pool_run jobs handler n schedule))) = only key_of k (concat jobs)"
proof -
  let ?p = "pool_run jobs handler n schedule"
  have stopped: "pl_workers ?p ! v = Stopped" if "v < n" for v
    using res that by (simp add: resolved_def list_all_length)
  then have "Stopped \<in> set (pl_workers ?p)" using n by (metis nth_mem pool_run_length)
  then have "length jobs \<le> pl_cursor ?p" using schedule_inv [of jobs handler n schedule] by (simp add: pool_inv_def)
  with pool_run_kept [OF sep, of k handler n schedule] stopped show ?thesis
    by (auto simp: lane_kept_def in_order_def)
qed

section \<open>Every fair schedule ends\<close>

fun worker_weight :: "'a worker \<Rightarrow> nat" where
  "worker_weight Waiting = 1"
| "worker_weight (Handling xs) = length xs + 2"
| "worker_weight _ = 0"

definition work_left :: "'a list list \<Rightarrow> ('a, 'b, 'e) pool \<Rightarrow> nat" where
  "work_left jobs p = sum_list (map (\<lambda>job. length job + 2) (drop (pl_cursor p) jobs)) + sum_list (map worker_weight (pl_workers p))"

lemma weight_update:
  "w < length ws \<Longrightarrow> sum_list (map worker_weight (ws[w := v])) + worker_weight (ws ! w)
     = sum_list (map worker_weight ws) + worker_weight v"
  by (induction ws arbitrary: w) (auto split: nat.splits simp: nth_Cons)

lemma drop_weight:
  "i < length jobs \<Longrightarrow> sum_list (map (\<lambda>job. length job + 2) (drop i jobs))
     = length (jobs ! i) + 2 + sum_list (map (\<lambda>job. length job + 2) (drop (Suc i) jobs))"
  by (simp flip: Cons_nth_drop_Suc)

lemma move_work:
  "if w < length (pl_workers p) \<and> \<not> halted (pl_workers p ! w)
   then work_left jobs (move jobs handler w p) < work_left jobs p else move jobs handler w p = p"
proof (cases rule: move_cases [where jobs = jobs and handler = handler and w = w and p = p])
  case 2
  with weight_update [OF 2(1), of "Handling (jobs ! pl_cursor p)"] drop_weight [OF 2(3)]
  show ?thesis by (simp add: work_left_def)
next
  case 3
  with weight_update [OF 3(1), of Stopped] show ?thesis by (simp add: work_left_def)
next
  case 4
  with weight_update [OF 4(1), of Waiting] show ?thesis by (simp add: work_left_def)
next
  case (5 x xs y)
  with weight_update [OF 5(1), of "Handling xs"] show ?thesis by (simp add: work_left_def)
next
  case (6 x xs e)
  with weight_update [OF 6(1), of "Broken (x # xs)"] show ?thesis by (simp add: work_left_def)
qed auto

lemma move_other: "v \<noteq> w \<Longrightarrow> pl_workers (move jobs handler w p) ! v = pl_workers p ! v"
  by (cases rule: move_cases [where jobs = jobs and handler = handler and w = w and p = p]) simp_all

lemma move_work_le: "work_left jobs (move jobs handler w p) \<le> work_left jobs p"
  using move_work [of w p jobs handler] by (auto split: if_splits)

lemma fold_work_le: "work_left jobs (fold (move jobs handler) ws p) \<le> work_left jobs p"
  by (induction ws arbitrary: p) (auto intro: order_trans [OF _ move_work_le])

lemma round_work:
  "v \<in> set ws \<Longrightarrow> v < length (pl_workers p) \<Longrightarrow> \<not> halted (pl_workers p ! v)
   \<Longrightarrow> work_left jobs (fold (move jobs handler) ws p) < work_left jobs p"
proof (induction ws arbitrary: p)
  case (Cons w ws)
  show ?case
  proof (cases "v = w")
    case True
    then have "work_left jobs (move jobs handler w p) < work_left jobs p"
      using move_work [of w p jobs handler] Cons.prems by simp
    with fold_work_le [of jobs handler ws] show ?thesis by (auto intro: le_less_trans)
  next
    case False
    with Cons.prems have "work_left jobs (fold (move jobs handler) ws (move jobs handler w p)) < work_left jobs (move jobs handler w p)"
      by (intro Cons.IH) (auto simp: move_other)
    with move_work_le [of jobs handler w p] show ?thesis by simp
  qed
qed simp

definition fair_rounds :: "nat \<Rightarrow> nat list list \<Rightarrow> bool" where
  "fair_rounds n rounds = list_all (\<lambda>ws. list_all (\<lambda>v. v \<in> set ws) [0..<n]) rounds"

lemma rounds_halt:
  assumes "fair_rounds (length (pl_workers p)) rounds" "work_left jobs p \<le> length rounds"
  shows "list_all halted (pl_workers (fold (move jobs handler) (concat rounds) p))"
  using assms
proof (induction rounds arbitrary: p)
  case Nil
  have "halted v" if "worker_weight v = 0" for v :: "'a worker" using that by (cases v) auto
  with Nil show ?case by (auto simp: work_left_def list_all_iff)
next
  case (Cons ws rounds)
  have len: "length (pl_workers (fold (move jobs handler) ws p)) = length (pl_workers p)" for p :: "('a, 'b, 'c) pool" and ws
    by (induction ws arbitrary: p) simp_all
  show ?case
  proof (cases "list_all halted (pl_workers p)")
    case True
    have "fold (move jobs handler) vs p = p" for vs
      using move_work [of _ p jobs handler] True by (intro fold_unchanged) (auto simp: list_all_length)
    with True show ?thesis by simp
  next
    case False
    then obtain v where "v < length (pl_workers p)" "\<not> halted (pl_workers p ! v)" by (auto simp: list_all_length)
    with Cons.prems round_work [of v ws p jobs handler]
    have "work_left jobs (fold (move jobs handler) ws p) \<le> length rounds" by (auto simp: fair_rounds_def list_all_iff)
    with Cons.IH [of "fold (move jobs handler) ws p"] Cons.prems(1) show ?thesis
      by (simp add: len fair_rounds_def)
  qed
qed

section \<open>Properties\<close>

text \<open>The lanes of the projector keep the order of the stream. Whatever way the workers
  interleave, the entries of one auction that have been handled are a prefix of the entries of that
  auction in the order they were read, and when \<open>runKeyedLanes\<close> resolves they are all of them.\<close>

theorem keyed_lanes_in_order:
  assumes "p = run_keyed_lanes items key_of handler concurrency schedule"
  shows "prefix (filter (\<lambda>x. key_of x = k) (map fst (pl_log p))) (filter (\<lambda>x. key_of x = k) items)
    \<and> (resolved p \<longrightarrow> filter (\<lambda>x. key_of x = k) (map fst (pl_log p)) = filter (\<lambda>x. key_of x = k) items)"
proof -
  let ?jobs = "map snd (lanes_of key_of items)"
  note sep = separated_lanes [OF lanes_of_well, of key_of items]
  note p = assms [unfolded run_keyed_lanes_def Let_def]
  have "prefix (only key_of k (map fst (pl_log p))) (only key_of k items)"
    using pool_run_kept [OF sep, of k] by (auto simp: p lane_kept_def lanes_of_only dest: in_order_prefix)
  moreover have "only key_of k (map fst (pl_log p)) = only key_of k items" if "resolved p"
  proof (cases "lane_workers concurrency (length ?jobs) = 0")
    case True
    then have "lanes_of key_of items = []" by (auto simp: lane_workers_def min_def split: if_splits)
    then have "only key_of k items = []" using lanes_of_only [of key_of k items] by simp
    with \<open>prefix _ _\<close> show ?thesis by simp
  next
    case False
    with resolved_log [OF sep, of handler _ schedule k] that show ?thesis by (simp add: p lanes_of_only)
  qed
  ultimately show ?thesis by (simp add: only_def)
qed

theorem keyed_lanes_in_order_witness:
  "map fst (pl_log (run_keyed_lanes [(1::nat, ''a''), (2, ''b''), (1, ''c'')] fst
       (\<lambda>x. if snd x = ''z'' then throws () else returns (snd x)) 2 [0, 1, 1, 0, 0])) = [(2, ''b''), (1, ''a''), (1, ''c'')]
   \<and> prefix [(1, ''a''), (1::nat, ''c'')] [(1, ''a''), (1, ''c'')]"
proof -
  let ?p = "run_keyed_lanes [(1::nat, ''a''), (2, ''b''), (1, ''c'')] fst
       (\<lambda>x. if snd x = ''z'' then throws () else returns (snd x)) 2 [0, 1, 1, 0, 0]"
  have log: "map fst (pl_log ?p) = [(2, ''b''), (1, ''a''), (1, ''c'')]" by code_simp
  with keyed_lanes_in_order [OF refl, where items = "[(1::nat, ''a''), (2, ''b''), (1, ''c'')]" and key_of = fst and k = 1
      and handler = "\<lambda>x. if snd x = ''z'' then throws () else returns (snd x)" and concurrency = 2 and schedule = "[0, 1, 1, 0, 0]"]
  show ?thesis by simp
qed


lemma results_length [simp]: "length (results_of n log) = n"
  unfolding results_of_def by (induction log rule: rev_induct) (auto simp: split_beta)

lemma results_nth:
  "\<forall>(x, y) \<in> set log. y = f x \<Longrightarrow> i < n \<Longrightarrow>
   results_of n log ! i = (if i \<in> fst ` set log then Some (f i) else None)"
proof (induction log rule: rev_induct)
  case Nil
  then show ?case by (simp add: results_of_def)
next
  case (snoc xy log)
  have "results_of n (log @ [xy]) = (results_of n log)[fst xy := Some (snd xy)]"
    by (simp add: results_of_def split_beta)
  with snoc show ?case
    by (cases xy; cases "fst xy = i") (auto simp: image_iff)
qed

lemma pool_run_accepts:
  assumes "\<forall>x \<in> set (concat jobs). is_ok (handler x)"
  shows "pl_rejected (pool_run jobs handler n schedule) = None
    \<and> (\<forall>v \<in> set (pl_workers (pool_run jobs handler n schedule)). set (pending_of v) \<subseteq> set (concat jobs))"
proof (induction schedule rule: rev_induct)
  case Nil
  then show ?case by (simp add: pool_run_Nil pool_start_def)
next
  case (snoc w schedule)
  let ?p = "pool_run jobs handler n schedule"
  have ok: "is_ok (handler x)" if "w < n" "pl_workers ?p ! w = Handling (x # xs)" for x xs
  proof -
    have "Handling (x # xs) \<in> set (pl_workers ?p)" using that by (metis nth_mem pool_run_length)
    with snoc assms show ?thesis by fastforce
  qed
  have upd: "\<forall>u \<in> set ((pl_workers ?p)[w := v]). set (pending_of u) \<subseteq> set (concat jobs)"
    if "set (pending_of v) \<subseteq> set (concat jobs)" for v
    using snoc that set_update_subset_insert [of "pl_workers ?p" w v] by blast
  show ?case
  proof (cases rule: move_cases [where jobs = jobs and handler = handler and w = w and p = ?p])
    case 2
    then have "set (jobs ! pl_cursor ?p) \<subseteq> set (concat jobs)" using nth_mem by fastforce
    with 2 snoc upd [of "Handling (jobs ! pl_cursor ?p)"] show ?thesis by (simp add: pool_run_snoc)
  next
    case (5 x xs y)
    then have "Handling (x # xs) \<in> set (pl_workers ?p)" by (metis nth_mem)
    then have "set xs \<subseteq> set (concat jobs)" using snoc by fastforce
    with 5 snoc upd [of "Handling xs"] show ?thesis by (simp add: pool_run_snoc)
  next
    case (6 x xs e)
    with ok show ?thesis by force
  qed (use snoc upd [of Stopped] upd [of Waiting] in \<open>simp_all add: pool_run_snoc\<close>)
qed

lemma pool_run_0 [simp]: "pool_run jobs handler 0 schedule = pool_start 0"
  unfolding pool_run_def by (rule fold_unchanged) (simp add: move_def pool_start_def)

lemma only_upt: "only id k [0..<n] = (if k < n then [k] else [])"
  by (induction n) auto

lemma map_workers_bounds: "items \<noteq> [] \<Longrightarrow> 1 \<le> map_workers (length items) requested \<and> map_workers (length items) requested \<le> length items"
  by (cases items) (auto simp: map_workers_def split: option.splits)

lemma resolved_accepting:
  assumes "\<forall>x \<in> set (concat jobs). is_ok (handler x)" "p = pool_run jobs handler n schedule" "list_all halted (pl_workers p)"
  shows "pl_rejected p = None" "resolved p"
proof -
  show rej: "pl_rejected p = None" using pool_run_accepts [OF assms(1)] assms(2) by simp
  have "v = Stopped" if "v \<in> set (pl_workers p)" for v
  proof -
    have "halted v" "\<forall>xs. v \<noteq> Broken xs"
      using that assms(3) rej schedule_inv [of jobs handler n schedule] by (auto simp: assms(2) pool_inv_def list_all_iff)
    then show ?thesis by (cases v) auto
  qed
  then show "resolved p" by (simp add: resolved_def list_all_iff)
qed

lemma results_of_complete:
  assumes "\<And>i. only id i (map fst log) = (if i < n then [i] else [])" "\<forall>(i, y) \<in> set log. h i = Inr y" "\<forall>i < n. h i = Inr (f i)"
  shows "results_of n log = map (\<lambda>i. Some (f i)) [0..<n]"
proof -
  have mem: "i \<in> fst ` set log \<longleftrightarrow> i < n" for i
  proof -
    have "only id i xs = [] \<longleftrightarrow> i \<notin> set xs" for xs :: "nat list" by (auto simp: only_def filter_empty_conv)
    from this [of "map fst log"] assms(1) [of i] show ?thesis by (simp split: if_splits)
  qed
  have vals: "\<forall>(i, y) \<in> set log. y = f i"
  proof (clarify)
    fix i y assume "(i, y) \<in> set log"
    then have "h i = Inr y" "i < n" using assms(2) mem [of i] by (auto intro: rev_image_eqI)
    with assms(3) show "y = f i" by simp
  qed
  show ?thesis using results_nth [OF vals] mem by (intro nth_equalityI) auto
qed

text \<open>\<open>mapWithConcurrency\<close> is \<open>map\<close>. When no mapper rejects, every schedule that gives each
  worker enough turns ends, and the promise gives the result of every item at its own index,
  whatever the interleaving and the requested concurrency were.\<close>

theorem map_with_concurrency_maps:
  assumes "\<forall>i < length items. mapper (items ! i) i = Inr (f i)"
    and "fair_rounds (map_workers (length items) requested) rounds" "4 * length items \<le> length rounds"
  shows "map_with_concurrency items requested mapper (concat rounds)
    = Some (returns (map (\<lambda>i. Some (f i)) [0..<length items]))"
proof (cases "items = []")
  case True
  then show ?thesis
    by (simp add: map_with_concurrency_def map_pool_def pool_start_def resolved_def results_of_def)
next
  case False
  let ?n = "length items"
  define jobs where "jobs = map (\<lambda>i. [i]) [0..<?n]"
  define h where "h = (\<lambda>i. mapper (items ! i) i)"
  define n where "n = map_workers ?n requested"
  define p where "p = map_pool items requested mapper (concat rounds)"
  have p: "p = pool_run jobs h n (concat rounds)" by (simp add: p_def map_pool_def n_def jobs_def h_def False)
  have n: "n \<le> ?n" "0 < n" using map_workers_bounds [OF False, of requested] by (auto simp: n_def)
  have jobs: "concat jobs = [0..<?n]" by (simp add: jobs_def concat_map_singleton)
  have sep: "separated id jobs"
    by (auto simp: jobs_def separated_def drop_map concat_map_singleton only_def filter_empty_conv)
  have ok: "\<forall>x \<in> set (concat jobs). is_ok (h x)" using assms(1) by (simp add: jobs h_def)
  have "work_left jobs (pool_start n :: (nat, 'c, 'b) pool) \<le> 4 * ?n"
    using n(1) by (simp add: work_left_def pool_start_def jobs_def o_def sum_list_triv sum_list_replicate)
  then have "list_all halted (pl_workers p)"
    using assms(2,3) rounds_halt [of "pool_start n :: (nat, 'c, 'b) pool" rounds jobs h]
    by (simp add: p pool_run_def pool_start_def n_def)
  note res = resolved_accepting [OF ok p this]
  have "results_of ?n (pl_log p) = map (\<lambda>i. Some (f i)) [0..<?n]"
    using resolved_log [OF sep, of h n "concat rounds"] res(2) n schedule_inv [of jobs h n "concat rounds"] assms(1)
    by (intro results_of_complete [where h = h]) (simp_all add: p jobs only_upt pool_inv_def h_def)
  with res show ?thesis by (simp add: map_with_concurrency_def p_def Let_def)
qed

theorem map_with_concurrency_maps_witness:
  "map_with_concurrency [10, 20, 30 :: int] (Some 2) (\<lambda>x i. (Inr (x + int i) :: (unit, int) result)) (concat (replicate 12 [1, 0]))
    = Some (returns [Some 10, Some 21, Some 32])"
proof -
  have "map_with_concurrency [10, 20, 30 :: int] (Some 2) (\<lambda>x i. (Inr (x + int i) :: (unit, int) result)) (concat (replicate 12 [1, 0]))
    = Some (returns (map (\<lambda>i. Some ([10, 20, 30] ! i + int i)) [0..<length [10, 20, 30 :: int]]))"
    by (rule map_with_concurrency_maps) (auto simp: fair_rounds_def map_workers_def list_all_iff)
  then show ?thesis by (simp add: upt_rec)
qed

end
