(* ===== verification/Projector_Batch.thy ===== *)
theory Projector_Batch
  imports Projector_Lane Worker_Pool "HOL-Library.Product_Lexorder"
begin

text \<open>
  The rest of the projector: how a batch is read from the shards' streams, cut into lanes, projected
  with a fallback to single entries, acknowledged, retried and dead-lettered, how acknowledged
  entries are compacted, and how recovery asks whether a stream still holds events of some auctions. The dead-letter stream is
  trimmed as Redis trims it.
  Redis and PostgreSQL are up here: the only failures are those of the projection itself. Lanes of
  one batch run to completion one after the other, in any order; \<open>Worker_Pool\<close> has the
  interleaving inside \<open>runKeyedLanes\<close>.
\<close>

section \<open>Reading a stream\<close>

type_synonym stream_id = "nat \<times> nat"

record stream_item =
  si_id :: stream_id
  si_fields :: "string list"

definition id_text :: "stream_id \<Rightarrow> string" where
  "id_text i = show_nat (fst i) @ ''-'' @ show_nat (snd i)"

text \<open>\<open>item[1].indexOf("event")\<close> and the element after it; \<open>parse_json\<close> is \<open>JSON.parse\<close>.\<close>

fun after_event :: "string list \<Rightarrow> string option" where
  "after_event [] = None"
| "after_event (f # fs) =
     (if f = ''event'' then (case fs of [] \<Rightarrow> None | v # _ \<Rightarrow> Some v) else after_event fs)"

definition entries_from_read :: "(string \<Rightarrow> json option) \<Rightarrow> nat \<Rightarrow> stream_item list \<Rightarrow> entry list" where
  "entries_from_read parse_json shard items =
     List.map_filter (\<lambda>item. map_option (\<lambda>payload. \<lparr>en_id = id_text (si_id item), en_payload = parse_json payload,
       en_shard = Some shard\<rparr>) (after_event (si_fields item))) items"

section \<open>Is a stream drained?\<close>

definition safe_integer :: "int \<Rightarrow> bool" where
  "safe_integer n = (\<bar>n\<bar> \<le> 2 ^ 53 - 1)"

definition extract_raw_product_id :: "json option \<Rightarrow> string option" where
  "extract_raw_product_id payload =
     (case payload of
        None \<Rightarrow> None
      | Some v \<Rightarrow> (case field_of ''productId'' v of
          Some (JString s) \<Rightarrow> if s \<noteq> [] \<and> digits s then Some s else None
        | Some (JInt n) \<Rightarrow> if safe_integer n \<and> 0 \<le> n then Some (show_int n) else None
        | _ \<Rightarrow> None))"

definition undrained_entry :: "string set \<Rightarrow> entry \<Rightarrow> (projection_error, bool) result" where
  "undrained_entry products en =
     (case parse_event (en_payload en) of
        Inr ev \<Rightarrow> returns (e_product_id ev \<in> products)
      | Inl _ \<Rightarrow>
          (case extract_raw_product_id (en_payload en) of
             None \<Rightarrow> throws (InvalidAuctionEvent ''Cannot identify malformed stream event aggregate during recovery'')
           | Some product \<Rightarrow>
               if product \<in> products
               then throws (InvalidAuctionEvent (''Malformed stream event belongs to recovering auction '' @ product))
               else returns False))"

fun undrained_in :: "string set \<Rightarrow> entry list \<Rightarrow> (projection_error, bool) result" where
  "undrained_in products [] = returns False"
| "undrained_in products (en # ens) =
     bind_result (undrained_entry products en) (\<lambda>found. if found then returns True else undrained_in products ens)"

definition xrange :: "stream_id option \<Rightarrow> stream_id \<Rightarrow> nat \<Rightarrow> stream_item list \<Rightarrow> stream_item list" where
  "xrange cursor maximum count stream =
     take count (filter (\<lambda>item. (case cursor of None \<Rightarrow> True | Some c \<Rightarrow> c < si_id item) \<and> si_id item \<le> maximum) stream)"

definition page_size :: nat where "page_size = 1000"

lemma page_size_pos: "0 < page_size" by (simp add: page_size_def)

function undrained_pages :: "(string \<Rightarrow> json option) \<Rightarrow> string set \<Rightarrow> nat \<Rightarrow> stream_id \<Rightarrow> stream_item list \<Rightarrow> stream_id option
    \<Rightarrow> (projection_error, bool) result" where
  "undrained_pages parse_json products shard maximum stream cursor =
     (let page = xrange cursor maximum page_size stream
      in bind_result (undrained_in products (entries_from_read parse_json shard page)) (\<lambda>found.
           if found then returns True
           else if length page < page_size then returns False
           else undrained_pages parse_json products shard maximum stream (Some (si_id (last page)))))"
  by pat_completeness auto
termination
proof (relation "measure (\<lambda>(parse_json, products, shard, maximum, stream, cursor).
    length (filter (\<lambda>item. (case cursor of None \<Rightarrow> True | Some c \<Rightarrow> c < si_id item)) stream))")
  fix parse_json :: "string \<Rightarrow> json option" and products shard maximum
    and stream page :: "stream_item list" and cursor found
  let ?c = "\<lambda>item. case cursor of None \<Rightarrow> True | Some c \<Rightarrow> c < si_id item"
  let ?l = "\<lambda>item. si_id (last page) < si_id item"
  assume page: "page = xrange cursor maximum page_size stream" "\<not> length page < page_size"
  have "page \<noteq> []" using page(2) page_size_pos by auto
  then have "last page \<in> set page" by simp
  moreover have "set page \<subseteq> {item \<in> set stream. ?c item}"
    by (auto simp: page(1) xrange_def dest!: in_set_takeD)
  ultimately have l: "last page \<in> set stream" "?c (last page)" by auto
  have sub: "filter ?l stream = filter ?l (filter ?c stream)"
    using l(2) by (auto simp: filter_filter split: option.splits intro!: filter_cong)
  have "length (filter ?l (filter ?c stream)) < length (filter ?c stream)"
    using l by (intro length_filter_less) auto
  then show "((parse_json, products, shard, maximum, stream, Some (si_id (last page))),
      (parse_json, products, shard, maximum, stream, cursor)) \<in> measure (\<lambda>(parse_json, products, shard, maximum, stream, cursor).
    length (filter (\<lambda>item. (case cursor of None \<Rightarrow> True | Some c \<Rightarrow> c < si_id item)) stream))"
    by (simp add: sub)
qed simp

declare undrained_pages.simps [simp del]

text \<open>The shards in turn, with their watermarks.\<close>

fun has_undrained :: "(string \<Rightarrow> json option) \<Rightarrow> string set \<Rightarrow> nat \<Rightarrow> (stream_item list \<times> stream_id) list
    \<Rightarrow> (projection_error, bool) result" where
  "has_undrained parse_json products shard [] = returns False"
| "has_undrained parse_json products shard ((stream, maximum) # shards) =
     bind_result (undrained_pages parse_json products shard maximum stream None) (\<lambda>found.
       if found then returns True else has_undrained parse_json products (Suc shard) shards)"


lemma undrained_in_False:
  "undrained_in products ens = Inr False \<longleftrightarrow> (\<forall>en \<in> set ens. undrained_entry products en = Inr False)"
  by (induction ens) (auto simp: bind_result_Inr_iff split: if_splits)

definition sorted_stream :: "stream_item list \<Rightarrow> bool" where
  "sorted_stream stream = sorted_wrt (\<lambda>a b. si_id a < si_id b) stream"

lemma entries_of_page: "entries_from_read parse_json shard (xs @ ys)
    = entries_from_read parse_json shard xs @ entries_from_read parse_json shard ys"
  by (simp add: entries_from_read_def List.map_filter_def)

lemma undrained_pages_False:
  assumes "undrained_pages parse_json products shard maximum stream cursor = Inr False" "sorted_stream stream"
  shows "\<forall>en \<in> set (entries_from_read parse_json shard
      (filter (\<lambda>item. (case cursor of None \<Rightarrow> True | Some c \<Rightarrow> c < si_id item) \<and> si_id item \<le> maximum) stream)).
    undrained_entry products en = Inr False"
  using assms
proof (induction parse_json products shard maximum stream cursor rule: undrained_pages.induct)
  case (1 parse_json products shard maximum stream cursor)
  define rest where "rest = (\<lambda>cursor. filter (\<lambda>item. (case cursor of None \<Rightarrow> True | Some c \<Rightarrow> c < si_id item) \<and> si_id item \<le> maximum) stream)"
  define page where "page = xrange cursor maximum page_size stream"
  have page: "page = take page_size (rest cursor)" by (simp add: page_def xrange_def rest_def)
  have u: "undrained_in products (entries_from_read parse_json shard page) = Inr False"
      "\<not> length page < page_size \<Longrightarrow> undrained_pages parse_json products shard maximum stream (Some (si_id (last page))) = Inr False"
    using "1.prems"(1) by (subst (asm) undrained_pages.simps, auto simp: page_def [symmetric] Let_def bind_result_Inr_iff split: if_splits)+
  show ?case
  proof (cases "length page < page_size")
    case True
    then have "page = rest cursor" by (simp add: page min_def split: if_splits)
    with u(1) show ?thesis by (simp add: undrained_in_False rest_def)
  next
    case False
    then have ne: "page \<noteq> []" using page_size_pos by auto
    have sorted: "sorted_wrt (\<lambda>a b. si_id a < si_id b) (rest cursor)"
      using "1.prems"(2) by (simp add: sorted_stream_def rest_def sorted_wrt_filter)
    define later where "later = drop page_size (rest cursor)"
    have split: "rest cursor = page @ later" by (simp add: page later_def)
    have after: "\<forall>b \<in> set later. si_id (last page) < si_id b" "\<forall>a \<in> set page. \<not> si_id (last page) < si_id a"
    proof -
      show "\<forall>b \<in> set later. si_id (last page) < si_id b"
        using sorted ne by (auto simp: split sorted_wrt_append)
      have "sorted_wrt (\<lambda>a b. si_id a < si_id b) (butlast page @ [last page])"
        using sorted ne by (simp add: split sorted_wrt_append)
      then show "\<forall>a \<in> set page. \<not> si_id (last page) < si_id a"
        using ne by (cases page rule: rev_cases) (auto simp: sorted_wrt_append)
    qed
    have "last page \<in> set (rest cursor)" using last_in_set [OF ne] by (simp add: split)
    then have "case cursor of None \<Rightarrow> True | Some c \<Rightarrow> c < si_id (last page)" by (simp add: rest_def)
    then have "rest (Some (si_id (last page))) = filter (\<lambda>item. si_id (last page) < si_id item) (rest cursor)"
      by (auto simp: rest_def split: option.splits intro!: filter_cong)
    also have "\<dots> = later" using after by (simp add: split filter_id_conv filter_empty_conv)
    finally have "rest (Some (si_id (last page))) = later" .
    moreover have "\<forall>en \<in> set (entries_from_read parse_json shard (rest (Some (si_id (last page))))).
        undrained_entry products en = Inr False"
      using "1.IH" [OF page_def, of False] False u(2) "1.prems"(2) by (simp add: rest_def)
    ultimately have "\<forall>en \<in> set (entries_from_read parse_json shard (rest cursor)). undrained_entry products en = Inr False"
      using u(1) by (auto simp: split entries_of_page undrained_in_False)
    then show ?thesis by (simp add: rest_def)
  qed
qed


section \<open>Compaction\<close>

text \<open>The identifiers delivered to the group and not acknowledged, in order, and the group's
  last-delivered id. \<open>XTRIM MINID\<close> drops what lies below the threshold.\<close>

definition compaction_threshold :: "stream_id list \<Rightarrow> stream_id option \<Rightarrow> stream_id option" where
  "compaction_threshold pending last_delivered =
     (case pending of p # _ \<Rightarrow> Some p | [] \<Rightarrow> last_delivered)"

definition compact_stream :: "stream_id list \<Rightarrow> stream_id option \<Rightarrow> stream_item list \<Rightarrow> stream_item list \<times> nat" where
  "compact_stream pending last_delivered stream =
     (case compaction_threshold pending last_delivered of
        None \<Rightarrow> (stream, 0)
      | Some t \<Rightarrow>
          if t = (0, 0) then (stream, 0)
          else let kept = filter (\<lambda>item. t \<le> si_id item) stream in (kept, length stream - length kept))"

fun compact_all :: "(stream_id list \<times> stream_id option \<times> stream_item list) list \<Rightarrow> stream_item list list \<times> nat" where
  "compact_all [] = ([], 0)"
| "compact_all ((pending, last_delivered, stream) # shards) =
     (let (stream', n) = compact_stream pending last_delivered stream; (streams', m) = compact_all shards
      in (stream' # streams', n + m))"

section \<open>Batches\<close>

record dead_letter =
  dl_entry :: entry
  dl_attempts :: nat
  dl_error :: projection_error

text \<open>The stream of one shard as the group sees it.\<close>

record shard_stream =
  sh_entries :: "entry list"
  sh_pending :: "string set"
  sh_retries :: "string \<rightharpoonup> nat"
  sh_dlq :: "dead_letter list"

record projector =
  pj_database :: database
  pj_shards :: "nat \<Rightarrow> shard_stream"
  pj_expiring :: "string set"
  pj_processed :: nat
  pj_failed :: nat
  pj_batches :: nat
  pj_last_batch :: nat

definition shard_of :: "entry \<Rightarrow> nat" where
  "shard_of en = coalesce (en_shard en) 0"

definition update_shard :: "entry \<Rightarrow> (shard_stream \<Rightarrow> shard_stream) \<Rightarrow> projector \<Rightarrow> projector" where
  "update_shard en f pj = pj\<lparr>pj_shards := (pj_shards pj)(shard_of en := f (pj_shards pj (shard_of en)))\<rparr>"

definition acknowledge :: "entry \<Rightarrow> shard_stream \<Rightarrow> shard_stream" where
  "acknowledge en sh =
     sh\<lparr>sh_pending := sh_pending sh - {en_id en},
        sh_entries := (if en_id en \<in> sh_pending sh then filter (\<lambda>e. en_id e \<noteq> en_id en) (sh_entries sh) else sh_entries sh),
        sh_retries := (sh_retries sh)(en_id en := None)\<rparr>"

definition is_terminal_auction_status :: "string \<Rightarrow> bool" where
  "is_terminal_auction_status status = (status \<in> {''SOLD'', ''ENDED'', ''CANCELLED''})"

definition finalize_projected :: "entry \<Rightarrow> projector \<Rightarrow> (projection_error, projector) result" where
  "finalize_projected en pj =
     bind_result (parse_event (en_payload en)) (\<lambda>ev.
       let pj = (if is_terminal_auction_status (e_status ev) then pj\<lparr>pj_expiring := insert (e_product_id ev) (pj_expiring pj)\<rparr> else pj)
       in returns (update_shard en (acknowledge en) pj))"

text \<open>Settings: the attempts before an entry is given up, and the length of the dead-letter stream. \<open>MAXLEN ~ n\<close> lets Redis drop
  some of the oldest letters, as long as \<open>n\<close> stay: \<open>pc_trim\<close> is how many it would.\<close>

record projector_config =
  pc_max_attempts :: nat
  pc_dlq_maxlen :: nat
  pc_trim :: "dead_letter list \<Rightarrow> nat"

definition xadd_trimmed :: "projector_config \<Rightarrow> dead_letter \<Rightarrow> dead_letter list \<Rightarrow> dead_letter list" where
  "xadd_trimmed pc d ds =
     (let grown = ds @ [d] in drop (min (pc_trim pc grown) (length grown - pc_dlq_maxlen pc)) grown)"

definition record_failure :: "projector_config \<Rightarrow> entry \<Rightarrow> projection_error \<Rightarrow> projector \<Rightarrow> projector" where
  "record_failure pc en error pj =
     (let attempts = coalesce (sh_retries (pj_shards pj (shard_of en)) (en_id en)) 0 + 1
      in if attempts < pc_max_attempts pc
         then update_shard en (\<lambda>sh. sh\<lparr>sh_retries := (sh_retries sh)(en_id en \<mapsto> attempts)\<rparr>) pj
         else update_shard en (\<lambda>sh. acknowledge en
                (sh\<lparr>sh_dlq := xadd_trimmed pc \<lparr>dl_entry = en, dl_attempts = attempts, dl_error = error\<rparr> (sh_dlq sh)\<rparr>)) pj)"

definition process_entry :: "projector_config \<Rightarrow> entry \<Rightarrow> projector \<Rightarrow> projector" where
  "process_entry pc en pj =
     (case bind_result (project_entry en (pj_database pj)) (\<lambda>(_, db). finalize_projected en (pj\<lparr>pj_database := db\<rparr>)) of
        Inr pj' \<Rightarrow> pj'\<lparr>pj_processed := pj_processed pj' + 1\<rparr>
      | Inl error \<Rightarrow>
          (let pj' = record_failure pc en error (pj\<lparr>pj_database := project_step en (pj_database pj)\<rparr>)
           in pj'\<lparr>pj_failed := pj_failed pj' + 1\<rparr>))"

fun finalize_lane :: "entry list \<Rightarrow> projector \<Rightarrow> (projection_error, projector) result" where
  "finalize_lane [] pj = returns pj"
| "finalize_lane (en # ens) pj =
     bind_result (finalize_projected en pj) (\<lambda>pj'. finalize_lane ens (pj'\<lparr>pj_processed := pj_processed pj' + 1\<rparr>))"

definition process_lane :: "projector_config \<Rightarrow> entry list \<Rightarrow> projector \<Rightarrow> projector" where
  "process_lane pc lane pj =
     (case bind_result (project_lane lane (pj_database pj)) (\<lambda>(_, db). finalize_lane lane (pj\<lparr>pj_database := db\<rparr>)) of
        Inr pj' \<Rightarrow> pj'
      | Inl _ \<Rightarrow> fold (process_entry pc) lane pj)"

definition entry_key :: "entry \<Rightarrow> string" where
  "entry_key en = (case parse_event (en_payload en) of Inl _ \<Rightarrow> ''invalid:'' @ en_id en | Inr ev \<Rightarrow> e_product_id ev)"

definition batch_entries :: "entry list \<Rightarrow> entry list \<Rightarrow> entry list" where
  "batch_entries claimed fresh =
     claimed @ filter (\<lambda>en. \<not> list_ex (\<lambda>c. en_id c = en_id en \<and> en_shard c = en_shard en) claimed) fresh"

text \<open>\<open>claimed\<close> are the entries reclaimed from idle consumers, \<open>fresh\<close> the new ones; \<open>order\<close>
  permutes the lanes.\<close>

definition projector_batch :: "projector_config \<Rightarrow> (entry list list \<Rightarrow> entry list list) \<Rightarrow> entry list \<Rightarrow> entry list \<Rightarrow> projector \<Rightarrow> projector" where
  "projector_batch pc order claimed fresh pj =
     (let entries = batch_entries claimed fresh;
          pj' = fold (process_lane pc) (order (map snd (lanes_of entry_key entries))) pj
      in pj'\<lparr>pj_batches := pj_batches pj' + 1, pj_last_batch := length entries\<rparr>)"


section \<open>No delivered event is lost\<close>

definition letters :: "projector \<Rightarrow> entry \<Rightarrow> dead_letter list" where
  "letters pj en = sh_dlq (pj_shards pj (shard_of en))"

definition pending_entry :: "projector \<Rightarrow> entry \<Rightarrow> bool" where
  "pending_entry pj en = (en_id en \<in> sh_pending (pj_shards pj (shard_of en)))"

text \<open>Of all letters the newest are there, at least \<open>n\<close> of them when there are so many.\<close>

definition newest_kept :: "nat \<Rightarrow> dead_letter list \<Rightarrow> dead_letter list \<Rightarrow> bool" where
  "newest_kept n all kept = (\<exists>k \<le> length all - n. kept = drop k all)"

lemma newest_kept_all: "newest_kept n ds ds" by (auto simp: newest_kept_def)

lemma newest_kept_xadd:
  assumes "newest_kept (pc_dlq_maxlen pc) all kept"
  shows "newest_kept (pc_dlq_maxlen pc) (all @ [d]) (xadd_trimmed pc d kept)"
proof -
  obtain k where k: "k \<le> length all - pc_dlq_maxlen pc" "kept = drop k all" using assms by (auto simp: newest_kept_def)
  define j where "j = min (pc_trim pc (kept @ [d])) (length (kept @ [d]) - pc_dlq_maxlen pc)"
  have "k \<le> length all" using k(1) by simp
  then have "xadd_trimmed pc d kept = drop (j + k) (all @ [d])"
    by (simp add: xadd_trimmed_def Let_def j_def k(2) flip: drop_drop)
  moreover have "j + k \<le> length (all @ [d]) - pc_dlq_maxlen pc"
    using k(1) \<open>k \<le> length all\<close> by (simp add: j_def k(2))
  ultimately show ?thesis by (auto simp: newest_kept_def)
qed

text \<open>When no more letters were written than the stream may hold, they are all there.\<close>

lemma newest_kept_written:
  assumes "newest_kept n (old @ written) kept" "length written \<le> n"
  shows "set written \<subseteq> set kept"
proof -
  obtain k where "k \<le> length (old @ written) - n" "kept = drop k (old @ written)" using assms(1) by (auto simp: newest_kept_def)
  with assms(2) show ?thesis by simp
qed

text \<open>Since the stream held \<open>old\<close>, the letters \<open>written\<close> came; the entry waits, is committed, or has one of them.\<close>

definition accounted :: "projector_config \<Rightarrow> dead_letter list \<Rightarrow> dead_letter list \<Rightarrow> projector \<Rightarrow> entry \<Rightarrow> bool" where
  "accounted pc old written pj en =
     (newest_kept (pc_dlq_maxlen pc) (old @ written) (letters pj en)
      \<and> (pending_entry pj en \<or> entry_seen (pj_database pj) en \<or> (\<exists>d \<in> set written. dl_entry d = en)))"

text \<open>Identifiers are unique in a shard.\<close>

definition same_entry :: "entry \<Rightarrow> entry \<Rightarrow> bool" where
  "same_entry a b = (shard_of a = shard_of b \<and> en_id a = en_id b \<longrightarrow> a = b)"

lemma update_shard_simps [simp]:
  "pj_database (update_shard en f pj) = pj_database pj"
  "pj_shards (update_shard en f pj) s = (if s = shard_of en then f (pj_shards pj s) else pj_shards pj s)"
  by (simp_all add: update_shard_def)

lemma acknowledge_simps [simp]:
  "sh_pending (acknowledge en sh) = sh_pending sh - {en_id en}"
  "sh_dlq (acknowledge en sh) = sh_dlq sh"
  by (simp_all add: acknowledge_def)

lemma entry_seen_step:
  assumes "entry_seen db x"
  shows "entry_seen (project_step en db) x"
proof (cases "project_entry en db")
  case (Inr rd)
  with assms show ?thesis
    by (cases rd) (auto simp: project_step_def entry_seen_def split: sum.splits dest: project_entry_receipts(1))
qed (use assms in \<open>simp add: project_step_def\<close>)

lemma entry_seen_projected:
  assumes "project_entry en db = Inr (r, db')"
  shows "entry_seen db' en"
proof -
  obtain ev leader where e: "parse_event (en_payload en) = Inr ev" "project_event en ev leader db = Inr (r, db')"
    using assms by (rule project_entry_Inr)
  show ?thesis
  proof (cases r)
    case Applied
    with e(1) assms show ?thesis by (simp add: entry_seen_def project_entry_receipts(2))
  next
    case Duplicate
    with e(2) show ?thesis by (cases rule: project_event_cases) (auto simp: entry_seen_def e(1))
  qed
qed

lemma finalize_Inr:
  assumes "finalize_projected en pj = Inr pj'"
  shows "pj_database pj' = pj_database pj \<and> pj_shards pj' = (pj_shards pj)(shard_of en := acknowledge en (pj_shards pj (shard_of en)))"
  using assms by (auto simp: finalize_projected_def bind_result_Inr_iff Let_def update_shard_def)

lemma finalize_after_project:
  assumes "entry_seen db en"
  shows "\<exists>pj'. finalize_projected en pj = Inr pj'"
  using assms by (auto simp: entry_seen_def finalize_projected_def Let_def split: sum.splits)

lemma accounted_counters [simp]:
  "accounted pc old w (pj\<lparr>pj_processed := n\<rparr>) x = accounted pc old w pj x"
  "accounted pc old w (pj\<lparr>pj_failed := n\<rparr>) x = accounted pc old w pj x"
  "accounted pc old w (pj\<lparr>pj_batches := n, pj_last_batch := k\<rparr>) x = accounted pc old w pj x"
  by (simp_all add: accounted_def letters_def pending_entry_def)

lemma finalize_accounted:
  assumes "finalize_projected en pj = Inr pj'" "accounted pc old w pj x" "same_entry en x" "entry_seen (pj_database pj) en"
  shows "accounted pc old w pj' x"
  using finalize_Inr [OF assms(1)] assms(2-4) by (auto simp: accounted_def letters_def pending_entry_def same_entry_def)

lemma record_failure_accounted:
  assumes "accounted pc old w pj x" "same_entry en x"
  shows "\<exists>w'. accounted pc old w' (record_failure pc en error pj) x"
proof -
  define attempts where "attempts = coalesce (sh_retries (pj_shards pj (shard_of en)) (en_id en)) 0 + 1"
  define d where "d = \<lparr>dl_entry = en, dl_attempts = attempts, dl_error = error\<rparr>"
  have kept: "newest_kept (pc_dlq_maxlen pc) (old @ w @ [d]) (xadd_trimmed pc d (letters pj x))"
    using assms(1) newest_kept_xadd [of pc "old @ w" "letters pj x" d] by (simp add: accounted_def)
  show ?thesis
  proof (cases "attempts < pc_max_attempts pc \<or> shard_of x \<noteq> shard_of en")
    case True
    then have "accounted pc old w (record_failure pc en error pj) x"
      using assms(1) by (auto simp: record_failure_def accounted_def letters_def pending_entry_def Let_def attempts_def)
    then show ?thesis ..
  next
    case False
    then have "accounted pc old (w @ [d]) (record_failure pc en error pj) x"
      using assms kept
      by (auto simp: record_failure_def accounted_def letters_def pending_entry_def same_entry_def Let_def d_def attempts_def)
    then show ?thesis ..
  qed
qed

lemma accounted_database:
  assumes "accounted pc old w pj x" "entry_seen (pj_database pj) x \<Longrightarrow> entry_seen db x"
  shows "accounted pc old w (pj\<lparr>pj_database := db\<rparr>) x"
  using assms by (auto simp: accounted_def letters_def pending_entry_def)

lemma process_entry_accounted:
  assumes "accounted pc old w pj x" "same_entry en x"
  shows "\<exists>w'. accounted pc old w' (process_entry pc en pj) x"
proof -
  have step: "accounted pc old w (pj\<lparr>pj_database := project_step en (pj_database pj)\<rparr>) x"
    using assms(1) by (rule accounted_database) (rule entry_seen_step)
  show ?thesis
  proof (cases "project_entry en (pj_database pj)")
    case (Inl e)
    with record_failure_accounted [OF step assms(2)] show ?thesis by (simp add: process_entry_def Let_def)
  next
    case (Inr rd)
    then obtain r db where r: "project_entry en (pj_database pj) = Inr (r, db)" by (cases rd) auto
    then have db: "project_step en (pj_database pj) = db" by (simp add: project_step_def)
    obtain pj' where f: "finalize_projected en (pj\<lparr>pj_database := db\<rparr>) = Inr pj'"
      using finalize_after_project entry_seen_projected [OF r] by blast
    have "accounted pc old w (pj'\<lparr>pj_processed := pj_processed pj' + 1\<rparr>) x"
      using finalize_accounted [OF f] step db entry_seen_projected [OF r] assms(2) by simp
    then show ?thesis by (auto simp: process_entry_def r f)
  qed
qed

lemma fold_entries_accounted:
  "\<forall>en \<in> set ens. same_entry en x \<Longrightarrow> accounted pc old w pj x \<Longrightarrow> \<exists>w'. accounted pc old w' (fold (process_entry pc) ens pj) x"
proof (induction ens arbitrary: pj w)
  case (Cons en ens)
  then obtain w1 where "accounted pc old w1 (process_entry pc en pj) x" using process_entry_accounted by force
  with Cons show ?case by simp
qed auto

lemma finalize_lane_accounted:
  assumes "\<forall>en \<in> set ens. same_entry en x \<and> entry_seen (pj_database pj) en" "accounted pc old w pj x"
  shows "\<exists>pj'. finalize_lane ens pj = Inr pj' \<and> accounted pc old w pj' x"
  using assms
proof (induction ens arbitrary: pj)
  case (Cons en ens)
  obtain pj1 where f: "finalize_projected en pj = Inr pj1" using finalize_after_project Cons.prems(1) by force
  have "accounted pc old w pj1 x" using finalize_accounted [OF f Cons.prems(2)] Cons.prems(1) by simp
  with Cons.IH [of "pj1\<lparr>pj_processed := pj_processed pj1 + 1\<rparr>"] Cons.prems(1) finalize_Inr [OF f] show ?case
    by (simp add: f)
qed simp

lemma entry_seen_fold: "entry_seen db x \<Longrightarrow> entry_seen (fold project_step ens db) x"
  by (induction ens arbitrary: db) (simp_all add: entry_seen_step)

lemma process_lane_accounted:
  assumes "\<forall>en \<in> set lane. same_entry en x" "accounted pc old w pj x"
  shows "\<exists>w'. accounted pc old w' (process_lane pc lane pj) x"
proof (cases "project_lane lane (pj_database pj)")
  case (Inl e)
  with fold_entries_accounted [OF assms] show ?thesis by (simp add: process_lane_def)
next
  case (Inr od)
  then obtain outcomes db where l: "project_lane lane (pj_database pj) = Inr (outcomes, db)" by (cases od) auto
  have "accounted pc old w (pj\<lparr>pj_database := db\<rparr>) x"
    using assms(2) by (rule accounted_database) (simp add: entry_seen_fold flip: project_lane_merged [OF l])
  with finalize_lane_accounted [of lane x "pj\<lparr>pj_database := db\<rparr>" pc old w] assms(1) project_lane_seen [OF l]
  obtain pj' where "finalize_lane lane (pj\<lparr>pj_database := db\<rparr>) = Inr pj'" "accounted pc old w pj' x" by auto
  then show ?thesis by (auto simp: process_lane_def l)
qed

lemma lanes_of_members: "set (concat (map snd (lanes_of key_of items))) = set items"
proof (rule set_eqI)
  fix x
  have own: "x \<in> set xs \<longleftrightarrow> x \<in> set (only key_of (key_of x) xs)" for xs by (simp add: only_def)
  show "x \<in> set (concat (map snd (lanes_of key_of items))) \<longleftrightarrow> x \<in> set items"
    using own [of "concat (map snd (lanes_of key_of items))"] own [of items] by (simp only: lanes_of_only)
qed


lemma snapshot_frame:
  assumes "project_entry en db = Inr (r, db')" "db_products db product = Some p"
  shows "db_products db' product = Some p \<or>
    (\<exists>ev. parse_event (en_payload en) = Inr ev \<and> decimal_of (e_product_id ev) = product \<and> decimal_of (e_sequence ev) = pr_sequence p + 1)"
proof -
  obtain ev leader where e: "parse_event (en_payload en) = Inr ev" "project_event en ev leader db = Inr (r, db')"
    using assms(1) by (rule project_entry_Inr)
  from e(2) show ?thesis
  proof (cases rule: project_event_cases)
    case (2 q)
    with apply_event_effect(5) [OF 2(7)] e(1) assms(2) show ?thesis
      by (cases "decimal_of (e_product_id ev) = product") auto
  qed (use assms(2) in simp)
qed

text \<open>The projector never overtakes. As long as no entry carries the next sequence of an
  auction, no entry changes the auction's row: a missing or dead-lettered event holds back every
  later event of that auction.\<close>

theorem missing_event_holds_back:
  assumes "db_products db product = Some p"
    and "\<forall>en \<in> set entries. \<forall>ev. parse_event (en_payload en) = Inr ev \<longrightarrow>
      decimal_of (e_product_id ev) \<noteq> product \<or> decimal_of (e_sequence ev) \<noteq> pr_sequence p + 1"
  shows "db_products (fold project_step entries db) product = Some p"
  using assms
proof (induction entries arbitrary: db)
  case (Cons en ens)
  have "db_products (project_step en db) product = Some p"
  proof (cases "project_entry en db")
    case (Inr rd)
    then obtain r db' where r: "project_entry en db = Inr (r, db')" by (cases rd) auto
    with snapshot_frame [OF r Cons.prems(1)] Cons.prems(2) show ?thesis by (auto simp: project_step_def)
  qed (use Cons.prems(1) in \<open>simp add: project_step_def\<close>)
  with Cons show ?case by simp
qed simp

text \<open>Recovery may trust a drained stream. When \<open>hasUndrainedProjectorEntries\<close> answers false
  for one shard, page after page of a thousand entries, no entry up to the watermark belongs to a
  target auction, well-formed or not.\<close>

theorem drained_means_no_target_entry:
  assumes "has_undrained parse_json products shard [(stream, watermark)] = Inr False" "sorted_stream stream"
    and "item \<in> set stream" "si_id item \<le> watermark" "after_event (si_fields item) = Some payload"
  shows "case parse_event (parse_json payload) of
      Inr ev \<Rightarrow> e_product_id ev \<notin> products
    | Inl _ \<Rightarrow> \<exists>raw. extract_raw_product_id (parse_json payload) = Some raw \<and> raw \<notin> products"
proof -
  let ?en = "\<lparr>en_id = id_text (si_id item), en_payload = parse_json payload, en_shard = Some shard\<rparr>"
  have "undrained_pages parse_json products shard watermark stream None = Inr False"
    using assms(1) by (auto simp: bind_result_Inr_iff split: if_splits)
  from undrained_pages_False [OF this assms(2)] assms(3-5)
  have "undrained_entry products ?en = Inr False"
    by (force simp: entries_from_read_def List.map_filter_def)
  then show ?thesis by (auto simp: undrained_entry_def split: sum.splits option.splits if_splits)
qed

lemma compact_keeps:
  assumes "item \<in> set stream" "item \<notin> set (fst (compact_stream pending last_delivered stream))"
  shows "\<exists>t. compaction_threshold pending last_delivered = Some t \<and> si_id item < t"
  using assms by (auto simp: compact_stream_def Let_def not_le split: option.splits if_splits)

text \<open>Compaction drops only finished work. When the pending list is in stream order and every
  pending entry has been delivered, an entry that \<open>compactAcknowledgedProjectorEntries\<close> trims is
  neither pending nor undelivered.\<close>

theorem compaction_keeps_open_work:
  assumes "sorted pending" "\<forall>p \<in> set pending. p \<le> last_delivered"
    and "item \<in> set stream" "item \<notin> set (fst (compact_stream pending (Some last_delivered) stream))"
  shows "si_id item \<notin> set pending \<and> si_id item < last_delivered"
proof -
  obtain t where "compaction_threshold pending (Some last_delivered) = Some t" "si_id item < t"
    using compact_keeps [OF assms(3,4)] by blast
  with assms(1,2) show ?thesis
    by (cases pending) (auto simp: compaction_threshold_def)
qed


definition example_batch_config :: projector_config where
  "example_batch_config = \<lparr>pc_max_attempts = 1, pc_dlq_maxlen = 2, pc_trim = length\<rparr>"

definition broken_entry :: entry where
  "broken_entry = \<lparr>en_id = ''1-0'', en_payload = None, en_shard = Some 0\<rparr>"

definition broken_projector :: projector where
  "broken_projector = \<lparr>pj_database = example_database,
     pj_shards = (\<lambda>_. \<lparr>sh_entries = [broken_entry], sh_pending = {en_id broken_entry}, sh_retries = Map.empty, sh_dlq = []\<rparr>),
     pj_expiring = {}, pj_processed = 0, pj_failed = 0, pj_batches = 0, pj_last_batch = 0\<rparr>"


theorem missing_event_holds_back_witness:
  "db_products (fold project_step [\<lparr>en_id = ''1-0'', en_payload = Some JNull, en_shard = None\<rparr>] example_database) 7 = Some example_product"
  by (rule missing_event_holds_back) (simp_all add: example_database_def parse_event_def)

theorem drained_means_no_target_entry_witness:
  "\<exists>raw. extract_raw_product_id (Some (JObject [(''productId'', JString ''8'')])) = Some raw \<and> raw \<notin> {''7''}"
proof -
  let ?item = "\<lparr>si_id = (5, 0), si_fields = [''event'', ''x'']\<rparr>"
  let ?parse = "\<lambda>s. Some (JObject [(''productId'', JString ''8'')])"
  have e: "parse_event (Some (JObject [(''productId'', JString ''8'')])) = Inl (InvalidAuctionEvent ''Stream event contract is invalid'')"
    by code_simp
  have raw: "extract_raw_product_id (Some (JObject [(''productId'', JString ''8'')])) = Some ''8''" by code_simp
  have "has_undrained ?parse {''7''} 0 [([?item], (9, 0))] = Inr False"
    by (simp add: undrained_pages.simps xrange_def entries_from_read_def List.map_filter_def undrained_entry_def e raw page_size_def)
  from drained_means_no_target_entry [OF this, where item = ?item and payload = "''x''"] show ?thesis
    by (simp add: sorted_stream_def e)
qed

theorem compaction_keeps_open_work_witness:
  "(3, 0) \<notin> set [(4 :: nat, 0 :: nat)] \<and> (3 :: nat, 0 :: nat) < (7, 0)"
  using compaction_keeps_open_work [of "[(4, 0)]" "(7, 0)" "\<lparr>si_id = (3, 0), si_fields = []\<rparr>" "[\<lparr>si_id = (3, 0), si_fields = []\<rparr>]"]
  by (simp add: compact_stream_def compaction_threshold_def)

end
