(* ===== verification/Recovery_Lease.thy ===== *)
theory Recovery_Lease
  imports Prelude "HOL-Library.Sublist"
begin

text \<open>
  The control row of the authority recovery (table auction_authority_recovery) and the statements of
  redis-authority.recovery.ts on it: claiming a recovery, renewing its lease, completing and failing
  it, and the heartbeat of a healthy cycle. Processes interleave between statements; \<open>lease_step\<close> is
  one statement, a list of them a history.
\<close>

record control =
  ct_generation :: string
  ct_epoch :: int
  ct_state :: string
  ct_owner :: "string option"
  ct_lease_until :: "int option"
  ct_last_healthy :: int
  ct_started_at :: "int option"
  ct_completed_at :: "int option"
  ct_last_error :: "string option"

text \<open>\<open>Math.max(30, Number(... ?? 60))\<close> seconds.\<close>

definition lease_seconds :: "int option \<Rightarrow> int" where
  "lease_seconds configured = max 30 (coalesce configured 60)"

definition lease_free :: "string \<Rightarrow> int \<Rightarrow> control \<Rightarrow> bool" where
  "lease_free me now c =
     ((case ct_lease_until c of None \<Rightarrow> True | Some t \<Rightarrow> t < now) \<or> ct_owner c = Some me)"

definition claim_recovery :: "string \<Rightarrow> int option \<Rightarrow> int \<Rightarrow> control \<Rightarrow> control option" where
  "claim_recovery me configured now c =
     (if lease_free me now c
      then Some (c\<lparr>ct_owner := Some me, ct_lease_until := Some (now + 1000 * lease_seconds configured),
             ct_epoch := (if ct_state c = ''READY'' then ct_epoch c + 1 else ct_epoch c),
             ct_state := ''RECOVERING'',
             ct_started_at := (if ct_state c = ''READY'' then Some now else ct_started_at c),
             ct_last_error := None\<rparr>)
      else None)"

definition renew_lease :: "string \<Rightarrow> int option \<Rightarrow> int \<Rightarrow> int \<Rightarrow> control \<Rightarrow> (string, control) result" where
  "renew_lease me configured now epoch c =
     (if ct_owner c = Some me \<and> ct_epoch c = epoch \<and> ct_state c = ''RECOVERING''
      then returns (c\<lparr>ct_lease_until := Some (now + 1000 * lease_seconds configured)\<rparr>)
      else throws ''Auction recovery lease was lost'')"

text \<open>The update that ends a recovery has no condition on owner or epoch; the one after an error has.\<close>

definition complete_recovery :: "int \<Rightarrow> control \<Rightarrow> control" where
  "complete_recovery now c =
     c\<lparr>ct_state := ''READY'', ct_owner := None, ct_lease_until := None, ct_completed_at := Some now,
       ct_last_healthy := now, ct_last_error := None\<rparr>"

definition fail_recovery :: "string \<Rightarrow> int \<Rightarrow> string \<Rightarrow> control \<Rightarrow> control" where
  "fail_recovery me epoch message c =
     (if ct_owner c = Some me \<and> ct_epoch c = epoch
      then c\<lparr>ct_state := ''FAILED_RETRYING'', ct_owner := None, ct_lease_until := None,
             ct_last_error := Some (take 4000 message)\<rparr>
      else c)"

definition heartbeat :: "int \<Rightarrow> control \<Rightarrow> control" where
  "heartbeat now c = c\<lparr>ct_last_healthy := now\<rparr>"

section \<open>Histories\<close>

datatype lease_op =
    Claim string int
  | Renew string int int
  | Complete int
  | Fail string int string
  | Heartbeat int

fun lease_step :: "int option \<Rightarrow> lease_op \<Rightarrow> control \<Rightarrow> control" where
  "lease_step configured (Claim me now) c = coalesce (claim_recovery me configured now c) c"
| "lease_step configured (Renew me epoch now) c =
     (case renew_lease me configured now epoch c of Inl _ \<Rightarrow> c | Inr c' \<Rightarrow> c')"
| "lease_step configured (Complete now) c = complete_recovery now c"
| "lease_step configured (Fail me epoch message) c = fail_recovery me epoch message c"
| "lease_step configured (Heartbeat now) c = heartbeat now c"

definition lease_run :: "int option \<Rightarrow> lease_op list \<Rightarrow> control \<Rightarrow> control" where
  "lease_run configured ops c = fold (lease_step configured) ops c"

lemma lease_run_simps [simp]:
  "lease_run configured [] c = c"
  "lease_run configured (op # ops) c = lease_run configured ops (lease_step configured op c)"
  "lease_run configured (ops @ ops') c = lease_run configured ops' (lease_run configured ops c)"
  by (simp_all add: lease_run_def)

definition held_by :: "string \<Rightarrow> int \<Rightarrow> control \<Rightarrow> bool" where
  "held_by me epoch c = (ct_owner c = Some me \<and> ct_epoch c = epoch \<and> ct_state c = ''RECOVERING'')"

text \<open>Only a claim of its own makes a process the holder.\<close>

lemma held_after_step:
  assumes "held_by me epoch (lease_step configured op c)"
  shows "held_by me epoch c
    \<or> (\<exists>now c'. op = Claim me now \<and> claim_recovery me configured now c = Some c' \<and> held_by me epoch c')"
  using assms
  by (cases op) (auto simp: held_by_def claim_recovery_def renew_lease_def complete_recovery_def fail_recovery_def
      heartbeat_def split: if_splits)

definition held_throughout :: "string \<Rightarrow> int \<Rightarrow> int option \<Rightarrow> lease_op list \<Rightarrow> control \<Rightarrow> bool" where
  "held_throughout me epoch configured ops c =
     (\<forall>done \<in> set (prefixes ops). held_by me epoch (lease_run configured done c))"

lemma held_throughout_snoc:
  "held_throughout me epoch configured (ops @ [op]) c \<longleftrightarrow>
     held_throughout me epoch configured ops c \<and> held_by me epoch (lease_run configured (ops @ [op]) c)"
  by (auto simp: held_throughout_def)

lemma held_since_claim:
  assumes "held_by me epoch (lease_run configured ops c)" "ct_owner c \<noteq> Some me"
  shows "\<exists>pre now post c'. ops = pre @ Claim me now # post
    \<and> claim_recovery me configured now (lease_run configured pre c) = Some c'
    \<and> held_throughout me epoch configured post c'"
  using assms(1)
proof (induction ops rule: rev_induct)
  case Nil
  then show ?case using assms(2) by (simp add: held_by_def)
next
  case (snoc op ops)
  have "held_by me epoch (lease_step configured op (lease_run configured ops c))" using snoc.prems by simp
  then consider "held_by me epoch (lease_run configured ops c)"
    | now c' where "op = Claim me now" "claim_recovery me configured now (lease_run configured ops c) = Some c'"
        "held_by me epoch c'"
    using held_after_step by blast
  then show ?case
  proof cases
    case 1
    then obtain pre now post c' where s: "ops = pre @ Claim me now # post"
        "claim_recovery me configured now (lease_run configured pre c) = Some c'"
        "held_throughout me epoch configured post c'"
      using snoc.IH by blast
    then have "held_throughout me epoch configured (post @ [op]) c'"
      using snoc.prems by (simp add: held_throughout_snoc)
    with s show ?thesis by (intro exI [of _ pre] exI [of _ now] exI [of _ "post @ [op]"]) auto
  next
    case 2
    then show ?thesis
      by (intro exI [of _ ops] exI [of _ now] exI [of _ "[]"] exI [of _ c']) (simp add: held_throughout_def)
  qed
qed

text \<open>C9: A renewed lease was never lost. In any history of statements of any processes, when a
  process that did not hold the row at its start renews its lease for an epoch, it has claimed that
  epoch, and in every state since that claim it was the owner, in that epoch, with the row in
  RECOVERING: no other process claimed, failed or completed a recovery in between.\<close>

theorem renewed_lease_was_never_lost:
  assumes "renew_lease me configured now epoch (lease_run configured ops c) = Inr c'" "ct_owner c \<noteq> Some me"
  shows "\<exists>pre t post c0. ops = pre @ Claim me t # post
    \<and> claim_recovery me configured t (lease_run configured pre c) = Some c0
    \<and> held_throughout me epoch configured post c0"
  using assms held_since_claim by (auto simp: renew_lease_def held_by_def split: if_splits)

definition idle_control :: control where
  "idle_control =
     \<lparr>ct_generation = ''g'', ct_epoch = 3, ct_state = ''READY'', ct_owner = None, ct_lease_until = None,
      ct_last_healthy = 0, ct_started_at = None, ct_completed_at = None, ct_last_error = None\<rparr>"

theorem renewed_lease_was_never_lost_witness:
  "\<exists>pre t post c0. [Heartbeat 10, Claim ''a'' 20, Claim ''b'' 30] = pre @ Claim ''a'' t # post
     \<and> claim_recovery ''a'' None t (lease_run None pre idle_control) = Some c0
     \<and> held_throughout ''a'' 4 None post c0"
proof -
  have "\<exists>c'. renew_lease ''a'' None 40 4 (lease_run None [Heartbeat 10, Claim ''a'' 20, Claim ''b'' 30] idle_control) = Inr c'"
    by (simp add: renew_lease_def claim_recovery_def lease_free_def heartbeat_def idle_control_def lease_seconds_def)
  then show ?thesis
    by (elim exE, intro renewed_lease_was_never_lost) (auto simp: idle_control_def)
qed

text \<open>A process that lost its lease still ends the recovery. If its lease ran out and another process
  has claimed the epoch, the completion of the first writes READY all the same, and the second
  process can no longer renew, nor record its failure.\<close>

theorem stale_completion_ends_recovery:
  assumes "claim_recovery me configured t c = Some c1" "me \<noteq> other"
    and "t + 1000 * lease_seconds configured < t'" "claim_recovery other configured t' c1 = Some c2"
  shows "held_by other (ct_epoch c1) c2 \<and> ct_state (complete_recovery now c2) = ''READY''
    \<and> renew_lease other configured now' (ct_epoch c1) (complete_recovery now c2) = Inl ''Auction recovery lease was lost''
    \<and> fail_recovery other (ct_epoch c1) message (complete_recovery now c2) = complete_recovery now c2"
  using assms
  by (auto simp: claim_recovery_def held_by_def complete_recovery_def renew_lease_def fail_recovery_def split: if_splits)

theorem stale_completion_ends_recovery_witness:
  "\<exists>c1 c2. claim_recovery ''a'' None 20 idle_control = Some c1 \<and> claim_recovery ''b'' None 60021 c1 = Some c2
     \<and> ct_state (complete_recovery 60030 c2) = ''READY''"
proof -
  obtain c1 c2 where c: "claim_recovery ''a'' None 20 idle_control = Some c1" "claim_recovery ''b'' None 60021 c1 = Some c2"
    by (simp add: claim_recovery_def lease_free_def idle_control_def lease_seconds_def)
  then show ?thesis
    using stale_completion_ends_recovery [OF c(1) _ _ c(2), of 60030] by (auto simp: lease_seconds_def)
qed

end
