(* ===== verification/Auction_Policy.thy ===== *)
theory Auction_Policy
  imports Money
begin

text \<open>
  The bidding domain of the backend: domain/bid.types.ts, auction.policy.ts,
  proxy-bid.policy.ts, lua-reference.model.ts, application/bid-engine.ts and
  application/shadow-comparison.ts. Dates are milliseconds (\<open>getTime()\<close>). The lemmas show that
  the proxy rule of the PostgreSQL engine and the reference model of the Lua script decide alike,
  and what a proxy decision guarantees of price and leader.
\<close>

section \<open>Types\<close>

datatype auction_status = PENDING | ACTIVE | SOLD | ENDED | CANCELLED

record auction =
  a_product_id :: nat
  a_seller_id :: nat
  a_current_price :: int
  a_start_price :: int
  a_step_price :: int
  a_price_owner_id :: "nat option"
  a_buy_now_price :: "int option"
  a_start_time :: int
  a_end_time :: int
  a_is_removed :: bool
  a_status :: auction_status
  a_version :: int
  a_sequence :: int

record eligibility =
  el_rating :: int
  el_rating_count :: int
  el_banned :: bool

record proxy_bid =
  pb_user :: nat
  pb_max :: int

section \<open>Guards (auction.policy.ts)\<close>

definition effective_status :: "auction \<Rightarrow> int \<Rightarrow> auction_status" where
  "effective_status a now =
     (if a_status a = PENDING \<and> a_start_time a \<le> now \<and> a_end_time a > now then ACTIVE else a_status a)"

definition assert_auction_available :: "auction \<Rightarrow> int \<Rightarrow> (bid_error, unit) result" where
  "assert_auction_available a now =
     (if effective_status a now \<noteq> ACTIVE \<or> a_is_removed a \<or> a_start_time a > now \<or> a_end_time a \<le> now
      then throws (bid_rejected ''Product is not in bidding period'')
      else returns ())"

definition assert_bidder_can_participate :: "auction \<Rightarrow> nat \<Rightarrow> eligibility \<Rightarrow> (bid_error, unit) result" where
  "assert_bidder_can_participate a user el =
     (if a_seller_id a = user then throws (bid_rejected ''Seller cannot bid on their own product'')
      else if el_banned el
      then throws (BidDomainError ''You have been banned from bidding on this product'' 403 ''BID_REJECTED'')
      else if el_rating_count el \<noteq> 0 \<and> el_rating el < 4
      then throws (bid_rejected ''User ratings too low to bid'')
      else returns ())"

text \<open>A bigint remainder is zero exactly when HOL's is (they differ only in sign).\<close>

definition assert_bid_amount :: "auction \<Rightarrow> int \<Rightarrow> (bid_error, unit) result" where
  "assert_bid_amount a maximum =
     (let minimum = a_current_price a + a_step_price a;
          follows_step = (a_step_price a = 0 \<or> (maximum - a_current_price a) mod a_step_price a = 0)
      in if maximum < minimum \<or> \<not> follows_step then throws (bid_rejected ''Invalid bid price'')
         else returns ())"

definition assert_buy_now_available :: "auction \<Rightarrow> nat \<Rightarrow> int \<Rightarrow> (bid_error, unit) result" where
  "assert_buy_now_available a user amount =
     (if a_seller_id a = user then throws (bid_rejected ''Seller cannot buy their own product'')
      else case a_buy_now_price a of
             None \<Rightarrow> throws (bid_rejected ''Product is not available for buy now'')
           | Some price \<Rightarrow>
               if amount < price then throws (bid_rejected ''Product is not available for buy now'')
               else returns ())"

definition assert_ban_authority :: "nat \<Rightarrow> string \<Rightarrow> auction \<Rightarrow> (bid_error, unit) result" where
  "assert_ban_authority user role a =
     (if role \<noteq> ''admin'' \<and> user \<noteq> a_seller_id a
      then throws (BidDomainError ''Only the seller or an administrator can ban bidders'' 403 ''BID_REJECTED'')
      else returns ())"

lemma assert_auction_available_ok:
  "assert_auction_available a now = Inr () \<longleftrightarrow>
   a_status a \<in> {PENDING, ACTIVE} \<and> \<not> a_is_removed a \<and> a_start_time a \<le> now \<and> now < a_end_time a"
  by (auto simp: assert_auction_available_def effective_status_def)

lemma assert_bid_amount_ok:
  "assert_bid_amount a maximum = Inr () \<longleftrightarrow>
   a_current_price a + a_step_price a \<le> maximum \<and> a_step_price a dvd (maximum - a_current_price a) \<or>
   a_step_price a = 0 \<and> a_current_price a \<le> maximum"
  by (auto simp: assert_bid_amount_def Let_def dvd_eq_mod_eq_0)

section \<open>The proxy rule (proxy-bid.policy.ts)\<close>

record proxy_result =
  pr_price :: int
  pr_owner :: nat
  pr_turns :: nat

definition calculate_proxy_bid :: "auction \<Rightarrow> proxy_bid \<Rightarrow> proxy_bid option \<Rightarrow> proxy_result" where
  "calculate_proxy_bid a incoming leader =
     (case leader of
        None \<Rightarrow> \<lparr>pr_price = a_current_price a, pr_owner = pb_user incoming, pr_turns = 1\<rparr>
      | Some l \<Rightarrow>
          if pb_user l = pb_user incoming
          then \<lparr>pr_price = a_current_price a, pr_owner = pb_user incoming, pr_turns = 0\<rparr>
          else if pb_max incoming \<le> pb_max l
          then \<lparr>pr_price = min_money (pb_max incoming + a_step_price a) (pb_max l),
                pr_owner = pb_user l, pr_turns = 2\<rparr>
          else \<lparr>pr_price = min_money (pb_max l + a_step_price a) (pb_max incoming),
                pr_owner = pb_user incoming, pr_turns = 1\<rparr>)"

section \<open>The reference model of the script (lua-reference.model.ts)\<close>

record reference_state =
  rs_current_price :: int
  rs_step_price :: int
  rs_leader :: "nat option"
  rs_leader_max :: "int option"

record reference_decision =
  rd_current_price :: int
  rd_leader :: nat
  rd_leader_max :: int

definition decide_lua_reference_bid ::
    "reference_state \<Rightarrow> nat \<Rightarrow> int \<Rightarrow> (bid_error, reference_decision) result" where
  "decide_lua_reference_bid s bidder maximum =
     (if maximum < rs_current_price s + rs_step_price s then throws (BidUnexpectedError ''BID_TOO_LOW'')
      else case (rs_leader s, rs_leader_max s) of
        (Some leader, Some leader_max) \<Rightarrow>
          if leader = bidder
          then if maximum \<le> leader_max then throws (BidUnexpectedError ''MAXIMUM_NOT_INCREASED'')
               else returns \<lparr>rd_current_price = rs_current_price s, rd_leader = bidder, rd_leader_max = maximum\<rparr>
          else if maximum \<le> leader_max
          then returns \<lparr>rd_current_price = min_money (maximum + rs_step_price s) leader_max,
                        rd_leader = leader, rd_leader_max = leader_max\<rparr>
          else returns \<lparr>rd_current_price = min_money (leader_max + rs_step_price s) maximum,
                        rd_leader = bidder, rd_leader_max = maximum\<rparr>
      | _ \<Rightarrow> returns \<lparr>rd_current_price = rs_current_price s, rd_leader = bidder, rd_leader_max = maximum\<rparr>)"

text \<open>The state the PostgreSQL engine hands to the reference model in shadow mode.\<close>

definition shadow_state :: "auction \<Rightarrow> proxy_bid option \<Rightarrow> reference_state" where
  "shadow_state a leader =
     \<lparr>rs_current_price = a_current_price a, rs_step_price = a_step_price a,
      rs_leader = map_option pb_user leader, rs_leader_max = map_option pb_max leader\<rparr>"

section \<open>Engine selection and shadow counters\<close>

datatype bid_engine = PostgresEngine | RedisEngine | ShadowEngine

definition get_bid_engine :: "string option \<Rightarrow> (string, bid_engine) result" where
  "get_bid_engine env =
     (let v = coalesce env ''redis''
      in if v = ''postgres'' then returns PostgresEngine
         else if v = ''redis'' then returns RedisEngine
         else if v = ''shadow'' then returns ShadowEngine
         else throws (''Unsupported BID_ENGINE: '' @ v))"

record shadow_counters =
  sc_matched :: nat
  sc_mismatched :: nat

definition record_shadow_comparison :: "bool \<Rightarrow> shadow_counters \<Rightarrow> shadow_counters" where
  "record_shadow_comparison matched c =
     (if matched then c\<lparr>sc_matched := sc_matched c + 1\<rparr> else c\<lparr>sc_mismatched := sc_mismatched c + 1\<rparr>)"

section \<open>Equivalence of the two rules\<close>

lemma reference_accepts:
  assumes "a_current_price a + a_step_price a \<le> maximum"
    and "\<And>l. leader = Some l \<Longrightarrow> pb_user l = bidder \<Longrightarrow> pb_max l < maximum"
  shows "decide_lua_reference_bid (shadow_state a leader) bidder maximum =
    Inr \<lparr>rd_current_price = pr_price (calculate_proxy_bid a \<lparr>pb_user = bidder, pb_max = maximum\<rparr> leader),
         rd_leader = pr_owner (calculate_proxy_bid a \<lparr>pb_user = bidder, pb_max = maximum\<rparr> leader),
         rd_leader_max = (case leader of
            None \<Rightarrow> maximum
          | Some l \<Rightarrow> if pb_user l = bidder then maximum else max (pb_max l) maximum)\<rparr>"
  using assms
  by (cases leader)
    (auto simp: decide_lua_reference_bid_def shadow_state_def calculate_proxy_bid_def Let_def)

text \<open>The reference model of the script and the proxy rule of the PostgreSQL engine agree. For
  every bid that passes \<open>assertBidAmount\<close>, either the bidder already leads with a maximum at least
  as high, and the reference model alone refuses it, or both give the same price and the same
  leader, so \<open>recordShadowComparison\<close> is told of a match.\<close>

theorem shadow_agreement:
  assumes "assert_bid_amount a maximum = Inr ()"
  shows "let r = calculate_proxy_bid a \<lparr>pb_user = bidder, pb_max = maximum\<rparr> leader
    in (case decide_lua_reference_bid (shadow_state a leader) bidder maximum of
      Inr d \<Rightarrow> rd_current_price d = pr_price r \<and> rd_leader d = pr_owner r
    | Inl e \<Rightarrow> e = BidUnexpectedError ''MAXIMUM_NOT_INCREASED''
        \<and> (\<exists>l. leader = Some l \<and> pb_user l = bidder \<and> maximum \<le> pb_max l))"
proof -
  have min: "a_current_price a + a_step_price a \<le> maximum"
    using assms(1) by (auto simp: assert_bid_amount_ok)
  show ?thesis
  proof (cases "\<exists>l. leader = Some l \<and> pb_user l = bidder \<and> maximum \<le> pb_max l")
    case True
    with min show ?thesis
      by (auto simp: decide_lua_reference_bid_def shadow_state_def)
  next
    case False
    then have "\<And>l. leader = Some l \<Longrightarrow> pb_user l = bidder \<Longrightarrow> pb_max l < maximum" by force
    from reference_accepts [OF min this] show ?thesis by simp
  qed
qed

definition example_auction :: auction where
  "example_auction = \<lparr>a_product_id = 7, a_seller_id = 1, a_current_price = 100, a_start_price = 100,
     a_step_price = 10, a_price_owner_id = Some 2, a_buy_now_price = Some 500, a_start_time = 0,
     a_end_time = 1000, a_is_removed = False, a_status = PENDING, a_version = 3, a_sequence = 3\<rparr>"

theorem shadow_agreement_witness:
  "assert_bid_amount example_auction 150 = Inr () \<and>
   decide_lua_reference_bid (shadow_state example_auction (Some \<lparr>pb_user = 2, pb_max = 130\<rparr>)) 3 150
     = Inr \<lparr>rd_current_price = 140, rd_leader = 3, rd_leader_max = 150\<rparr> \<and>
   pr_price (calculate_proxy_bid example_auction \<lparr>pb_user = 3, pb_max = 150\<rparr>
     (Some \<lparr>pb_user = 2, pb_max = 130\<rparr>)) = 140"
  using shadow_agreement [of example_auction 150
      3 "Some \<lparr>pb_user = 2, pb_max = 130\<rparr>"]
  by (simp add: Let_def assert_bid_amount_def example_auction_def decide_lua_reference_bid_def
      shadow_state_def min_money_def calculate_proxy_bid_def)

text \<open>What a proxy decision guarantees. With a non-negative step and a standing price not above
  the leader's maximum, the new price is the second price: never below the standing one, never
  above the maximum of the bidder who ends up leading, who has the highest maximum, the standing
  leader keeping the lead on a tie.\<close>

theorem proxy_second_price:
  assumes "a_current_price a + a_step_price a \<le> pb_max incoming" "0 \<le> a_step_price a"
    and "a_current_price a \<le> pb_max l" "pb_user l \<noteq> pb_user incoming"
  shows "let r = calculate_proxy_bid a incoming (Some l)
    in pr_price r = min (min (pb_max l) (pb_max incoming) + a_step_price a) (max (pb_max l) (pb_max incoming))
       \<and> a_current_price a \<le> pr_price r
       \<and> pr_owner r = (if pb_max incoming \<le> pb_max l then pb_user l else pb_user incoming)
       \<and> (pr_turns r = 2 \<longleftrightarrow> pr_owner r = pb_user l)"
  using assms bigint_money.second_price_bounds [of "pb_max incoming" "a_step_price a" "pb_max l"]
    bigint_money.second_price_bounds [of "pb_max l" "a_step_price a" "pb_max incoming"]
  by (auto simp: calculate_proxy_bid_def Let_def min_money_def)

theorem proxy_second_price_witness:
  "pr_price (calculate_proxy_bid example_auction \<lparr>pb_user = 3, pb_max = 150\<rparr>
     (Some \<lparr>pb_user = 2, pb_max = 130\<rparr>)) = 140"
  using proxy_second_price [of example_auction "\<lparr>pb_user = 3, pb_max = 150\<rparr>" "\<lparr>pb_user = 2, pb_max = 130\<rparr>"]
  by (simp add: example_auction_def Let_def)

end
