(* ===== verification/Auction_Spec.thy ===== *)
theory Auction_Spec
  imports Auction_Policy "HOL-Library.Product_Lexorder"
begin

text \<open>
  What the bidding authority promises, over numbers: the auction as a record with the ranking of
  the standing maxima (ascending by amount, then bidder), and the five mutations as functions that
  give the next auction or the code of the refusal. The lemmas show the invariant every mutation
  keeps: the leader holds the highest maximum, the price stays between the start price and the
  leader's maximum, nobody banned is ranked. \<open>Auction_Refinement\<close> shows that the script implements it.
\<close>

section \<open>State\<close>

record bidding =
  b_seller :: nat
  b_status :: auction_status
  b_start_at :: int
  b_end_at :: int
  b_start_price :: nat
  b_price :: nat
  b_step :: nat
  b_buy_now :: "nat option"
  b_leader :: "(nat \<times> nat) option"
  b_ranking :: "(nat \<times> nat) list"
  b_bans :: "nat set"
  b_auto :: bool
  b_window :: int
  b_extension :: int
  b_sequence :: nat
  b_version :: nat

definition max_amount :: nat where "max_amount = 9223372036854775807"

definition bidder_max :: "bidding \<Rightarrow> nat \<Rightarrow> nat option" where
  "bidder_max m b = map_of (map (\<lambda>(a, b). (b, a)) (b_ranking m)) b"

definition without :: "nat \<Rightarrow> (nat \<times> nat) list \<Rightarrow> (nat \<times> nat) list" where
  "without b r = filter (\<lambda>p. snd p \<noteq> b) r"

section \<open>Mutations\<close>

datatype mutation =
    Bid_by (bid_actor: nat) (bid_amount: nat)
  | Buy_by nat nat
  | Ban_by nat bool "nat option"
  | Close_it
  | Cancel_by nat bool

definition status_at :: "bidding \<Rightarrow> int \<Rightarrow> auction_status" where
  "status_at m now =
     (if b_status m = PENDING \<and> b_start_at m \<le> now \<and> now < b_end_at m then ACTIVE else b_status m)"

definition spec_guard :: "bidding \<Rightarrow> nat \<Rightarrow> int \<Rightarrow> string option" where
  "spec_guard m actor now =
     (if status_at m now \<noteq> ACTIVE \<or> now < b_start_at m \<or> b_end_at m \<le> now then Some ''AUCTION_NOT_ACTIVE''
      else if actor = b_seller m then Some ''SELLER_CANNOT_BID''
      else if actor \<in> b_bans m then Some ''BIDDER_BANNED''
      else None)"

text \<open>The proxy rule: standing price and leader after a bid with maximum \<open>amount\<close>.\<close>

definition spec_proxy :: "bidding \<Rightarrow> nat \<Rightarrow> nat \<Rightarrow> nat \<times> nat \<times> nat" where
  "spec_proxy m actor amount =
     (case b_leader m of
        None \<Rightarrow> (b_price m, actor, amount)
      | Some (leader, top_amount) \<Rightarrow>
          if leader = actor then (b_price m, actor, amount)
          else if amount \<le> top_amount then (min (amount + b_step m) top_amount, leader, top_amount)
          else (min (top_amount + b_step m) amount, actor, amount))"

definition spec_end :: "bidding \<Rightarrow> int \<Rightarrow> int" where
  "spec_end m now =
     (if b_auto m \<and> b_window m > 0 \<and> b_extension m > 0 \<and> b_end_at m - now \<le> b_window m
      then b_end_at m + b_extension m else b_end_at m)"

definition tick :: "bidding \<Rightarrow> bidding" where
  "tick m = m\<lparr>b_sequence := b_sequence m + 1, b_version := b_version m + 1\<rparr>"

definition spec_bid :: "bidding \<Rightarrow> nat \<Rightarrow> nat \<Rightarrow> int \<Rightarrow> (string, bidding) result" where
  "spec_bid m actor amount now =
     (case spec_guard m actor now of
        Some code \<Rightarrow> throws code
      | None \<Rightarrow>
          if max_amount < b_price m + b_step m then throws ''MONEY_OVERFLOW''
          else if amount < b_price m + b_step m then throws ''BID_TOO_LOW''
          else if \<exists>previous \<in> set_option (bidder_max m actor). amount \<le> previous
          then throws ''MAXIMUM_NOT_INCREASED''
          else let (price, leader, top_amount) = spec_proxy m actor amount
               in returns (tick m\<lparr>b_status := ACTIVE, b_price := price, b_leader := Some (leader, top_amount),
                     b_ranking := insort (amount, actor) (without actor (b_ranking m)),
                     b_end_at := spec_end m now\<rparr>))"

definition spec_buy_now :: "bidding \<Rightarrow> nat \<Rightarrow> nat \<Rightarrow> int \<Rightarrow> (string, bidding) result" where
  "spec_buy_now m actor amount now =
     (case spec_guard m actor now of
        Some code \<Rightarrow> throws code
      | None \<Rightarrow>
          (case b_buy_now m of
             None \<Rightarrow> throws ''BUY_NOW_DISABLED''
           | Some price \<Rightarrow>
               if amount < price then throws ''BUY_NOW_PRICE_MISMATCH''
               else returns (tick m\<lparr>b_status := SOLD, b_price := price,
                      b_leader := Some (actor, price), b_end_at := now\<rparr>)))"

text \<open>The leader after a ban: the top of the ranking that is left.\<close>

definition spec_relead :: "bidding \<Rightarrow> (nat \<times> nat) list \<Rightarrow> nat \<times> (nat \<times> nat) option" where
  "spec_relead m rest =
     (case rev rest of
        [] \<Rightarrow> (b_start_price m, None)
      | [(a, b)] \<Rightarrow> (b_start_price m, Some (b, a))
      | (a, b) # (a2, _) # _ \<Rightarrow> (min (a2 + b_step m) a, Some (b, a)))"

definition spec_ban :: "bidding \<Rightarrow> nat \<Rightarrow> bool \<Rightarrow> nat option \<Rightarrow> int \<Rightarrow> (string, bidding) result" where
  "spec_ban m actor admin target now =
     (if status_at m now \<noteq> ACTIVE then throws ''AUCTION_NOT_ACTIVE''
      else if actor \<noteq> b_seller m \<and> \<not> admin then throws ''FORBIDDEN''
      else case target of
        None \<Rightarrow> throws ''INVALID_TARGET''
      | Some t \<Rightarrow>
          if t = b_seller m then throws ''INVALID_TARGET''
          else if t \<in> b_bans m then throws ''ALREADY_BANNED''
          else let rest = without t (b_ranking m);
                   (price, leader) =
                     (if map_option fst (b_leader m) = Some t then spec_relead m rest
                      else (b_price m, b_leader m))
               in returns (tick m\<lparr>b_status := ACTIVE, b_price := price, b_leader := leader,
                     b_ranking := rest, b_bans := insert t (b_bans m)\<rparr>))"

definition spec_close :: "bidding \<Rightarrow> int \<Rightarrow> (string, bidding) result" where
  "spec_close m now =
     (if status_at m now \<noteq> ACTIVE then throws ''AUCTION_NOT_ACTIVE''
      else if now < b_end_at m then throws ''AUCTION_NOT_DUE''
      else returns (tick m\<lparr>b_status := ENDED\<rparr>))"

definition spec_cancel :: "bidding \<Rightarrow> nat \<Rightarrow> bool \<Rightarrow> int \<Rightarrow> (string, bidding) result" where
  "spec_cancel m actor admin now =
     (if status_at m now \<noteq> PENDING \<and> status_at m now \<noteq> ACTIVE then throws ''AUCTION_NOT_CANCELLABLE''
      else if actor \<noteq> b_seller m \<and> \<not> admin then throws ''FORBIDDEN''
      else returns (tick m\<lparr>b_status := CANCELLED\<rparr>))"

definition spec_mutate :: "bidding \<Rightarrow> mutation \<Rightarrow> int \<Rightarrow> (string, bidding) result" where
  "spec_mutate m x now =
     (case x of
        Bid_by actor amount \<Rightarrow> spec_bid m actor amount now
      | Buy_by actor amount \<Rightarrow> spec_buy_now m actor amount now
      | Ban_by actor admin target \<Rightarrow> spec_ban m actor admin target now
      | Close_it \<Rightarrow> spec_close m now
      | Cancel_by actor admin \<Rightarrow> spec_cancel m actor admin now)"

text \<open>A refused mutation leaves the auction as it is.\<close>

definition spec_step :: "mutation \<times> int \<Rightarrow> bidding \<Rightarrow> bidding" where
  "spec_step i m = (case spec_mutate m (fst i) (snd i) of Inl _ \<Rightarrow> m | Inr m' \<Rightarrow> m')"

section \<open>Invariant\<close>

text \<open>The ranking is a sorted set with one entry per bidder, all within the padded width.\<close>

definition rank_bound :: nat where "rank_bound = 10 ^ 19"

definition ranking_ok :: "(nat \<times> nat) list \<Rightarrow> bool" where
  "ranking_ok r = (sorted r \<and> distinct (map snd r) \<and> (\<forall>p \<in> set r. fst p < rank_bound \<and> snd p < rank_bound))"

definition leader_ok :: "bidding \<Rightarrow> bool" where
  "leader_ok m =
     (case b_leader m of
        None \<Rightarrow> b_ranking m = []
      | Some (b, a) \<Rightarrow> (a, b) \<in> set (b_ranking m) \<and> (\<forall>p \<in> set (b_ranking m). fst p \<le> a) \<and> b_price m \<le> a)"

definition open_ok :: "bidding \<Rightarrow> bool" where
  "open_ok m = (leader_ok m \<and> b_start_price m \<le> b_price m
     \<and> (\<forall>p \<in> set (b_ranking m). b_start_price m + b_step m \<le> fst p \<and> snd p \<noteq> b_seller m))"

definition bidding_ok :: "bidding \<Rightarrow> bool" where
  "bidding_ok m = (ranking_ok (b_ranking m) \<and> snd ` set (b_ranking m) \<inter> b_bans m = {}
     \<and> b_seller m \<notin> b_bans m
     \<and> (b_status m \<in> {PENDING, ACTIVE} \<longrightarrow> open_ok m))"

lemma without_set [simp]: "set (without b r) = {p \<in> set r. snd p \<noteq> b}"
  by (simp add: without_def)

lemma ranking_ok_without [simp]: "ranking_ok r \<Longrightarrow> ranking_ok (without b r)"
  by (auto simp: ranking_ok_def without_def sorted_wrt_filter distinct_map_filter)

lemma distinct_map_insort:
  "distinct (map f (insort x xs)) \<longleftrightarrow> f x \<notin> f ` set xs \<and> distinct (map f xs)"
  by (induction xs) (auto simp: set_insort_key)

lemma ranking_ok_insort:
  "ranking_ok r \<Longrightarrow> b \<notin> snd ` set r \<Longrightarrow> a < rank_bound \<Longrightarrow> b < rank_bound \<Longrightarrow>
   ranking_ok (insort (a, b) r)"
  by (simp add: ranking_ok_def sorted_insort distinct_map_insort set_insort_key)

lemma bidder_max_Some:
  "distinct (map snd (b_ranking m)) \<Longrightarrow> bidder_max m b = Some a \<longleftrightarrow> (a, b) \<in> set (b_ranking m)"
proof -
  assume "distinct (map snd (b_ranking m))"
  then have "distinct (map fst (map (\<lambda>(a, b). (b, a)) (b_ranking m)))"
    by (simp add: case_prod_beta' comp_def)
  from map_of_eq_Some_iff [OF this] show ?thesis
    by (auto simp: bidder_max_def image_iff split: prod.splits)
qed

lemma tick_simps [simp]:
  "b_seller (tick m) = b_seller m" "b_start_price (tick m) = b_start_price m" "b_step (tick m) = b_step m"
  "b_bans (tick m) = b_bans m" "b_ranking (tick m) = b_ranking m" "b_status (tick m) = b_status m"
  "b_leader (tick m) = b_leader m" "b_price (tick m) = b_price m"
  "b_sequence (tick m) = b_sequence m + 1" "b_version (tick m) = b_version m + 1"
  "b_end_at (tick m) = b_end_at m" "b_start_at (tick m) = b_start_at m"
  by (simp_all add: tick_def)

section \<open>Every mutation keeps the invariant\<close>

lemma status_at_active: "status_at m now = ACTIVE \<Longrightarrow> b_status m \<in> {PENDING, ACTIVE}"
  by (auto simp: status_at_def split: if_splits)

lemma bidding_ok_open:
  assumes "bidding_ok m" "status_at m now = ACTIVE"
  shows "open_ok m" "leader_ok m" "b_start_price m \<le> b_price m"
  using assms(1) status_at_active [OF assms(2)] by (auto simp: bidding_ok_def open_ok_def)

lemma spec_guard_None:
  "spec_guard m actor now = None \<longleftrightarrow>
   status_at m now = ACTIVE \<and> b_start_at m \<le> now \<and> now < b_end_at m
   \<and> actor \<noteq> b_seller m \<and> actor \<notin> b_bans m"
  by (auto simp: spec_guard_def)

lemma spec_bid_Inr:
  "spec_bid m actor amount now = Inr m' \<longleftrightarrow>
   spec_guard m actor now = None \<and> b_price m + b_step m \<le> max_amount \<and> b_price m + b_step m \<le> amount
   \<and> (\<forall>previous. bidder_max m actor = Some previous \<longrightarrow> previous < amount)
   \<and> m' = tick m\<lparr>b_status := ACTIVE, b_price := fst (spec_proxy m actor amount),
        b_leader := Some (snd (spec_proxy m actor amount)),
        b_ranking := insort (amount, actor) (without actor (b_ranking m)), b_end_at := spec_end m now\<rparr>"
  by (auto simp: spec_bid_def split: option.splits prod.splits)

lemma spec_bid_leader:
  assumes ok: "bidding_ok m" and bid: "spec_bid m actor amount now = Inr m'"
  shows "leader_ok m' \<and> b_start_price m' \<le> b_price m' \<and> b_price m \<le> b_price m'"
proof -
  note b = bid [unfolded spec_bid_Inr]
  have act: "status_at m now = ACTIVE" using b by (simp add: spec_guard_None)
  have open_m: "leader_ok m" "b_start_price m \<le> b_price m"
    "\<And>a' b'. (a', b') \<in> set (b_ranking m) \<Longrightarrow> b_start_price m + b_step m \<le> a'"
    using bidding_ok_open [OF ok act] by (auto simp: open_ok_def)
  show ?thesis
  proof (cases "b_leader m")
    case None
    with open_m b show ?thesis
      by (auto simp: leader_ok_def spec_proxy_def without_def)
  next
    case (Some l)
    obtain leader top_amount where l: "l = (leader, top_amount)" by (cases l)
    have tops: "(top_amount, leader) \<in> set (b_ranking m)" "b_price m \<le> top_amount"
      "\<And>a' b'. (a', b') \<in> set (b_ranking m) \<Longrightarrow> a' \<le> top_amount"
      using open_m(1) by (auto simp: leader_ok_def Some l)
    have "leader = actor \<Longrightarrow> top_amount < amount"
      using tops(1) b ok by (auto simp: bidding_ok_def ranking_ok_def bidder_max_Some)
    moreover have "b_start_price m \<le> top_amount" using open_m(2) tops(2) by simp
    ultimately show ?thesis
      using b tops(1,2) open_m(2)
      by (cases "leader = actor"; cases "amount \<le> top_amount")
        (auto simp: leader_ok_def spec_proxy_def Some l set_insort_key dest: tops(3))
  qed
qed

lemma spec_bid_ok:
  assumes ok: "bidding_ok m" and bid: "spec_bid m actor amount now = Inr m'"
    and bound: "amount < rank_bound" "actor < rank_bound"
  shows "bidding_ok m'"
proof -
  note b = bid [unfolded spec_bid_Inr]
  have g: "status_at m now = ACTIVE" "actor \<noteq> b_seller m" "actor \<notin> b_bans m"
    using b by (simp_all add: spec_guard_None)
  have m': "b_ranking m' = insort (amount, actor) (without actor (b_ranking m))"
    "b_seller m' = b_seller m" "b_bans m' = b_bans m" "b_start_price m' = b_start_price m" "b_step m' = b_step m"
    using b by simp_all
  have "b_start_price m + b_step m \<le> amount"
    using b bidding_ok_open(3) [OF ok g(1)] by simp
  moreover have "ranking_ok (insort (amount, actor) (without actor (b_ranking m)))"
    using ok bound by (intro ranking_ok_insort) (auto simp: bidding_ok_def)
  ultimately show ?thesis
    using spec_bid_leader [OF ok bid] bidding_ok_open(1) [OF ok g(1)] ok g
    by (auto simp: bidding_ok_def open_ok_def m' set_insort_key)
qed

lemma spec_buy_now_Inr:
  "spec_buy_now m actor amount now = Inr m' \<longleftrightarrow>
   spec_guard m actor now = None \<and> (\<exists>price. b_buy_now m = Some price \<and> price \<le> amount
   \<and> m' = tick m\<lparr>b_status := SOLD, b_price := price, b_leader := Some (actor, price), b_end_at := now\<rparr>)"
  by (auto simp: spec_buy_now_def split: option.splits)

lemma spec_close_Inr:
  "spec_close m now = Inr m' \<longleftrightarrow>
   status_at m now = ACTIVE \<and> b_end_at m \<le> now \<and> m' = tick m\<lparr>b_status := ENDED\<rparr>"
  by (auto simp: spec_close_def)

lemma spec_cancel_Inr:
  "spec_cancel m actor admin now = Inr m' \<longleftrightarrow>
   status_at m now \<in> {PENDING, ACTIVE} \<and> (actor = b_seller m \<or> admin) \<and> m' = tick m\<lparr>b_status := CANCELLED\<rparr>"
  by (auto simp: spec_cancel_def)

lemma spec_ban_Inr:
  "spec_ban m actor admin target now = Inr m' \<longleftrightarrow>
   status_at m now = ACTIVE \<and> (actor = b_seller m \<or> admin)
   \<and> (\<exists>t. target = Some t \<and> t \<noteq> b_seller m \<and> t \<notin> b_bans m
     \<and> (let rest = without t (b_ranking m);
            r = (if map_option fst (b_leader m) = Some t then spec_relead m rest else (b_price m, b_leader m))
        in m' = tick m\<lparr>b_status := ACTIVE, b_price := fst r, b_leader := snd r,
             b_ranking := rest, b_bans := insert t (b_bans m)\<rparr>))"
  by (cases target) (auto simp: spec_ban_def Let_def split_beta)

text \<open>The new leader after a ban holds the highest of the maxima that are left.\<close>

lemma spec_relead_leader:
  assumes "sorted rest" "\<forall>p \<in> set rest. b_start_price m + b_step m \<le> fst p"
  shows "case snd (spec_relead m rest) of
      None \<Rightarrow> rest = [] \<and> fst (spec_relead m rest) = b_start_price m
    | Some (b, a) \<Rightarrow> (a, b) \<in> set rest \<and> (\<forall>p \<in> set rest. fst p \<le> a)
        \<and> b_start_price m \<le> fst (spec_relead m rest) \<and> fst (spec_relead m rest) \<le> a"
proof (cases rest rule: rev_cases)
  case (snoc ys p)
  obtain a b where p: "p = (a, b)" by (cases p)
  have least: "\<forall>q \<in> set ys. fst q \<le> a"
    using assms(1) by (auto simp: snoc p sorted_append less_eq_prod_def split: prod.splits)
  show ?thesis
  proof (cases ys rule: rev_cases)
    case Nil
    with assms(2) show ?thesis by (auto simp: spec_relead_def snoc p)
  next
    case (snoc zs q)
    with least assms(2) \<open>rest = ys @ [p]\<close> show ?thesis
      by (cases q) (auto simp: spec_relead_def p)
  qed
qed (simp add: spec_relead_def)

lemma spec_ban_ok:
  assumes ok: "bidding_ok m" and ban: "spec_ban m actor admin target now = Inr m'"
  shows "bidding_ok m'"
proof -
  obtain t r where b: "status_at m now = ACTIVE" "t \<noteq> b_seller m"
    "r = (if map_option fst (b_leader m) = Some t then spec_relead m (without t (b_ranking m))
          else (b_price m, b_leader m))"
    "m' = tick m\<lparr>b_status := ACTIVE, b_price := fst r, b_leader := snd r,
             b_ranking := without t (b_ranking m), b_bans := insert t (b_bans m)\<rparr>"
    using ban unfolding spec_ban_Inr Let_def by blast
  note open_m = bidding_ok_open [OF ok b(1)]
  have rest: "sorted (without t (b_ranking m))" "ranking_ok (without t (b_ranking m))"
    using ok by (auto simp: bidding_ok_def ranking_ok_def without_def sorted_wrt_filter distinct_map_filter)
  have floor: "\<forall>p \<in> set (without t (b_ranking m)). b_start_price m + b_step m \<le> fst p"
    using open_m(1) by (auto simp: open_ok_def)
  have lead: "leader_ok m' \<and> b_start_price m \<le> b_price m'"
  proof (cases "map_option fst (b_leader m) = Some t")
    case True
    with spec_relead_leader [OF rest(1) floor] show ?thesis
      by (auto simp: leader_ok_def b(3,4) split: option.splits)
  next
    case False
    with open_m(2,3) show ?thesis
      by (auto simp: leader_ok_def b(3,4) without_def split: option.splits)
  qed
  with ok b(2) rest(2) open_m(1) show ?thesis
    by (auto simp: bidding_ok_def open_ok_def b(4))
qed

definition in_range :: "mutation \<times> int \<Rightarrow> bool" where
  "in_range i = (case fst i of Bid_by actor amount \<Rightarrow> actor < rank_bound \<and> amount < rank_bound | _ \<Rightarrow> True)"

lemma spec_end_ok:
  "bidding_ok m \<Longrightarrow> spec_buy_now m actor amount now = Inr m' \<Longrightarrow> bidding_ok m'"
  "bidding_ok m \<Longrightarrow> spec_close m now = Inr m' \<Longrightarrow> bidding_ok m'"
  "bidding_ok m \<Longrightarrow> spec_cancel m actor admin now = Inr m' \<Longrightarrow> bidding_ok m'"
  by (clarsimp simp: spec_buy_now_Inr spec_close_Inr spec_cancel_Inr, simp add: bidding_ok_def)+

lemma spec_mutate_ok:
  "in_range (x, now) \<Longrightarrow> bidding_ok m \<Longrightarrow> spec_mutate m x now = Inr m' \<Longrightarrow> bidding_ok m'"
proof (cases x)
  case (Bid_by actor amount)
  then show "in_range (x, now) \<Longrightarrow> bidding_ok m \<Longrightarrow> spec_mutate m x now = Inr m' \<Longrightarrow> bidding_ok m'"
    using spec_bid_ok by (simp add: spec_mutate_def in_range_def)
qed (simp_all add: spec_mutate_def, (metis spec_ban_ok spec_end_ok)+)

lemma spec_step_ok: "in_range i \<Longrightarrow> bidding_ok m \<Longrightarrow> bidding_ok (spec_step i m)"
  using spec_mutate_ok [of "fst i" "snd i" m]
  by (cases "spec_mutate m (fst i) (snd i)") (simp_all add: spec_step_def)

interpretation bidding_run: kept_invariant spec_step in_range bidding_ok
  by unfold_locales (rule spec_step_ok)

end
