(* ===== verification/Auction_Refinement.thy ===== *)
theory Auction_Refinement
  imports Auction_Authority Auction_Spec
begin

text \<open>
  The script implements the specification: \<open>represents\<close> relates an auction over numbers to the
  Redis keys that hold it, and every run of the script on a represented auction either refuses
  with the code of the specification and leaves the auction as it is, or gives keys that represent
  the specification's next auction, appends exactly one event and answers with its figures.
\<close>

section \<open>Representation\<close>

fun status_name :: "auction_status \<Rightarrow> string" where
  "status_name PENDING = ''PENDING''"
| "status_name ACTIVE = ''ACTIVE''"
| "status_name SOLD = ''SOLD''"
| "status_name ENDED = ''ENDED''"
| "status_name CANCELLED = ''CANCELLED''"

lemma status_name_inj [simp]: "status_name s = status_name t \<longleftrightarrow> s = t"
  by (cases s; cases t) simp_all

lemma status_name_eqs [simp]:
  "status_name s = ''PENDING'' \<longleftrightarrow> s = PENDING" "status_name s = ''ACTIVE'' \<longleftrightarrow> s = ACTIVE"
  by (cases s; simp)+

definition leader_text :: "(nat \<times> nat) option \<Rightarrow> string" where
  "leader_text leader = (case leader of None \<Rightarrow> '''' | Some (b, _) \<Rightarrow> show_nat b)"

definition leader_max_text :: "(nat \<times> nat) option \<Rightarrow> string" where
  "leader_max_text leader = (case leader of None \<Rightarrow> '''' | Some (_, a) \<Rightarrow> show_nat a)"

definition hash_of :: "nat \<Rightarrow> bidding \<Rightarrow> string \<Rightarrow> auction_hash" where
  "hash_of pid m last_event =
     \<lparr>h_product_id = Some (show_nat pid), h_seller_id = Some (show_nat (b_seller m)),
      h_status = Some (status_name (b_status m)),
      h_start_at = Some (show_int (b_start_at m)), h_end_at = Some (show_int (b_end_at m)),
      h_start_price = Some (show_nat (b_start_price m)), h_current_price = Some (show_nat (b_price m)),
      h_step_price = Some (show_nat (b_step m)),
      h_buy_now_price = Some (case b_buy_now m of None \<Rightarrow> '''' | Some p \<Rightarrow> show_nat p),
      h_leader_id = Some (leader_text (b_leader m)), h_leader_max = Some (leader_max_text (b_leader m)),
      h_sequence = Some (show_nat (b_sequence m)), h_version = Some (show_nat (b_version m)),
      h_auto_extend = Some (if b_auto m then ''1'' else ''0''),
      h_anti_snipe_window = Some (show_int (b_window m)),
      h_anti_snipe_extension = Some (show_int (b_extension m)), h_last_event_id = Some last_event\<rparr>"

definition member_of :: "nat \<times> nat \<Rightarrow> string" where
  "member_of p = rank_member (show_nat (fst p)) (show_nat (snd p))"

definition keyed :: "(nat \<times> nat \<Rightarrow> string) \<Rightarrow> (nat \<times> nat) list \<Rightarrow> string \<rightharpoonup> string" where
  "keyed f r = map_of (map (\<lambda>p. (show_nat (snd p), f p)) r)"

definition amount_text :: "nat \<times> nat \<Rightarrow> string" where
  "amount_text p = show_nat (fst p)"

definition represents :: "nat \<Rightarrow> bidding \<Rightarrow> auction_store \<Rightarrow> bool" where
  "represents pid m st =
     ((\<exists>last_event. k_state st = Some (hash_of pid m last_event))
      \<and> k_maxima st = keyed amount_text (b_ranking m)
      \<and> k_rank_members st = keyed member_of (b_ranking m)
      \<and> k_ranking st = map member_of (b_ranking m)
      \<and> k_bans st = show_nat ` b_bans m
      \<and> k_deadlines st (show_nat pid) = (if b_status m = ACTIVE then Some (b_end_at m) else None))"

section \<open>The ranking as a sorted set\<close>

definition bounded :: "nat \<times> nat \<Rightarrow> bool" where
  "bounded p = (fst p < rank_bound \<and> snd p < rank_bound)"

lemma ranking_ok_bounded: "ranking_ok r \<Longrightarrow> p \<in> set r \<Longrightarrow> bounded p"
  by (auto simp: ranking_ok_def bounded_def)

lemma member_less: "bounded p \<Longrightarrow> bounded q \<Longrightarrow> lua_less (member_of p) (member_of q) \<longleftrightarrow> p < q"
  using rank_member_less [of "fst p" "snd p" "fst q" "snd q"]
  by (auto simp: member_of_def bounded_def rank_bound_def less_prod_def')

lemma member_eq: "bounded p \<Longrightarrow> bounded q \<Longrightarrow> member_of p = member_of q \<longleftrightarrow> p = q"
  using rank_member_inj [of "fst p" "snd p" "fst q" "snd q"]
  by (auto simp: member_of_def bounded_def rank_bound_def prod_eq_iff)

lemma keyed_without: "keyed f (without b r) = (keyed f r)(show_nat b := None)"
  by (induction r) (auto simp: keyed_def without_def fun_eq_iff)

lemma keyed_insort:
  "snd p \<notin> snd ` set r \<Longrightarrow> keyed f (insort p r) = (keyed f r)(show_nat (snd p) \<mapsto> f p)"
  by (induction r) (auto simp: keyed_def fun_upd_twist)

lemma keyed_None: "keyed f r (show_nat b) = None \<longleftrightarrow> b \<notin> snd ` set r"
  by (auto simp: keyed_def map_of_eq_None_iff image_iff)

lemma keyed_Some:
  "distinct (map snd r) \<Longrightarrow> p \<in> set r \<Longrightarrow> keyed f r (show_nat (snd p)) = Some (f p)"
  by (induction r) (auto simp: keyed_def)

lemma without_absent: "b \<notin> snd ` set r \<Longrightarrow> without b r = r"
  by (auto simp: without_def filter_id_conv)

lemma without_unique: "distinct (map snd r) \<Longrightarrow> p \<in> set r \<Longrightarrow> without (snd p) r = filter (\<lambda>q. q \<noteq> p) r"
  unfolding without_def by (rule filter_cong) (auto dest: distinct_map [THEN iffD1] inj_onD)

lemma zrem_members:
  assumes "ranking_ok r"
  shows "zrem_opt (keyed member_of r (show_nat b)) (map member_of r) = map member_of (without b r)"
proof (cases "b \<in> snd ` set r")
  case True
  then obtain p where p: "p \<in> set r" "b = snd p" by auto
  have "filter (\<lambda>x. x \<noteq> member_of p) (map member_of r) = map member_of (filter (\<lambda>q. q \<noteq> p) r)"
    unfolding filter_map comp_def
    by (rule arg_cong [where f = "map member_of"], rule filter_cong)
      (use p(1) assms in \<open>auto simp: member_eq ranking_ok_bounded\<close>)
  with p assms show ?thesis
    by (simp add: ranking_ok_def keyed_Some zrem_opt_def zrem_def without_unique)
next
  case False
  then show ?thesis by (simp add: keyed_None [THEN iffD2] zrem_opt_def without_absent)
qed

lemma zadd_members:
  assumes "ranking_ok r" "bounded p" "p \<notin> set r"
  shows "zadd (member_of p) (map member_of r) = map member_of (insort p r)"
proof -
  have new: "member_of p \<notin> set (map member_of r)"
    using assms by (auto simp: member_eq ranking_ok_bounded)
  have "takeWhile (\<lambda>x. lua_less x (member_of p)) (map member_of r) @ [member_of p]
      @ dropWhile (\<lambda>x. lua_less x (member_of p)) (map member_of r) = map member_of (insort p r)"
    if "\<forall>q \<in> set r. bounded q" "p \<notin> set r"
    using that assms(2)
  proof (induction r)
    case (Cons q r)
    then have "lua_less (member_of q) (member_of p) \<longleftrightarrow> \<not> p \<le> q"
      by (simp add: member_less not_le)
    with Cons show ?case by simp
  qed simp
  with new assms show ?thesis by (simp add: zadd_def ranking_ok_bounded)
qed

section \<open>Loading and deciding\<close>

definition loaded_of :: "nat \<Rightarrow> bidding \<Rightarrow> int \<Rightarrow> loaded" where
  "loaded_of pid m now =
     \<lparr>l_product_id = show_nat pid, l_seller_id = show_nat (b_seller m),
      l_status = status_name (status_at m now), l_start_at = b_start_at m, l_end_at = b_end_at m,
      l_start_price = show_nat (b_start_price m), l_current_price = show_nat (b_price m),
      l_step_price = show_nat (b_step m),
      l_buy_now_price = Some (case b_buy_now m of None \<Rightarrow> '''' | Some p \<Rightarrow> show_nat p),
      l_leader_id = Some (leader_text (b_leader m)), l_leader_max = Some (leader_max_text (b_leader m)),
      l_sequence = show_nat (b_sequence m), l_version = show_nat (b_version m),
      l_auto_extend = b_auto m, l_window = Some (b_window m), l_extension = Some (b_extension m),
      l_now = now\<rparr>"

lemma loaded_of_simps [simp]:
  "l_product_id (loaded_of pid m now) = show_nat pid"
  "l_seller_id (loaded_of pid m now) = show_nat (b_seller m)"
  "l_status (loaded_of pid m now) = status_name (status_at m now)"
  "l_start_at (loaded_of pid m now) = b_start_at m" "l_end_at (loaded_of pid m now) = b_end_at m"
  "l_start_price (loaded_of pid m now) = show_nat (b_start_price m)"
  "l_current_price (loaded_of pid m now) = show_nat (b_price m)"
  "l_step_price (loaded_of pid m now) = show_nat (b_step m)"
  "l_buy_now_price (loaded_of pid m now) = Some (case b_buy_now m of None \<Rightarrow> [] | Some p \<Rightarrow> show_nat p)"
  "l_leader_id (loaded_of pid m now) = Some (leader_text (b_leader m))"
  "l_leader_max (loaded_of pid m now) = Some (leader_max_text (b_leader m))"
  "l_sequence (loaded_of pid m now) = show_nat (b_sequence m)"
  "l_version (loaded_of pid m now) = show_nat (b_version m)"
  "l_now (loaded_of pid m now) = now"
  by (simp_all add: loaded_of_def)

lemma compare_max_bigint [simp]:
  "lua_compare (show_nat n) max_bigint = (if n < max_amount then -1 else if n = max_amount then 0 else 1)"
  by (simp add: compare_val max_amount_def)

lemma load_state_represented:
  assumes "b_sequence m < max_amount" "b_version m < max_amount" "lua_tonumber (rq_now rq) = Some now"
    and "rq_product_id rq = pid"
  shows "load_state (hash_of pid m last_event) rq = Inr (loaded_of pid m now)"
  using assms
  by (simp add: load_state_def hash_of_def loaded_of_def promote_def status_at_def)

lemma Nil_show_nat [simp]: "[] \<noteq> show_nat n"
  using show_nat_nonempty [of n] by metis

lemma leader_text_simps [simp]:
  "no_leader (Some (leader_text leader)) \<longleftrightarrow> leader = None"
  "leader_text leader = show_nat b \<longleftrightarrow> map_option fst leader = Some b"
  by (auto simp: no_leader_def leader_text_def split: option.splits)

definition plan_of :: "bidding \<Rightarrow> string option \<Rightarrow> string \<Rightarrow> plan" where
  "plan_of m order kind =
     \<lparr>n_status = status_name (b_status m), n_leader = Some (leader_text (b_leader m)),
      n_leader_max = Some (leader_max_text (b_leader m)), n_price = show_nat (b_price m),
      n_end_at = b_end_at m, n_order = order, n_type = kind, n_new_member = None, n_old_member = None\<rparr>"

lemma add_show_nat [simp]: "lua_add (show_nat m) (show_nat n) = show_nat (m + n)"
  by (simp add: lua_add_val)

lemma add_one [simp]: "lua_add (show_nat n) ''1'' = show_nat (Suc n)"
proof -
  have "show_nat 1 = ''1''"
    using canonical_show [of "''1''"] by (simp add: canonical_def is_digit_def dec_val_def digit_val_def)
  with add_show_nat [of n 1] show ?thesis by (simp only: Suc_eq_plus1)
qed

lemma minimum_show_nat [simp]: "lua_minimum (show_nat m) (show_nat n) = show_nat (min m n)"
  by (simp add: lua_minimum_val)

lemma or_empty_Some [simp]: "or_empty (Some v) = v"
  by (simp add: or_empty_def)

lemma bidding_guard_spec:
  "k_bans st = show_nat ` b_bans m \<Longrightarrow>
   case spec_guard m actor now of
     None \<Rightarrow> bidding_guard (loaded_of pid m now) (show_nat actor) (k_bans st) = None
   | Some code \<Rightarrow> \<exists>message status.
       bidding_guard (loaded_of pid m now) (show_nat actor) (k_bans st) = Some (Reject code message status)"
  by (auto simp: spec_guard_def bidding_guard_def loaded_of_def)

lemma proxy_step_spec:
  "proxy_step (loaded_of pid m now) (show_nat actor) (show_nat amount) p =
   (case spec_proxy m actor amount of (price, leader, top_amount) \<Rightarrow>
      if map_option fst (b_leader m) = Some actor then p\<lparr>n_leader_max := Some (show_nat top_amount)\<rparr>
      else if b_leader m = None
      then p\<lparr>n_leader := Some (show_nat leader), n_leader_max := Some (show_nat top_amount)\<rparr>
      else if map_option fst (b_leader m) = Some leader then p\<lparr>n_price := show_nat price\<rparr>
      else p\<lparr>n_price := show_nat price, n_leader := Some (show_nat leader), n_leader_max := Some (show_nat top_amount)\<rparr>)"
  by (cases "b_leader m")
    (auto simp: proxy_step_def loaded_of_def spec_proxy_def leader_max_text_def split: prod.splits)

lemma extend_end_spec: "extend_end (loaded_of pid m now) = Some (spec_end m now)"
  by (simp add: extend_end_def loaded_of_def spec_end_def)

lemma keyed_bidder_max:
  "keyed amount_text (b_ranking m) (show_nat b) = map_option show_nat (bidder_max m b)"
proof -
  have "map_of (map (\<lambda>p. (show_nat (snd p), show_nat (fst p))) r) (show_nat b) =
      map_option show_nat (map_of (map (\<lambda>(a, b). (b, a)) r) b)" for r
    by (induction r) auto
  then show ?thesis by (simp add: keyed_def amount_text_def bidder_max_def)
qed

definition bid_plan :: "bidding \<Rightarrow> nat \<Rightarrow> nat \<Rightarrow> request \<Rightarrow> bidding \<Rightarrow> plan" where
  "bid_plan m actor amount rq m' = (plan_of m' (rq_order_id rq) ''BID_ACCEPTED'')
     \<lparr>n_old_member := keyed member_of (b_ranking m) (show_nat actor),
      n_new_member := Some (member_of (amount, actor))\<rparr>"

lemma decide_bid_spec:
  assumes rep: "represents pid m st" and amount: "or_empty (rq_amount rq) = show_nat amount"
    and rq: "rq_operation rq = BID" "rq_actor_id rq = actor"
  shows "case spec_bid m actor amount now of
      Inl code \<Rightarrow> \<exists>message status. decide st (loaded_of pid m now) rq = Reject code message status
    | Inr m' \<Rightarrow> decide st (loaded_of pid m now) rq = Accept (bid_plan m actor amount rq m')"
proof (cases "spec_guard m actor now")
  case (Some code)
  with bidding_guard_spec [where m = m and actor = actor and pid = pid and now = now and st = st] rep show ?thesis
    by (auto simp: represents_def spec_bid_def decide_def throttled_def rq)
next
  case None
  with bidding_guard_spec [where m = m and actor = actor and pid = pid and now = now and st = st] rep
  have guard: "bidding_guard (loaded_of pid m now) (show_nat actor) (k_bans st) = None"
    by (simp add: represents_def)
  have active: "status_at m now = ACTIVE" using None by (simp add: spec_guard_None)
  have prev: "k_maxima st (show_nat actor) = map_option show_nat (bidder_max m actor)"
    and member: "k_rank_members st = keyed member_of (b_ranking m)"
    using rep by (simp_all add: represents_def keyed_bidder_max)
  have d: "decide st (loaded_of pid m now) rq = decide_bid st (loaded_of pid m now) rq"
    using guard by (simp add: decide_def throttled_def rq)
  show ?thesis
    using None active
    by (cases "b_leader m"; cases "bidder_max m actor")
      (auto simp: Let_def d decide_bid_def spec_bid_def amount rq prev member extend_end_spec proxy_step_spec
        spec_proxy_def bid_plan_def plan_of_def stay_def leader_text_def leader_max_text_def
        member_of_def split: if_splits)
qed

lemma decide_buy_now_spec:
  assumes rep: "represents pid m st" and amount: "or_empty (rq_amount rq) = show_nat amount"
    and rq: "rq_operation rq = BUY_NOW" "rq_actor_id rq = actor"
  shows "case spec_buy_now m actor amount now of
      Inl code \<Rightarrow> \<exists>message status. decide st (loaded_of pid m now) rq = Reject code message status
    | Inr m' \<Rightarrow> decide st (loaded_of pid m now) rq = Accept (plan_of m' (rq_order_id rq) ''BUY_NOW_COMPLETED'')"
proof (cases "spec_guard m actor now")
  case (Some code)
  with bidding_guard_spec [where m = m and actor = actor and pid = pid and now = now and st = st] rep
  show ?thesis by (auto simp: represents_def spec_buy_now_def decide_def throttled_def rq)
next
  case None
  with bidding_guard_spec [where m = m and actor = actor and pid = pid and now = now and st = st] rep
  have guard: "bidding_guard (loaded_of pid m now) (show_nat actor) (k_bans st) = None"
    by (simp add: represents_def)
  have d: "decide st (loaded_of pid m now) rq = decide_buy_now (loaded_of pid m now) rq"
    using guard by (simp add: decide_def throttled_def rq)
  show ?thesis
    using None
    by (cases "b_buy_now m")
      (auto simp: d decide_buy_now_def spec_buy_now_def amount rq plan_of_def stay_def
        leader_text_def leader_max_text_def)
qed

lemma stay_plan:
  "status_at m now = s \<Longrightarrow>
   (stay (loaded_of pid m now) rq)\<lparr>n_type := kind\<rparr> = plan_of (m\<lparr>b_status := s\<rparr>) (rq_order_id rq) kind"
  by (simp add: stay_def plan_of_def)

lemma decide_ban_spec:
  assumes rep: "represents pid m st"
    and rq: "rq_operation rq = BAN" "rq_actor_id rq = actor" "(rq_actor_role rq = ''admin'') = admin"
  shows "case spec_ban m actor admin (rq_target rq) now of
      Inl code \<Rightarrow> \<exists>message status. decide st (loaded_of pid m now) rq = Reject code message status
    | Inr m' \<Rightarrow> decide st (loaded_of pid m now) rq =
        Accept ((plan_of (m\<lparr>b_status := ACTIVE\<rparr>) (rq_order_id rq) ''BIDDER_BANNED'')
          \<lparr>n_old_member := keyed member_of (b_ranking m) (show_nat (the (rq_target rq)))\<rparr>)"
proof -
  have k: "k_bans st = show_nat ` b_bans m" "k_rank_members st = keyed member_of (b_ranking m)"
    using rep by (simp_all add: represents_def)
  have d: "decide st (loaded_of pid m now) rq = decide_ban st (loaded_of pid m now) rq"
    by (simp add: decide_def throttled_def rq)
  show ?thesis
    unfolding d using rq
    by (cases "rq_target rq")
      (auto simp: decide_ban_def spec_ban_def k Let_def split_beta stay_def plan_of_def)
qed

lemma decide_close_spec:
  assumes "represents pid m st" and rq: "rq_operation rq = CLOSE"
  shows "case spec_close m now of
      Inl code \<Rightarrow> \<exists>message status. decide st (loaded_of pid m now) rq = Reject code message status
    | Inr m' \<Rightarrow> decide st (loaded_of pid m now) rq =
        Accept (plan_of m' (if b_leader m = None then None else rq_order_id rq) ''AUCTION_CLOSED'')"
  by (auto simp: decide_def throttled_def rq decide_close_def spec_close_def stay_def plan_of_def)

lemma decide_cancel_spec:
  assumes "represents pid m st"
    and rq: "rq_operation rq = CANCEL" "rq_actor_id rq = actor" "(rq_actor_role rq = ''admin'') = admin"
  shows "case spec_cancel m actor admin now of
      Inl code \<Rightarrow> \<exists>message status. decide st (loaded_of pid m now) rq = Reject code message status
    | Inr m' \<Rightarrow> decide st (loaded_of pid m now) rq = Accept (plan_of m' (rq_order_id rq) ''AUCTION_CANCELLED'')"
  using rq by (auto simp: decide_def throttled_def decide_cancel_def spec_cancel_def stay_def plan_of_def)

section \<open>Committing\<close>

text \<open>Only these fields change; sequence and version go up by one.\<close>

definition evolves :: "bidding \<Rightarrow> bidding \<Rightarrow> bool" where
  "evolves m m' = (m' = tick m\<lparr>b_status := b_status m', b_price := b_price m', b_leader := b_leader m',
     b_ranking := b_ranking m', b_end_at := b_end_at m', b_bans := b_bans m'\<rparr>)"

lemma evolves_fields:
  assumes "evolves m m'"
  shows "b_seller m' = b_seller m" "b_start_at m' = b_start_at m" "b_start_price m' = b_start_price m"
    "b_step m' = b_step m" "b_buy_now m' = b_buy_now m" "b_auto m' = b_auto m" "b_window m' = b_window m"
    "b_extension m' = b_extension m" "b_sequence m' = Suc (b_sequence m)" "b_version m' = Suc (b_version m)"
proof -
  obtain s c l r e b where "m' = tick m\<lparr>b_status := s, b_price := c, b_leader := l, b_ranking := r,
      b_end_at := e, b_bans := b\<rparr>"
    using assms unfolding evolves_def by blast
  then show "b_seller m' = b_seller m" "b_start_at m' = b_start_at m" "b_start_price m' = b_start_price m"
    "b_step m' = b_step m" "b_buy_now m' = b_buy_now m" "b_auto m' = b_auto m" "b_window m' = b_window m"
    "b_extension m' = b_extension m" "b_sequence m' = Suc (b_sequence m)" "b_version m' = Suc (b_version m)"
    by (simp_all add: tick_def)
qed

lemma represents_saved:
  assumes "k_state st = Some (hash_of pid m last_event)"
    and "k_maxima st = keyed amount_text (b_ranking m')" "k_rank_members st = keyed member_of (b_ranking m')"
    and "k_ranking st = map member_of (b_ranking m')" "k_bans st = show_nat ` b_bans m'"
    and "n_status p = status_name (b_status m')" "n_price p = show_nat (b_price m')"
    and "n_end_at p = b_end_at m'"
    and "n_leader p = Some (leader_text (b_leader m'))" "n_leader_max p = Some (leader_max_text (b_leader m'))"
    and "evolves m m'"
  shows "represents pid m' (remember clock slot rq reply (save_state (loaded_of pid m now) rq p st))
    \<and> k_state (remember clock slot rq reply (save_state (loaded_of pid m now) rq p st)) = Some (hash_of pid m' (rq_event_id rq))"
proof -
  have hash: "(hash_of pid m last_event)
    \<lparr>h_status := Some (n_status p), h_current_price := Some (n_price p),
     h_leader_id := n_leader p, h_leader_max := n_leader_max p, h_end_at := Some (show_int (n_end_at p)),
     h_sequence := Some (show_nat (Suc (b_sequence m))), h_version := Some (show_nat (Suc (b_version m))),
     h_last_event_id := Some (rq_event_id rq)\<rparr> = hash_of pid m' (rq_event_id rq)"
    using assms(6-10) by (simp add: hash_of_def evolves_fields [OF assms(11)])
  show ?thesis
    using assms(1-5,8) hash [unfolded assms(6-10)]
    by (auto simp: represents_def remember_def save_state_def assms(6,7,9,10))
qed

lemma represents_frame [simp]:
  "represents pid m (remember clock slot rq reply st) = represents pid m st"
  "represents pid m (bump_rate clock rq st) = represents pid m st"
  "represents pid m (st\<lparr>k_stream := evs\<rparr>) = represents pid m st"
  by (simp_all add: represents_def remember_def bump_rate_def Let_def)

lemma stream_frame [simp]:
  "k_stream (remember clock slot rq reply st) = k_stream st"
  "k_stream (bump_rate clock rq st) = k_stream st"
  "k_stream (save_state l rq p st) = k_stream st"
  "k_stream (apply_bid rq p st) = k_stream st"
  "k_stream (apply_ban target p st) = k_stream st"
  by (simp_all add: remember_def bump_rate_def save_state_def apply_bid_def apply_ban_def Let_def)

lemma represents_apply_bid:
  assumes rep: "represents pid m st" and ok: "ranking_ok (b_ranking m)"
    and rq: "rq_actor_id rq = actor" "rq_amount rq = Some (show_nat amount)"
    and p: "n_old_member p = keyed member_of (b_ranking m) (show_nat actor)"
      "n_new_member p = Some (member_of (amount, actor))"
    and bound: "amount < rank_bound" "actor < rank_bound"
  defines "r \<equiv> insort (amount, actor) (without actor (b_ranking m))"
  shows "k_maxima (apply_bid rq p st) = keyed amount_text r"
    "k_rank_members (apply_bid rq p st) = keyed member_of r"
    "k_ranking (apply_bid rq p st) = map member_of r"
    "k_state (apply_bid rq p st) = k_state st" "k_bans (apply_bid rq p st) = k_bans st"
proof -
  have new: "snd (amount, actor) \<notin> snd ` set (without actor (b_ranking m))" by auto
  note ins = keyed_insort [OF new]
  show "k_maxima (apply_bid rq p st) = keyed amount_text r"
    "k_rank_members (apply_bid rq p st) = keyed member_of r"
    using rep by (simp_all add: Let_def apply_bid_def r_def ins keyed_without represents_def rq p amount_text_def)
  have "zadd (member_of (amount, actor)) (map member_of (without actor (b_ranking m))) = map member_of r"
    unfolding r_def using ok bound new
    by (intro zadd_members) (auto simp: bounded_def)
  then show "k_ranking (apply_bid rq p st) = map member_of r"
    using rep ok by (simp add: Let_def apply_bid_def represents_def rq p zrem_members)
qed (simp_all add: Let_def apply_bid_def)

lemma ban_leader_spec:
  assumes ok: "ranking_ok rest"
  shows "ban_leader (loaded_of pid m now) (show_nat t) (map member_of rest) p =
    (if map_option fst (b_leader m) = Some t
     then p\<lparr>n_leader := Some (leader_text (snd (spec_relead m rest))),
            n_leader_max := Some (leader_max_text (snd (spec_relead m rest))),
            n_price := show_nat (fst (spec_relead m rest))\<rparr>
     else p)"
proof -
  have dec: "lua_trim (take 19 (member_of q)) = show_nat (fst q)"
    "lua_trim (drop 20 (member_of q)) = show_nat (snd q)" if "q \<in> set rest" for q
    using rank_member_decode [of "fst q" "snd q"] ranking_ok_bounded [OF ok that]
    by (simp_all add: member_of_def bounded_def rank_bound_def)
  show ?thesis
  proof (cases "map_option fst (b_leader m) = Some t")
    case True
    then show ?thesis
      by (cases "rev rest" rule: remdups_adj.cases)
        (auto simp: ban_leader_def rev_map spec_relead_def dec leader_text_def leader_max_text_def
          rev_swap split: option.splits)
  qed (simp add: ban_leader_def)
qed

lemma represents_apply_ban:
  assumes rep: "represents pid m st" and ok: "ranking_ok (b_ranking m)"
    and p: "n_old_member p = keyed member_of (b_ranking m) (show_nat t)"
  shows "k_maxima (apply_ban (show_nat t) p st) = keyed amount_text (without t (b_ranking m))"
    "k_rank_members (apply_ban (show_nat t) p st) = keyed member_of (without t (b_ranking m))"
    "k_ranking (apply_ban (show_nat t) p st) = map member_of (without t (b_ranking m))"
    "k_bans (apply_ban (show_nat t) p st) = show_nat ` insert t (b_bans m)"
    "k_state (apply_ban (show_nat t) p st) = k_state st"
  using rep ok by (simp_all add: apply_ban_def represents_def keyed_without p zrem_members)

section \<open>Runs of the script\<close>

text \<open>What a request asks for, in the vocabulary of the specification.\<close>

definition asks :: "request \<Rightarrow> mutation \<Rightarrow> bool" where
  "asks rq x =
     (case x of
        Bid_by b a \<Rightarrow> rq_operation rq = BID \<and> rq_actor_id rq = b \<and> rq_amount rq = Some (show_nat a)
      | Buy_by b a \<Rightarrow> rq_operation rq = BUY_NOW \<and> rq_actor_id rq = b \<and> rq_amount rq = Some (show_nat a)
      | Ban_by b admin t \<Rightarrow> rq_operation rq = BAN \<and> rq_actor_id rq = b
          \<and> (rq_actor_role rq = ''admin'') = admin \<and> rq_target rq = t
      | Close_it \<Rightarrow> rq_operation rq = CLOSE
      | Cancel_by b admin \<Rightarrow> rq_operation rq = CANCEL \<and> rq_actor_id rq = b
          \<and> (rq_actor_role rq = ''admin'') = admin)"

definition event_kind :: "mutation \<Rightarrow> string" where
  "event_kind x =
     (case x of Bid_by _ _ \<Rightarrow> ''BID_ACCEPTED'' | Buy_by _ _ \<Rightarrow> ''BUY_NOW_COMPLETED''
      | Ban_by _ _ _ \<Rightarrow> ''BIDDER_BANNED'' | Close_it \<Rightarrow> ''AUCTION_CLOSED'' | Cancel_by _ _ \<Rightarrow> ''AUCTION_CANCELLED'')"

text \<open>The auction an event shows: for a ban it is the one before the ban, whose leader and price
  the script replaces only after it has written the event.\<close>

definition shown :: "mutation \<Rightarrow> bidding \<Rightarrow> bidding \<Rightarrow> bidding" where
  "shown x m m' = (case x of Ban_by _ _ _ \<Rightarrow> m | _ \<Rightarrow> m')"

definition order_of :: "mutation \<Rightarrow> bidding \<Rightarrow> request \<Rightarrow> string option" where
  "order_of x m rq = (if x = Close_it \<and> b_leader m = None then None else rq_order_id rq)"

definition answers :: "nat \<Rightarrow> mutation \<Rightarrow> bidding \<Rightarrow> bidding \<Rightarrow> request \<Rightarrow> mutation_data \<Rightarrow> bool" where
  "answers pid x m m' rq d =
     (d = \<lparr>d_event_id = rq_event_id rq, d_product_id = show_nat pid, d_current_price = show_nat (b_price m'),
           d_leader_id = Some (leader_text (b_leader m')), d_end_time_ms = show_int (b_end_at m'),
           d_sequence = show_nat (b_sequence m'), d_version = show_nat (b_version m'),
           d_order_id = order_of x m rq\<rparr>)"

definition event_shows :: "nat \<Rightarrow> mutation \<Rightarrow> bidding \<Rightarrow> bidding \<Rightarrow> request \<Rightarrow> stream_event \<Rightarrow> bool" where
  "event_shows pid x m m' rq ev =
     (e_event_id ev = rq_event_id rq \<and> e_product_id ev = show_nat pid \<and> e_type ev = event_kind x
      \<and> e_sequence ev = show_nat (b_sequence m') \<and> e_version ev = show_nat (b_version m')
      \<and> e_status ev = status_name (b_status m') \<and> e_end_at ev = show_int (b_end_at m')
      \<and> e_current_price ev = show_nat (b_price (shown x m m'))
      \<and> e_leader_id ev = leader_text (b_leader (shown x m m'))
      \<and> e_leader_max ev = leader_max_text (b_leader (shown x m m'))
      \<and> e_actor_id ev = show_nat (rq_actor_id rq) \<and> e_target_user_id ev = map_option show_nat (rq_target rq)
      \<and> e_idempotency_key ev = rq_idempotency_key rq \<and> e_reason ev = rq_reason rq
      \<and> e_order_id ev = order_of x m rq
      \<and> e_requested_max ev = (if throttled (rq_operation rq) then Some (lua_trim (or_empty (rq_amount rq))) else None))"

definition committed ::
    "nat \<Rightarrow> mutation \<Rightarrow> bidding \<Rightarrow> bidding \<Rightarrow> request \<Rightarrow> auction_store \<Rightarrow> reply \<times> auction_store \<Rightarrow> bool" where
  "committed pid x m m' rq st out =
     (represents pid m' (snd out) \<and> k_state (snd out) = Some (hash_of pid m' (rq_event_id rq))
      \<and> (\<exists>d. fst out = ReplySuccess d \<and> answers pid x m m' rq d)
      \<and> (\<exists>ev. k_stream (snd out) = k_stream st @ [ev] \<and> event_shows pid x m m' rq ev))"

lemma represents_state:
  assumes "represents pid m st"
  obtains last_event where "k_state st = Some (hash_of pid m last_event)"
  using assms by (auto simp: represents_def)

lemma bump_rate_frame [simp]:
  "k_state (bump_rate clock rq st) = k_state st" "k_maxima (bump_rate clock rq st) = k_maxima st"
  "k_rank_members (bump_rate clock rq st) = k_rank_members st" "k_ranking (bump_rate clock rq st) = k_ranking st"
  "k_bans (bump_rate clock rq st) = k_bans st"
  by (simp_all add: bump_rate_def Let_def)

lemma commit_bid:
  assumes rep: "represents pid m st" and ok: "ranking_ok (b_ranking m)"
    and bid: "spec_bid m actor amount now = Inr m'" and rq: "asks rq (Bid_by actor amount)"
    and bound: "amount < rank_bound" "actor < rank_bound"
  shows "committed pid (Bid_by actor amount) m m' rq st
    (commit clock slot (loaded_of pid m now) rq (bid_plan m actor amount rq m') st)"
proof -
  define st2 where "st2 = bump_rate clock rq (st\<lparr>k_stream := k_stream st @ [event_of (loaded_of pid m now) rq (bid_plan m actor amount rq m')]\<rparr>)"
  define p where "p = bid_plan m actor amount rq m'"
  have r: "rq_operation rq = BID" "rq_actor_id rq = actor" "rq_amount rq = Some (show_nat amount)"
    using rq by (simp_all add: asks_def)
  have rep2: "represents pid m st2" using rep by (simp add: st2_def)
  obtain le where le: "k_state st2 = Some (hash_of pid m le)" using rep2 by (rule represents_state)
  note m' = bid [unfolded spec_bid_Inr, THEN conjunct2, THEN conjunct2, THEN conjunct2, THEN conjunct2]
  have p: "n_old_member p = keyed member_of (b_ranking m) (show_nat actor)"
    "n_new_member p = Some (member_of (amount, actor))"
    by (simp_all add: p_def bid_plan_def)
  note a = represents_apply_bid [OF rep2 ok r(2,3) p bound]
  have bans: "k_bans st2 = show_nat ` b_bans m" using rep2 by (simp add: represents_def)
  have "represents pid m' (remember clock slot rq reply (save_state (loaded_of pid m now) rq p (apply_bid rq p st2)))
      \<and> k_state (remember clock slot rq reply (save_state (loaded_of pid m now) rq p (apply_bid rq p st2))) = Some (hash_of pid m' (rq_event_id rq))"
    for reply
    by (rule represents_saved [where last_event = le], unfold a)
      (simp_all add: le bans p_def bid_plan_def plan_of_def m' evolves_def tick_def)
  then show ?thesis
    by (simp add: committed_def commit_def apply_bidders_def r(1) Let_def st2_def [symmetric] p_def [symmetric])
      (auto simp: st2_def success_of_def answers_def event_shows_def event_of_def p_def bid_plan_def
        plan_of_def m' event_kind_def shown_def order_of_def)
qed

text \<open>The mutations that leave the bidders alone.\<close>

lemma commit_plain:
  assumes rep: "represents pid m st" and evolves: "evolves m m'"
    and same: "b_ranking m' = b_ranking m" "b_bans m' = b_bans m"
    and x: "rq_operation rq \<noteq> BID" "rq_operation rq \<noteq> BAN" "shown x m m' = m'"
  shows "committed pid x m m' rq st
    (commit clock slot (loaded_of pid m now) rq (plan_of m' (order_of x m rq) (event_kind x)) st)"
proof -
  define p where "p = plan_of m' (order_of x m rq) (event_kind x)"
  define st2 where "st2 = bump_rate clock rq (st\<lparr>k_stream := k_stream st @ [event_of (loaded_of pid m now) rq p]\<rparr>)"
  have rep2: "represents pid m st2" using rep by (simp add: st2_def)
  obtain le where le: "k_state st2 = Some (hash_of pid m le)" using rep2 by (rule represents_state)
  have k: "k_maxima st2 = keyed amount_text (b_ranking m)" "k_rank_members st2 = keyed member_of (b_ranking m)"
    "k_ranking st2 = map member_of (b_ranking m)" "k_bans st2 = show_nat ` b_bans m"
    using rep2 by (simp_all add: represents_def)
  have "represents pid m' (remember clock slot rq reply (save_state (loaded_of pid m now) rq p st2))
      \<and> k_state (remember clock slot rq reply (save_state (loaded_of pid m now) rq p st2)) = Some (hash_of pid m' (rq_event_id rq))" for reply
    by (rule represents_saved [where last_event = le])
      (simp_all add: le k same evolves p_def plan_of_def)
  moreover have "apply_bidders l rq p st2 = (p, st2)" for l
    using x by (cases "rq_operation rq") (simp_all add: apply_bidders_def)
  ultimately show ?thesis
    by (simp add: committed_def commit_def Let_def st2_def [symmetric] p_def [symmetric])
      (auto simp: st2_def success_of_def answers_def event_shows_def event_of_def p_def
        plan_of_def x(3) evolves_fields [OF evolves])
qed

lemma commit_ban:
  assumes rep: "represents pid m st" and ok: "ranking_ok (b_ranking m)"
    and ban: "spec_ban m actor admin (Some t) now = Inr m'" and rq: "asks rq (Ban_by actor admin (Some t))"
  shows "committed pid (Ban_by actor admin (Some t)) m m' rq st
    (commit clock slot (loaded_of pid m now) rq
      ((plan_of (m\<lparr>b_status := ACTIVE\<rparr>) (rq_order_id rq) ''BIDDER_BANNED'')
          \<lparr>n_old_member := keyed member_of (b_ranking m) (show_nat t)\<rparr>) st)"
proof -
  define p where "p = (plan_of (m\<lparr>b_status := ACTIVE\<rparr>) (rq_order_id rq) ''BIDDER_BANNED'')
          \<lparr>n_old_member := keyed member_of (b_ranking m) (show_nat t)\<rparr>"
  define st2 where "st2 = bump_rate clock rq (st\<lparr>k_stream := k_stream st @ [event_of (loaded_of pid m now) rq p]\<rparr>)"
  define rest where "rest = without t (b_ranking m)"
  define st3 where "st3 = apply_ban (show_nat t) p st2"
  define p' where "p' = ban_leader (loaded_of pid m now) (show_nat t) (k_ranking st3) p"
  have r: "rq_operation rq = BAN" "rq_target rq = Some t" using rq by (simp_all add: asks_def)
  have rep2: "represents pid m st2" using rep by (simp add: st2_def)
  obtain le where le: "k_state st2 = Some (hash_of pid m le)" using rep2 by (rule represents_state)
  have p: "n_old_member p = keyed member_of (b_ranking m) (show_nat t)" by (simp add: p_def)
  note a = represents_apply_ban [OF rep2 ok p, folded st3_def rest_def]
  have rest: "ranking_ok rest" using ok by (simp add: rest_def)
  have m': "m' = tick m\<lparr>b_status := ACTIVE,
      b_price := fst (if map_option fst (b_leader m) = Some t then spec_relead m rest else (b_price m, b_leader m)),
      b_leader := snd (if map_option fst (b_leader m) = Some t then spec_relead m rest else (b_price m, b_leader m)),
      b_ranking := rest, b_bans := insert t (b_bans m)\<rparr>"
    using ban by (simp add: spec_ban_Inr Let_def rest_def)
  have evolves: "evolves m m'" by (simp add: m' evolves_def tick_def)
  have p': "n_status p' = ''ACTIVE''" "n_price p' = show_nat (b_price m')" "n_end_at p' = b_end_at m'"
    "n_leader p' = Some (leader_text (b_leader m'))" "n_leader_max p' = Some (leader_max_text (b_leader m'))"
    "n_order p' = rq_order_id rq"
    by (simp_all add: p'_def a(3) ban_leader_spec [OF rest] m') (simp_all add: p_def plan_of_def)
  have "represents pid m' (remember clock slot rq reply (save_state (loaded_of pid m now) rq p' st3))
      \<and> k_state (remember clock slot rq reply (save_state (loaded_of pid m now) rq p' st3)) = Some (hash_of pid m' (rq_event_id rq))" for reply
    by (rule represents_saved [where last_event = le])
      (simp_all add: a le p' evolves, simp_all add: m')
  moreover have "apply_bidders (loaded_of pid m now) rq p st2 = (p', st3)"
    by (simp add: apply_bidders_def r Let_def p'_def st3_def)
  ultimately show ?thesis
    by (simp add: committed_def commit_def Let_def st2_def [symmetric] p_def [symmetric])
      (auto simp: st3_def st2_def success_of_def answers_def event_shows_def event_of_def p' shown_def
        order_of_def event_kind_def evolves_fields [OF evolves] p_def plan_of_def, simp_all add: m')
qed

section \<open>The refinement\<close>

lemma mutate_loaded_reject:
  "decide st l rq = Reject code message status \<Longrightarrow>
   mutate_loaded clock slot l rq st =
     (Some (ReplyError code message status), remember clock slot rq (ReplyError code message status) st)"
  by (simp add: mutate_loaded_def Let_def)

lemma mutate_loaded_accept:
  "decide st l rq = Accept p \<Longrightarrow>
   throttled (rq_operation rq) \<longrightarrow> rate_count clock (k_rate st (show_nat (rq_actor_id rq))) < rq_rate_limit rq \<Longrightarrow>
   mutate_loaded clock slot l rq st = map_prod Some (\<lambda>s. s) (commit clock slot l rq p st)"
  by (cases "commit clock slot l rq p st") (auto simp: mutate_loaded_def)

definition refused :: "string \<Rightarrow> nat \<Rightarrow> bidding \<Rightarrow> auction_store \<Rightarrow> reply option \<times> auction_store \<Rightarrow> bool" where
  "refused code pid m st out =
     ((\<exists>message status. fst out = Some (ReplyError code message status))
      \<and> represents pid m (snd out) \<and> k_stream (snd out) = k_stream st)"

definition accepted ::
    "nat \<Rightarrow> mutation \<Rightarrow> bidding \<Rightarrow> bidding \<Rightarrow> request \<Rightarrow> auction_store \<Rightarrow> reply option \<times> auction_store \<Rightarrow> bool" where
  "accepted pid x m m' rq st out = (\<exists>r. fst out = Some r \<and> committed pid x m m' rq st (r, snd out))"

lemma accepted_commit:
  "committed pid x m m' rq st out \<Longrightarrow> accepted pid x m m' rq st (map_prod Some (\<lambda>s. s) out)"
  by (simp add: accepted_def)

lemma refused_reject:
  "represents pid m st \<Longrightarrow>
   refused code pid m st (Some (ReplyError code message status), remember clock slot rq r st)"
  by (simp add: refused_def)

definition refines_run ::
    "nat \<Rightarrow> bidding \<Rightarrow> mutation \<Rightarrow> int \<Rightarrow> request \<Rightarrow> auction_store \<Rightarrow> reply option \<times> auction_store \<Rightarrow> bool" where
  "refines_run pid m x now rq st out =
     (case spec_mutate m x now of
        Inl code \<Rightarrow> refused code pid m st out
      | Inr m' \<Rightarrow> accepted pid x m m' rq st out)"

definition within_rate :: "int \<Rightarrow> request \<Rightarrow> auction_store \<Rightarrow> bool" where
  "within_rate clock rq st = (throttled (rq_operation rq) \<longrightarrow>
     rate_count clock (k_rate st (show_nat (rq_actor_id rq))) < rq_rate_limit rq)"

lemma refines_bid:
  assumes rep: "represents pid m st" and ok: "ranking_ok (b_ranking m)" and x: "asks rq (Bid_by actor amount)"
    and range: "in_range (Bid_by actor amount, now)" and rate: "within_rate clock rq st"
  shows "refines_run pid m (Bid_by actor amount) now rq st (mutate_loaded clock slot (loaded_of pid m now) rq st)"
proof -
  have r: "rq_operation rq = BID" "rq_actor_id rq = actor" "or_empty (rq_amount rq) = show_nat amount"
    using x by (simp_all add: asks_def)
  show ?thesis
  proof (cases "spec_bid m actor amount now")
    case (Inl code)
    with decide_bid_spec [OF rep r(3,1,2), of now] rep show ?thesis
      by (auto simp: refines_run_def spec_mutate_def mutate_loaded_reject refused_reject)
  next
    case (Inr m')
    have "committed pid (Bid_by actor amount) m m' rq st (commit clock slot (loaded_of pid m now) rq (bid_plan m actor amount rq m') st)"
      using range x by (intro commit_bid [OF rep ok Inr]) (simp_all add: in_range_def)
    with Inr decide_bid_spec [OF rep r(3,1,2), of now] rate [unfolded within_rate_def] show ?thesis
      by (simp add: refines_run_def spec_mutate_def mutate_loaded_accept accepted_commit)
  qed
qed

lemma refines_buy_now:
  assumes rep: "represents pid m st" and ok: "ranking_ok (b_ranking m)" and x: "asks rq (Buy_by actor amount)"
    and range: "in_range (Buy_by actor amount, now)" and rate: "within_rate clock rq st"
  shows "refines_run pid m (Buy_by actor amount) now rq st (mutate_loaded clock slot (loaded_of pid m now) rq st)"
proof -
  have r: "rq_operation rq = BUY_NOW" "rq_actor_id rq = actor" "or_empty (rq_amount rq) = show_nat amount"
    using x by (simp_all add: asks_def)
  show ?thesis
  proof (cases "spec_buy_now m actor amount now")
    case (Inl code)
    with decide_buy_now_spec [OF rep r(3,1,2), of now] rep show ?thesis
      by (auto simp: refines_run_def spec_mutate_def mutate_loaded_reject refused_reject)
  next
    case (Inr m')
    then have "committed pid (Buy_by actor amount) m m' rq st
        (commit clock slot (loaded_of pid m now) rq (plan_of m' (order_of (Buy_by actor amount) m rq) (event_kind (Buy_by actor amount))) st)"
      by (intro commit_plain [OF rep]) (auto simp: spec_buy_now_Inr evolves_def tick_def shown_def r)
    with Inr decide_buy_now_spec [OF rep r(3,1,2), of now] rate [unfolded within_rate_def] show ?thesis
      by (simp add: refines_run_def spec_mutate_def mutate_loaded_accept accepted_commit order_of_def event_kind_def)
  qed
qed

lemma refines_ban:
  assumes rep: "represents pid m st" and ok: "ranking_ok (b_ranking m)" and x: "asks rq (Ban_by actor admin target)"
    and range: "in_range (Ban_by actor admin target, now)" and rate: "within_rate clock rq st"
  shows "refines_run pid m (Ban_by actor admin target) now rq st (mutate_loaded clock slot (loaded_of pid m now) rq st)"
proof -
  have r: "rq_operation rq = BAN" "rq_actor_id rq = actor" "(rq_actor_role rq = ''admin'') = admin"
    "rq_target rq = target"
    using x by (simp_all add: asks_def)
  show ?thesis
  proof (cases "spec_ban m actor admin target now")
    case (Inl code)
    with decide_ban_spec [OF rep r(1-3), of now] rep r(4) show ?thesis
      by (auto simp: refines_run_def spec_mutate_def mutate_loaded_reject refused_reject)
  next
    case (Inr m')
    then obtain t where t: "target = Some t" by (cases target) (auto simp: spec_ban_Inr)
    with commit_ban [OF rep ok, of actor admin t now m' rq clock slot] Inr x
      decide_ban_spec [OF rep r(1-3), of now] r(4) rate [unfolded within_rate_def] show ?thesis
      by (simp add: refines_run_def spec_mutate_def mutate_loaded_accept accepted_commit)
  qed
qed

lemma refines_close:
  assumes rep: "represents pid m st" and ok: "ranking_ok (b_ranking m)" and x: "asks rq (Close_it)"
    and range: "in_range (Close_it, now)" and rate: "within_rate clock rq st"
  shows "refines_run pid m (Close_it) now rq st (mutate_loaded clock slot (loaded_of pid m now) rq st)"
proof -
  have r: "rq_operation rq = CLOSE" using x by (simp add: asks_def)
  show ?thesis
  proof (cases "spec_close m now")
    case (Inl code)
    with decide_close_spec [OF rep r, of now] rep show ?thesis
      by (auto simp: refines_run_def spec_mutate_def mutate_loaded_reject refused_reject)
  next
    case (Inr m')
    then have "committed pid Close_it m m' rq st
        (commit clock slot (loaded_of pid m now) rq (plan_of m' (order_of Close_it m rq) (event_kind Close_it)) st)"
      by (intro commit_plain [OF rep]) (auto simp: spec_close_Inr evolves_def tick_def shown_def r)
    with Inr decide_close_spec [OF rep r, of now] rate [unfolded within_rate_def] show ?thesis
      by (simp add: refines_run_def spec_mutate_def mutate_loaded_accept accepted_commit order_of_def event_kind_def)
  qed
qed

lemma refines_cancel:
  assumes rep: "represents pid m st" and ok: "ranking_ok (b_ranking m)" and x: "asks rq (Cancel_by actor admin)"
    and range: "in_range (Cancel_by actor admin, now)" and rate: "within_rate clock rq st"
  shows "refines_run pid m (Cancel_by actor admin) now rq st (mutate_loaded clock slot (loaded_of pid m now) rq st)"
proof -
  have r: "rq_operation rq = CANCEL" "rq_actor_id rq = actor" "(rq_actor_role rq = ''admin'') = admin"
    using x by (simp_all add: asks_def)
  show ?thesis
  proof (cases "spec_cancel m actor admin now")
    case (Inl code)
    with decide_cancel_spec [OF rep r, of now] rep show ?thesis
      by (auto simp: refines_run_def spec_mutate_def mutate_loaded_reject refused_reject)
  next
    case (Inr m')
    then have "committed pid (Cancel_by actor admin) m m' rq st
        (commit clock slot (loaded_of pid m now) rq (plan_of m' (order_of (Cancel_by actor admin) m rq) (event_kind (Cancel_by actor admin))) st)"
      by (intro commit_plain [OF rep]) (auto simp: spec_cancel_Inr evolves_def tick_def shown_def r)
    with Inr decide_cancel_spec [OF rep r, of now] rate [unfolded within_rate_def] show ?thesis
      by (simp add: refines_run_def spec_mutate_def mutate_loaded_accept accepted_commit order_of_def event_kind_def)
  qed
qed

lemma mutate_loaded_refines:
  assumes "represents pid m st" "ranking_ok (b_ranking m)" "asks rq x" "in_range (x, now)" "within_rate clock rq st"
  shows "refines_run pid m x now rq st (mutate_loaded clock slot (loaded_of pid m now) rq st)"
  using assms by (cases x) (simp_all add: refines_bid refines_buy_now refines_ban refines_close refines_cancel)

end
