(* ===== verification/Auction_Properties.thy ===== *)
theory Auction_Properties
  imports Auction_Refinement
begin

text \<open>
  The properties of the bidding authority: the script implements the specification, every run of
  it keeps the invariant of the bidders, a retried request is answered from the idempotency record,
  its bid decision is the one of the reference model, and what a ban and an unsold pending auction
  do.
\<close>

section \<open>A store that represents an auction\<close>

definition store_of :: "nat \<Rightarrow> bidding \<Rightarrow> auction_store" where
  "store_of pid m =
     \<lparr>k_mistyped = False, k_state = Some (hash_of pid m ''e0''),
      k_maxima = keyed amount_text (b_ranking m), k_ranking = map member_of (b_ranking m),
      k_rank_members = keyed member_of (b_ranking m), k_bans = show_nat ` b_bans m,
      k_idempotency = (\<lambda>_. None), k_legacy = (\<lambda>_. None), k_legacy_expiry = None, k_rate = (\<lambda>_. None),
      k_deadlines = (\<lambda>_. None)(show_nat pid := (if b_status m = ACTIVE then Some (b_end_at m) else None)),
      k_stream = [], k_auction_fence = False, k_fence = False\<rparr>"

lemma represents_store_of [simp]: "represents pid m (store_of pid m)"
  by (auto simp: represents_def store_of_def)

text \<open>Seller 4, standing price 110, step 10; bidder 2 leads with 150, bidder 3 follows with 100.\<close>

definition example_bidding :: bidding where
  "example_bidding =
     \<lparr>b_seller = 4, b_status = ACTIVE, b_start_at = 0, b_end_at = 1000, b_start_price = 50, b_price = 110,
      b_step = 10, b_buy_now = Some 900, b_leader = Some (2, 150), b_ranking = [(100, 3), (150, 2)],
      b_bans = {9}, b_auto = True, b_window = 60, b_extension = 30, b_sequence = 4, b_version = 4\<rparr>"

definition example_request :: request where
  "example_request =
     \<lparr>rq_operation = BID, rq_product_id = 7, rq_actor_id = 3, rq_actor_role = ''user'',
      rq_amount = Some (show_nat 200), rq_target = None, rq_reason = None, rq_order_id = None,
      rq_event_id = ''e1'', rq_correlation_id = ''c1'', rq_idempotency_key = ''i1'', rq_fingerprint = ''f1'',
      rq_now = show_int 500, rq_rate_limit = 30, rq_rate_window = 10000, rq_ttl = 86400000\<rparr>"

definition example_ban :: request where
  "example_ban = example_request\<lparr>rq_operation := BAN, rq_actor_id := 4, rq_amount := None, rq_target := Some 2\<rparr>"

lemma example_bidding_ok: "bidding_ok example_bidding"
  by (simp add: bidding_ok_def example_bidding_def ranking_ok_def open_ok_def leader_ok_def
      rank_bound_def less_eq_prod_def)

lemma example_facts [simp]:
  "rq_product_id example_request = 7" "rq_now example_request = show_int 500"
  "rq_product_id example_ban = 7" "rq_now example_ban = show_int 500"
  "b_sequence example_bidding = 4" "b_version example_bidding = 4" "4 < max_amount" "3 < rank_bound" "200 < rank_bound"
  "ranking_ok (b_ranking example_bidding)"
  using example_bidding_ok
  by (simp_all add: example_request_def example_ban_def example_bidding_def max_amount_def rank_bound_def bidding_ok_def)

lemma example_asks: "asks example_request (Bid_by 3 200)" "asks example_ban (Ban_by 4 False (Some 2))"
  by (simp_all add: asks_def example_request_def example_ban_def)

section \<open>The script implements the specification\<close>

text \<open>Nothing stands in the way of a decision: the keys are sound, no recovery is under way, the
  request was not seen before and the rate limit is not reached.\<close>

definition fresh_run :: "int \<Rightarrow> string \<Rightarrow> request \<Rightarrow> auction_store \<Rightarrow> bool" where
  "fresh_run clock slot rq st =
     (\<not> k_mistyped st \<and> \<not> k_fence st \<and> \<not> k_auction_fence st
      \<and> find_replay clock slot rq st = (None, st) \<and> within_rate clock rq st)"

lemma mutate_script_loaded:
  assumes rep: "represents pid m st" and fresh: "fresh_run clock slot rq st"
    and rq: "rq_product_id rq = pid" "lua_tonumber (rq_now rq) = Some now"
    and room: "b_sequence m < max_amount" "b_version m < max_amount"
  shows "mutate_script clock slot rq st = mutate_loaded clock slot (loaded_of pid m now) rq st"
proof -
  obtain le where "k_state st = Some (hash_of pid m le)" using rep by (rule represents_state)
  with fresh load_state_represented [OF room rq(2,1)] show ?thesis
    by (simp add: mutate_script_def fresh_run_def)
qed

lemma script_refines_run:
  assumes "represents pid m st" "ranking_ok (b_ranking m)" "asks rq x" "in_range (x, now)"
    and "fresh_run clock slot rq st" "rq_product_id rq = pid" "lua_tonumber (rq_now rq) = Some now"
    and "b_sequence m < max_amount" "b_version m < max_amount"
  shows "refines_run pid m x now rq st (mutate_script clock slot rq st)"
proof -
  have "within_rate clock rq st" using assms(5) by (simp add: fresh_run_def)
  from mutate_loaded_refines [OF assms(1-4) this, of slot] show ?thesis
    by (simp only: mutate_script_loaded [OF assms(1,5-9)])
qed

text \<open>C19: The Lua script implements the abstract mutations. Run on keys that represent an auction
  \<open>m\<close>, a request that asks for the mutation \<open>x\<close> is refused with exactly the code of the
  specification, the auction and the stream left as they are, or it leaves keys that represent the
  specification's next auction, answers with that auction's price, leader, deadline, sequence and
  version, and appends exactly one event, which carries the same sequence.\<close>

theorem script_refines_spec:
  assumes "represents pid m st" "ranking_ok (b_ranking m)" "asks rq x" "in_range (x, now)"
    and "fresh_run clock slot rq st" "rq_product_id rq = pid" "lua_tonumber (rq_now rq) = Some now"
    and "b_sequence m < max_amount" "b_version m < max_amount"
  shows "case spec_mutate m x now of
      Inl code \<Rightarrow> refused code pid m st (mutate_script clock slot rq st)
    | Inr m' \<Rightarrow> accepted pid x m m' rq st (mutate_script clock slot rq st)"
  using script_refines_run [OF assms] by (simp only: refines_run_def)

lemma example_fresh: "fresh_run 0 slot example_request (store_of 7 example_bidding)"
  by (simp add: fresh_run_def store_of_def find_replay_def live_def within_rate_def rate_count_def
      example_request_def)

lemma example_next:
  "spec_mutate example_bidding (Bid_by 3 200) 500 = Inr (tick example_bidding
     \<lparr>b_price := 160, b_leader := Some (3, 200), b_ranking := [(150, 2), (200, 3)]\<rparr>)"
  by (simp add: spec_mutate_def spec_bid_def spec_guard_def status_at_def example_bidding_def bidder_max_def
      max_amount_def spec_proxy_def spec_end_def without_def less_eq_prod_def tick_def)

theorem script_refines_spec_witness:
  "accepted 7 (Bid_by 3 200) example_bidding (tick example_bidding
     \<lparr>b_price := 160, b_leader := Some (3, 200), b_ranking := [(150, 2), (200, 3)]\<rparr>)
     example_request (store_of 7 example_bidding)
     (mutate_script 0 ''s'' example_request (store_of 7 example_bidding))"
  using script_refines_spec [of 7 example_bidding "store_of 7 example_bidding" example_request "Bid_by 3 200" 500 0 "''s''"]
  by (simp add: in_range_def example_fresh example_next example_asks)

section \<open>The invariant of the bidders\<close>

definition well_asked :: "request \<Rightarrow> bool" where
  "well_asked rq = (\<exists>x. asks rq x \<and> in_range (x, 0))"

definition sound :: "nat \<Rightarrow> auction_store \<Rightarrow> bool" where
  "sound pid st = (\<exists>m. represents pid m st \<and> bidding_ok m)"

lemma find_replay_frame:
  "find_replay clock slot rq st = (found, st') \<Longrightarrow>
   represents pid m st' = represents pid m st \<and> k_stream st' = k_stream st \<and> k_rate st' = k_rate st"
  by (auto simp: find_replay_def represents_def split: option.splits if_splits)

lemma load_state_cases:
  "(\<exists>r. load_state (hash_of pid m le) rq = Inl r)
   \<or> (\<exists>now. load_state (hash_of pid m le) rq = Inr (loaded_of pid m now))"
proof (cases "b_sequence m < max_amount \<and> b_version m < max_amount \<and> rq_product_id rq = pid")
  case True
  then show ?thesis
    using load_state_represented [of m rq]
    by (cases "lua_tonumber (rq_now rq)") (auto simp: load_state_def hash_of_def)
next
  case False
  then show ?thesis
    by (cases "lua_tonumber (rq_now rq)") (auto simp: load_state_def hash_of_def Let_def)
qed

lemma mutate_loaded_limited:
  assumes "represents pid m st" "\<not> within_rate clock rq st"
  shows "represents pid m (snd (mutate_loaded clock slot (loaded_of pid m now) rq st))"
  using assms by (auto simp: mutate_loaded_def within_rate_def Let_def split: decision.splits)

lemma mutate_loaded_sound:
  assumes rep: "represents pid m st" and ok: "bidding_ok m" and rq: "well_asked rq"
  shows "sound pid (snd (mutate_loaded clock slot (loaded_of pid m now) rq st))"
proof (cases "within_rate clock rq st")
  case False
  from mutate_loaded_limited [OF rep False] ok show ?thesis unfolding sound_def by blast
next
  case True
  obtain x where x: "asks rq x" "in_range (x, now)"
    using rq by (auto simp: well_asked_def in_range_def)
  have "refines_run pid m x now rq st (mutate_loaded clock slot (loaded_of pid m now) rq st)"
    using rep ok x True by (intro mutate_loaded_refines) (simp_all add: bidding_ok_def)
  with ok spec_mutate_ok [OF x(2) ok] show ?thesis
    by (cases "spec_mutate m x now")
      (auto simp: refines_run_def sound_def refused_def accepted_def committed_def)
qed

lemma mutate_script_sound:
  assumes "well_asked rq" "sound pid st"
  shows "sound pid (snd (mutate_script clock slot rq st))"
proof -
  obtain m where m: "represents pid m st" "bidding_ok m" using assms(2) by (auto simp: sound_def)
  obtain found st' where f: "find_replay clock slot rq st = (found, st')" by force
  have rep: "represents pid m st'" using find_replay_frame [OF f, of pid m] m(1) by simp
  obtain le where le: "k_state st' = Some (hash_of pid m le)" using rep by (rule represents_state)
  have "sound pid st'" using rep m(2) by (auto simp: sound_def)
  with load_state_cases [of pid m le rq] mutate_loaded_sound [OF rep m(2) assms(1)] assms(2) show ?thesis
    by (auto simp: mutate_script_def f le split: option.splits)
qed

definition script_step :: "int \<times> string \<times> request \<Rightarrow> auction_store \<Rightarrow> auction_store" where
  "script_step i st = snd (mutate_script (fst i) (fst (snd i)) (snd (snd i)) st)"

interpretation script_run: kept_invariant script_step "\<lambda>i. well_asked (snd (snd i))" "sound pid"
  by unfold_locales (auto simp: script_step_def mutate_script_sound)

lemma script_step_sound_run:
  "\<forall>i \<in> set is. well_asked (snd (snd i)) \<Longrightarrow> sound pid st \<Longrightarrow> sound pid (fold script_step is st)"
  by (rule script_run.run_kept)

lemma sound_leader:
  assumes "sound pid st" "k_state st = Some h" "h_status h = Some ''ACTIVE''" "h_leader_id h = Some leader" "leader \<noteq> ''''"
  obtains price b a where "leader = show_nat b" "h_leader_max h = Some (show_nat a)"
    "k_maxima st leader = Some (show_nat a)" "h_current_price h = Some (show_nat price)" "price \<le> a"
    "leader \<notin> k_bans st" "\<forall>c n. k_maxima st (show_nat c) = Some (show_nat n) \<longrightarrow> n \<le> a"
proof -
  obtain m le where m: "represents pid m st" "bidding_ok m" "k_state st = Some (hash_of pid m le)"
    using assms(1) by (auto simp: sound_def represents_def)
  have h: "h = hash_of pid m le" using m(3) assms(2) by simp
  then have act: "b_status m = ACTIVE" using assms(3) by (simp add: hash_of_def)
  obtain b a where l: "b_leader m = Some (b, a)" "leader = show_nat b"
    using assms(4,5) by (cases "b_leader m") (auto simp: h hash_of_def leader_text_def)
  have lead: "(a, b) \<in> set (b_ranking m)" "b_price m \<le> a" "\<forall>p \<in> set (b_ranking m). fst p \<le> a"
    using m(2) act by (auto simp: bidding_ok_def open_ok_def leader_ok_def l)
  have dist: "distinct (map snd (b_ranking m))" "b \<notin> b_bans m"
    using m(2) lead(1) by (auto simp: bidding_ok_def ranking_ok_def)
  have "\<forall>c n. k_maxima st (show_nat c) = Some (show_nat n) \<longrightarrow> n \<le> a"
    using m(1) lead(3) dist(1) by (auto simp: represents_def keyed_bidder_max bidder_max_Some)
  moreover have "k_maxima st leader = Some (show_nat a)"
    using m(1) lead(1) dist(1) by (simp add: represents_def l keyed_bidder_max bidder_max_Some)
  moreover have "leader \<notin> k_bans st" using m(1) dist(2) by (auto simp: represents_def l)
  ultimately show ?thesis using that [of b a "b_price m"] l lead(2) by (simp add: h hash_of_def leader_max_text_def)
qed

text \<open>C21: The leader always deserves the lead. After any sequence of requests, at any times, from a
  sound auction, whenever the auction is ACTIVE with a leader: the stored leading maximum is the
  leader's own standing maximum, no standing maximum exceeds it, the current price does not exceed
  it, and the leader is not banned.\<close>

theorem leader_holds_highest_maximum:
  assumes "sound pid st" "\<forall>i \<in> set is. well_asked (snd (snd i))"
    and "k_state (fold script_step is st) = Some h" "h_status h = Some ''ACTIVE''"
    and "h_leader_id h = Some leader" "leader \<noteq> ''''"
  shows "\<exists>a price. h_leader_max h = Some (show_nat a) \<and> k_maxima (fold script_step is st) leader = Some (show_nat a)
    \<and> h_current_price h = Some (show_nat price) \<and> price \<le> a \<and> leader \<notin> k_bans (fold script_step is st)
    \<and> (\<forall>c n. k_maxima (fold script_step is st) (show_nat c) = Some (show_nat n) \<longrightarrow> n \<le> a)"
  using sound_leader [OF script_step_sound_run [OF assms(2,1)] assms(3-6)] by blast

theorem leader_holds_highest_maximum_witness:
  "\<exists>a price. h_leader_max (hash_of 7 example_bidding ''e0'') = Some (show_nat a) \<and> price \<le> a
     \<and> k_maxima (store_of 7 example_bidding) (show_nat 2) = Some (show_nat a)"
proof -
  have "sound 7 (store_of 7 example_bidding)"
    unfolding sound_def using example_bidding_ok represents_store_of by blast
  from leader_holds_highest_maximum [OF this, of "[]" "hash_of 7 example_bidding ''e0''" "show_nat 2"]
  show ?thesis
    by (auto simp: store_of_def) (auto simp: hash_of_def example_bidding_def leader_text_def)
qed

section \<open>Bids and the reference model\<close>

lemma spec_bid_reference:
  assumes "spec_bid m actor amount now = Inr m'"
  shows "decide_lua_reference_bid
      \<lparr>rs_current_price = int (b_price m), rs_step_price = int (b_step m),
       rs_leader = map_option fst (b_leader m), rs_leader_max = map_option (int \<circ> snd) (b_leader m)\<rparr>
      actor (int amount)
    = (case b_leader m of
         Some (leader, top_amount) \<Rightarrow>
           if leader = actor \<and> amount \<le> top_amount then Inl (BidUnexpectedError ''MAXIMUM_NOT_INCREASED'')
           else Inr \<lparr>rd_current_price = int (b_price m'), rd_leader = fst (the (b_leader m')),
                     rd_leader_max = int (snd (the (b_leader m')))\<rparr>
       | None \<Rightarrow> Inr \<lparr>rd_current_price = int (b_price m'), rd_leader = fst (the (b_leader m')),
                     rd_leader_max = int (snd (the (b_leader m')))\<rparr>)"
  using assms
  by (auto simp: spec_bid_Inr decide_lua_reference_bid_def spec_proxy_def min_money_def min_def
      split: option.splits)

lemma leader_raises:
  assumes "bidding_ok m" "spec_bid m actor amount now = Inr m'" "b_leader m = Some (actor, top_amount)"
  shows "top_amount < amount"
proof -
  have "status_at m now = ACTIVE" using assms(2) by (simp add: spec_bid_Inr spec_guard_None)
  then have "(top_amount, actor) \<in> set (b_ranking m)"
    using bidding_ok_open(2) [OF assms(1)] assms(3) by (auto simp: leader_ok_def)
  then show ?thesis using assms(1,2) by (auto simp: spec_bid_Inr bidding_ok_def ranking_ok_def bidder_max_Some)
qed

lemma example_run:
  "\<exists>d st'. mutate_script 0 ''s'' example_request (store_of 7 example_bidding) = (Some (ReplySuccess d), st')"
  using mutate_loaded_refines [of 7 example_bidding "store_of 7 example_bidding" example_request "Bid_by 3 200" 500 0 "''s''"]
    mutate_script_loaded [of 7 example_bidding "store_of 7 example_bidding" 0 "''s''" example_request 500]
    example_fresh [of "''s''"]
  by (auto simp: example_asks in_range_def fresh_run_def refines_run_def example_next accepted_def committed_def
      prod_eq_iff)

text \<open>The script decides bids like its reference model. An accepted BID on a sound auction
  answers with the price, and stores the price, the leader and the leading maximum, that
  \<open>decideLuaReferenceBid\<close> returns for the same auction.\<close>

theorem script_bid_matches_reference:
  assumes "represents pid m st" "bidding_ok m" "asks rq (Bid_by actor amount)" "in_range (Bid_by actor amount, now)"
    and "fresh_run clock slot rq st" "rq_product_id rq = pid" "lua_tonumber (rq_now rq) = Some now"
    and "b_sequence m < max_amount" "b_version m < max_amount"
    and "mutate_script clock slot rq st = (Some (ReplySuccess d), st')"
  shows "\<exists>decided h. decide_lua_reference_bid
      \<lparr>rs_current_price = int (b_price m), rs_step_price = int (b_step m),
       rs_leader = map_option fst (b_leader m), rs_leader_max = map_option (int \<circ> snd) (b_leader m)\<rparr>
      actor (int amount) = Inr decided
    \<and> d_current_price d = show_int (rd_current_price decided)
    \<and> d_leader_id d = Some (show_nat (rd_leader decided))
    \<and> k_state st' = Some h \<and> h_current_price h = Some (show_int (rd_current_price decided))
    \<and> h_leader_id h = Some (show_nat (rd_leader decided))
    \<and> h_leader_max h = Some (show_int (rd_leader_max decided))"
proof -
  have rate: "within_rate clock rq st" using assms(5) by (simp add: fresh_run_def)
  have ok: "ranking_ok (b_ranking m)" using assms(2) by (simp add: bidding_ok_def)
  have "refines_run pid m (Bid_by actor amount) now rq st (Some (ReplySuccess d), st')"
    using mutate_loaded_refines [OF assms(1) ok assms(3,4) rate, of slot]
    by (simp only: mutate_script_loaded [OF assms(1,5-9), symmetric] assms(10))
  then obtain m' where m': "spec_bid m actor amount now = Inr m'"
    and c: "represents pid m' st'" "answers pid (Bid_by actor amount) m m' rq d"
    by (cases "spec_bid m actor amount now")
      (auto simp: refines_run_def spec_mutate_def refused_def accepted_def committed_def)
  obtain leader a where l: "b_leader m' = Some (leader, a)"
    using m' by (cases "snd (spec_proxy m actor amount)") (simp add: spec_bid_Inr)
  obtain le where "k_state st' = Some (hash_of pid m' le)" using c(1) by (rule represents_state)
  moreover have "decide_lua_reference_bid
      \<lparr>rs_current_price = int (b_price m), rs_step_price = int (b_step m),
       rs_leader = map_option fst (b_leader m), rs_leader_max = map_option (int \<circ> snd) (b_leader m)\<rparr>
      actor (int amount) = Inr \<lparr>rd_current_price = int (b_price m'), rd_leader = leader, rd_leader_max = int a\<rparr>"
    using spec_bid_reference [OF m'] leader_raises [OF assms(2) m'] l by (auto split: option.splits)
  ultimately show ?thesis
    using c(2) l by (auto simp: answers_def hash_of_def leader_text_def leader_max_text_def)
qed

theorem script_bid_matches_reference_witness:
  "\<exists>decided. decide_lua_reference_bid
      \<lparr>rs_current_price = 110, rs_step_price = 10, rs_leader = Some 2, rs_leader_max = Some 150\<rparr> 3 200
    = Inr decided \<and> rd_current_price decided = 160"
proof -
  obtain d st' where run: "mutate_script 0 ''s'' example_request (store_of 7 example_bidding) = (Some (ReplySuccess d), st')"
    using example_run by blast
  show ?thesis
    using script_bid_matches_reference [OF represents_store_of example_bidding_ok example_asks(1) _ example_fresh _ _ _ _ run, of 500]
    by (auto simp: in_range_def example_bidding_def max_amount_def decide_lua_reference_bid_def min_money_def)
qed

section \<open>Retries\<close>

text \<open>The keys that guard a run: types, fences and the idempotency records.\<close>

definition guards :: "auction_store \<Rightarrow> bool \<times> bool \<times> bool \<times> (string \<rightharpoonup> stored_reply \<times> int)" where
  "guards st = (k_mistyped st, k_fence st, k_auction_fence st, k_idempotency st)"

lemma guards_frame [script_simps]:
  "guards (bump_rate clock rq st) = guards st" "guards (save_state l rq p st) = guards st"
  "guards (apply_bid rq p st) = guards st" "guards (apply_ban target p st) = guards st"
  "guards (st\<lparr>k_stream := evs\<rparr>) = guards st"
  by (simp_all add: guards_def bump_rate_def save_state_def apply_bid_def apply_ban_def Let_def)

lemma guards_bidders [script_simps]: "apply_bidders l rq p st = (p', st') \<Longrightarrow> guards st' = guards st"
  by (cases "rq_operation rq") (auto simp: apply_bidders_def Let_def script_simps)

lemma commit_remembers:
  assumes "commit clock slot l rq p st = (r, st')"
  shows "guards st' = (k_mistyped st, k_fence st, k_auction_fence st, (k_idempotency st)
    (slot \<mapsto> (\<lparr>sr_fingerprint = rq_fingerprint rq, sr_result = r\<rparr>, clock + rq_ttl rq)))"
proof -
  define st2 where "st2 = bump_rate clock rq (st\<lparr>k_stream := k_stream st @ [event_of l rq p]\<rparr>)"
  obtain p' st3 where bidders: "apply_bidders l rq p st2 = (p', st3)" by force
  have "guards (save_state l rq p' st3) = guards st"
    by (simp add: script_simps guards_bidders [OF bidders] st2_def)
  with assms show ?thesis
    by (auto simp: commit_def Let_def bidders st2_def [symmetric] remember_def guards_def)
qed

lemma mutate_loaded_success:
  assumes "mutate_loaded clock slot l rq st = (Some (ReplySuccess d), st')"
  shows "k_idempotency st' slot = Some (\<lparr>sr_fingerprint = rq_fingerprint rq, sr_result = ReplySuccess d\<rparr>, clock + rq_ttl rq)
    \<and> k_mistyped st' = k_mistyped st \<and> k_fence st' = k_fence st \<and> k_auction_fence st' = k_auction_fence st"
proof -
  obtain p where "commit clock slot l rq p st = (ReplySuccess d, st')"
    using assms by (auto simp: mutate_loaded_def Let_def split: decision.splits if_splits prod.splits)
  from commit_remembers [OF this] show ?thesis by (simp add: guards_def)
qed

lemma replay_found:
  assumes "\<not> k_mistyped st" "\<not> k_fence st" "\<not> k_auction_fence st"
    and "k_idempotency st slot = Some (\<lparr>sr_fingerprint = f, sr_result = r\<rparr>, expiry)" "clock < expiry"
  shows "mutate_script clock slot rq st =
    (Some (if rq_fingerprint rq = f then r
           else ReplyError ''IDEMPOTENCY_KEY_REUSED'' ''Idempotency key was used for another request'' 409), st)"
  using assms by (simp add: mutate_script_def find_replay_def live_def)

text \<open>What may happen between a request and its retry: other requests on the auction, at any clock and under any slot, and fences
  that a recovery sets or lifts.\<close>

datatype script_event = Request int string request | Fences bool bool

fun happens :: "script_event \<Rightarrow> auction_store \<Rightarrow> auction_store" where
  "happens (Request clock slot rq) st = snd (mutate_script clock slot rq st)"
| "happens (Fences global own) st = st\<lparr>k_fence := global, k_auction_fence := own\<rparr>"

lemma find_replay_guards:
  assumes "find_replay clock slot rq st = (found, st')"
  shows "k_mistyped st' = k_mistyped st \<and> (other \<noteq> slot \<longrightarrow> k_idempotency st' other = k_idempotency st other)"
  using assms by (auto simp: find_replay_def split: option.splits if_splits)

lemma mutate_loaded_guards:
  "k_mistyped (snd (mutate_loaded clock slot l rq st)) = k_mistyped st
   \<and> (other \<noteq> slot \<longrightarrow> k_idempotency (snd (mutate_loaded clock slot l rq st)) other = k_idempotency st other)"
proof (cases "decide st l rq")
  case (Accept p)
  obtain r st' where c: "commit clock slot l rq p st = (r, st')" by force
  from commit_remembers [OF c] Accept c show ?thesis by (auto simp: mutate_loaded_def guards_def)
qed (simp_all add: mutate_loaded_def remember_def Let_def)

lemma request_guards:
  "k_mistyped (snd (mutate_script clock slot rq st)) = k_mistyped st
   \<and> (other \<noteq> slot \<longrightarrow> k_idempotency (snd (mutate_script clock slot rq st)) other = k_idempotency st other)"
proof -
  obtain found st' where f: "find_replay clock slot rq st = (found, st')" by force
  show ?thesis
    using find_replay_guards [OF f, of other] mutate_loaded_guards [of clock slot _ rq st' other]
    by (auto simp: mutate_script_def f split: option.splits sum.splits)
qed

text \<open>A stored answer survives whatever happens while it lives.\<close>

definition remembered :: "string \<Rightarrow> stored_reply \<Rightarrow> int \<Rightarrow> auction_store \<Rightarrow> bool" where
  "remembered slot stored expiry st = (\<not> k_mistyped st \<and> k_idempotency st slot = Some (stored, expiry))"

definition timely :: "string \<Rightarrow> int \<Rightarrow> script_event \<Rightarrow> bool" where
  "timely slot expiry ev = (case ev of Request clock s _ \<Rightarrow> s = slot \<longrightarrow> clock < expiry | Fences _ _ \<Rightarrow> True)"

lemma remembered_run:
  assumes "remembered slot \<lparr>sr_fingerprint = f, sr_result = r\<rparr> expiry st" "clock < expiry"
  shows "mutate_script clock slot rq st =
    (Some (if k_fence st then recovering ''Auction authority is recovering''
           else if k_auction_fence st then recovering ''This auction is recovering''
           else if rq_fingerprint rq = f then r
           else ReplyError ''IDEMPOTENCY_KEY_REUSED'' ''Idempotency key was used for another request'' 409), st)"
  using assms by (simp add: remembered_def mutate_script_def find_replay_def live_def)

lemma remembered_step:
  assumes "remembered slot stored expiry st" "timely slot expiry ev"
  shows "remembered slot stored expiry (happens ev st)"
proof (cases ev)
  case (Request clock s rq)
  obtain f r where stored: "stored = \<lparr>sr_fingerprint = f, sr_result = r\<rparr>" by (cases stored)
  show ?thesis
  proof (cases "s = slot")
    case True
    with assms Request remembered_run [OF assms(1) [unfolded stored], of clock rq] show ?thesis by (simp add: timely_def stored)
  next
    case False
    with assms(1) Request request_guards [of clock s rq st slot] show ?thesis by (simp add: remembered_def)
  qed
qed (use assms(1) in \<open>simp add: remembered_def\<close>)

interpretation memory: kept_invariant happens "timely slot expiry" "remembered slot stored expiry" for slot stored expiry
  by unfold_locales (rule remembered_step)



section \<open>Bans\<close>

text \<open>A ban of the leader is published with the banned leader. The script writes the event of a
  BAN before it looks for the new leader, so after an accepted ban of the leader the stream's last
  event still names the banned bidder as leader, with the price and maximum of before, while the
  auction's keys have another leader or none; what consumers project from the event is not the
  state the authority keeps.\<close>

theorem ban_event_names_banned_leader:
  assumes "represents pid m st" "bidding_ok m" "asks rq (Ban_by actor admin (Some t))"
    and "b_leader m = Some (t, a)" "fresh_run clock slot rq st" "rq_product_id rq = pid"
    and "lua_tonumber (rq_now rq) = Some now" "b_sequence m < max_amount" "b_version m < max_amount"
    and "mutate_script clock slot rq st = (Some (ReplySuccess d), st')"
  shows "\<exists>ev h. k_stream st' = k_stream st @ [ev] \<and> k_state st' = Some h
    \<and> e_leader_id ev = show_nat t \<and> e_current_price ev = show_nat (b_price m)
    \<and> e_target_user_id ev = Some (show_nat t)
    \<and> h_leader_id h \<noteq> Some (show_nat t) \<and> show_nat t \<in> k_bans st'"
proof -
  have rate: "within_rate clock rq st" using assms(5) by (simp add: fresh_run_def)
  have ok: "ranking_ok (b_ranking m)" using assms(2) by (simp add: bidding_ok_def)
  have "refines_run pid m (Ban_by actor admin (Some t)) now rq st (Some (ReplySuccess d), st')"
    using mutate_loaded_refines [OF assms(1) ok assms(3) _ rate, of now slot]
    by (simp only: mutate_script_loaded [OF assms(1,5-9), symmetric] assms(10)) (simp add: in_range_def)
  then obtain m' where m': "spec_ban m actor admin (Some t) now = Inr m'"
    and c: "represents pid m' st'" "\<exists>ev. k_stream st' = k_stream st @ [ev] \<and> event_shows pid (Ban_by actor admin (Some t)) m m' rq ev"
    by (cases "spec_ban m actor admin (Some t) now")
      (auto simp: refines_run_def spec_mutate_def refused_def accepted_def committed_def)
  obtain ev where ev: "k_stream st' = k_stream st @ [ev]" "event_shows pid (Ban_by actor admin (Some t)) m m' rq ev"
    using c(2) by blast
  have "rq_target rq = Some t" using assms(3) by (simp add: asks_def)
  have "bidding_ok m'" "b_status m' = ACTIVE" "t \<in> b_bans m'"
    using spec_ban_ok [OF assms(2) m'] m' by (auto simp: spec_ban_Inr Let_def)
  then have "map_option fst (b_leader m') \<noteq> Some t"
    by (auto simp: bidding_ok_def open_ok_def leader_ok_def image_iff split: option.splits)
  moreover obtain le where "k_state st' = Some (hash_of pid m' le)" using c(1) by (rule represents_state)
  ultimately show ?thesis
    using ev c(1) \<open>rq_target rq = Some t\<close> \<open>t \<in> b_bans m'\<close> assms(4)
    by (auto simp: event_shows_def shown_def hash_of_def represents_def)
qed

lemma example_ban_run:
  "\<exists>d st'. mutate_script 0 ''s'' example_ban (store_of 7 example_bidding) = (Some (ReplySuccess d), st')"
proof -
  have fresh: "fresh_run 0 ''s'' example_ban (store_of 7 example_bidding)"
    by (simp add: fresh_run_def store_of_def find_replay_def live_def within_rate_def throttled_def
        example_request_def example_ban_def)
  have "\<exists>m'. spec_mutate example_bidding (Ban_by 4 False (Some 2)) 500 = Inr m'"
    by (simp add: spec_mutate_def spec_ban_def status_at_def example_bidding_def split_beta Let_def)
  then show ?thesis
    using mutate_loaded_refines [of 7 example_bidding "store_of 7 example_bidding" example_ban "Ban_by 4 False (Some 2)" 500 0 "''s''"]
      mutate_script_loaded [OF represents_store_of fresh, of 500] fresh
    by (auto simp: example_asks in_range_def fresh_run_def refines_run_def accepted_def committed_def prod_eq_iff)
qed

theorem ban_event_names_banned_leader_witness:
  "\<exists>d st' ev h. mutate_script 0 ''s'' example_ban (store_of 7 example_bidding) = (Some (ReplySuccess d), st')
     \<and> k_stream st' = [ev] \<and> e_leader_id ev = show_nat 2
     \<and> k_state st' = Some h \<and> h_leader_id h \<noteq> Some (show_nat 2)"
proof -
  obtain d st' where run: "mutate_script 0 ''s'' example_ban (store_of 7 example_bidding) = (Some (ReplySuccess d), st')"
    using example_ban_run by blast
  have "fresh_run 0 ''s'' example_ban (store_of 7 example_bidding)"
    by (simp add: fresh_run_def store_of_def find_replay_def live_def within_rate_def throttled_def
        example_request_def example_ban_def)
  from ban_event_names_banned_leader [OF represents_store_of example_bidding_ok example_asks(2) _ this _ _ _ _ run, of 150 500]
  have "\<exists>ev h. k_stream st' = [ev] \<and> e_leader_id ev = show_nat 2 \<and> k_state st' = Some h
      \<and> h_leader_id h \<noteq> Some (show_nat 2)"
    by (auto simp: store_of_def example_bidding_def max_amount_def)
  with run show ?thesis by blast
qed

section \<open>Auctions nobody bid on\<close>

text \<open>C31: A pending auction that nobody bids on is never closed. Its keys hold the status PENDING,
  which only a mutation inside the auction's time would promote; it has no entry in the deadlines,
  so the closing job does not see it, and once its end has passed every CLOSE is refused with
  AUCTION_NOT_ACTIVE and leaves it PENDING, so the next one is refused as well.\<close>

theorem pending_without_bids_never_closes:
  assumes "represents pid m st" "bidding_ok m" "b_status m = PENDING" "b_end_at m \<le> now" "asks rq Close_it"
    and "fresh_run clock slot rq st" "rq_product_id rq = pid"
    and "lua_tonumber (rq_now rq) = Some now" "b_sequence m < max_amount" "b_version m < max_amount"
  shows "k_deadlines st (show_nat pid) = None
    \<and> refused ''AUCTION_NOT_ACTIVE'' pid m st (mutate_script clock slot rq st)
    \<and> k_deadlines (snd (mutate_script clock slot rq st)) (show_nat pid) = None"
proof -
  have rate: "within_rate clock rq st" using assms(6) by (simp add: fresh_run_def)
  have ok: "ranking_ok (b_ranking m)" using assms(2) by (simp add: bidding_ok_def)
  have "spec_mutate m Close_it now = Inl ''AUCTION_NOT_ACTIVE''"
    using assms(3,4) by (simp add: spec_mutate_def spec_close_def status_at_def)
  then have "refused ''AUCTION_NOT_ACTIVE'' pid m st (mutate_script clock slot rq st)"
    using mutate_loaded_refines [OF assms(1) ok assms(5) _ rate, of now slot]
    by (simp add: mutate_script_loaded [OF assms(1,6-10)] refines_run_def in_range_def)
  with assms(1,3) show ?thesis by (auto simp: refused_def represents_def)
qed

definition example_pending :: bidding where
  "example_pending = example_bidding\<lparr>b_status := PENDING, b_leader := None, b_ranking := []\<rparr>"

definition example_close :: request where
  "example_close = example_request\<lparr>rq_operation := CLOSE, rq_actor_id := 0, rq_now := show_int 2000\<rparr>"

theorem pending_without_bids_never_closes_witness:
  "refused ''AUCTION_NOT_ACTIVE'' 7 example_pending (store_of 7 example_pending)
     (mutate_script 0 ''s'' example_close (store_of 7 example_pending))"
proof -
  have "bidding_ok example_pending"
    by (simp add: bidding_ok_def example_pending_def example_bidding_def ranking_ok_def open_ok_def leader_ok_def)
  moreover have "fresh_run 0 ''s'' example_close (store_of 7 example_pending)"
    by (simp add: fresh_run_def store_of_def find_replay_def live_def within_rate_def throttled_def
        example_request_def example_close_def)
  ultimately show ?thesis
    using pending_without_bids_never_closes [OF represents_store_of, of example_pending 2000 example_close 0 "''s''" 7]
    by (simp add: asks_def example_close_def example_request_def)
      (simp add: example_pending_def example_bidding_def max_amount_def)
qed

end
