(* ===== verification/Reconciliation.thy ===== *)
theory Reconciliation
  imports Postgres_Store
begin

text \<open>
  The comparison of an auction's Redis state with its PostgreSQL projection
  (redis-projection.reconciliation.ts): \<open>reconcile\<close> is \<open>reconcileAuctionProjection\<close> once its four
  queries have answered.
\<close>

record reconciliation =
  rn_product_id :: string
  rn_redis_version :: string
  rn_postgres_version :: string
  rn_redis_sequence :: string
  rn_postgres_sequence :: string
  rn_redis_price :: string
  rn_postgres_price :: string
  rn_redis_end_at :: string
  rn_postgres_end_at :: string
  rn_redis_status :: string
  rn_postgres_status :: string
  rn_redis_leader :: "string option"
  rn_postgres_leader :: "string option"
  rn_redis_last_event :: "string option"
  rn_postgres_last_event :: "string option"
  rn_redis_orders :: int
  rn_postgres_orders :: int
  rn_status :: string

text \<open>\<open>orderBy: sequence desc\<close>, first row.\<close>

definition latest_transition :: "int \<Rightarrow> transition_row list \<Rightarrow> transition_row option" where
  "latest_transition product rows =
     fold (\<lambda>r best. case best of None \<Rightarrow> Some r | Some b \<Rightarrow> if tr_sequence b < tr_sequence r then Some r else best)
       (filter (\<lambda>r. tr_product r = product) rows) None"

definition order_count :: "int \<Rightarrow> order_row list \<Rightarrow> int" where
  "order_count product rows = int (length (filter (\<lambda>r. od_product r = product) rows))"

text \<open>\<open>value || null\<close> of a hash field.\<close>

definition or_null :: "string option \<Rightarrow> string option" where
  "or_null v = (if v = Some '''' then None else v)"

definition expected_orders :: "string \<Rightarrow> string option \<Rightarrow> int" where
  "expected_orders status leader = (if status = ''SOLD'' \<or> (status = ''ENDED'' \<and> leader \<noteq> None) then 1 else 0)"

definition compare_snapshots :: "int \<Rightarrow> int \<Rightarrow> int \<Rightarrow> int \<Rightarrow> bool \<Rightarrow> string" where
  "compare_snapshots redis_version postgres_version redis_sequence postgres_sequence same_fields =
     (let same_version = (redis_version = postgres_version \<and> redis_sequence = postgres_sequence)
      in if same_version \<and> same_fields then ''converged''
         else if postgres_version \<le> redis_version \<and> postgres_sequence \<le> redis_sequence \<and> \<not> same_version
         then ''projection_lag'' else ''diverged'')"

text \<open>\<open>None\<close> for the state is a missing key: every field is null.\<close>

definition reconcile :: "int \<Rightarrow> auction_hash option \<Rightarrow> database \<Rightarrow> (string, reconciliation) result" where
  "reconcile product state db =
     (let incomplete = ''Cannot reconcile incomplete auction '' @ show_int product
      in case (state, db_products db product) of
        (Some h, Some p) \<Rightarrow>
          (case (or_null (h_version h), or_null (h_sequence h), h_current_price h, or_null (h_end_at h), or_null (h_status h)) of
             (Some version, Some sequence, Some price, Some end_at, Some status) \<Rightarrow>
               (case (big_int version, big_int sequence) of
                  (Some redis_version, Some redis_sequence) \<Rightarrow>
                    let leader = or_null (h_leader_id h); last_event = or_null (h_last_event_id h);
                        pg_price = show_int (coalesce (pr_current_price p) (coalesce (pr_start_price p) 0));
                        pg_leader = map_option show_int (pr_owner p);
                        pg_event = map_option tr_event_id (latest_transition product (db_transitions db));
                        pg_end = (case pr_end_time p of None \<Rightarrow> ''0'' | Some t \<Rightarrow> show_int t);
                        expected = expected_orders status leader; orders = order_count product (db_orders db);
                        same = (price = pg_price \<and> end_at = pg_end \<and> status = pr_status p \<and> leader = pg_leader
                                \<and> last_event = pg_event \<and> expected = orders)
                    in returns \<lparr>rn_product_id = show_int product, rn_redis_version = show_int redis_version,
                         rn_postgres_version = show_int (pr_version p), rn_redis_sequence = show_int redis_sequence,
                         rn_postgres_sequence = show_int (pr_sequence p), rn_redis_price = price, rn_postgres_price = pg_price,
                         rn_redis_end_at = end_at, rn_postgres_end_at = pg_end, rn_redis_status = status,
                         rn_postgres_status = pr_status p, rn_redis_leader = leader, rn_postgres_leader = pg_leader,
                         rn_redis_last_event = last_event, rn_postgres_last_event = pg_event,
                         rn_redis_orders = expected, rn_postgres_orders = orders,
                         rn_status = compare_snapshots redis_version (pr_version p) redis_sequence (pr_sequence p) same\<rparr>
                | _ \<Rightarrow> throws ''SyntaxError'')
           | _ \<Rightarrow> throws incomplete)
      | _ \<Rightarrow> throws incomplete)"

definition reconciled_status :: "int \<Rightarrow> auction_hash option \<Rightarrow> database \<Rightarrow> string option" where
  "reconciled_status product state db =
     (case reconcile product state db of Inl _ \<Rightarrow> None | Inr r \<Rightarrow> Some (rn_status r))"

lemma or_null_simps [simp]: "or_null None = None" "or_null (Some s) = (if s = '''' then None else Some s)"
  by (simp_all add: or_null_def)

lemma latest_transition_snoc:
  "latest_transition product (rows @ [r]) =
     (if tr_product r = product
      then case latest_transition product rows of
        None \<Rightarrow> Some r | Some b \<Rightarrow> if tr_sequence b < tr_sequence r then Some r else latest_transition product rows
      else latest_transition product rows)"
  by (auto simp: latest_transition_def split: option.splits)

lemma latest_transition_in: "latest_transition product rows = Some r \<Longrightarrow> r \<in> set rows \<and> tr_product r = product"
proof (induction rows arbitrary: r rule: rev_induct)
  case Nil
  then show ?case by (simp add: latest_transition_def)
next
  case (snoc x rows)
  then show ?case
    by (auto simp: latest_transition_snoc split: if_splits option.splits)
qed

lemma order_count_snoc:
  "order_count product (rows @ [r]) = order_count product rows + (if od_product r = product then 1 else 0)"
  by (simp add: order_count_def)

end
