(* ===== verification/Bootstrap.thy ===== *)
theory Bootstrap
  imports Auction_Refinement Reconciliation "HOL-Library.Multiset"
begin

text \<open>
  Loading an auction from PostgreSQL into Redis (redis-auction.bootstrap.ts and
  auction-bootstrap.lua): \<open>auction_seed\<close> is what the code computes from the rows,
  \<open>bootstrap_script\<close> the script, \<open>bootstrap_auction\<close> the function around them with its lock and
  its forced variant. \<open>mirrors\<close> says that the rows hold an auction of the specification; the
  lemmas show that loading such rows gives keys that represent it.
\<close>

section \<open>The seed\<close>

record seed =
  sd_product :: string
  sd_state :: auction_hash
  sd_maxima :: "(string \<times> string \<times> string) list"
  sd_bans :: "string list"
  sd_deadline :: "int option"
  sd_recovery :: bool

text \<open>\<open>value.toString().padStart(19, "0")\<close> and \<open>rankMember\<close>.\<close>

definition pad_start :: "int \<Rightarrow> string" where
  "pad_start n = (let s = show_int n in replicate (19 - length s) (CHR ''0'') @ s)"

definition seed_member :: "int \<Rightarrow> int \<Rightarrow> string" where
  "seed_member amount user = pad_start amount @ '':'' @ pad_start user"

text \<open>\<open>groupBy user_id, _max max_price\<close> of the rows without a status.\<close>

definition standing :: "int \<Rightarrow> history_row list \<Rightarrow> history_row list" where
  "standing product rows = filter (\<lambda>h. hi_product h = product \<and> hi_status h = None) rows"

definition user_maximum :: "int \<Rightarrow> history_row list \<Rightarrow> int \<Rightarrow> int option" where
  "user_maximum product rows user =
     (case map hi_max (filter (\<lambda>h. hi_user h = user) (standing product rows)) of
        [] \<Rightarrow> None | m # ms \<Rightarrow> Some (fold max ms m))"

definition maxima_by_user :: "int \<Rightarrow> history_row list \<Rightarrow> (int \<times> int) list" where
  "maxima_by_user product rows =
     map (\<lambda>user. (user, the (user_maximum product rows user))) (remdups (map hi_user (standing product rows)))"

definition seed_status :: "int \<Rightarrow> product_row \<Rightarrow> string" where
  "seed_status now p =
     (if pr_status p = ''PENDING'' \<and> (case pr_start_time p of None \<Rightarrow> False | Some t \<Rightarrow> t \<le> now)
         \<and> now < coalesce (pr_end_time p) 0
      then ''ACTIVE'' else pr_status p)"

text \<open>\<open>settings\<close> is the row of extend_bidding_time: threshold and extension in minutes.\<close>

definition auction_seed :: "int \<Rightarrow> (int option \<times> int option) option \<Rightarrow> bool \<Rightarrow> int \<Rightarrow> product_row \<Rightarrow> database \<Rightarrow> seed" where
  "auction_seed now settings recovery product p db =
     (let status = seed_status now p;
          threshold = (case settings of None \<Rightarrow> 0 | Some (t, _) \<Rightarrow> coalesce t 0);
          extension = (case settings of None \<Rightarrow> 0 | Some (_, e) \<Rightarrow> coalesce e 0)
      in \<lparr>sd_product = show_int product,
          sd_state =
            \<lparr>h_product_id = Some (show_int product), h_seller_id = Some (show_int (pr_seller p)),
             h_status = Some status,
             h_start_at = Some (show_int (coalesce (pr_start_time p) 0)),
             h_end_at = Some (show_int (coalesce (pr_end_time p) 0)),
             h_start_price = Some (show_int (coalesce (pr_start_price p) 0)),
             h_current_price = Some (show_int (coalesce (pr_current_price p) (coalesce (pr_start_price p) 0))),
             h_step_price = Some (show_int (coalesce (pr_step_price p) 0)),
             h_buy_now_price = Some (case pr_buy_now_price p of None \<Rightarrow> '''' | Some b \<Rightarrow> show_int b),
             h_leader_id = Some (case pr_owner p of None \<Rightarrow> '''' | Some u \<Rightarrow> show_int u),
             h_leader_max = Some (case pr_owner p of None \<Rightarrow> ''''
               | Some u \<Rightarrow> show_int (coalesce (user_maximum product (db_histories db) u) 0)),
             h_sequence = Some (show_int (pr_sequence p)), h_version = Some (show_int (pr_version p)),
             h_auto_extend = Some (if pr_auto_extended p = Some True then ''1'' else ''0''),
             h_anti_snipe_window = Some (show_int (threshold * 60000)),
             h_anti_snipe_extension = Some (show_int (extension * 60000)),
             h_last_event_id = Some (case latest_transition product (db_transitions db) of
               None \<Rightarrow> '''' | Some r \<Rightarrow> tr_event_id r)\<rparr>,
          sd_maxima = map (\<lambda>(user, maximum). (show_int user, show_int maximum, seed_member maximum user))
            (maxima_by_user product (db_histories db)),
          sd_bans = map (\<lambda>b. show_int (bn_user b)) (filter (\<lambda>b. bn_product b = product) (db_bans db)),
          sd_deadline = (if status = ''ACTIVE'' then pr_end_time p else None),
          sd_recovery = recovery\<rparr>)"

section \<open>The script\<close>

datatype bootstrap_reply = Initialized | Exists | BootstrapError string

text \<open>The five target keys: \<open>targets_mistyped\<close> says that one of them holds another type.\<close>

definition add_maximum :: "string \<times> string \<times> string \<Rightarrow> auction_store \<Rightarrow> auction_store" where
  "add_maximum m st =
     (case m of (user, amount, member) \<Rightarrow>
        st\<lparr>k_maxima := (k_maxima st)(user \<mapsto> amount), k_rank_members := (k_rank_members st)(user \<mapsto> member),
           k_ranking := zadd member (k_ranking st)\<rparr>)"

definition bootstrap_script :: "bool \<Rightarrow> seed \<Rightarrow> auction_store \<Rightarrow> bootstrap_reply \<times> auction_store" where
  "bootstrap_script targets_mistyped sd st =
     (if (k_fence st \<or> k_auction_fence st) \<and> \<not> sd_recovery sd
      then (BootstrapError ''AUCTION_AUTHORITY_RECOVERING'', st)
      else if k_state st \<noteq> None then (Exists, st)
      else if targets_mistyped then (BootstrapError ''CORRUPT_BOOTSTRAP_TARGET'', st)
      else
        let st1 = fold add_maximum (sd_maxima sd) (st\<lparr>k_state := Some (sd_state sd)\<rparr>);
            st2 = st1\<lparr>k_bans := k_bans st1 \<union> set (sd_bans sd)\<rparr>
        in (Initialized, (case sd_deadline sd of None \<Rightarrow> st2
              | Some t \<Rightarrow> st2\<lparr>k_deadlines := (k_deadlines st2)(sd_product sd \<mapsto> t)\<rparr>)))"

section \<open>The function\<close>

definition forget_auction :: "int \<Rightarrow> auction_store \<Rightarrow> auction_store" where
  "forget_auction product st =
     st\<lparr>k_state := None, k_maxima := Map.empty, k_ranking := [], k_rank_members := Map.empty, k_bans := {},
        k_deadlines := (k_deadlines st)(show_int product := None)\<rparr>"

text \<open>\<open>locked\<close>: another process holds the bootstrap lock; then this call only waits. The lock is
  released on every path.\<close>

definition bootstrap_auction ::
    "bool \<Rightarrow> bool \<Rightarrow> bool \<Rightarrow> bool \<Rightarrow> int \<Rightarrow> (int option \<times> int option) option \<Rightarrow> int \<Rightarrow> database \<Rightarrow> auction_store
     \<Rightarrow> (string, bool) result \<times> auction_store" where
  "bootstrap_auction locked recovery force targets_mistyped now settings product db st =
     (if locked then (returns False, st)
      else if \<not> force \<and> k_state st \<noteq> None then (returns False, st)
      else case db_products db product of
        None \<Rightarrow> (throws (''Cannot bootstrap missing auction '' @ show_int product), st)
      | Some p \<Rightarrow>
          let st' = (if force then forget_auction product st else st);
              (r, st'') = bootstrap_script targets_mistyped (auction_seed now settings recovery product p db) st'
          in ((case r of Initialized \<Rightarrow> returns True | Exists \<Rightarrow> returns False | BootstrapError e \<Rightarrow> throws e), st''))"


section \<open>Rows that hold an auction\<close>

definition db_maximum :: "int \<Rightarrow> database \<Rightarrow> nat \<Rightarrow> nat option" where
  "db_maximum product db u = map_option nat (user_maximum product (db_histories db) (int u))"

definition bidders_mirrored :: "nat \<Rightarrow> bidding \<Rightarrow> database \<Rightarrow> bool" where
  "bidders_mirrored pid m db =
     ((\<forall>h \<in> set (standing (int pid) (db_histories db)). 0 \<le> hi_user h \<and> 0 \<le> hi_max h)
      \<and> (\<forall>u. db_maximum (int pid) db u = bidder_max m u)
      \<and> bn_user ` set (filter (\<lambda>b. bn_product b = int pid) (db_bans db)) = int ` b_bans m)"

definition product_mirrored :: "bidding \<Rightarrow> product_row \<Rightarrow> bool" where
  "product_mirrored m p =
     (pr_seller p = int (b_seller m) \<and> pr_status p = status_name (b_status m)
      \<and> pr_start_time p = Some (b_start_at m) \<and> pr_end_time p = Some (b_end_at m)
      \<and> pr_start_price p = Some (int (b_start_price m)) \<and> pr_current_price p = Some (int (b_price m))
      \<and> pr_step_price p = Some (int (b_step m)) \<and> pr_buy_now_price p = map_option int (b_buy_now m)
      \<and> pr_owner p = map_option (\<lambda>l. int (fst l)) (b_leader m)
      \<and> pr_sequence p = int (b_sequence m) \<and> pr_version p = int (b_version m)
      \<and> pr_auto_extended p = Some (b_auto m))"

definition mirrors :: "nat \<Rightarrow> bidding \<Rightarrow> database \<Rightarrow> bool" where
  "mirrors pid m db =
     ((\<exists>p. db_products db (int pid) = Some p \<and> product_mirrored m p) \<and> bidders_mirrored pid m db)"

definition tuned :: "(int option \<times> int option) option \<Rightarrow> bidding \<Rightarrow> bool" where
  "tuned settings m =
     (b_window m = 60000 * (case settings of None \<Rightarrow> 0 | Some (t, _) \<Rightarrow> coalesce t 0)
      \<and> b_extension m = 60000 * (case settings of None \<Rightarrow> 0 | Some (_, e) \<Rightarrow> coalesce e 0))"

section \<open>Loading them\<close>

lemma show_int_nat [simp]: "show_int (int n) = show_nat n"
  by (simp add: show_int_def)

lemma show_int_nonneg: "0 \<le> n \<Longrightarrow> show_int n = show_nat (nat n)"
  by (simp add: show_int_def)

lemma seed_member_nat: "seed_member (int a) (int u) = member_of (a, u)"
  by (simp add: seed_member_def member_of_def rank_member_def pad_start_def lua_pad_def Let_def trim_show)

lemma fold_maxima:
  assumes "ranking_ok s" "distinct (map snd xs)" "snd ` set xs \<inter> snd ` set s = {}" "\<forall>p \<in> set xs. bounded p"
    and "k_maxima st = keyed amount_text s" "k_rank_members st = keyed member_of s" "k_ranking st = map member_of s"
  defines "st' \<equiv> fold add_maximum (map (\<lambda>p. (show_nat (snd p), amount_text p, member_of p)) xs) st"
    and "s' \<equiv> fold insort xs s"
  shows "k_maxima st' = keyed amount_text s' \<and> k_rank_members st' = keyed member_of s' \<and> k_ranking st' = map member_of s'
    \<and> k_state st' = k_state st \<and> k_bans st' = k_bans st \<and> k_deadlines st' = k_deadlines st
    \<and> ranking_ok s' \<and> set s' = set xs \<union> set s \<and> k_stream st' = k_stream st"
  using assms(1-7) unfolding st'_def s'_def
proof (induction xs arbitrary: s st)
  case (Cons p xs)
  have new: "snd p \<notin> snd ` set s" "p \<notin> set s" "bounded p" using Cons.prems by auto
  have ok: "ranking_ok (insort p s)"
    using ranking_ok_insort [OF Cons.prems(1) new(1), of "fst p"] new(3) by (simp add: bounded_def)
  have "snd ` set xs \<inter> snd ` set (insort p s) = {}" using Cons.prems(2,3) by (auto simp: set_insort_key)
  from Cons.IH [OF ok _ this, of "add_maximum (show_nat (snd p), amount_text p, member_of p) st"] Cons.prems ok
    zadd_members [OF Cons.prems(1) new(3,2)] keyed_insort [OF new(1)]
  show ?case by (auto simp: add_maximum_def set_insort_key)
qed simp

definition rows_of :: "int \<Rightarrow> history_row list \<Rightarrow> int \<Rightarrow> history_row set" where
  "rows_of product rows u = {h \<in> set (standing product rows). hi_user h = u}"

lemma user_maximum_Max:
  "user_maximum product rows u = (if rows_of product rows u = {} then None else Some (Max (hi_max ` rows_of product rows u)))"
proof -
  have rows: "rows_of product rows u = set (filter (\<lambda>h. hi_user h = u) (standing product rows))"
    by (auto simp: rows_of_def)
  show ?thesis
    unfolding rows
    by (cases "filter (\<lambda>h. hi_user h = u) (standing product rows)")
      (simp_all add: user_maximum_def flip: Max.set_eq_fold)
qed

lemma rows_of_finite [simp]: "finite (rows_of product rows u)"
  by (simp add: rows_of_def)

lemma rows_of_empty: "rows_of product rows u = {} \<longleftrightarrow> u \<notin> hi_user ` set (standing product rows)"
  by (auto simp: rows_of_def)

lemma maxima_pairs:
  assumes "bidders_mirrored pid m db" "ranking_ok (b_ranking m)"
  shows "\<exists>xs. maxima_by_user (int pid) (db_histories db) = map (\<lambda>p. (int (snd p), int (fst p))) xs
    \<and> distinct (map snd xs) \<and> set xs = set (b_ranking m)"
proof -
  let ?st = "standing (int pid) (db_histories db)"
  let ?us = "remdups (map hi_user ?st)"
  define xs where "xs = map (\<lambda>u. (nat (the (user_maximum (int pid) (db_histories db) u)), nat u)) ?us"
  have pos: "0 \<le> u \<and> 0 \<le> the (user_maximum (int pid) (db_histories db) u)" if "u \<in> set ?us" for u
  proof -
    have ne: "rows_of (int pid) (db_histories db) u \<noteq> {}" using that by (simp add: rows_of_empty)
    then obtain h where h: "h \<in> rows_of (int pid) (db_histories db) u" by blast
    have "hi_max h \<le> Max (hi_max ` rows_of (int pid) (db_histories db) u)" using h by (intro Max_ge) auto
    moreover have "0 \<le> hi_max h" "0 \<le> hi_user h" "hi_user h = u"
      using h assms(1) by (auto simp: bidders_mirrored_def rows_of_def)
    ultimately show ?thesis using ne by (simp add: user_maximum_Max)
  qed
  have dist: "distinct (map snd xs)"
  proof -
    have "inj_on nat (set ?us)" using pos by (meson eq_nat_nat_iff inj_onI)
    then show ?thesis by (simp add: xs_def o_def distinct_map)
  qed
  have "(a, b) \<in> set xs \<longleftrightarrow> (a, b) \<in> set (b_ranking m)" for a b
  proof -
    have "(a, b) \<in> set xs \<longleftrightarrow> db_maximum (int pid) db b = Some a"
    proof
      assume "(a, b) \<in> set xs"
      then obtain u where u: "u \<in> set ?us" "b = nat u" "a = nat (the (user_maximum (int pid) (db_histories db) u))"
        by (auto simp: xs_def)
      with pos [OF u(1)] show "db_maximum (int pid) db b = Some a"
        by (auto simp: db_maximum_def user_maximum_Max rows_of_empty)
    next
      assume "db_maximum (int pid) db b = Some a"
      then show "(a, b) \<in> set xs"
        by (force simp: db_maximum_def xs_def user_maximum_Max rows_of_empty image_iff split: if_splits)
    qed
    also have "\<dots> \<longleftrightarrow> (a, b) \<in> set (b_ranking m)"
      using assms by (simp add: bidders_mirrored_def bidder_max_Some ranking_ok_def)
    finally show ?thesis .
  qed
  then have "set xs = set (b_ranking m)" by auto
  moreover have "maxima_by_user (int pid) (db_histories db) = map (\<lambda>p. (int (snd p), int (fst p))) xs"
    using pos by (auto simp: maxima_by_user_def xs_def)
  ultimately show ?thesis using dist by blast
qed

lemma fold_insort_sorted:
  assumes "ranking_ok r" "distinct (map snd xs)" "set xs = set r"
  shows "fold insort xs [] = r"
proof -
  have "sorted (fold insort xs s)" if "sorted s" for s
    using that by (induction xs arbitrary: s) (simp_all add: sorted_insort)
  moreover have "mset (fold insort xs s) = mset xs + mset s" for s
    by (induction xs arbitrary: s) simp_all
  moreover have "mset xs = mset r"
    using assms by (auto simp: ranking_ok_def distinct_map set_eq_iff_mset_eq_distinct)
  ultimately have "sorted (fold insort xs [])" "mset (fold insort xs []) = mset r" by simp_all
  then have "sort r = fold insort xs []" by (intro properties_for_sort) simp_all
  with assms(1) show ?thesis by (simp add: ranking_ok_def sorted_sort_id)
qed

definition opened :: "int \<Rightarrow> bidding \<Rightarrow> bidding" where
  "opened now m = m\<lparr>b_status := status_at m now\<rparr>"

lemma opened_simps [simp]:
  "b_ranking (opened now m) = b_ranking m" "b_bans (opened now m) = b_bans m" "b_leader (opened now m) = b_leader m"
  "b_status (opened now m) = status_at m now" "b_sequence (opened now m) = b_sequence m"
  "b_version (opened now m) = b_version m" "b_price (opened now m) = b_price m" "b_end_at (opened now m) = b_end_at m"
  by (simp_all add: opened_def)

lemma seed_status_mirrored: "product_mirrored m p \<Longrightarrow> seed_status now p = status_name (status_at m now)"
  by (auto simp: product_mirrored_def seed_status_def status_at_def)

lemma seed_state_mirrored:
  assumes "product_mirrored m p" "bidders_mirrored pid m db" "tuned settings m" "bidding_ok m" "b_status m \<in> {PENDING, ACTIVE}"
  shows "sd_state (auction_seed now settings recovery (int pid) p db) = hash_of pid (opened now m)
    (case latest_transition (int pid) (db_transitions db) of None \<Rightarrow> '''' | Some r \<Rightarrow> tr_event_id r)"
proof -
  have ok: "leader_ok m" "ranking_ok (b_ranking m)" using assms(4,5) by (auto simp: bidding_ok_def open_ok_def)
  have "coalesce (user_maximum (int pid) (db_histories db) (int b)) 0 = int a" if "b_leader m = Some (b, a)" for a b
  proof -
    have "db_maximum (int pid) db b = Some a"
      using that assms(2) ok by (simp add: bidders_mirrored_def bidder_max_Some ranking_ok_def leader_ok_def)
    then obtain n where n: "user_maximum (int pid) (db_histories db) (int b) = Some n" "a = nat n"
      by (auto simp: db_maximum_def)
    then have "n \<in> hi_max ` rows_of (int pid) (db_histories db) (int b)"
    proof -
      have "rows_of (int pid) (db_histories db) (int b) \<noteq> {}" "n = Max (hi_max ` rows_of (int pid) (db_histories db) (int b))"
        using n(1) by (auto simp: user_maximum_Max split: if_splits)
      then show ?thesis by (simp add: Max_in del: image_iff)
    qed
    then have "0 \<le> n" using assms(2) by (auto simp: bidders_mirrored_def rows_of_def)
    with n show ?thesis by simp
  qed
  with assms(1,3) seed_status_mirrored [OF assms(1), of now] show ?thesis
    by (auto simp: auction_seed_def hash_of_def opened_def product_mirrored_def tuned_def leader_text_def leader_max_text_def
        Let_def mult.commute split: option.splits)
qed

lemma seed_recovery: "sd_recovery (auction_seed now settings recovery product p db) = recovery"
  by (simp add: auction_seed_def Let_def)

lemma forget_state: "k_state (forget_auction product st) = None"
  by (simp add: forget_auction_def)

lemma bootstrap_mirrored:
  assumes "mirrors pid m db" "tuned settings m" "bidding_ok m" "b_status m \<in> {PENDING, ACTIVE}"
  obtains st' where "bootstrap_auction False True True False now settings (int pid) db st = (Inr True, st')"
    "represents pid (opened now m) st'"
    "k_state st' = Some (hash_of pid (opened now m)
       (case latest_transition (int pid) (db_transitions db) of None \<Rightarrow> '''' | Some r \<Rightarrow> tr_event_id r))"
    "k_stream st' = k_stream st"
proof -
  obtain p where p: "db_products db (int pid) = Some p" "product_mirrored m p" and bm: "bidders_mirrored pid m db"
    using assms(1) by (auto simp: mirrors_def)
  have ok: "ranking_ok (b_ranking m)" using assms(3) by (simp add: bidding_ok_def)
  obtain xs where xs: "maxima_by_user (int pid) (db_histories db) = map (\<lambda>p. (int (snd p), int (fst p))) xs"
      "distinct (map snd xs)" "set xs = set (b_ranking m)"
    using maxima_pairs [OF bm ok] by blast
  let ?sd = "auction_seed now settings True (int pid) p db"
  define st0 where "st0 = (forget_auction (int pid) st)\<lparr>k_state := Some (sd_state ?sd)\<rparr>"
  define st1 where "st1 = fold add_maximum (sd_maxima ?sd) st0"
  have maxima: "sd_maxima ?sd = map (\<lambda>p. (show_nat (snd p), amount_text p, member_of p)) xs"
    by (simp add: auction_seed_def Let_def xs(1) seed_member_nat amount_text_def o_def)
  have r: "k_maxima st1 = keyed amount_text (b_ranking m) \<and> k_rank_members st1 = keyed member_of (b_ranking m)
      \<and> k_ranking st1 = map member_of (b_ranking m) \<and> k_state st1 = k_state st0 \<and> k_bans st1 = {}
      \<and> k_deadlines st1 = k_deadlines st0 \<and> k_stream st1 = k_stream st"
    using fold_maxima [of "[]" xs st0] xs(2,3) fold_insort_sorted [OF ok xs(2,3)] ranking_ok_bounded [OF ok]
    by (simp add: st1_def maxima st0_def forget_auction_def ranking_ok_def keyed_def)
  have bans: "set (sd_bans ?sd) = show_nat ` b_bans m"
    using bm by (auto simp: auction_seed_def Let_def bidders_mirrored_def image_image simp flip: image_image [of show_int bn_user])
  have dl: "sd_deadline ?sd = (if status_at m now = ACTIVE then Some (b_end_at m) else None)"
    using p(2) seed_status_mirrored [OF p(2), of now]
    by (simp add: auction_seed_def Let_def product_mirrored_def)
  define st2 where "st2 = st1\<lparr>k_bans := k_bans st1 \<union> set (sd_bans ?sd)\<rparr>"
  define st' where "st' = (case sd_deadline ?sd of None \<Rightarrow> st2 | Some t \<Rightarrow> st2\<lparr>k_deadlines := (k_deadlines st2)(sd_product ?sd \<mapsto> t)\<rparr>)"
  have boot: "bootstrap_auction False True True False now settings (int pid) db st = (Inr True, st')"
    by (simp add: bootstrap_auction_def p(1) bootstrap_script_def seed_recovery forget_state Let_def st'_def st2_def st1_def st0_def
        split: option.split)
  have state: "k_state st' = Some (hash_of pid (opened now m)
       (case latest_transition (int pid) (db_transitions db) of None \<Rightarrow> '''' | Some r \<Rightarrow> tr_event_id r))"
    using r seed_state_mirrored [OF p(2) bm assms(2,3,4), of now True]
    by (simp add: st'_def st2_def st0_def split: option.splits)
  have "represents pid (opened now m) st'"
    using r state bans dl
    by (auto simp: represents_def st'_def st2_def st0_def forget_auction_def auction_seed_def Let_def)
  with boot state r show ?thesis
    by (intro that [of st']) (auto simp: st'_def st2_def split: option.splits)
qed

end
