(* ===== verification/Convergence.thy ===== *)
theory Convergence
  imports Auction_Properties Projector Bootstrap
begin

text \<open>
  Redis and PostgreSQL together: an auction that is in step on both sides (\<open>in_step\<close>) stays in step
  when the authority accepts a mutation and the projector commits its event, unless the mutation
  bans the leader; and an auction lost in Redis is rebuilt from the rows as it was.
\<close>

section \<open>The bidders\<close>

lemma decimal_show [simp]: "decimal_of (show_nat n) = int n"
  by (simp add: decimal_of_def)

lemma number_show [simp]: "number_of (show_nat n) = Inr (int n)"
  by (simp add: number_of_def)

lemma apply_event_bidders:
  assumes "apply_event en ev leader db = Inr db'"
  obtains db1 where "write_bidders ev leader (db\<lparr>db_transitions := db_transitions db @ [transition_of ev]\<rparr>) = Inr db1"
    "db_histories db' = db_histories db1" "db_bans db' = db_bans db1"
proof -
  obtain rows db1 db2 db3 where s:
    "insert_or_fail transition_clash ''auction_transitions'' (transition_of ev) (db_transitions db) = Inr rows"
    "write_bidders ev leader (db\<lparr>db_transitions := rows\<rparr>) = Inr db1"
    "write_order ev leader db1 = Inr db2" "write_product ev leader db2 = Inr db3"
    "write_receipt en ev db3 = Inr db'"
    using assms by (auto simp: apply_event_def bind_result_Inr_iff)
  have "rows = db_transitions db @ [transition_of ev]"
    using s(1) by (auto simp: insert_or_fail_Inr dest: insert_row_Some)
  moreover have "db_histories db' = db_histories db1" "db_bans db' = db_bans db1"
    using write_order_frame [OF s(3)] write_product_frame [OF s(4)] write_receipt_frame [OF s(5)] by auto
  ultimately show ?thesis using s(2) that by blast
qed

lemma standing_append [simp]: "standing product (xs @ ys) = standing product xs @ standing product ys"
  by (simp add: standing_def)

lemma standing_marked:
  "standing product (map (mark_banned product t) rows) = filter (\<lambda>h. hi_user h \<noteq> t) (standing product rows)"
  by (induction rows) (auto simp: standing_def mark_banned_def)

lemma user_maximum_append:
  "user_maximum product (rows @ [h]) u =
     (if hi_product h = product \<and> hi_status h = None \<and> hi_user h = u
      then Some (case user_maximum product rows u of None \<Rightarrow> hi_max h | Some n \<Rightarrow> max n (hi_max h))
      else user_maximum product rows u)"
  by (auto simp: user_maximum_def standing_def max.commute split: list.splits)

lemma user_maximum_marked:
  "user_maximum product (map (mark_banned product t) rows) u = (if u = t then None else user_maximum product rows u)"
  by (auto simp: user_maximum_def standing_marked filter_filter intro!: arg_cong [where f = "\<lambda>xs. case map hi_max xs of [] \<Rightarrow> None | m # ms \<Rightarrow> Some (fold max ms m)"] filter_cong)

lemma bidder_max_without:
  assumes "distinct (map snd (b_ranking m))" "b_ranking m' = without t (b_ranking m)"
  shows "bidder_max m' u = (if u = t then None else bidder_max m u)"
proof -
  have d: "distinct (map snd (b_ranking m'))" using assms by (simp add: without_def distinct_map_filter)
  have "bidder_max m' u = Some a \<longleftrightarrow> (if u = t then None else bidder_max m u) = Some a" for a
    using assms by (auto simp: bidder_max_Some [OF d] bidder_max_Some [OF assms(1)])
  then show ?thesis by (metis not_Some_eq)
qed

lemma bidder_max_bid:
  assumes "distinct (map snd (b_ranking m))" "b_ranking m' = insort (amount, actor) (without actor (b_ranking m))"
  shows "bidder_max m' u = (if u = actor then Some amount else bidder_max m u)"
proof -
  have d: "distinct (map snd (b_ranking m'))" using assms by (auto simp: without_def distinct_map_filter distinct_map_insort)
  have "bidder_max m' u = Some a \<longleftrightarrow> (if u = actor then Some amount else bidder_max m u) = Some a" for a
    using assms by (auto simp: bidder_max_Some [OF d] bidder_max_Some [OF assms(1)] set_insort_key)
  then show ?thesis by (metis not_Some_eq)
qed

lemma bidders_step:
  assumes run: "apply_event en ev leader db = Inr db'" and mir: "bidders_mirrored pid m db"
    and ok: "bidding_ok m" and step: "spec_mutate m x now = Inr m'" and asks: "asks rq x"
    and sev: "event_shows pid x m m' rq ev"
  shows "bidders_mirrored pid m' db'"
proof -
  obtain db1 where w: "write_bidders ev leader (db\<lparr>db_transitions := db_transitions db @ [transition_of ev]\<rparr>) = Inr db1"
    and same: "db_histories db' = db_histories db1" "db_bans db' = db_bans db1"
    using run by (rule apply_event_bidders)
  have dist: "distinct (map snd (b_ranking m))" using ok by (simp add: bidding_ok_def ranking_ok_def)
  note ev = sev [unfolded event_shows_def]
  have plain: ?thesis if "e_type ev \<noteq> ''BID_ACCEPTED''" "e_type ev \<noteq> ''BIDDER_BANNED''" "b_ranking m' = b_ranking m" "b_bans m' = b_bans m"
  proof -
    have "db_histories db1 = db_histories db" "db_bans db1 = db_bans db" using that w by (auto simp: write_bidders_def)
    with that mir show ?thesis by (simp add: bidders_mirrored_def same db_maximum_def bidder_max_def)
  qed
  show ?thesis
  proof (cases x)
    case (Bid_by actor amount)
    have rq: "rq_operation rq = BID" "rq_actor_id rq = actor" "rq_amount rq = Some (show_nat amount)"
      using asks by (simp_all add: Bid_by asks_def)
    have e: "e_type ev = ''BID_ACCEPTED''" "e_requested_max ev = Some (show_nat amount)" "e_actor_id ev = show_nat actor"
      "e_product_id ev = show_nat pid"
      using ev by (simp_all add: Bid_by event_kind_def rq throttled_def)
    have db1: "db_histories db1 = db_histories db @ [history_of ev (int amount) leader]" "db_bans db1 = db_bans db"
      using w by (auto simp: write_bidders_def e given_def bind_result_Inr_iff insert_or_fail_Inr dest: insert_row_Some split: if_splits)
    have bid: "\<forall>previous. bidder_max m actor = Some previous \<longrightarrow> previous < amount"
      "b_ranking m' = insort (amount, actor) (without actor (b_ranking m))" "b_bans m' = b_bans m"
      using step by (auto simp: Bid_by spec_mutate_def spec_bid_Inr tick_def)
    have h: "hi_product (history_of ev (int amount) leader) = int pid" "hi_user (history_of ev (int amount) leader) = int actor"
      "hi_max (history_of ev (int amount) leader) = int amount" "hi_status (history_of ev (int amount) leader) = None"
      by (simp_all add: history_of_def e)
    have "db_maximum (int pid) db' u = bidder_max m' u" for u
    proof (cases "u = actor")
      case True
      have "db_maximum (int pid) db actor = bidder_max m actor" using mir by (simp add: bidders_mirrored_def)
      then have "user_maximum (int pid) (db_histories db) (int actor) = None
          \<or> (\<exists>n. user_maximum (int pid) (db_histories db) (int actor) = Some n \<and> nat n < amount)"
        using bid(1) by (cases "user_maximum (int pid) (db_histories db) (int actor)") (auto simp: db_maximum_def)
      then show ?thesis
        by (auto simp: True db_maximum_def same db1 user_maximum_append h bidder_max_bid [OF dist bid(2)] max_def)
    next
      case False
      then show ?thesis
        using mir by (simp add: bidders_mirrored_def db_maximum_def same db1 user_maximum_append h bidder_max_bid [OF dist bid(2)])
    qed
    with mir show ?thesis
      by (auto simp: bidders_mirrored_def same db1 bid(3) standing_def h)
  next
    case (Ban_by actor admin target)
    obtain t where t: "target = Some t" "b_ranking m' = without t (b_ranking m)" "b_bans m' = insert t (b_bans m)"
      using step by (auto simp: Ban_by spec_mutate_def spec_ban_Inr Let_def)
    have rq: "rq_operation rq = BAN" "rq_target rq = Some t" using asks by (simp_all add: Ban_by asks_def t)
    have e: "e_type ev = ''BIDDER_BANNED''" "e_target_user_id ev = Some (show_nat t)" "e_product_id ev = show_nat pid"
      using ev by (simp_all add: Ban_by event_kind_def rq)
    have db1: "db_histories db1 = map (mark_banned (int pid) (int t)) (db_histories db)"
      "db_bans db1 = insert_skip ban_clash (ban_of ev (int t)) (db_bans db)"
      using w by (auto simp: write_bidders_def e given_def bind_result_Inr_iff split: if_splits)
    have bans: "bn_user ` set (filter (\<lambda>b. bn_product b = int pid) (insert_skip ban_clash (ban_of ev (int t)) rows))
        = insert (int t) (bn_user ` set (filter (\<lambda>b. bn_product b = int pid) rows))" for rows
    proof (cases "clashes ban_clash (ban_of ev (int t)) rows")
      case True
      then obtain b where "b \<in> set rows" "bn_product b = int pid" "bn_user b = int t"
        by (auto simp: clashes_def list_ex_iff ban_clash_def ban_of_def e)
      then have "int t \<in> bn_user ` set (filter (\<lambda>b. bn_product b = int pid) rows)" by force
      with True show ?thesis by (simp add: insert_skip_def insert_absorb)
    qed (simp add: insert_skip_def ban_of_def e)
    show ?thesis
      using mir bans [of "db_bans db"]
      by (auto simp: bidders_mirrored_def same db1 t(3) standing_marked db_maximum_def user_maximum_marked
          bidder_max_without [OF dist t(2)])
  next
    case (Buy_by actor amount)
    show ?thesis
      by (rule plain) (use step ev in \<open>auto simp: Buy_by spec_mutate_def spec_buy_now_Inr event_kind_def tick_def\<close>)
  next
    case Close_it
    show ?thesis
      by (rule plain) (use step ev in \<open>auto simp: Close_it spec_mutate_def spec_close_Inr event_kind_def tick_def\<close>)
  next
    case (Cancel_by actor admin)
    show ?thesis
      by (rule plain) (use step ev in \<open>auto simp: Cancel_by spec_mutate_def spec_cancel_Inr event_kind_def tick_def\<close>)
  qed
qed

section \<open>The product\<close>

lemma parse_event_decimal:
  assumes "parse_event payload = Inr ev"
  shows "decimal_pattern (e_end_at ev)"
  using assms
  by (auto simp: parse_event_def read_event_def contract_ok_def split: option.splits if_splits)

lemma decimal_show_int:
  assumes "decimal_pattern (show_int n)"
  shows "decimal_of (show_int n) = n"
proof -
  have "canonical (show_int n)" using assms by (simp add: decimal_pattern_def vnd_pattern_canonical)
  then have "digits (show_int n)" "show_int n \<noteq> ''''" using canonical_digits canonical_nonempty by blast+
  then have "0 \<le> n" by (auto simp: show_int_def is_digit_def split: if_splits)
  then show ?thesis by (simp add: show_int_nonneg)
qed

text \<open>The mutation does not take the leader away.\<close>

definition leader_kept :: "bidding \<Rightarrow> mutation \<Rightarrow> bool" where
  "leader_kept m x = (case x of Ban_by _ _ target \<Rightarrow> map_option fst (b_leader m) \<noteq> target | _ \<Rightarrow> True)"

lemma shown_kept:
  assumes "leader_kept m x" "spec_mutate m x now = Inr m'"
  shows "b_price (shown x m m') = b_price m' \<and> b_leader (shown x m m') = b_leader m'"
  using assms by (cases x) (auto simp: shown_def leader_kept_def spec_mutate_def spec_ban_Inr Let_def tick_def)

lemma spec_mutate_evolves:
  assumes "spec_mutate m x now = Inr m'"
  shows "evolves m m'"
  using assms
  by (cases x) (auto simp: spec_mutate_def spec_bid_Inr spec_buy_now_Inr spec_ban_Inr spec_close_Inr spec_cancel_Inr
      evolves_def tick_def Let_def)

lemma leader_of_text: "e_leader_id ev = leader_text l \<Longrightarrow> leader_of ev = Inr (map_option (\<lambda>x. int (fst x)) l)"
  by (cases l) (auto simp: leader_of_def leader_text_def split: prod.splits)

lemma product_step:
  assumes "product_mirrored m p" "leader_kept m x" "spec_mutate m x now = Inr m'" "event_shows pid x m m' rq ev"
    and "parse_event payload = Inr ev" "leader_of ev = Inr leader"
  shows "product_mirrored m' (snapshot ev leader p)"
proof -
  note ev = assms(4) [unfolded event_shows_def] and f = evolves_fields [OF spec_mutate_evolves [OF assms(3)]]
  have "decimal_of (e_end_at ev) = b_end_at m'"
    using parse_event_decimal [OF assms(5)] ev decimal_show_int by simp
  moreover have "leader = map_option (\<lambda>l. int (fst l)) (b_leader m')"
    using leader_of_text [of ev "b_leader (shown x m m')"] ev assms(6) shown_kept [OF assms(2,3)] by simp
  ultimately show ?thesis
    using assms(1) ev f shown_kept [OF assms(2,3)] by (simp add: product_mirrored_def snapshot_def)
qed

section \<open>In step\<close>

text \<open>Both sides hold the auction \<open>m\<close>: the keys represent it, the rows mirror it, the keys and the
  transitions end with the same event, and there is an order exactly when one is expected.\<close>

definition in_step :: "nat \<Rightarrow> bidding \<Rightarrow> auction_store \<Rightarrow> database \<Rightarrow> bool" where
  "in_step pid m st db =
     (represents pid m st \<and> mirrors pid m db
      \<and> (\<exists>last_event. k_state st = Some (hash_of pid m last_event)
           \<and> or_null (Some last_event) = map_option tr_event_id (latest_transition (int pid) (db_transitions db)))
      \<and> (\<forall>r \<in> set (db_transitions db). tr_product r = int pid \<longrightarrow> tr_sequence r \<le> int (b_sequence m))
      \<and> order_count (int pid) (db_orders db)
          = (if b_status m = SOLD \<or> b_status m = ENDED \<and> b_leader m \<noteq> None then 1 else 0))"

lemma status_name_nonempty [simp]: "status_name s \<noteq> ''''" "status_name s = ''SOLD'' \<longleftrightarrow> s = SOLD" "status_name s = ''ENDED'' \<longleftrightarrow> s = ENDED"
  by (cases s; simp)+

lemma show_int_nonempty [simp]: "show_int n \<noteq> ''''"
  by (simp add: show_int_def)

lemma leader_text_null: "or_null (Some (leader_text l)) = map_option (\<lambda>x. show_nat (fst x)) l"
  by (cases l) (auto simp: leader_text_def split: prod.splits)

lemma reconciled_fields:
  assumes "k_state st = Some (hash_of pid m last_event)" "db_products db (int pid) = Some p"
  shows "reconciled_status (int pid) (k_state st) db = Some (compare_snapshots (int (b_version m)) (pr_version p)
    (int (b_sequence m)) (pr_sequence p)
    (show_nat (b_price m) = show_int (coalesce (pr_current_price p) (coalesce (pr_start_price p) 0))
     \<and> show_int (b_end_at m) = (case pr_end_time p of None \<Rightarrow> ''0'' | Some t \<Rightarrow> show_int t)
     \<and> status_name (b_status m) = pr_status p
     \<and> map_option (\<lambda>x. show_nat (fst x)) (b_leader m) = map_option show_int (pr_owner p)
     \<and> or_null (Some last_event) = map_option tr_event_id (latest_transition (int pid) (db_transitions db))
     \<and> (if b_status m = SOLD \<or> b_status m = ENDED \<and> b_leader m \<noteq> None then 1 else 0) = order_count (int pid) (db_orders db)))"
  using assms leader_text_null [of "b_leader m"]
  by (simp add: reconciled_status_def reconcile_def hash_of_def Let_def expected_orders_def)

lemma in_step_converged:
  assumes "in_step pid m st db"
  shows "reconciled_status (int pid) (k_state st) db = Some ''converged''"
proof -
  obtain p last_event where p: "db_products db (int pid) = Some p" "product_mirrored m p"
    and state: "k_state st = Some (hash_of pid m last_event)"
    and last: "or_null (Some last_event) = map_option tr_event_id (latest_transition (int pid) (db_transitions db))"
    using assms by (auto simp: in_step_def mirrors_def)
  moreover have "map_option (\<lambda>x. show_nat (fst x)) (b_leader m) = map_option show_int (map_option (\<lambda>l. int (fst l)) (b_leader m))"
    by (cases "b_leader m") simp_all
  ultimately show ?thesis
    using assms unfolding reconciled_fields [OF state p(1)]
    by (simp add: in_step_def compare_snapshots_def product_mirrored_def)
qed

lemma script_accepts:
  assumes "represents pid m st" "bidding_ok m" "asks rq x" "in_range (x, now)"
    and "fresh_run clock slot rq st" "rq_product_id rq = pid" "lua_tonumber (rq_now rq) = Some now"
    and "b_sequence m < max_amount" "b_version m < max_amount"
    and "mutate_script clock slot rq st = (Some (ReplySuccess d), st')"
  obtains m' ev where "spec_mutate m x now = Inr m'" "represents pid m' st'" "k_stream st' = k_stream st @ [ev]"
    "event_shows pid x m m' rq ev" "k_state st' = Some (hash_of pid m' (rq_event_id rq))" "answers pid x m m' rq d"
proof -
  have rate: "within_rate clock rq st" and ok: "ranking_ok (b_ranking m)"
    using assms(2,5) by (simp_all add: fresh_run_def bidding_ok_def)
  have "refines_run pid m x now rq st (Some (ReplySuccess d), st')"
    using mutate_loaded_refines [OF assms(1) ok assms(3,4) rate, of slot]
    by (simp only: mutate_script_loaded [OF assms(1,5-9), symmetric] assms(10))
  then show ?thesis
    using that by (cases "spec_mutate m x now") (auto simp: refines_run_def refused_def accepted_def committed_def)
qed

text \<open>The closing and buying requests carry an order id, the others none.\<close>

definition orders_given :: "request \<Rightarrow> mutation \<Rightarrow> bool" where
  "orders_given rq x =
     (case x of Buy_by _ _ \<Rightarrow> given (rq_order_id rq) | Close_it \<Rightarrow> given (rq_order_id rq) | _ \<Rightarrow> True)"

lemma creates_order_iff:
  assumes "event_shows pid x m m' rq ev" "spec_mutate m x now = Inr m'" "leader_kept m x" "orders_given rq x"
    and "leader_of ev = Inr leader" "b_status m \<in> {PENDING, ACTIVE}"
  shows "creates_order ev leader \<longleftrightarrow> b_status m' = SOLD \<or> b_status m' = ENDED \<and> b_leader m' \<noteq> None"
proof -
  note ev = assms(1) [unfolded event_shows_def]
  have "leader = map_option (\<lambda>l. int (fst l)) (b_leader m')"
    using leader_of_text [of ev "b_leader (shown x m m')"] ev assms(5) shown_kept [OF assms(3,2)] by simp
  with assms(2,4,6) ev show ?thesis
    by (cases x)
      (auto simp: creates_order_def event_kind_def order_of_def orders_given_def spec_mutate_def spec_bid_Inr spec_buy_now_Inr
        spec_ban_Inr spec_close_Inr spec_cancel_Inr tick_def given_def Let_def)
qed

lemma in_step_next:
  assumes step: "in_step pid m st db" and ok: "bidding_ok m" and open_m: "b_status m \<in> {PENDING, ACTIVE}"
    and spec: "spec_mutate m x now = Inr m'" and asks: "asks rq x" and sev: "event_shows pid x m m' rq ev"
    and kept: "leader_kept m x" and orders: "orders_given rq x" and id: "rq_event_id rq \<noteq> ''''"
    and rep: "represents pid m' st'" "k_state st' = Some (hash_of pid m' (rq_event_id rq))"
    and parsed: "parse_event (en_payload en) = Inr ev" and run: "project_entry en db = Inr (Applied, db')"
  shows "in_step pid m' st' db'"
proof -
  note ev = sev [unfolded event_shows_def]
  obtain leader where l: "leader_of ev = Inr leader" and pe: "project_event en ev leader db = Inr (Applied, db')"
    using run parsed by (auto elim!: project_entry_Inr)
  obtain p where p: "db_products db (int pid) = Some p" and ap: "apply_event en ev leader db = Inr db'"
    using pe by (cases rule: project_event_cases) (auto simp: ev)
  note eff = apply_event_effect [OF ap]
  have pm: "product_mirrored m p" and bm: "bidders_mirrored pid m db"
    using step p by (auto simp: in_step_def mirrors_def)
  have "mirrors pid m' db'"
    using eff(5) p product_step [OF pm kept spec sev parsed l] bidders_step [OF ap bm ok spec asks sev]
    by (auto simp: mirrors_def ev)
  moreover have tr: "tr_product (transition_of ev) = int pid" "tr_sequence (transition_of ev) = int (b_sequence m) + 1"
    "tr_event_id (transition_of ev) = rq_event_id rq"
    using ev evolves_fields(9) [OF spec_mutate_evolves [OF spec]] by (simp_all add: transition_of_def)
  have old: "\<forall>r \<in> set (db_transitions db). tr_product r = int pid \<longrightarrow> tr_sequence r \<le> int (b_sequence m)"
    using step by (simp add: in_step_def)
  have "latest_transition (int pid) (db_transitions db') = Some (transition_of ev)"
    using old latest_transition_in [of "int pid" "db_transitions db"] tr
    by (auto simp: eff(1) latest_transition_snoc split: option.splits)
  moreover have "order_count (int pid) (db_orders db)
      = (if b_status m = SOLD \<or> b_status m = ENDED \<and> b_leader m \<noteq> None then 1 else 0)"
    using step by (simp add: in_step_def)
  then have "order_count (int pid) (db_orders db) = 0" using open_m by auto
  then have "order_count (int pid) (db_orders db')
      = (if b_status m' = SOLD \<or> b_status m' = ENDED \<and> b_leader m' \<noteq> None then 1 else 0)"
    using creates_order_iff [OF sev spec kept orders l open_m] by (simp add: eff(4) order_count_snoc order_of_event_def ev)
  ultimately show ?thesis
    using rep old tr id evolves_fields(9) [OF spec_mutate_evolves [OF spec]]
    by (auto simp: in_step_def eff(1))
qed

section \<open>Properties\<close>

text \<open>C1: An accepted mutation reaches PostgreSQL unchanged. When an auction that is in step on both
  sides accepts a mutation other than a ban of its leader, and the projector commits the event the
  script appended, both sides are in step again with the specification's next auction: price,
  leader, deadline, status, sequence, version, standing maxima, bans, orders and last event agree,
  and the reconciliation answers \<open>converged\<close>.\<close>

theorem accepted_mutation_converges:
  assumes "in_step pid m st db" "bidding_ok m" "b_status m \<in> {PENDING, ACTIVE}"
    and "asks rq x" "in_range (x, now)" "fresh_run clock slot rq st" "rq_product_id rq = pid"
    and "lua_tonumber (rq_now rq) = Some now" "b_sequence m < max_amount" "b_version m < max_amount"
    and "leader_kept m x" "orders_given rq x" "rq_event_id rq \<noteq> ''''"
    and "mutate_script clock slot rq st = (Some (ReplySuccess d), st')"
    and "parse_event (en_payload en) = Inr (last (k_stream st'))" "project_entry en db = Inr (Applied, db')"
  shows "\<exists>m'. spec_mutate m x now = Inr m' \<and> in_step pid m' st' db'
    \<and> reconciled_status (int pid) (k_state st') db' = Some ''converged''"
proof -
  have rep: "represents pid m st" using assms(1) by (simp add: in_step_def)
  obtain m' ev where s: "spec_mutate m x now = Inr m'" "represents pid m' st'" "k_stream st' = k_stream st @ [ev]"
      "event_shows pid x m m' rq ev" "k_state st' = Some (hash_of pid m' (rq_event_id rq))"
    using script_accepts [OF rep assms(2,4-10,14)] by blast
  have "in_step pid m' st' db'"
    using in_step_next [OF assms(1-3) s(1) assms(4) s(4) assms(11-13) s(2,5) _ assms(16)] assms(15) s(3) by simp
  with s(1) in_step_converged show ?thesis by blast
qed

text \<open>What the projection of a leader's ban leaves: the bidders of the next auction, but the product
  row of the event, which names the banned leader.\<close>

lemma projected_leader_ban:
  assumes "in_step pid m st db" "bidding_ok m" "asks rq (Ban_by actor admin (Some t))" "b_leader m = Some (t, a)"
    and s: "spec_mutate m (Ban_by actor admin (Some t)) now = Inr m'" "event_shows pid (Ban_by actor admin (Some t)) m m' rq ev"
    and "parse_event (en_payload en) = Inr ev" "project_entry en db = Inr (Applied, db')"
  obtains p where "db_products db' (int pid) = Some p" "pr_owner p = Some (int t)" "pr_status p = ''ACTIVE''"
    "pr_version p = int (b_version m')" "pr_sequence p = int (b_sequence m')" "pr_end_time p \<noteq> None"
    "bidders_mirrored pid m' db'" "order_count (int pid) (db_orders db') = 0"
    "latest_transition (int pid) (db_transitions db') = Some (transition_of ev)" "e_event_id ev \<noteq> ''''"
    "t \<in> b_bans m'" "bidding_ok m'" "b_status m' = ACTIVE"
proof -
  have ev: "e_product_id ev = show_nat pid" "leader_of ev = Inr (Some (int t))" "e_version ev = show_nat (b_version m')"
    "e_sequence ev = show_nat (b_sequence m')" "e_status ev = status_name (b_status m')" "e_type ev = ''BIDDER_BANNED''"
    using s(2) assms(4) leader_of_text [of ev "b_leader m"] by (simp_all add: event_shows_def shown_def event_kind_def)
  have ban: "spec_ban m actor admin (Some t) now = Inr m'" using s(1) by (simp add: spec_mutate_def)
  with spec_ban_ok [OF assms(2) this] have m': "bidding_ok m'" "t \<in> b_bans m'" "b_status m' = ACTIVE" "b_status m \<in> {PENDING, ACTIVE}"
    by (auto simp: spec_ban_Inr status_at_def Let_def split: if_splits)
  obtain p where p: "db_products db (int pid) = Some p" and ap: "apply_event en ev (Some (int t)) db = Inr db'"
    using assms(7,8) ev(1,2) by (auto elim!: project_entry_Inr elim: project_event_cases)
  note eff = apply_event_effect [OF ap]
  have "bidders_mirrored pid m' db'"
    using bidders_step [OF ap _ assms(2) s(1) assms(3) s(2)] assms(1) by (simp add: in_step_def mirrors_def)
  moreover have "order_count (int pid) (db_orders db') = 0"
    using assms(1) m'(4) by (auto simp: eff(4) creates_order_def ev in_step_def)
  moreover have "\<forall>r \<in> set (db_transitions db). tr_product r = int pid \<longrightarrow> tr_sequence r \<le> int (b_sequence m)"
    using assms(1) by (simp add: in_step_def)
  then have "latest_transition (int pid) (db_transitions db') = Some (transition_of ev)"
    using latest_transition_in [of "int pid" "db_transitions db"] evolves_fields(9) [OF spec_mutate_evolves [OF s(1)]]
    by (auto simp: eff(1) latest_transition_snoc transition_of_def ev split: option.splits)
  moreover have "uuid_pattern (e_event_id ev)"
    using assms(7) by (auto simp: parse_event_def read_event_def contract_ok_def split: option.splits if_splits)
  then have "length (e_event_id ev) = 36" unfolding uuid_pattern_def by (rule conjunct1)
  then have "e_event_id ev \<noteq> ''''" by auto
  moreover have "db_products db' (int pid) = Some (snapshot ev (Some (int t)) p)" using eff(5) p by (auto simp: ev)
  ultimately show ?thesis
    using m' ev by (intro that [of "snapshot ev (Some (int t)) p"]) (simp_all add: snapshot_def)
qed

lemma bootstrap_of_row:
  assumes "db_products db p = Some r"
  obtains st' where "bootstrap_auction False True True False now settings p db st = (Inr True, st')"
    "k_state st' = Some (sd_state (auction_seed now settings True p r db))"
    "k_bans st' = set (sd_bans (auction_seed now settings True p r db))"
proof -
  have f: "k_state (fold add_maximum ms st0) = k_state st0 \<and> k_bans (fold add_maximum ms st0) = k_bans st0" for ms st0
    by (induction ms arbitrary: st0) (auto simp: add_maximum_def split: prod.splits)
  let ?sd = "auction_seed now settings True p r db"
  define st2 where "st2 = (fold add_maximum (sd_maxima ?sd) ((forget_auction p st)\<lparr>k_state := Some (sd_state ?sd)\<rparr>))"
  define st3 where "st3 = st2\<lparr>k_bans := k_bans st2 \<union> set (sd_bans ?sd)\<rparr>"
  define st' where "st' = (case sd_deadline ?sd of None \<Rightarrow> st3 | Some t \<Rightarrow> st3\<lparr>k_deadlines := (k_deadlines st3)(sd_product ?sd \<mapsto> t)\<rparr>)"
  have "k_state st' = Some (sd_state ?sd)" "k_bans st' = set (sd_bans ?sd)"
    by (simp_all add: st'_def st3_def st2_def f forget_auction_def split: option.split)
  moreover have "bootstrap_auction False True True False now settings p db st = (Inr True, st')"
    by (simp add: bootstrap_auction_def bootstrap_script_def assms seed_recovery forget_state st2_def st3_def st'_def Let_def
        split: option.split)
  ultimately show ?thesis by (intro that)
qed

text \<open>A loaded auction reconciles when its status is not promoted and its order is there.\<close>

lemma bootstrapped_converges:
  assumes "k_state st = Some (sd_state (auction_seed now settings recovery p r db))" "db_products db p = Some r"
    and "seed_status now r = pr_status r" "pr_status r \<noteq> ''''"
    and "expected_orders (pr_status r) (map_option show_int (pr_owner r)) = order_count p (db_orders db)"
    and "latest_transition p (db_transitions db) = Some tr" "tr_event_id tr \<noteq> ''''" "pr_end_time r \<noteq> None"
  shows "reconciled_status p (k_state st) db = Some ''converged''"
  using assms
  by (auto simp: reconciled_status_def reconcile_def auction_seed_def compare_snapshots_def Let_def split: option.splits)

text \<open>C3: A ban of the leader drives the two sides apart, and recovery makes the banned bidder leader
  again. The event of such a ban names the banned leader, so after the projector has committed it
  the product row still has the banned bidder as its owner, sequence and version are equal on both
  sides, and the reconciliation answers \<open>diverged\<close>: waiting for the projector does not help.
  Loading the auction from PostgreSQL then puts the banned bidder into the keys as the leader, with
  maximum 0, while the keys also list the bidder as banned; and now the reconciliation answers
  \<open>converged\<close>.\<close>

theorem leader_ban_diverges:
  assumes "in_step pid m st db" "bidding_ok m"
    and "asks rq (Ban_by actor admin (Some t))" "fresh_run clock slot rq st" "rq_product_id rq = pid"
    and "lua_tonumber (rq_now rq) = Some now" "b_sequence m < max_amount" "b_version m < max_amount"
    and "b_leader m = Some (t, a)"
    and "mutate_script clock slot rq st = (Some (ReplySuccess d), st')"
    and "parse_event (en_payload en) = Inr (last (k_stream st'))" "project_entry en db = Inr (Applied, db')"
  shows "reconciled_status (int pid) (k_state st') db' = Some ''diverged''
    \<and> (\<exists>st2 h. bootstrap_auction False True True False now' settings (int pid) db' st' = (Inr True, st2)
         \<and> k_state st2 = Some h \<and> h_leader_id h = Some (show_nat t) \<and> h_leader_max h = Some ''0''
         \<and> show_nat t \<in> k_bans st2 \<and> reconciled_status (int pid) (k_state st2) db' = Some ''converged'')"
proof -
  let ?x = "Ban_by actor admin (Some t)"
  have rep: "represents pid m st" using assms(1) by (simp add: in_step_def)
  have range: "in_range (?x, now)" by (simp add: in_range_def)
  obtain m' ev where s: "spec_mutate m ?x now = Inr m'" "represents pid m' st'" "k_stream st' = k_stream st @ [ev]"
      "event_shows pid ?x m m' rq ev" "k_state st' = Some (hash_of pid m' (rq_event_id rq))"
    using script_accepts [OF rep assms(2,3) range assms(4-8,10)] by blast
  have parsed: "parse_event (en_payload en) = Inr ev" using assms(11) s(3) by simp
  obtain p where p: "db_products db' (int pid) = Some p" "pr_owner p = Some (int t)" "pr_status p = ''ACTIVE''"
      "pr_version p = int (b_version m')" "pr_sequence p = int (b_sequence m')" "pr_end_time p \<noteq> None"
    and b: "bidders_mirrored pid m' db'" "order_count (int pid) (db_orders db') = 0"
    and l: "latest_transition (int pid) (db_transitions db') = Some (transition_of ev)" "e_event_id ev \<noteq> ''''"
    and m': "t \<in> b_bans m'" "bidding_ok m'" "b_status m' = ACTIVE"
    by (rule projected_leader_ban [OF assms(1-3,9) s(1,4) parsed assms(12)])
  have "(a', t) \<notin> set (b_ranking m')" for a' using m'(1,2) by (auto simp: bidding_ok_def)
  then have not_leader: "map_option (\<lambda>x. show_nat (fst x)) (b_leader m') \<noteq> Some (show_nat t)" and none: "bidder_max m' t = None"
    using m'(2,3) bidder_max_Some [of m' t]
    by (auto simp: bidding_ok_def open_ok_def leader_ok_def ranking_ok_def split: option.splits)
  have "reconciled_status (int pid) (k_state st') db' = Some ''diverged''"
    unfolding reconciled_fields [OF s(5) p(1)] using not_leader p by (simp add: compare_snapshots_def)
  moreover obtain st2 where st2: "bootstrap_auction False True True False now' settings (int pid) db' st' = (Inr True, st2)"
      "k_state st2 = Some (sd_state (auction_seed now' settings True (int pid) p db'))"
      "k_bans st2 = set (sd_bans (auction_seed now' settings True (int pid) p db'))"
    by (rule bootstrap_of_row [OF p(1)])
  moreover have "reconciled_status (int pid) (k_state st2) db' = Some ''converged''"
    using p b(2) l(2)
    by (intro bootstrapped_converges [OF st2(2) p(1) _ _ _ l(1)]) (simp_all add: seed_status_def expected_orders_def transition_of_def)
  moreover have "db_maximum (int pid) db' t = None" using b(1) none by (simp add: bidders_mirrored_def)
  then have "user_maximum (int pid) (db_histories db') (int t) = None" by (simp add: db_maximum_def)
  then have "h_leader_id (sd_state (auction_seed now' settings True (int pid) p db')) = Some (show_nat t)"
    "h_leader_max (sd_state (auction_seed now' settings True (int pid) p db')) = Some (show_int 0)"
    using p(2) by (simp_all add: auction_seed_def Let_def)
  moreover have "int t \<in> bn_user ` set (filter (\<lambda>b. bn_product b = int pid) (db_bans db'))"
    using b(1) m'(1) by (simp add: bidders_mirrored_def)
  then have "show_int (int t) \<in> set (sd_bans (auction_seed now' settings True (int pid) p db'))"
    unfolding auction_seed_def Let_def by (force simp: simp del: show_int_nat)
  moreover have "show_int 0 = ''0''" by code_simp
  ultimately show ?thesis by auto
qed

text \<open>C4: An auction lost in Redis comes back as it was. Whatever the keys hold when a forced
  bootstrap runs, if the rows mirror the auction \<open>m\<close> the script initialises the keys, and they
  represent \<open>m\<close> again, with the status promoted when a pending auction has started meanwhile;
  when it has not, the two sides are in step.\<close>

theorem bootstrap_restores_auction:
  assumes "in_step pid m st db" "bidding_ok m" "b_status m \<in> {PENDING, ACTIVE}" "tuned settings m"
  shows "\<exists>st'. bootstrap_auction False True True False now settings (int pid) db lost = (Inr True, st')
    \<and> represents pid (opened now m) st' \<and> k_stream st' = k_stream lost
    \<and> (status_at m now = b_status m \<longrightarrow> in_step pid m st' db)"
proof -
  have mir: "mirrors pid m db" using assms(1) by (simp add: in_step_def)
  obtain st' where b: "bootstrap_auction False True True False now settings (int pid) db lost = (Inr True, st')"
    "represents pid (opened now m) st'"
    "k_state st' = Some (hash_of pid (opened now m)
       (case latest_transition (int pid) (db_transitions db) of None \<Rightarrow> '''' | Some r \<Rightarrow> tr_event_id r))"
    "k_stream st' = k_stream lost"
    using bootstrap_mirrored [OF mir assms(4,2,3)] by blast
  have "in_step pid m st' db" if "status_at m now = b_status m"
  proof -
    have "opened now m = m" using that by (simp add: opened_def)
    then show ?thesis
      using assms(1) b(2,3) by (auto simp: in_step_def split: option.splits if_splits)
  qed
  with b show ?thesis by blast
qed

section \<open>An example\<close>

definition mirror_bidding :: bidding where
  "mirror_bidding = example_bidding\<lparr>b_window := 0, b_extension := 0\<rparr>"

definition mirror_product :: product_row where
  "mirror_product =
     \<lparr>pr_seller = 4, pr_start_price = Some 50, pr_step_price = Some 10, pr_current_price = Some 110,
      pr_buy_now_price = Some 900, pr_owner = Some 2, pr_turns = None, pr_start_time = Some 0, pr_end_time = Some 1000,
      pr_removed = Some False, pr_auto_extended = Some True, pr_status = ''ACTIVE'', pr_version = 4, pr_sequence = 4\<rparr>"

definition mirror_history :: "int \<Rightarrow> int \<Rightarrow> int \<Rightarrow> history_row" where
  "mirror_history user maximum sequence =
     \<lparr>hi_event_id = None, hi_product = 7, hi_user = user, hi_max = maximum, hi_price = 110, hi_owner = Some 2,
      hi_status = None, hi_sequence = Some sequence, hi_version = Some sequence\<rparr>"

definition mirror_database :: database where
  "mirror_database =
     \<lparr>db_users = {2, 3, 4}, db_products = [7 \<mapsto> mirror_product],
      db_transitions = [\<lparr>tr_event_id = ''e0'', tr_product = 7, tr_type = ''BID_ACCEPTED'', tr_sequence = 4, tr_version = 4,
        tr_payload = example_event\<rparr>],
      db_histories = [mirror_history 3 100 3, mirror_history 2 150 4],
      db_bans = [\<lparr>bn_product = 7, bn_user = 9, bn_reason = None\<rparr>], db_orders = [], db_receipts = [], db_outbox = [],
      db_idempotency = []\<rparr>"

definition mirror_request :: request where
  "mirror_request = example_request\<lparr>rq_event_id := ''00000000-0000-4000-8000-000000000001''\<rparr>"

definition mirror_ban :: request where
  "mirror_ban = example_ban\<lparr>rq_event_id := ''00000000-0000-4000-8000-000000000001''\<rparr>"

definition last_event_of :: "request \<Rightarrow> stream_event option" where
  "last_event_of rq = (case mutate_script 0 ''s'' rq (store_of 7 mirror_bidding) of
     (Some (ReplySuccess d), st') \<Rightarrow> Some (last (k_stream st')) | _ \<Rightarrow> None)"

definition applied_to_mirror :: "stream_event \<Rightarrow> bool" where
  "applied_to_mirror ev = (case project_entry \<lparr>en_id = ''1-0'', en_payload = Some (event_json ev), en_shard = None\<rparr> mirror_database of
     Inr (Applied, _) \<Rightarrow> True | _ \<Rightarrow> False)"

definition example_ban_event :: stream_event where
  "example_ban_event = example_event\<lparr>e_idempotency_key := ''i1'', e_type := ''BIDDER_BANNED'', e_actor_id := ''4'', e_requested_max := None,
     e_target_user_id := Some ''2'', e_current_price := ''110'', e_leader_id := ''2'', e_leader_max := ''150''\<rparr>"

lemma mirror_events:
  "last_event_of mirror_request = Some (example_event\<lparr>e_idempotency_key := ''i1''\<rparr>)"
  "last_event_of mirror_ban = Some example_ban_event"
  by code_simp+

lemma mirror_applied:
  "applied_to_mirror (example_event\<lparr>e_idempotency_key := ''i1''\<rparr>)" "applied_to_mirror example_ban_event"
  by code_simp+

lemma mirror_bidding_ok: "bidding_ok mirror_bidding"
  by (simp add: bidding_ok_def mirror_bidding_def example_bidding_def ranking_ok_def open_ok_def leader_ok_def
      rank_bound_def less_eq_prod_def)

lemma mirror_in_step: "in_step 7 mirror_bidding (store_of 7 mirror_bidding) mirror_database"
proof -
  have "db_maximum 7 mirror_database u = bidder_max mirror_bidding u" for u
    by (auto simp: db_maximum_def user_maximum_def standing_def mirror_database_def mirror_history_def bidder_max_def
        mirror_bidding_def example_bidding_def)
  moreover have "bn_user ` set (filter (\<lambda>b. bn_product b = 7) (db_bans mirror_database)) = int ` b_bans mirror_bidding"
    by (auto simp: mirror_database_def mirror_bidding_def example_bidding_def image_iff)
  moreover have "\<forall>h \<in> set (standing 7 (db_histories mirror_database)). 0 \<le> hi_user h \<and> 0 \<le> hi_max h"
    by (simp add: standing_def mirror_database_def mirror_history_def)
  ultimately have "bidders_mirrored 7 mirror_bidding mirror_database"
    by (simp add: bidders_mirrored_def)
  moreover have "product_mirrored mirror_bidding mirror_product"
    by (simp add: product_mirrored_def mirror_product_def mirror_bidding_def example_bidding_def)
  moreover have "k_state (store_of 7 mirror_bidding) = Some (hash_of 7 mirror_bidding ''e0'')" by (simp add: store_of_def)
  moreover have "latest_transition 7 (db_transitions mirror_database) = Some (hd (db_transitions mirror_database))"
    "tr_event_id (hd (db_transitions mirror_database)) = ''e0''" "db_products mirror_database 7 = Some mirror_product"
    "db_orders mirror_database = []" "\<forall>r \<in> set (db_transitions mirror_database). tr_sequence r \<le> 4"
    by (simp_all add: mirror_database_def latest_transition_def)
  moreover have "b_status mirror_bidding = ACTIVE" "b_sequence mirror_bidding = 4" "or_null (Some ''e0'') = Some ''e0''"
    by (simp_all add: mirror_bidding_def example_bidding_def)
  ultimately show ?thesis
    by (auto simp: in_step_def mirrors_def order_count_def simp del: or_null_simps)
qed

lemma mirror_facts:
  "fresh_run 0 ''s'' mirror_request (store_of 7 mirror_bidding)" "fresh_run 0 ''s'' mirror_ban (store_of 7 mirror_bidding)"
  "asks mirror_request (Bid_by 3 200)" "asks mirror_ban (Ban_by 4 False (Some 2))"
  "rq_product_id mirror_request = 7" "rq_product_id mirror_ban = 7"
  "lua_tonumber (rq_now mirror_request) = Some 500" "lua_tonumber (rq_now mirror_ban) = Some 500"
  "b_sequence mirror_bidding < max_amount" "b_version mirror_bidding < max_amount" "b_status mirror_bidding = ACTIVE"
  "b_leader mirror_bidding = Some (2, 150)" "rq_event_id mirror_request \<noteq> ''''"
  by (simp_all add: fresh_run_def store_of_def find_replay_def live_def within_rate_def rate_count_def throttled_def asks_def
      mirror_request_def mirror_ban_def example_request_def example_ban_def mirror_bidding_def example_bidding_def max_amount_def)

lemma mirror_run:
  assumes "last_event_of rq = Some ev" "applied_to_mirror ev" "event_ok ev"
  obtains d st' en db' where "mutate_script 0 ''s'' rq (store_of 7 mirror_bidding) = (Some (ReplySuccess d), st')"
    "parse_event (en_payload en) = Inr (last (k_stream st'))" "project_entry en mirror_database = Inr (Applied, db')"
proof -
  obtain d st' where r: "mutate_script 0 ''s'' rq (store_of 7 mirror_bidding) = (Some (ReplySuccess d), st')" "last (k_stream st') = ev"
    using assms(1) by (auto simp: last_event_of_def split: option.splits reply.splits prod.splits)
  obtain db' where "project_entry \<lparr>en_id = ''1-0'', en_payload = Some (event_json ev), en_shard = None\<rparr> mirror_database = Inr (Applied, db')"
    using assms(2) by (auto simp: applied_to_mirror_def split: sum.splits prod.splits projected.splits)
  with that [OF r(1), of "\<lparr>en_id = ''1-0'', en_payload = Some (event_json ev), en_shard = None\<rparr>" db']
  show ?thesis using parse_event_json [OF assms(3)] r(2) by simp
qed

lemma mirror_events_ok: "event_ok (example_event\<lparr>e_idempotency_key := ''i1''\<rparr>)" "event_ok example_ban_event"
proof -
  have "decimal_pattern ''4''" "decimal_pattern ''110''" by code_simp+
  with example_event_ok show "event_ok (example_event\<lparr>e_idempotency_key := ''i1''\<rparr>)" "event_ok example_ban_event"
    by (simp_all add: event_ok_def example_ban_event_def event_kinds_def example_event_def given_def)
qed

theorem accepted_mutation_converges_witness:
  "\<exists>d st' en db'. mutate_script 0 ''s'' mirror_request (store_of 7 mirror_bidding) = (Some (ReplySuccess d), st')
     \<and> project_entry en mirror_database = Inr (Applied, db')
     \<and> reconciled_status 7 (k_state st') db' = Some ''converged''"
proof -
  obtain d st' en db' where r: "mutate_script 0 ''s'' mirror_request (store_of 7 mirror_bidding) = (Some (ReplySuccess d), st')"
    "parse_event (en_payload en) = Inr (last (k_stream st'))" "project_entry en mirror_database = Inr (Applied, db')"
    using mirror_run [OF mirror_events(1) mirror_applied(1) mirror_events_ok(1)] by blast
  from accepted_mutation_converges [OF mirror_in_step mirror_bidding_ok _ mirror_facts(3) _ mirror_facts(1,5,7,9,10) _ _ mirror_facts(13) r]
  have "reconciled_status 7 (k_state st') db' = Some ''converged''"
    by (auto simp: mirror_facts in_range_def leader_kept_def orders_given_def rank_bound_def)
  with r show ?thesis by blast
qed

theorem leader_ban_diverges_witness:
  "\<exists>d st' en db'. mutate_script 0 ''s'' mirror_ban (store_of 7 mirror_bidding) = (Some (ReplySuccess d), st')
     \<and> project_entry en mirror_database = Inr (Applied, db')
     \<and> reconciled_status 7 (k_state st') db' = Some ''diverged''"
proof -
  obtain d st' en db' where r: "mutate_script 0 ''s'' mirror_ban (store_of 7 mirror_bidding) = (Some (ReplySuccess d), st')"
    "parse_event (en_payload en) = Inr (last (k_stream st'))" "project_entry en mirror_database = Inr (Applied, db')"
    using mirror_run [OF mirror_events(2) mirror_applied(2) mirror_events_ok(2)] by blast
  from leader_ban_diverges [OF mirror_in_step mirror_bidding_ok mirror_facts(4,2,6,8,9,10,12) r] r show ?thesis
    by auto
qed

theorem bootstrap_restores_auction_witness:
  "\<exists>st'. bootstrap_auction False True True False 500 None 7 mirror_database (forget_auction 7 (store_of 7 mirror_bidding)) = (Inr True, st')
     \<and> in_step 7 mirror_bidding st' mirror_database"
proof -
  have "tuned None mirror_bidding" "status_at mirror_bidding 500 = b_status mirror_bidding"
    by (simp_all add: tuned_def mirror_bidding_def status_at_def example_bidding_def)
  with bootstrap_restores_auction [OF mirror_in_step mirror_bidding_ok _ this(1), of 500] mirror_facts(11) show ?thesis
    by fastforce
qed

end
