(* ===== verification/Recovery.thy ===== *)
theory Recovery
  imports Recovery_Lease Convergence Projector_Batch Mutation_Client
begin

text \<open>
  Rebuilding the Redis authority from PostgreSQL (redis-authority.recovery.ts). \<open>authority\<close> is what
  the recovery works on: the Redis shards, the projector with its database, the control row and the
  columns only recovery uses. An \<open>act\<close> is a step that may throw; the state it reached stays.
  \<open>perform_recovery\<close> composes the acts the way the function does, \<open>cycle\<close> decides whether to run it.
  Clock readings, random ids and what Redis delivers while draining are arguments, and so are the faults: between any two
  acts other processes may execute statements on the control row and on the fences, and the next statement may throw
  (\<open>meanwhile\<close>); of the commands of a \<open>Promise.all\<close> some may be performed although the whole throws. The stream of
  results belongs to the projector's shards here, the keys of an auction to \<open>rs_auctions\<close>.
\<close>

section \<open>State\<close>

datatype auction_key = StateKey | MaximaKey | RankingKey | RankMembersKey | BansKey

text \<open>\<open>rs_foreign\<close>: the key holds a value of that other type. A manifest is absent, no JSON, or JSON.\<close>

record redis_shard =
  rs_auctions :: "int \<Rightarrow> auction_store"
  rs_foreign :: "int \<Rightarrow> auction_key \<Rightarrow> string option"
  rs_deadlines :: "string \<rightharpoonup> int"
  rs_fence :: bool
  rs_manifest :: "json option option"
  rs_planned :: bool

record runtime =
  rt_state :: string
  rt_ready :: bool
  rt_epoch :: "int option"
  rt_trigger :: "string option"
  rt_error :: "string option"
  rt_checked :: "int option"
  rt_scope :: "string option"
  rt_affected :: "int list option"

record recovery_run =
  rr_trigger :: string
  rr_status :: string
  rr_completed_at :: "int option"
  rr_auctions :: nat
  rr_seconds :: int
  rr_error :: "string option"

record authority =
  au_shards :: "redis_shard list"
  au_projector :: projector
  au_ids :: "int list"
  au_epochs :: "int \<Rightarrow> int"
  au_created :: "string \<Rightarrow> int"
  au_settings :: "(int option \<times> int option) option"
  au_control :: control
  au_runs :: "int \<rightharpoonup> recovery_run"
  au_runtime :: runtime

datatype recovery_error = RecoveryError string | ProjectionFault projection_error

fun error_message :: "recovery_error \<Rightarrow> string" where
  "error_message (RecoveryError s) = s"
| "error_message (ProjectionFault (InvalidAuctionEvent s)) = s"
| "error_message (ProjectionFault (ProjectionGap s)) = s"
| "error_message (ProjectionFault (DatabaseFault s)) = s"
| "error_message (ProjectionFault (SyntaxFault s)) = s"

abbreviation au_db :: "authority \<Rightarrow> database" where "au_db a \<equiv> pj_database (au_projector a)"

text \<open>\<open>clients[productId % clients.length]\<close>, and the keys of an auction with those it shares.\<close>

definition shard_index :: "int \<Rightarrow> redis_shard list \<Rightarrow> nat" where
  "shard_index product shards = nat (product mod int (length shards))"

definition auction_view :: "authority \<Rightarrow> int \<Rightarrow> auction_store" where
  "auction_view a product =
     (let s = au_shards a ! shard_index product (au_shards a)
      in (rs_auctions s product)\<lparr>k_deadlines := rs_deadlines s, k_fence := rs_fence s\<rparr>)"

definition update_client :: "int \<Rightarrow> (redis_shard \<Rightarrow> redis_shard) \<Rightarrow> authority \<Rightarrow> authority" where
  "update_client product f a =
     (let shards = au_shards a; i = shard_index product shards in a\<lparr>au_shards := shards[i := f (shards ! i)]\<rparr>)"

definition put_auction :: "int \<Rightarrow> auction_store \<Rightarrow> redis_shard \<Rightarrow> redis_shard" where
  "put_auction product st s = s\<lparr>rs_auctions := (rs_auctions s)(product := st), rs_deadlines := k_deadlines st\<rparr>"

section \<open>Acts\<close>

type_synonym 'a act = "authority \<Rightarrow> (recovery_error, 'a) result \<times> authority"

definition and_then :: "'a act \<Rightarrow> ('a \<Rightarrow> 'b act) \<Rightarrow> 'b act" where
  "and_then f g a = (case f a of (Inl e, a') \<Rightarrow> (Inl e, a') | (Inr x, a') \<Rightarrow> g x a')"

definition claim_act :: "string \<Rightarrow> int option \<Rightarrow> string \<Rightarrow> int \<Rightarrow> authority \<Rightarrow> (control \<times> authority) option" where
  "claim_act me configured trigger now a =
     map_option (\<lambda>c. (c, a\<lparr>au_control := c,
         au_runs := (au_runs a)(ct_epoch c \<mapsto> (case au_runs a (ct_epoch c) of
           None \<Rightarrow> \<lparr>rr_trigger = trigger, rr_status = ''RUNNING'', rr_completed_at = None, rr_auctions = 0,
                    rr_seconds = 0, rr_error = None\<rparr>
         | Some r \<Rightarrow> r\<lparr>rr_status := ''RUNNING'', rr_error := None\<rparr>))\<rparr>))
       (claim_recovery me configured now (au_control a))"

definition renew_act :: "string \<Rightarrow> int option \<Rightarrow> int \<Rightarrow> int \<Rightarrow> unit act" where
  "renew_act me configured now epoch a =
     (case renew_lease me configured now epoch (au_control a) of
        Inl e \<Rightarrow> (throws (RecoveryError e), a)
      | Inr c \<Rightarrow> (returns (), a\<lparr>au_control := c\<rparr>))"

text \<open>The fences of clients, or those of auctions; the keys are the numbers of the clients or the products.\<close>

definition set_auction_fence :: "bool \<Rightarrow> int \<Rightarrow> authority \<Rightarrow> authority" where
  "set_auction_fence closed product =
     update_client product (\<lambda>s. s\<lparr>rs_auctions := (rs_auctions s)(product := (rs_auctions s product)\<lparr>k_auction_fence := closed\<rparr>)\<rparr>)"

definition set_fences :: "bool \<Rightarrow> bool \<Rightarrow> int list \<Rightarrow> authority \<Rightarrow> authority" where
  "set_fences closed everywhere keys a =
     (if everywhere
      then a\<lparr>au_shards := map (\<lambda>(i, s). if int i \<in> set keys then s\<lparr>rs_fence := closed\<rparr> else s) (enumerate 0 (au_shards a))\<rparr>
      else fold (set_auction_fence closed) keys a)"

definition fence_keys :: "bool \<Rightarrow> int list \<Rightarrow> authority \<Rightarrow> int list" where
  "fence_keys everywhere targets a = (if everywhere then map int [0..<length (au_shards a)] else targets)"

text \<open>\<open>ok\<close>: the command of the key succeeds.\<close>

definition fences_act :: "bool \<Rightarrow> bool \<Rightarrow> int list \<Rightarrow> (int \<Rightarrow> bool) \<Rightarrow> string \<Rightarrow> unit act" where
  "fences_act closed everywhere targets ok err a =
     (let keys = fence_keys everywhere targets a
      in (if list_all ok keys then returns () else throws (RecoveryError err), set_fences closed everywhere (filter ok keys) a))"

section \<open>Other processes and faults\<close>

text \<open>What another process does meanwhile: a statement on the control row, or setting and deleting fences.\<close>

datatype foreign_step = OnRow lease_op | OnFences bool bool "int list"

fun foreign :: "int option \<Rightarrow> foreign_step \<Rightarrow> authority \<Rightarrow> authority" where
  "foreign configured (OnRow op) a = a\<lparr>au_control := lease_step configured op (au_control a)\<rparr>"
| "foreign configured (OnFences closed everywhere keys) a = set_fences closed everywhere keys a"

text \<open>Before a statement: the steps of others, and the message it throws with instead of being executed, if it does.\<close>

record between =
  bt_others :: "foreign_step list"
  bt_fault :: "string option"

definition meanwhile :: "int option \<Rightarrow> between \<Rightarrow> unit act" where
  "meanwhile configured bt a =
     (case bt_fault bt of None \<Rightarrow> returns () | Some m \<Rightarrow> throws (RecoveryError m), fold (foreign configured) (bt_others bt) a)"

section \<open>Draining the projection\<close>

text \<open>Pending entries and lag per client: the lag is unknown when one is.\<close>

definition stream_health :: "(int \<times> int option) list \<Rightarrow> int \<times> int option" where
  "stream_health groups =
     (sum_list (map fst groups),
      if list_ex (\<lambda>g. snd g = None) groups then None else Some (sum_list (map (\<lambda>g. coalesce (snd g) 0) groups)))"

text \<open>What Redis delivers and answers in one round of the loop.\<close>

record drain_round =
  dr_between :: between
  dr_now :: int
  dr_claimed :: "entry list"
  dr_fresh :: "entry list"
  dr_order :: "entry list list \<Rightarrow> entry list list"
  dr_streams :: "(stream_item list \<times> stream_id) list"
  dr_groups :: "(int \<times> int option) list"

text \<open>The rounds begin before the deadline; when there are no more, it has passed.\<close>

fun drain_projection :: "string \<Rightarrow> int option \<Rightarrow> projector_config \<Rightarrow> (string \<Rightarrow> json option) \<Rightarrow> int \<Rightarrow> int list \<Rightarrow> drain_round list \<Rightarrow> unit act" where
  "drain_projection me configured pc parse_json epoch targets [] a =
     (throws (RecoveryError ''Timed out while draining Redis auction events into PostgreSQL''), a)"
| "drain_projection me configured pc parse_json epoch targets (r # rs) a =
     and_then (meanwhile configured (dr_between r)) (\<lambda>_ b.
       let a = b\<lparr>au_projector := projector_batch pc (dr_order r) (dr_claimed r) (dr_fresh r) (au_projector b)\<rparr>
       in case (if targets = [] then returns True else has_undrained parse_json (set (map show_int targets)) 0 (dr_streams r)) of
            Inl e \<Rightarrow> (throws (ProjectionFault e), a)
          | Inr undrained \<Rightarrow>
              if \<not> undrained \<or> (targets = [] \<and> stream_health (dr_groups r) = (0, Some 0)) then (returns (), a)
              else and_then (renew_act me configured (dr_now r) epoch)
                (\<lambda>_. drain_projection me configured pc parse_json epoch targets rs) a) a"

section \<open>Extending interrupted auctions\<close>

text \<open>Rounded up to seconds: \<open>- ((- x) div 1000)\<close>.\<close>

definition outage_seconds :: "int \<Rightarrow> int \<Rightarrow> int" where
  "outage_seconds last_healthy now = max 0 (- ((last_healthy - now) div 1000))"

definition interrupted :: "int \<Rightarrow> int \<Rightarrow> int \<Rightarrow> authority \<Rightarrow> bool" where
  "interrupted last_healthy epoch product a =
     (case db_products (au_db a) product of
        None \<Rightarrow> False
      | Some p \<Rightarrow> pr_status p \<in> {''PENDING'', ''ACTIVE''} \<and> pr_removed p \<noteq> Some True
          \<and> (case pr_end_time p of None \<Rightarrow> False | Some t \<Rightarrow> last_healthy \<le> t) \<and> au_epochs a product < epoch)"

definition recovered_outbox :: "string \<Rightarrow> string \<Rightarrow> int \<Rightarrow> int \<Rightarrow> int \<Rightarrow> outbox_row" where
  "recovered_outbox event_id topic product epoch seconds =
     \<lparr>ob_event_id = event_id, ob_event_type = ''auction.authority_recovered'', ob_event_version = 1,
      ob_aggregate_id = show_int product,
      ob_payload = JsonPayload (JObject [(''productId'', JString (show_int product)),
        (''recoveryEpoch'', JString (show_int epoch)), (''extensionSeconds'', JInt seconds)]),
      ob_topic = topic\<rparr>"

text \<open>One row of the UPDATE: both moments in milliseconds.\<close>

definition extend_row :: "int \<Rightarrow> int \<Rightarrow> int \<Rightarrow> product_row \<Rightarrow> product_row" where
  "extend_row now seconds grace p =
     p\<lparr>pr_end_time := map_option (\<lambda>t. max (t + 1000 * seconds) (now + 1000 * grace)) (pr_end_time p)\<rparr>"

text \<open>A failing insert rolls back.\<close>

definition extend_interrupted :: "topics \<Rightarrow> (int \<Rightarrow> string) \<Rightarrow> int option \<Rightarrow> int \<Rightarrow> int \<Rightarrow> int \<Rightarrow> (int list \<times> int) act" where
  "extend_interrupted topics event_ids configured_grace now last_healthy epoch a =
     (let grace = max 0 (coalesce configured_grace 300);
          seconds = outage_seconds last_healthy now + grace;
          products = filter (\<lambda>i. interrupted last_healthy epoch i a) (au_ids a);
          db = au_db a
      in case insert_rows outbox_clash (map (\<lambda>i. recovered_outbox (event_ids i) (tp_domain topics) i epoch seconds) products) (db_outbox db) of
           None \<Rightarrow> (throws (ProjectionFault (DatabaseFault ''auction_outbox'')), a)
         | Some outbox \<Rightarrow>
             (returns (products, seconds),
              a\<lparr>au_projector := (au_projector a)\<lparr>pj_database := db
                  \<lparr>db_outbox := outbox,
                   db_products := (\<lambda>i. if i \<in> set products then map_option (extend_row now seconds grace) (db_products db i)
                     else db_products db i)\<rparr>\<rparr>,
                au_epochs := (\<lambda>i. if i \<in> set products then epoch else au_epochs a i)\<rparr>))"

section \<open>Loading the auctions\<close>

text \<open>\<open>is_removed: { not: true }\<close> of the client library does not select NULL.\<close>

definition active_product_ids :: "authority \<Rightarrow> int list" where
  "active_product_ids a =
     filter (\<lambda>i. case db_products (au_db a) i of
         None \<Rightarrow> False
       | Some p \<Rightarrow> pr_status p \<in> {''PENDING'', ''ACTIVE''} \<and> pr_removed p = Some False) (au_ids a)"

text \<open>\<open>locked\<close>: another process holds the bootstrap lock of the auction.\<close>

definition reload_act :: "(int \<Rightarrow> bool) \<Rightarrow> int \<Rightarrow> int \<Rightarrow> unit act" where
  "reload_act locked now product a =
     (let (r, st) = bootstrap_auction (locked product) True True False now (au_settings a) product (au_db a) (auction_view a product)
      in case r of
           Inl e \<Rightarrow> (throws (RecoveryError e), a)
         | Inr _ \<Rightarrow>
             (returns (), if locked product then a
               else update_client product (\<lambda>s. put_auction product st (s\<lparr>rs_foreign := (rs_foreign s)(product := Map.empty)\<rparr>)) a))"

definition converged_act :: "int \<Rightarrow> unit act" where
  "converged_act product a =
     (case reconcile product (k_state (auction_view a product)) (au_db a) of
        Inl e \<Rightarrow> (throws (RecoveryError e), a)
      | Inr r \<Rightarrow>
          if rn_status r \<noteq> ''converged''
          then (throws (RecoveryError (''Recovered auction '' @ show_int product @ '' did not converge: '' @ rn_status r)), a)
          else (returns (), a))"

text \<open>\<open>clock\<close> gives the time at which each auction is loaded and its lease renewed.\<close>

fun refresh_auctions :: "string \<Rightarrow> int option \<Rightarrow> (int \<Rightarrow> bool) \<Rightarrow> (int \<Rightarrow> int) \<Rightarrow> (int \<Rightarrow> between) \<Rightarrow> int \<Rightarrow> int list \<Rightarrow> unit act" where
  "refresh_auctions me configured locked clock before epoch [] a = (returns (), a)"
| "refresh_auctions me configured locked clock before epoch (product # products) a =
     and_then (meanwhile configured (before product)) (\<lambda>_.
     and_then (reload_act locked (clock product) product) (\<lambda>_.
     and_then (converged_act product) (\<lambda>_.
     and_then (renew_act me configured (clock product) epoch) (\<lambda>_.
     refresh_auctions me configured locked clock before epoch products)))) a"

section \<open>Restoring answers\<close>

definition operation_of_type :: "string \<Rightarrow> operation option" where
  "operation_of_type kind =
     map_of [(''BID_ACCEPTED'', BID), (''BUY_NOW_COMPLETED'', BUY_NOW), (''BIDDER_BANNED'', BAN),
       (''AUCTION_CLOSED'', CLOSE), (''AUCTION_CANCELLED'', CANCEL)] kind"

text \<open>The record and its time to live; the payload is an event the projector has parsed.\<close>

definition restored_record :: "int \<Rightarrow> int \<Rightarrow> transition_row \<Rightarrow> (string \<times> stored_reply \<times> int) option" where
  "restored_record ttl now tr =
     (let ev = tr_payload tr in
      case operation_of_type (tr_type tr) of
        None \<Rightarrow> None
      | Some oper \<Rightarrow>
          if throttled oper \<and> e_requested_max ev = None then None
          else
            let amount = (if throttled oper then or_empty (e_requested_max ev) else '''');
                target = (if oper = BAN then or_empty (e_target_user_id ev) else '''');
                reason = (if oper = BAN then or_empty (e_reason ev) else '''');
                left = ttl - max 0 (now - decimal_of (e_occurred_at ev))
            in if left \<le> 0 then None
               else Some (e_idempotency_key ev,
                 \<lparr>sr_fingerprint = join_colon [operation_name oper, show_int (tr_product tr), e_actor_id ev, amount, target, reason],
                  sr_result = ReplySuccess
                    \<lparr>d_event_id = tr_event_id tr, d_product_id = show_int (tr_product tr), d_current_price = e_current_price ev,
                     d_leader_id = (if e_leader_id ev \<noteq> '''' then Some (e_leader_id ev) else None),
                     d_end_time_ms = e_end_at ev, d_sequence = e_sequence ev, d_version = e_version ev,
                     d_order_id = e_order_id ev\<rparr>\<rparr>, left))"

definition put_answer :: "string \<Rightarrow> stored_reply \<Rightarrow> int \<Rightarrow> auction_store \<Rightarrow> auction_store" where
  "put_answer slot stored expiry st = st\<lparr>k_idempotency := (k_idempotency st)(slot \<mapsto> (stored, expiry))\<rparr>"

definition restore_answer :: "(string \<Rightarrow> string) \<Rightarrow> int \<Rightarrow> int \<Rightarrow> transition_row \<Rightarrow> authority \<Rightarrow> authority" where
  "restore_answer digest ttl now tr a =
     (case restored_record ttl now tr of
        None \<Rightarrow> a
      | Some (key, stored, left) \<Rightarrow>
          update_client (tr_product tr) (\<lambda>s. s\<lparr>rs_auctions := (rs_auctions s)
            (tr_product tr := put_answer (digest key) stored (now + left) (rs_auctions s (tr_product tr)))\<rparr>) a)"

text \<open>\<open>broken\<close>: the command behind so many transitions throws.\<close>

definition restore_idempotency :: "(string \<Rightarrow> string) \<Rightarrow> int option \<Rightarrow> int \<Rightarrow> nat option \<Rightarrow> string \<Rightarrow> unit act" where
  "restore_idempotency digest configured now broken err a =
     (let ttl = coalesce configured 86400000;
          trs = filter (\<lambda>tr. now - ttl \<le> au_created a (tr_event_id tr)) (db_transitions (au_db a))
      in case broken of
           None \<Rightarrow> (returns (), fold (restore_answer digest ttl now) trs a)
         | Some n \<Rightarrow>
             (if n < length trs then throws (RecoveryError err) else returns (),
              fold (restore_answer digest ttl now) (take n trs) a))"

section \<open>Manifest\<close>

definition manifest_json :: "control \<Rightarrow> string \<Rightarrow> json" where
  "manifest_json c recovered_at =
     JObject [(''generation'', JString (ct_generation c)), (''recoveryEpoch'', JString (show_int (ct_epoch c))),
       (''schemaVersion'', JInt 1), (''recoveredAt'', JString recovered_at)]"

definition write_manifest :: "json \<Rightarrow> (nat \<Rightarrow> bool) \<Rightarrow> string \<Rightarrow> unit act" where
  "write_manifest v ok err a =
     (if list_all ok [0..<length (au_shards a)] then returns () else throws (RecoveryError err),
      a\<lparr>au_shards := map (\<lambda>(i, s). if ok i then s\<lparr>rs_manifest := Some (Some v)\<rparr> else s) (enumerate 0 (au_shards a))\<rparr>)"

text \<open>Generation and epoch of a valid manifest.\<close>

definition parse_manifest :: "json option option \<Rightarrow> (string \<times> string) option" where
  "parse_manifest raw =
     (case raw of
        Some (Some v) \<Rightarrow>
          (case (field_of ''generation'' v, field_of ''recoveryEpoch'' v, field_of ''schemaVersion'' v, field_of ''recoveredAt'' v) of
             (Some (JString g), Some (JString e), Some (JInt n), Some (JString _)) \<Rightarrow> if n = 1 then Some (g, e) else None
           | _ \<Rightarrow> None)
      | _ \<Rightarrow> None)"

section \<open>The recovery\<close>

record recovery_config =
  rg_me :: string
  rg_lease :: "int option"
  rg_grace :: "int option"
  rg_ttl :: "int option"
  rg_projector :: projector_config
  rg_topics :: topics
  rg_parse :: "string \<Rightarrow> json option"
  rg_digest :: "string \<Rightarrow> string"

datatype recovery_point =
    BeforeClaim | BeforeRun | BeforeFences | BeforeExtension | BeforeRenewal | BeforeAuction int | BeforeRestore
  | BeforeManifest | BeforeCompletion | BeforeLifting | BeforeRecording

text \<open>Readings of the environment during one recovery; what happens between its statements; the commands of fences and
  manifests that succeed, keyed by client or product, the transition whose record is not written, and whether the failure
  can be recorded.\<close>

record recovery_env =
  re_claimed_at :: int
  re_rounds :: "drain_round list"
  re_extended_at :: int
  re_event_ids :: "int \<Rightarrow> string"
  re_locked :: "int \<Rightarrow> bool"
  re_clock :: "int \<Rightarrow> int"
  re_completed_at :: int
  re_iso :: "int \<Rightarrow> string"
  re_between :: "recovery_point \<Rightarrow> between"
  re_set :: "int \<Rightarrow> bool"
  re_broken :: "nat option"
  re_manifest :: "nat \<Rightarrow> bool"
  re_del :: "int \<Rightarrow> bool"
  re_recorded :: bool
  re_error :: string

definition completed_runs :: "int \<Rightarrow> int \<Rightarrow> nat \<Rightarrow> int \<Rightarrow> authority \<Rightarrow> authority" where
  "completed_runs epoch now auctions seconds a =
     a\<lparr>au_runs := (au_runs a)(epoch := map_option (\<lambda>r. r\<lparr>rr_status := ''COMPLETED'', rr_completed_at := Some now,
       rr_auctions := auctions, rr_seconds := seconds\<rparr>) (au_runs a epoch))\<rparr>"

text \<open>One transaction.\<close>

definition complete_act :: "recovery_env \<Rightarrow> control \<Rightarrow> nat \<Rightarrow> int \<Rightarrow> unit act" where
  "complete_act env claim auctions seconds a =
     (returns (), completed_runs (ct_epoch claim) (re_completed_at env) auctions seconds
        (a\<lparr>au_control := complete_recovery (re_completed_at env) (au_control a)\<rparr>))"

text \<open>From the drain to the last auction loaded: the auctions and the seconds of the extension.\<close>

definition recovery_work :: "recovery_config \<Rightarrow> recovery_env \<Rightarrow> control \<Rightarrow> string \<Rightarrow> int list \<Rightarrow> bool \<Rightarrow> (int list \<times> int) act" where
  "recovery_work g env claim trigger targets everywhere =
     and_then (drain_projection (rg_me g) (rg_lease g) (rg_projector g) (rg_parse g) (ct_epoch claim)
         (if everywhere then [] else targets) (re_rounds env)) (\<lambda>_.
     and_then (meanwhile (rg_lease g) (re_between env BeforeExtension)) (\<lambda>_.
     and_then (if trigger = ''FULL_DATA_LOSS''
         then extend_interrupted (rg_topics g) (re_event_ids env) (rg_grace g) (re_extended_at env) (ct_last_healthy claim) (ct_epoch claim)
         else (\<lambda>a. (returns ([], 0), a))) (\<lambda>(_, seconds).
     and_then (meanwhile (rg_lease g) (re_between env BeforeRenewal)) (\<lambda>_.
     and_then (renew_act (rg_me g) (rg_lease g) (re_extended_at env) (ct_epoch claim)) (\<lambda>_.
     and_then (\<lambda>a. (returns (if everywhere then active_product_ids a else targets), a)) (\<lambda>refreshed.
     and_then (refresh_auctions (rg_me g) (rg_lease g) (re_locked env) (re_clock env) (\<lambda>p. re_between env (BeforeAuction p))
         (ct_epoch claim) refreshed) (\<lambda>_.
     \<lambda>a. (returns (refreshed, seconds), a))))))))"

text \<open>The restored answers and the manifests.\<close>

definition recovery_seal :: "recovery_config \<Rightarrow> recovery_env \<Rightarrow> control \<Rightarrow> unit act" where
  "recovery_seal g env claim =
     and_then (meanwhile (rg_lease g) (re_between env BeforeRestore)) (\<lambda>_.
     and_then (restore_idempotency (rg_digest g) (rg_ttl g) (re_completed_at env) (re_broken env) (re_error env)) (\<lambda>_.
     and_then (meanwhile (rg_lease g) (re_between env BeforeManifest)) (\<lambda>_.
     and_then (write_manifest (manifest_json claim (re_iso env (re_completed_at env))) (re_manifest env) (re_error env)) (\<lambda>_.
     meanwhile (rg_lease g) (re_between env BeforeCompletion)))))"

text \<open>Everything before the row says READY: the number of auctions and the seconds of the extension.\<close>

definition recovery_prepared :: "recovery_config \<Rightarrow> recovery_env \<Rightarrow> control \<Rightarrow> string \<Rightarrow> int list \<Rightarrow> bool \<Rightarrow> (nat \<times> int) act" where
  "recovery_prepared g env claim trigger targets everywhere =
     and_then (meanwhile (rg_lease g) (re_between env BeforeFences)) (\<lambda>_.
     and_then (fences_act True everywhere targets (re_set env) (re_error env)) (\<lambda>_.
     and_then (recovery_work g env claim trigger targets everywhere) (\<lambda>(refreshed, seconds).
     and_then (recovery_seal g env claim) (\<lambda>_ a. (returns (length refreshed, seconds), a)))))"

definition recovery_body :: "recovery_config \<Rightarrow> recovery_env \<Rightarrow> control \<Rightarrow> string \<Rightarrow> int list \<Rightarrow> bool \<Rightarrow> unit act" where
  "recovery_body g env claim trigger targets everywhere =
     and_then (recovery_prepared g env claim trigger targets everywhere) (\<lambda>(auctions, seconds).
     and_then (complete_act env claim auctions seconds) (\<lambda>_.
     and_then (meanwhile (rg_lease g) (re_between env BeforeLifting)) (\<lambda>_.
     fences_act False everywhere targets (re_del env) (re_error env))))"

text \<open>The transaction behind the \<open>catch\<close>; its own failure is ignored. The run is updated whoever holds the row.\<close>

definition failed_act :: "recovery_config \<Rightarrow> recovery_env \<Rightarrow> control \<Rightarrow> string \<Rightarrow> authority \<Rightarrow> authority" where
  "failed_act g env claim message a =
     (let b = fold (foreign (rg_lease g)) (bt_others (re_between env BeforeRecording)) a
      in if re_recorded env
         then b\<lparr>au_control := fail_recovery (rg_me g) (ct_epoch claim) message (au_control b),
           au_runs := (au_runs b)(ct_epoch claim := map_option (\<lambda>r. r\<lparr>rr_status := ''FAILED_RETRYING'', rr_error := Some (take 4000 message)\<rparr>)
             (au_runs b (ct_epoch claim)))\<rparr>
         else b)"

definition recovering_runtime :: "control \<Rightarrow> string \<Rightarrow> int list \<Rightarrow> bool \<Rightarrow> runtime" where
  "recovering_runtime claim trigger targets everywhere =
     \<lparr>rt_state = ''recovering'', rt_ready = \<not> everywhere, rt_epoch = Some (ct_epoch claim), rt_trigger = Some trigger,
      rt_error = None, rt_checked = None, rt_scope = Some (if everywhere then ''global'' else ''auctions''),
      rt_affected = Some targets\<rparr>"

text \<open>Claiming and recording the run are outside the \<open>try\<close>.\<close>

definition perform_recovery :: "recovery_config \<Rightarrow> recovery_env \<Rightarrow> string \<Rightarrow> int list \<Rightarrow> bool \<Rightarrow> runtime act" where
  "perform_recovery g env trigger targets everywhere a =
     (case bt_fault (re_between env BeforeClaim) of
        Some m \<Rightarrow> (throws (RecoveryError m), a)
      | None \<Rightarrow>
     (case claim_act (rg_me g) (rg_lease g) trigger (re_claimed_at env) a of
        None \<Rightarrow>
          (let rt = \<lparr>rt_state = ''checking'', rt_ready = False, rt_epoch = None, rt_trigger = Some trigger, rt_error = None,
                 rt_checked = Some (re_claimed_at env), rt_scope = None, rt_affected = None\<rparr>
           in (returns rt, a\<lparr>au_runtime := rt\<rparr>))
      | Some (claim, a1) \<Rightarrow>
     (case bt_fault (re_between env BeforeRun) of
        Some m \<Rightarrow> (throws (RecoveryError m), a\<lparr>au_control := claim\<rparr>)
      | None \<Rightarrow>
          let rt0 = recovering_runtime claim trigger targets everywhere
          in case recovery_body g env claim trigger targets everywhere (a1\<lparr>au_runtime := rt0\<rparr>) of
               (Inr _, a2) \<Rightarrow>
                 (let rt = rt0\<lparr>rt_state := ''ready'', rt_ready := True, rt_checked := Some (re_completed_at env),
                        rt_scope := Some (if everywhere then ''global'' else ''none''), rt_affected := Some []\<rparr>
                  in (returns rt, a2\<lparr>au_runtime := rt\<rparr>))
             | (Inl e, a2) \<Rightarrow>
                 (let message = take 4000 (error_message e);
                      rt = rt0\<lparr>rt_state := ''failed'', rt_error := Some message, rt_checked := Some (re_completed_at env)\<rparr>
                  in (throws e, (failed_act g env claim message a2)\<lparr>au_runtime := rt\<rparr>)))))"

section \<open>The cycle\<close>

record inspection =
  in_matches :: bool
  in_absent :: bool
  in_fence :: bool
  in_planned :: bool
  in_missing :: "int list"

definition key_type :: "redis_shard \<Rightarrow> int \<Rightarrow> auction_key \<Rightarrow> string \<Rightarrow> bool \<Rightarrow> string" where
  "key_type s product key kind present =
     (case rs_foreign s product key of Some t \<Rightarrow> t | None \<Rightarrow> if present then kind else ''none'')"

definition valid_type :: "string \<Rightarrow> string \<Rightarrow> bool \<Rightarrow> bool" where
  "valid_type actual expected required = (actual = expected \<or> (\<not> required \<and> actual = ''none''))"

definition state_fields :: "auction_store \<Rightarrow> string option list" where
  "state_fields st =
     (case k_state st of
        None \<Rightarrow> []
      | Some h \<Rightarrow> [h_product_id h, h_status h, h_sequence h, h_version h, h_current_price h, h_end_at h])"

definition auction_complete :: "authority \<Rightarrow> int \<Rightarrow> bool" where
  "auction_complete a product =
     (let s = au_shards a ! shard_index product (au_shards a); st = rs_auctions s product;
          bids = list_ex (\<lambda>h. hi_product h = product \<and> hi_status h = None) (db_histories (au_db a))
      in key_type s product StateKey ''hash'' (k_state st \<noteq> None) = ''hash''
         \<and> valid_type (key_type s product MaximaKey ''hash'' (k_maxima st \<noteq> Map.empty)) ''hash'' bids
         \<and> valid_type (key_type s product RankingKey ''zset'' (k_ranking st \<noteq> [])) ''zset'' bids
         \<and> valid_type (key_type s product RankMembersKey ''hash'' (k_rank_members st \<noteq> Map.empty)) ''hash'' bids
         \<and> valid_type (key_type s product BansKey ''set'' (k_bans st \<noteq> {})) ''set'' False
         \<and> list_all (\<lambda>v. v \<noteq> None) (state_fields st))"

definition inspect_authority :: "int list \<Rightarrow> string \<Rightarrow> int \<Rightarrow> authority \<Rightarrow> inspection" where
  "inspect_authority products generation epoch a =
     \<lparr>in_matches = list_all (\<lambda>s. parse_manifest (rs_manifest s) = Some (generation, show_int epoch)) (au_shards a),
      in_absent = list_all (\<lambda>s. rs_manifest s = None) (au_shards a),
      in_fence = list_ex rs_fence (au_shards a),
      in_planned = list_ex rs_planned (au_shards a),
      in_missing = filter (\<lambda>i. \<not> auction_complete a i \<or> k_auction_fence (auction_view a i)) products\<rparr>"

definition recovery_trigger :: "int list \<Rightarrow> int list \<Rightarrow> string" where
  "recovery_trigger missing products =
     (if length missing = length products \<and> products \<noteq> [] then ''FULL_DATA_LOSS''
      else if missing \<noteq> [] then ''PARTIAL_STATE_LOSS'' else ''MANIFEST_MISMATCH'')"

definition healthy_runtime :: "control \<Rightarrow> string option \<Rightarrow> int \<Rightarrow> runtime" where
  "healthy_runtime c trigger now =
     \<lparr>rt_state = ''ready'', rt_ready = True, rt_epoch = Some (ct_epoch c), rt_trigger = trigger, rt_error = None,
      rt_checked = Some now, rt_scope = None, rt_affected = None\<rparr>"

definition answer :: "runtime \<Rightarrow> authority \<Rightarrow> (recovery_error, runtime) result \<times> authority" where
  "answer rt a = (returns rt, a\<lparr>au_runtime := rt\<rparr>)"

text \<open>\<open>now\<close> is the time of the check.\<close>

definition cycle :: "recovery_config \<Rightarrow> bool \<Rightarrow> int \<Rightarrow> recovery_env \<Rightarrow> runtime act" where
  "cycle g enabled now env a0 =
     (if \<not> enabled
      then answer \<lparr>rt_state = ''disabled'', rt_ready = True, rt_epoch = None, rt_trigger = None, rt_error = None,
             rt_checked = Some now, rt_scope = None, rt_affected = None\<rparr> a0
      else
        let a = a0\<lparr>au_runtime := (au_runtime a0)\<lparr>rt_state := ''checking'', rt_ready := False, rt_checked := Some now\<rparr>\<rparr>;
            c = au_control a; products = active_product_ids a;
            i = inspect_authority products (ct_generation c) (ct_epoch c) a
        in if in_planned i
           then answer \<lparr>rt_state = ''checking'', rt_ready = False, rt_epoch = Some (ct_epoch c),
                  rt_trigger = Some ''PLANNED_BOOTSTRAP'', rt_error = None, rt_checked = Some now,
                  rt_scope = None, rt_affected = None\<rparr> a
           else if ct_state c = ''READY'' \<and> \<not> in_fence i \<and> in_absent i \<and> in_missing i = []
           then and_then (write_manifest (manifest_json c (re_iso env now)) (re_manifest env) (re_error env))
                  (\<lambda>_ b. answer (healthy_runtime c (Some ''MANIFEST_ADOPTED'') now) (b\<lparr>au_control := heartbeat now c\<rparr>)) a
           else if in_matches i \<and> \<not> in_fence i \<and> in_missing i = [] \<and> ct_state c = ''READY''
           then answer (healthy_runtime c None now) (a\<lparr>au_control := heartbeat now c\<rparr>)
           else
             let trigger = recovery_trigger (in_missing i) products;
                 everywhere = (trigger = ''FULL_DATA_LOSS'' \<or> trigger = ''MANIFEST_MISMATCH'')
             in perform_recovery g env trigger (if everywhere then [] else in_missing i) everywhere a)"

end
