(* ===== verification/Recovery_Properties.thy ===== *)
theory Recovery_Properties
  imports Recovery
begin

text \<open>
  What a recovery guarantees, with statements that fail and other processes in between: a failed one
  leaves shut what it shut and did not lift, a completed one leaves every auction it loaded in step
  with PostgreSQL. \<open>recovery_invariant\<close> is the contract of a property that each step of a recovery
  keeps; fences, the row and the number of clients are instances. And what stands in the way of a
  recovery: an auction that has started but is still PENDING in its row.
\<close>

section \<open>Acts and clients\<close>

lemma and_then_Inl:
  assumes "and_then f g a = (Inl e, a')"
  shows "f a = (Inl e, a') \<or> (\<exists>x b. f a = (Inr x, b) \<and> g x b = (Inl e, a'))"
  using assms by (auto simp: and_then_def split: prod.splits sum.splits)

lemma and_then_Inr:
  assumes "and_then f g a = (Inr y, a')"
  shows "\<exists>x b. f a = (Inr x, b) \<and> g x b = (Inr y, a')"
  using assms by (auto simp: and_then_def split: prod.splits sum.splits)

lemma and_then_InrE:
  assumes "and_then f g a = (Inr y, a')"
  obtains x b where "f a = (Inr x, b)" "g x b = (Inr y, a')"
  using and_then_Inr [OF assms] by blast

lemma shard_index_less: "shards \<noteq> [] \<Longrightarrow> shard_index product shards < length shards"
  by (simp add: shard_index_def nat_less_iff)

lemma update_client_simps [simp]:
  "length (au_shards (update_client p f a)) = length (au_shards a)"
  "au_projector (update_client p f a) = au_projector a" "au_ids (update_client p f a) = au_ids a"
  "au_control (update_client p f a) = au_control a" "au_settings (update_client p f a) = au_settings a"
  "au_created (update_client p f a) = au_created a" "au_epochs (update_client p f a) = au_epochs a"
  "au_runs (update_client p f a) = au_runs a"
  by (simp_all add: update_client_def Let_def)

lemma shard_index_cong: "length xs = length ys \<Longrightarrow> shard_index p xs = shard_index p ys"
  by (simp add: shard_index_def)

lemma update_client_nth:
  assumes "au_shards a \<noteq> []"
  shows "au_shards (update_client p f a) ! i =
    (if i = shard_index p (au_shards a) then f (au_shards a ! i) else au_shards a ! i)"
  using shard_index_less [OF assms, of p] by (simp add: update_client_def Let_def)

section \<open>Fences\<close>

definition same_fences :: "redis_shard \<Rightarrow> redis_shard \<Rightarrow> bool" where
  "same_fences s s' = (rs_fence s' = rs_fence s
     \<and> (\<forall>q. k_auction_fence (rs_auctions s' q) = k_auction_fence (rs_auctions s q)))"

definition fences_kept :: "authority \<Rightarrow> authority \<Rightarrow> bool" where
  "fences_kept a a' = list_all2 same_fences (au_shards a) (au_shards a')"

lemma same_fences_refl [simp]: "same_fences s s"
  by (simp add: same_fences_def)

lemma fences_kept_refl [simp]: "fences_kept a a"
  by (simp add: fences_kept_def list.rel_refl)

lemma fences_kept_trans: "fences_kept a b \<Longrightarrow> fences_kept b c \<Longrightarrow> fences_kept a c"
  unfolding fences_kept_def
  by (rule list_all2_trans [of same_fences same_fences same_fences]) (auto simp: same_fences_def)

lemma fences_kept_same: "au_shards a' = au_shards a \<Longrightarrow> fences_kept a a'"
  by (simp add: fences_kept_def list.rel_refl)

lemma fences_kept_update:
  assumes "same_fences (au_shards a ! shard_index p (au_shards a)) (f (au_shards a ! shard_index p (au_shards a)))"
  shows "fences_kept a (update_client p f a)"
proof -
  have "list_all2 same_fences (au_shards a) (au_shards a)" by (simp add: list.rel_refl)
  from list_all2_update_cong [OF this assms, of "shard_index p (au_shards a)"] show ?thesis
    by (simp add: fences_kept_def update_client_def Let_def)
qed

text \<open>What every act preserves.\<close>

definition stays :: "(authority \<Rightarrow> bool) \<Rightarrow> 'a act \<Rightarrow> bool" where
  "stays P f = (\<forall>a. P a \<longrightarrow> P (snd (f a)))"

lemma stays_and_then: "stays P f \<Longrightarrow> (\<And>x. stays P (g x)) \<Longrightarrow> stays P (and_then f g)"
  by (auto simp: stays_def and_then_def split: prod.split sum.split)

lemma stays_pure: "stays P (\<lambda>a. (x a, a))"
  by (simp add: stays_def)

lemma stays_run: "stays P f \<Longrightarrow> f a = (x, b) \<Longrightarrow> P a \<Longrightarrow> P b"
  by (auto simp: stays_def)

lemma stays_meanwhile: "(\<And>st a. st \<in> set (bt_others bt) \<Longrightarrow> P a \<Longrightarrow> P (foreign configured st a)) \<Longrightarrow> stays P (meanwhile configured bt)"
proof -
  have "P (fold (foreign configured) steps a)"
    if "\<And>st a. st \<in> set steps \<Longrightarrow> P a \<Longrightarrow> P (foreign configured st a)" "P a" for steps a
    using that by (induction steps arbitrary: a) simp_all
  then show "(\<And>st a. st \<in> set (bt_others bt) \<Longrightarrow> P a \<Longrightarrow> P (foreign configured st a)) \<Longrightarrow> stays P (meanwhile configured bt)"
    by (simp add: stays_def meanwhile_def)
qed

section \<open>What the acts of a recovery keep\<close>

text \<open>Acts that neither touch fences nor the control row.\<close>

definition quiet :: "'a act \<Rightarrow> bool" where
  "quiet f = (\<forall>a. fences_kept a (snd (f a)) \<and> au_control (snd (f a)) = au_control a)"

lemma quiet_same:
  assumes "\<And>a. au_shards (snd (f a)) = au_shards a" "\<And>a. au_control (snd (f a)) = au_control a"
  shows "quiet f"
  using assms by (simp add: quiet_def fences_kept_same)

lemma quiet_extend: "quiet (extend_interrupted tp ids grace now last_healthy epoch)"
  by (intro quiet_same) (simp_all add: extend_interrupted_def Let_def split: option.splits)

lemma fold_add_maximum_frame:
  "k_auction_fence (fold add_maximum ms st) = k_auction_fence st \<and> k_fence (fold add_maximum ms st) = k_fence st
   \<and> k_state (fold add_maximum ms st) = k_state st \<and> k_idempotency (fold add_maximum ms st) = k_idempotency st
   \<and> k_mistyped (fold add_maximum ms st) = k_mistyped st"
  by (induction ms arbitrary: st) (auto simp: add_maximum_def split: prod.splits)

lemma bootstrap_frame:
  assumes "bootstrap_auction locked recovery force mistyped now settings product db st = (r, st')"
  shows "k_auction_fence st' = k_auction_fence st \<and> k_idempotency st' = k_idempotency st \<and> k_mistyped st' = k_mistyped st"
  using assms fold_add_maximum_frame
  by (auto simp: bootstrap_auction_def bootstrap_script_def forget_auction_def Let_def split: if_splits option.splits prod.splits)

lemma quiet_reload: "quiet (reload_act locked now product)"
  unfolding quiet_def
proof
  fix a :: authority
  obtain r st where b: "bootstrap_auction (locked product) True True False now (au_settings a) product (au_db a) (auction_view a product) = (r, st)"
    by force
  define f where "f = (\<lambda>s. put_auction product st (s\<lparr>rs_foreign := (rs_foreign s)(product := Map.empty)\<rparr>))"
  have fence: "k_auction_fence st = k_auction_fence (rs_auctions (au_shards a ! shard_index product (au_shards a)) product)"
    using bootstrap_frame [OF b] by (simp add: auction_view_def Let_def)
  have "fences_kept a (update_client product f a)"
    using fence by (intro fences_kept_update) (simp add: same_fences_def f_def put_auction_def)
  then show "fences_kept a (snd (reload_act locked now product a))
      \<and> au_control (snd (reload_act locked now product a)) = au_control a"
    by (simp add: reload_act_def b f_def split: sum.split)
qed

lemma quiet_converged: "quiet (converged_act product)"
  by (intro quiet_same) (simp_all add: converged_act_def split: sum.split)

lemma restore_answer_frame:
  "fences_kept a (restore_answer digest ttl now tr a) \<and> au_control (restore_answer digest ttl now tr a) = au_control a
   \<and> au_projector (restore_answer digest ttl now tr a) = au_projector a \<and> au_ids (restore_answer digest ttl now tr a) = au_ids a"
proof (cases "restored_record ttl now tr")
  case (Some r)
  then show ?thesis
    by (cases r) (auto simp: restore_answer_def same_fences_def put_answer_def intro!: fences_kept_update)
qed (simp add: restore_answer_def)

lemma restore_frame:
  "fences_kept a (fold (restore_answer digest ttl now) trs a) \<and> au_control (fold (restore_answer digest ttl now) trs a) = au_control a"
proof (induction trs arbitrary: a)
  case (Cons tr trs)
  then show ?case using restore_answer_frame [of a digest ttl now tr] by (auto intro: fences_kept_trans)
qed simp

lemma quiet_restore: "quiet (restore_idempotency digest configured now broken err)"
  by (simp add: quiet_def restore_idempotency_def Let_def restore_frame split: option.split)

lemma quiet_manifest: "quiet (write_manifest v ok err)"
  by (auto simp: quiet_def write_manifest_def fences_kept_def list_all2_conv_all_nth nth_enumerate_eq same_fences_def)

text \<open>The steps of other processes during a recovery.\<close>

definition others :: "recovery_env \<Rightarrow> foreign_step set" where
  "others env = (\<Union>point. set (bt_others (re_between env point))) \<union> (\<Union>r\<in>set (re_rounds env). set (bt_others (dr_between r)))"

locale recovery_invariant =
  fixes holds :: "authority \<Rightarrow> bool" and g :: recovery_config and env :: recovery_env and epoch :: int
  assumes frame: "holds a \<Longrightarrow> fences_kept a b \<Longrightarrow> au_control b = au_control a \<Longrightarrow> holds b"
    and renewed: "holds a \<Longrightarrow> holds (snd (renew_act (rg_me g) (rg_lease g) now epoch a))"
    and others_keep: "holds a \<Longrightarrow> st \<in> others env \<Longrightarrow> holds (foreign (rg_lease g) st a)"
begin

lemma quiet_stays: "quiet f \<Longrightarrow> stays holds f"
  by (auto simp: quiet_def stays_def intro: frame)

lemma renew_stays: "stays holds (renew_act (rg_me g) (rg_lease g) now epoch)"
  by (simp add: stays_def renewed)

lemma point_stays: "stays holds (meanwhile (rg_lease g) (re_between env point))"
  by (rule stays_meanwhile) (rule others_keep, auto simp: others_def)

lemma drain_stays:
  "set rounds \<subseteq> set (re_rounds env) \<Longrightarrow> stays holds (drain_projection (rg_me g) (rg_lease g) pc parse_json epoch targets rounds)"
proof (induction rounds)
  case Nil
  then show ?case by (simp add: stays_def)
next
  case (Cons r rounds)
  let ?go = "and_then (renew_act (rg_me g) (rg_lease g) (dr_now r) epoch)
      (\<lambda>_. drain_projection (rg_me g) (rg_lease g) pc parse_json epoch targets rounds)"
  have go: "stays holds ?go" using Cons by (intro stays_and_then renew_stays) simp
  have batch: "holds b \<Longrightarrow> holds (b\<lparr>au_projector := x\<rparr>)" for b x
    by (rule frame [of b]) (simp_all add: fences_kept_same)
  have "stays holds (meanwhile (rg_lease g) (dr_between r))"
    by (rule stays_meanwhile) (rule others_keep, use Cons.prems in \<open>auto simp: others_def\<close>)
  then have "stays holds (and_then (meanwhile (rg_lease g) (dr_between r)) (\<lambda>_ b.
       let a = b\<lparr>au_projector := projector_batch pc (dr_order r) (dr_claimed r) (dr_fresh r) (au_projector b)\<rparr>
       in case (if targets = [] then returns True else has_undrained parse_json (set (map show_int targets)) 0 (dr_streams r)) of
            Inl e \<Rightarrow> (throws (ProjectionFault e), a)
          | Inr undrained \<Rightarrow> if \<not> undrained \<or> (targets = [] \<and> stream_health (dr_groups r) = (0, Some 0)) then (returns (), a) else ?go a))"
    by (intro stays_and_then) (use go in \<open>auto simp: stays_def Let_def batch split: sum.split\<close>)
  then show ?case by (simp add: stays_def)
qed

lemma refresh_stays:
  "stays holds (refresh_auctions (rg_me g) (rg_lease g) locked clock (\<lambda>p. re_between env (BeforeAuction p)) epoch products)"
proof (induction products)
  case Nil
  then show ?case by (simp add: stays_def)
next
  case (Cons p products)
  have "stays holds (and_then (meanwhile (rg_lease g) (re_between env (BeforeAuction p))) (\<lambda>_. and_then (reload_act locked (clock p) p) (\<lambda>_.
      and_then (converged_act p) (\<lambda>_. and_then (renew_act (rg_me g) (rg_lease g) (clock p) epoch)
      (\<lambda>_. refresh_auctions (rg_me g) (rg_lease g) locked clock (\<lambda>p. re_between env (BeforeAuction p)) epoch products)))))"
    by (intro stays_and_then point_stays renew_stays quiet_stays quiet_reload quiet_converged Cons)
  then show ?case by (simp add: stays_def)
qed

lemma work_stays:
  assumes "ct_epoch claim = epoch"
  shows "stays holds (recovery_work g env claim trigger targets everywhere)"
proof -
  have "stays holds (if trigger = ''FULL_DATA_LOSS'' then extend_interrupted tp ids grace now last_healthy epoch
      else (\<lambda>a. (returns ([], 0), a)))" for tp ids grace now last_healthy
    by (simp add: quiet_stays [OF quiet_extend] stays_pure)
  then show ?thesis
    unfolding recovery_work_def assms split_beta
    by (intro stays_and_then point_stays renew_stays drain_stays refresh_stays stays_pure subset_refl)
qed

lemma seal_stays: "stays holds (recovery_seal g env claim)"
  unfolding recovery_seal_def
  by (intro stays_and_then point_stays quiet_stays quiet_restore quiet_manifest)

end

lemma view_fences:
  assumes "fences_kept a b" "au_shards a \<noteq> []"
  shows "k_fence (auction_view b p) = k_fence (auction_view a p) \<and> k_auction_fence (auction_view b p) = k_auction_fence (auction_view a p)"
proof -
  have len: "length (au_shards b) = length (au_shards a)"
    using assms(1) by (simp add: fences_kept_def list_all2_lengthD [THEN sym])
  then have "same_fences (au_shards a ! shard_index p (au_shards a)) (au_shards b ! shard_index p (au_shards b))"
    using assms shard_index_less [OF assms(2)] shard_index_cong [OF len, of p]
    by (simp add: fences_kept_def list_all2_conv_all_nth)
  then show ?thesis by (simp add: same_fences_def auction_view_def Let_def)
qed

lemma set_fences_simps [simp]:
  "length (au_shards (set_fences closed everywhere targets a)) = length (au_shards a)"
  "au_control (set_fences closed everywhere targets a) = au_control a"
  "au_projector (set_fences closed everywhere targets a) = au_projector a"
  "au_ids (set_fences closed everywhere targets a) = au_ids a"
proof -
  have "length (au_shards (fold (set_auction_fence closed) targets a)) = length (au_shards a)
      \<and> au_control (fold (set_auction_fence closed) targets a) = au_control a
      \<and> au_projector (fold (set_auction_fence closed) targets a) = au_projector a
      \<and> au_ids (fold (set_auction_fence closed) targets a) = au_ids a"
    by (induction targets arbitrary: a) (simp_all add: set_auction_fence_def)
  then show "length (au_shards (set_fences closed everywhere targets a)) = length (au_shards a)"
    "au_control (set_fences closed everywhere targets a) = au_control a"
    "au_projector (set_fences closed everywhere targets a) = au_projector a"
    "au_ids (set_fences closed everywhere targets a) = au_ids a"
    by (simp_all add: set_fences_def)
qed

lemma view_set_fence:
  assumes "au_shards a \<noteq> []"
  shows "auction_view (set_auction_fence closed p a) q =
    (if q = p then (auction_view a q)\<lparr>k_auction_fence := closed\<rparr> else auction_view a q)"
  by (simp add: auction_view_def Let_def set_auction_fence_def update_client_nth [OF assms]
      shard_index_cong [of "au_shards (update_client p f a)" "au_shards a" for f])

lemma view_fold_fence:
  assumes "au_shards a \<noteq> []"
  shows "auction_view (fold (set_auction_fence closed) targets a) q =
    (if q \<in> set targets then (auction_view a q)\<lparr>k_auction_fence := closed\<rparr> else auction_view a q)"
  using assms
proof (induction targets arbitrary: a)
  case (Cons p targets)
  have "au_shards (set_auction_fence closed p a) \<noteq> []"
    using Cons.prems by (simp add: set_auction_fence_def flip: length_greater_0_conv)
  with Cons view_set_fence [OF Cons.prems, of closed p q] show ?case by (cases "q = p") simp_all
qed simp

text \<open>The key of an auction's fence among \<open>n\<close> clients, and whether its fence of a scope is set.\<close>

definition fence_key :: "bool \<Rightarrow> nat \<Rightarrow> int \<Rightarrow> int" where
  "fence_key everywhere n product = (if everywhere then product mod int n else product)"

definition shut :: "bool \<Rightarrow> int \<Rightarrow> authority \<Rightarrow> bool" where
  "shut everywhere product a =
     (if everywhere then k_fence (auction_view a product) else k_auction_fence (auction_view a product))"

lemma view_set_fences:
  assumes "au_shards a \<noteq> []"
  shows "auction_view (set_fences closed everywhere keys a) q =
    (if fence_key everywhere (length (au_shards a)) q \<in> set keys
     then if everywhere then (auction_view a q)\<lparr>k_fence := closed\<rparr> else (auction_view a q)\<lparr>k_auction_fence := closed\<rparr>
     else auction_view a q)"
proof (cases everywhere)
  case True
  have "shard_index q (au_shards a) < length (au_shards a)" "int (shard_index q (au_shards a)) = q mod int (length (au_shards a))"
    using assms shard_index_less [OF assms, of q] by (simp_all add: shard_index_def)
  then show ?thesis
    using shard_index_cong [of "map f (enumerate 0 (au_shards a))" "au_shards a" q for f]
    by (simp add: True set_fences_def auction_view_def Let_def fence_key_def nth_enumerate_eq)
next
  case False
  then show ?thesis using view_fold_fence [OF assms] by (simp add: set_fences_def fence_key_def)
qed

lemma shut_set_fences:
  assumes "au_shards a \<noteq> []"
  shows "shut scope q (set_fences closed everywhere keys a) \<longleftrightarrow>
    (if scope = everywhere \<and> fence_key everywhere (length (au_shards a)) q \<in> set keys then closed else shut scope q a)"
  using view_set_fences [OF assms] by (auto simp: shut_def)

lemma shut_kept: "fences_kept a b \<Longrightarrow> au_shards a \<noteq> [] \<Longrightarrow> shut scope p b = shut scope p a"
  using view_fences by (simp add: shut_def)

lemma shut_shards: "au_shards b = au_shards a \<Longrightarrow> shut scope p b = shut scope p a"
  by (simp add: shut_def auction_view_def)

section \<open>The invariants of a recovery\<close>

text \<open>What other processes do to the fence of a key in a scope; a step that takes the row from no one. A claim that is
  refused changes nothing, so it is not listed among the steps.\<close>

fun touches :: "bool \<Rightarrow> int \<Rightarrow> foreign_step \<Rightarrow> bool" where
  "touches scope key (OnFences closed everywhere keys) \<longleftrightarrow> everywhere = scope \<and> key \<in> set keys"
| "touches scope key (OnRow op) \<longleftrightarrow> False"

fun lifts :: "bool \<Rightarrow> int \<Rightarrow> foreign_step \<Rightarrow> bool" where
  "lifts scope key (OnFences closed everywhere keys) \<longleftrightarrow> \<not> closed \<and> everywhere = scope \<and> key \<in> set keys"
| "lifts scope key (OnRow op) \<longleftrightarrow> False"

fun harmless :: "foreign_step \<Rightarrow> bool" where
  "harmless (OnRow (Renew me epoch now)) \<longleftrightarrow> True"
| "harmless (OnRow (Heartbeat now)) \<longleftrightarrow> True"
| "harmless (OnRow op) \<longleftrightarrow> False"
| "harmless (OnFences closed everywhere keys) \<longleftrightarrow> True"

definition never_touched :: "recovery_env \<Rightarrow> bool \<Rightarrow> int \<Rightarrow> bool" where
  "never_touched env scope key = (\<forall>st\<in>others env. \<not> touches scope key st)"

definition never_lifted :: "recovery_env \<Rightarrow> bool \<Rightarrow> int \<Rightarrow> bool" where
  "never_lifted env scope key = (\<forall>st\<in>others env. \<not> lifts scope key st)"

definition undisturbed :: "recovery_env \<Rightarrow> bool" where
  "undisturbed env = (\<forall>st\<in>others env. harmless st)"

definition kept_shut :: "recovery_env \<Rightarrow> bool \<Rightarrow> nat \<Rightarrow> int \<Rightarrow> authority \<Rightarrow> bool" where
  "kept_shut env scope n p a = (length (au_shards a) = n \<and> 0 < n \<and> (never_lifted env scope (fence_key scope n p) \<longrightarrow> shut scope p a))"

definition kept_as_it_was :: "recovery_env \<Rightarrow> bool \<Rightarrow> nat \<Rightarrow> int \<Rightarrow> bool \<Rightarrow> authority \<Rightarrow> bool" where
  "kept_as_it_was env scope n p x a =
     (length (au_shards a) = n \<and> 0 < n \<and> (never_touched env scope (fence_key scope n p) \<longrightarrow> shut scope p a = x))"

definition row_held :: "recovery_env \<Rightarrow> string \<Rightarrow> int \<Rightarrow> string \<Rightarrow> authority \<Rightarrow> bool" where
  "row_held env me epoch generation a =
     (ct_generation (au_control a) = generation \<and> (undisturbed env \<longrightarrow> held_by me epoch (au_control a)))"

lemma fences_kept_length: "fences_kept a b \<Longrightarrow> length (au_shards b) = length (au_shards a)"
  by (simp add: fences_kept_def list_all2_lengthD)

lemma renew_shards [simp]: "au_shards (snd (renew_act me configured now epoch a)) = au_shards a"
  by (simp add: renew_act_def split: sum.split)

lemma shut_same [simp]:
  "shut scope p (a\<lparr>au_control := c\<rparr>) = shut scope p a" "shut scope p (snd (renew_act me configured now epoch a)) = shut scope p a"
  by (rule shut_shards, simp)+

lemma foreign_shut:
  assumes "au_shards a \<noteq> []"
  shows "length (au_shards (foreign configured st a)) = length (au_shards a)"
    and "\<not> touches scope (fence_key scope (length (au_shards a)) p) st \<Longrightarrow> shut scope p (foreign configured st a) = shut scope p a"
    and "\<not> lifts scope (fence_key scope (length (au_shards a)) p) st \<Longrightarrow> shut scope p a \<Longrightarrow> shut scope p (foreign configured st a)"
proof -
  show "length (au_shards (foreign configured st a)) = length (au_shards a)" by (cases st) simp_all
  note set = shut_set_fences [OF assms, of scope p]
  show "shut scope p (foreign configured st a) = shut scope p a" if "\<not> touches scope (fence_key scope (length (au_shards a)) p) st"
    using that set by (cases st) auto
  show "shut scope p (foreign configured st a)"
    if "\<not> lifts scope (fence_key scope (length (au_shards a)) p) st" "shut scope p a"
    using that set by (cases st) auto
qed

lemma row_after_step: "ct_generation (lease_step configured op c) = ct_generation c"
  by (cases op) (auto simp: claim_recovery_def renew_lease_def complete_recovery_def fail_recovery_def heartbeat_def)

lemma harmless_held: "harmless (OnRow op) \<Longrightarrow> held_by me epoch c \<Longrightarrow> held_by me epoch (lease_step configured op c)"
  by (cases op) (auto simp: held_by_def renew_lease_def heartbeat_def)

interpretation closed: recovery_invariant "kept_shut env scope n p" g env epoch for env scope n p g epoch
proof
  fix a b st
  assume a: "kept_shut env scope n p a"
  then have ne: "au_shards a \<noteq> []" by (auto simp: kept_shut_def)
  show "kept_shut env scope n p b" if "fences_kept a b"
    using a fences_kept_length [OF that] shut_kept [OF that ne, of scope p] by (simp add: kept_shut_def)
  show "kept_shut env scope n p (snd (renew_act (rg_me g) (rg_lease g) now epoch a))" for now
    using a by (simp add: kept_shut_def)
  show "kept_shut env scope n p (foreign (rg_lease g) st a)" if "st \<in> others env"
    using a that foreign_shut(1) [OF ne, of "rg_lease g" st] foreign_shut(3) [OF ne, of scope p st "rg_lease g"]
    by (simp add: kept_shut_def never_lifted_def)
qed

interpretation elsewhere: recovery_invariant "kept_as_it_was env scope n p x" g env epoch for env scope n p x g epoch
proof
  fix a b st
  assume a: "kept_as_it_was env scope n p x a"
  then have ne: "au_shards a \<noteq> []" by (auto simp: kept_as_it_was_def)
  show "kept_as_it_was env scope n p x b" if "fences_kept a b"
    using a fences_kept_length [OF that] shut_kept [OF that ne, of scope p] by (simp add: kept_as_it_was_def)
  show "kept_as_it_was env scope n p x (snd (renew_act (rg_me g) (rg_lease g) now epoch a))" for now
    using a by (simp add: kept_as_it_was_def)
  show "kept_as_it_was env scope n p x (foreign (rg_lease g) st a)" if "st \<in> others env"
    using a that foreign_shut(1) [OF ne, of "rg_lease g" st] foreign_shut(2) [OF ne, of scope p st "rg_lease g"]
    by (simp add: kept_as_it_was_def never_touched_def)
qed

interpretation row: recovery_invariant "row_held env (rg_me g) epoch generation" g env epoch for env epoch generation g
proof
  fix a b st
  show "row_held env (rg_me g) epoch generation b" if "row_held env (rg_me g) epoch generation a" "au_control b = au_control a"
    using that by (simp add: row_held_def)
  show "row_held env (rg_me g) epoch generation (snd (renew_act (rg_me g) (rg_lease g) now epoch a))"
    if "row_held env (rg_me g) epoch generation a" for now
    using that by (auto simp: row_held_def renew_act_def renew_lease_def held_by_def split: sum.split)
  show "row_held env (rg_me g) epoch generation (foreign (rg_lease g) st a)"
    if "row_held env (rg_me g) epoch generation a" "st \<in> others env"
    using that harmless_held by (cases st) (auto simp: row_held_def undisturbed_def row_after_step)
qed

section \<open>The course of a recovery\<close>

definition recovery_rest :: "recovery_config \<Rightarrow> recovery_env \<Rightarrow> control \<Rightarrow> string \<Rightarrow> int list \<Rightarrow> bool \<Rightarrow> (nat \<times> int) act" where
  "recovery_rest g env claim trigger targets everywhere =
     and_then (recovery_work g env claim trigger targets everywhere) (\<lambda>(refreshed, seconds).
     and_then (recovery_seal g env claim) (\<lambda>_ a. (returns (length refreshed, seconds), a)))"

lemma prepared_eq:
  "recovery_prepared g env claim trigger targets everywhere =
     and_then (meanwhile (rg_lease g) (re_between env BeforeFences)) (\<lambda>_.
     and_then (fences_act True everywhere targets (re_set env) (re_error env)) (\<lambda>_.
     recovery_rest g env claim trigger targets everywhere))"
  by (simp add: recovery_prepared_def recovery_rest_def)

context recovery_invariant
begin

lemma rest_stays: "ct_epoch claim = epoch \<Longrightarrow> stays holds (recovery_rest g env claim trigger targets everywhere)"
  unfolding recovery_rest_def split_beta by (intro stays_and_then work_stays seal_stays stays_pure)

lemma prepared_stays:
  assumes "ct_epoch claim = epoch" "stays holds (fences_act True everywhere targets (re_set env) (re_error env))"
  shows "stays holds (recovery_prepared g env claim trigger targets everywhere)"
  unfolding prepared_eq using assms by (intro stays_and_then point_stays rest_stays)

end

lemma fences_act_split: "fences_act closed everywhere targets ok err a =
  (if list_all ok (fence_keys everywhere targets a) then returns () else throws (RecoveryError err),
   set_fences closed everywhere (filter ok (fence_keys everywhere targets a)) a)"
  by (simp add: fences_act_def Let_def)

lemma key_among:
  assumes "au_shards a \<noteq> []" "everywhere \<or> p \<in> set targets"
  shows "fence_key everywhere (length (au_shards a)) p \<in> set (fence_keys everywhere targets a)"
proof (cases everywhere)
  case True
  have "p mod int (length (au_shards a)) = int (shard_index p (au_shards a))"
    using assms(1) by (simp add: shard_index_def)
  with True shard_index_less [OF assms(1), of p] show ?thesis by (simp add: fence_key_def fence_keys_def)
qed (use assms(2) in \<open>simp add: fence_key_def fence_keys_def\<close>)

lemma fences_act_row: "stays (row_held env me epoch generation) (fences_act closed everywhere targets ok err)"
  by (simp add: stays_def fences_act_split row_held_def)

lemma fences_act_elsewhere: "stays (kept_as_it_was env (\<not> everywhere) n p x) (fences_act closed everywhere targets ok err)"
  by (auto simp: stays_def fences_act_split kept_as_it_was_def shut_set_fences)

lemma fences_act_kept:
  assumes "\<not> ok (fence_key everywhere n p)"
  shows "stays (kept_shut env everywhere n p) (fences_act False everywhere targets ok err)"
  using assms by (auto simp: stays_def fences_act_split kept_shut_def shut_set_fences)

lemma foreign_length: "length (au_shards (foreign configured st a)) = length (au_shards a)"
  by (cases st) simp_all

lemma meanwhile_length [simp]: "length (au_shards (snd (meanwhile configured bt a))) = length (au_shards a)"
proof -
  have "stays (\<lambda>b. length (au_shards b) = length (au_shards a)) (meanwhile configured bt)"
    by (rule stays_meanwhile) (simp add: foreign_length)
  then show ?thesis by (simp add: stays_def)
qed

text \<open>A fence that was set stays set while the recovery prepares.\<close>

lemma prepared_shut:
  assumes "recovery_prepared g env claim trigger targets everywhere a = (r, b)" "au_shards a \<noteq> []" "everywhere \<or> p \<in> set targets"
    and "bt_fault (re_between env BeforeFences) = None" "re_set env (fence_key everywhere (length (au_shards a)) p)"
  shows "kept_shut env everywhere (length (au_shards a)) p b"
proof -
  let ?n = "length (au_shards a)"
  define c where "c = snd (meanwhile (rg_lease g) (re_between env BeforeFences) a)"
  define d where "d = snd (fences_act True everywhere targets (re_set env) (re_error env) c)"
  have len: "length (au_shards c) = ?n" "au_shards c \<noteq> []"
    using assms(2) by (simp_all add: c_def flip: length_greater_0_conv)
  have "fence_key everywhere ?n p \<in> set (fence_keys everywhere targets c)"
    using key_among [OF len(2) assms(3)] by (simp add: len(1))
  then have "kept_shut env everywhere ?n p d"
    using assms(2,5) by (simp add: d_def fences_act_split kept_shut_def len shut_set_fences)
  moreover from this have "kept_shut env everywhere ?n p (snd (recovery_rest g env claim trigger targets everywhere d))"
    using closed.rest_stays [OF refl] by (simp add: stays_def)
  moreover have "b = d \<or> b = snd (recovery_rest g env claim trigger targets everywhere d)"
    using assms(1,4)
    by (auto simp: prepared_eq and_then_def meanwhile_def c_def d_def split: prod.splits sum.splits)
  ultimately show ?thesis by auto
qed
section \<open>A failed recovery\<close>

lemma claim_held:
  assumes "claim_act me configured trigger now a = Some (claim, a1)"
  shows "au_control a1 = claim \<and> held_by me (ct_epoch claim) claim \<and> au_shards a1 = au_shards a \<and> au_projector a1 = au_projector a
    \<and> au_ids a1 = au_ids a"
  using assms by (auto simp: claim_act_def claim_recovery_def held_by_def split: if_splits)

lemma refused_when_fenced:
  assumes "\<not> k_mistyped st" "k_fence st \<or> k_auction_fence st"
  shows "\<exists>message. mutate_script clock slot rq st = (Some (recovering message), st)"
  using assms by (auto simp: mutate_script_def)

text \<open>The state in which a recovery works, and whether it gets as far as READY.\<close>

definition begun :: "recovery_config \<Rightarrow> recovery_env \<Rightarrow> string \<Rightarrow> int list \<Rightarrow> bool \<Rightarrow> authority \<Rightarrow> (control \<times> authority) option" where
  "begun g env trigger targets everywhere a =
     map_option (\<lambda>(claim, a1). (claim, a1\<lparr>au_runtime := recovering_runtime claim trigger targets everywhere\<rparr>))
       (claim_act (rg_me g) (rg_lease g) trigger (re_claimed_at env) a)"

definition reached_ready :: "recovery_config \<Rightarrow> recovery_env \<Rightarrow> string \<Rightarrow> int list \<Rightarrow> bool \<Rightarrow> authority \<Rightarrow> bool" where
  "reached_ready g env trigger targets everywhere a =
     (case begun g env trigger targets everywhere a of
        None \<Rightarrow> False
      | Some (claim, s) \<Rightarrow> is_ok (fst (recovery_prepared g env claim trigger targets everywhere s)))"

text \<open>The command that sets the fence of a key is performed; once READY is written, the one that lifts it is not.\<close>

definition shut_on_failure :: "recovery_env \<Rightarrow> bool \<Rightarrow> int \<Rightarrow> bool" where
  "shut_on_failure env ready key =
     (if ready then bt_fault (re_between env BeforeLifting) \<noteq> None \<or> \<not> re_del env key
      else bt_fault (re_between env BeforeFences) = None \<and> re_set env key)"

definition row_done :: "authority \<Rightarrow> bool" where
  "row_done a = (ct_state (au_control a) = ''READY'' \<and> ct_owner (au_control a) = None \<and> ct_lease_until (au_control a) = None)"

lemma begun_held:
  assumes "begun g env trigger targets everywhere a = Some (claim, s)"
  shows "row_held env (rg_me g) (ct_epoch claim) (ct_generation claim) s \<and> au_shards s = au_shards a \<and> au_control s = claim"
  using assms claim_held by (fastforce simp: begun_def row_held_def)

lemma perform_fails:
  assumes "perform_recovery g env trigger targets everywhere a = (Inl e, a')"
    and "bt_fault (re_between env BeforeClaim) = None" "bt_fault (re_between env BeforeRun) = None"
  obtains claim s z rt where "begun g env trigger targets everywhere a = Some (claim, s)"
    "recovery_body g env claim trigger targets everywhere s = (Inl e, z)"
    "a' = (failed_act g env claim (take 4000 (error_message e)) z)\<lparr>au_runtime := rt\<rparr>" "rt_epoch rt = Some (ct_epoch claim)"
  using assms by (auto simp: perform_recovery_def begun_def recovering_runtime_def Let_def split: option.splits prod.splits sum.splits)

text \<open>A body that ends has failed to prepare, or has completed and gone on to lift the fences.\<close>

definition lifting :: "recovery_config \<Rightarrow> recovery_env \<Rightarrow> int list \<Rightarrow> bool \<Rightarrow> unit act" where
  "lifting g env targets everywhere =
     and_then (meanwhile (rg_lease g) (re_between env BeforeLifting)) (\<lambda>_. fences_act False everywhere targets (re_del env) (re_error env))"

lemma body_cases:
  assumes "recovery_body g env claim trigger targets everywhere s = (r, z)"
  shows "(\<exists>e. recovery_prepared g env claim trigger targets everywhere s = (Inl e, z) \<and> r = Inl e)
    \<or> (\<exists>n seconds b. recovery_prepared g env claim trigger targets everywhere s = (Inr (n, seconds), b)
        \<and> lifting g env targets everywhere (snd (complete_act env claim n seconds b)) = (r, z))"
proof -
  have body: "recovery_body g env claim trigger targets everywhere = and_then (recovery_prepared g env claim trigger targets everywhere)
      (\<lambda>(n, seconds). and_then (complete_act env claim n seconds) (\<lambda>_. lifting g env targets everywhere))"
    by (simp add: recovery_body_def lifting_def)
  have complete: "and_then (complete_act env claim n seconds) f b = f () (snd (complete_act env claim n seconds b))"
    for n seconds b and f :: "unit \<Rightarrow> unit act"
    by (simp add: and_then_def complete_act_def)
  obtain r1 b where p: "recovery_prepared g env claim trigger targets everywhere s = (r1, b)" by force
  with assms complete show ?thesis
    by (cases r1) (auto simp: body and_then_def split: prod.splits)
qed

lemma complete_frame:
  "au_shards (snd (complete_act env claim n seconds a)) = au_shards a" "au_projector (snd (complete_act env claim n seconds a)) = au_projector a"
  "au_ids (snd (complete_act env claim n seconds a)) = au_ids a"
  "au_control (snd (complete_act env claim n seconds a)) = complete_recovery (re_completed_at env) (au_control a)"
  by (simp_all add: complete_act_def completed_runs_def)

lemma harmless_done: "harmless st \<Longrightarrow> row_done a \<Longrightarrow> row_done (foreign configured st a)"
  by (induction st rule: harmless.induct) (auto simp: row_done_def renew_lease_def heartbeat_def)

lemma done_stays: "undisturbed env \<Longrightarrow> stays row_done (meanwhile configured (re_between env point))"
  by (rule stays_meanwhile, rule harmless_done) (auto simp: undisturbed_def others_def)

lemma lifting_done:
  assumes "undisturbed env"
  shows "stays row_done (lifting g env targets everywhere)"
  unfolding lifting_def
  by (intro stays_and_then done_stays assms) (simp add: stays_def fences_act_split row_done_def)

lemma lifting_shut:
  assumes "kept_shut env everywhere n p a" "shut_on_failure env True (fence_key everywhere n p)"
  shows "kept_shut env everywhere n p (snd (lifting g env targets everywhere a))"
proof (cases "bt_fault (re_between env BeforeLifting)")
  case None
  then have "stays (kept_shut env everywhere n p) (lifting g env targets everywhere)"
    unfolding lifting_def using assms(2)
    by (intro stays_and_then closed.point_stays fences_act_kept) (simp add: shut_on_failure_def)
  with assms(1) show ?thesis by (simp add: stays_def)
next
  case (Some m)
  have "snd (lifting g env targets everywhere a) = snd (meanwhile (rg_lease g) (re_between env BeforeLifting) a)"
    by (simp add: lifting_def and_then_def meanwhile_def Some)
  then show ?thesis using closed.point_stays assms(1) by (simp add: stays_def)
qed

text \<open>The failure of a recovery is recorded after other processes had their turn.\<close>

definition recorded :: "recovery_config \<Rightarrow> recovery_env \<Rightarrow> control \<Rightarrow> string \<Rightarrow> authority \<Rightarrow> control" where
  "recorded g env claim message z =
     (let b = snd (meanwhile (rg_lease g) (re_between env BeforeRecording) z)
      in if re_recorded env then fail_recovery (rg_me g) (ct_epoch claim) message (au_control b) else au_control b)"

lemma failed_act_frame:
  "au_shards (failed_act g env claim message z) = au_shards (snd (meanwhile (rg_lease g) (re_between env BeforeRecording) z))"
  "au_control (failed_act g env claim message z) = recorded g env claim message z"
  by (simp_all add: failed_act_def recorded_def meanwhile_def Let_def)

lemma kept_shut_shards: "au_shards b = au_shards a \<Longrightarrow> kept_shut env scope n p b = kept_shut env scope n p a"
  using shut_shards [of b a scope p] by (simp add: kept_shut_def)

lemma prepared_Inr:
  assumes "recovery_prepared g env claim trigger targets everywhere s = (Inr x, b)"
  shows "bt_fault (re_between env BeforeFences) = None \<and> list_all (re_set env) (fence_keys everywhere targets s)"
proof -
  have "fence_keys everywhere targets (snd (meanwhile (rg_lease g) (re_between env BeforeFences) s)) = fence_keys everywhere targets s"
    by (simp add: fence_keys_def)
  with assms show ?thesis
    by (cases "bt_fault (re_between env BeforeFences)")
       (auto simp: prepared_eq meanwhile_def fences_act_split dest!: and_then_Inr split: if_splits)
qed

lemma failing_body_shut:
  assumes "recovery_body g env claim trigger targets everywhere s = (Inl e, z)" "au_shards s \<noteq> []" "everywhere \<or> p \<in> set targets"
    and "shut_on_failure env (is_ok (fst (recovery_prepared g env claim trigger targets everywhere s)))
      (fence_key everywhere (length (au_shards s)) p)"
  shows "kept_shut env everywhere (length (au_shards s)) p z"
  using body_cases [OF assms(1)]
proof (elim disjE exE conjE)
  fix e assume b: "recovery_prepared g env claim trigger targets everywhere s = (Inl e, z)"
  from prepared_shut [OF b assms(2,3)] assms(4) b show ?thesis by (simp add: shut_on_failure_def)
next
  fix n seconds b
  assume b: "recovery_prepared g env claim trigger targets everywhere s = (Inr (n, seconds), b)"
    and l: "lifting g env targets everywhere (snd (complete_act env claim n seconds b)) = (Inl e, z)"
  have "kept_shut env everywhere (length (au_shards s)) p b"
    using prepared_shut [OF b assms(2,3)] prepared_Inr [OF b] key_among [OF assms(2,3)] by (auto simp: list_all_iff)
  moreover have "shut_on_failure env True (fence_key everywhere (length (au_shards s)) p)" using assms(4) b by simp
  ultimately have "kept_shut env everywhere (length (au_shards s)) p
      (snd (lifting g env targets everywhere (snd (complete_act env claim n seconds b))))"
    by (intro lifting_shut) (simp_all add: kept_shut_shards [OF complete_frame(1)])
  then show ?thesis by (simp add: l)
qed

lemma failing_body_row:
  assumes "recovery_body g env claim trigger targets everywhere s = (Inl e, z)" "undisturbed env" "epoch = ct_epoch claim"
    and "row_held env (rg_me g) epoch generation s"
  shows "if is_ok (fst (recovery_prepared g env claim trigger targets everywhere s)) then row_done z else held_by (rg_me g) epoch (au_control z)"
  using body_cases [OF assms(1)]
proof (elim disjE exE conjE)
  fix e assume b: "recovery_prepared g env claim trigger targets everywhere s = (Inl e, z)"
  have "row_held env (rg_me g) epoch generation z"
    using row.prepared_stays [OF assms(3) [symmetric] fences_act_row] b assms(4) by (rule stays_run)
  with b assms(2) show ?thesis by (simp add: row_held_def)
next
  fix n seconds b
  assume b: "recovery_prepared g env claim trigger targets everywhere s = (Inr (n, seconds), b)"
    and l: "lifting g env targets everywhere (snd (complete_act env claim n seconds b)) = (Inl e, z)"
  have "row_done (snd (complete_act env claim n seconds b))" by (simp add: row_done_def complete_frame complete_recovery_def)
  with lifting_done [OF assms(2)] l have "row_done z" by (rule stays_run)
  with b show ?thesis by simp
qed

lemma recorded_row:
  assumes "undisturbed env"
  shows "row_done z \<Longrightarrow> row_done (z\<lparr>au_control := recorded g env claim message z\<rparr>)"
    and "held_by (rg_me g) (ct_epoch claim) (au_control z) \<Longrightarrow>
      (if re_recorded env then ct_state (recorded g env claim message z) = ''FAILED_RETRYING'' \<and> ct_owner (recorded g env claim message z) = None
         \<and> ct_lease_until (recorded g env claim message z) = None
       else held_by (rg_me g) (ct_epoch claim) (recorded g env claim message z))"
proof -
  let ?b = "snd (meanwhile (rg_lease g) (re_between env BeforeRecording) z)"
  show "row_done (z\<lparr>au_control := recorded g env claim message z\<rparr>)" if "row_done z"
  proof -
    have "row_done ?b" using done_stays [OF assms] that by (simp add: stays_def)
    then show ?thesis by (simp add: row_done_def recorded_def Let_def fail_recovery_def)
  qed
  assume "held_by (rg_me g) (ct_epoch claim) (au_control z)"
  then have "row_held env (rg_me g) (ct_epoch claim) (ct_generation (au_control z)) z" by (simp add: row_held_def)
  then have "row_held env (rg_me g) (ct_epoch claim) (ct_generation (au_control z)) ?b"
    using row.point_stays by (simp add: stays_def)
  then have "held_by (rg_me g) (ct_epoch claim) (au_control ?b)" using assms by (simp add: row_held_def)
  then show "if re_recorded env then ct_state (recorded g env claim message z) = ''FAILED_RETRYING'' \<and> ct_owner (recorded g env claim message z) = None
         \<and> ct_lease_until (recorded g env claim message z) = None
       else held_by (rg_me g) (ct_epoch claim) (recorded g env claim message z)"
    by (simp add: recorded_def Let_def fail_recovery_def held_by_def)
qed

text \<open>C6: What a failed recovery leaves behind. Let a recovery that could claim the row and record its run throw, whatever failed
  and whatever other processes did in between. If it failed before the row said READY, every auction it was about whose fence
  was set (the command for it went through) is still closed; if it failed afterwards, every one whose fence was not deleted:
  unless another process lifts that fence, each mutation of such an auction is answered with AUCTION_AUTHORITY_RECOVERING and
  changes no key. When the failure could be recorded, the row is not held by this recovery any more. And when no other process
  claims, completes or fails a recovery meanwhile, the row has no owner and no lease, so that any process may claim it:
  FAILED_RETRYING after a failure before READY, READY after one that came later. Only a failure before READY that could not
  be recorded leaves the row to this process, until it claims again or the lease runs out.\<close>

theorem failed_recovery_stays_closed:
  assumes "perform_recovery g env trigger targets everywhere a = (Inl e, a')" "au_shards a \<noteq> []"
    and "bt_fault (re_between env BeforeClaim) = None" "bt_fault (re_between env BeforeRun) = None"
  shows "((everywhere \<or> product \<in> set targets)
      \<and> shut_on_failure env (reached_ready g env trigger targets everywhere a) (fence_key everywhere (length (au_shards a)) product)
      \<and> never_lifted env everywhere (fence_key everywhere (length (au_shards a)) product) \<and> \<not> k_mistyped (auction_view a' product)
      \<longrightarrow> (\<exists>message. mutate_script clock slot rq (auction_view a' product) = (Some (recovering message), auction_view a' product)))
    \<and> (\<exists>epoch. rt_epoch (au_runtime a') = Some epoch \<and> (re_recorded env \<longrightarrow> \<not> held_by (rg_me g) epoch (au_control a'))
        \<and> (undisturbed env \<longrightarrow>
            (if reached_ready g env trigger targets everywhere a \<or> re_recorded env
             then ct_owner (au_control a') = None \<and> ct_lease_until (au_control a') = None
               \<and> ct_state (au_control a') = (if reached_ready g env trigger targets everywhere a then ''READY'' else ''FAILED_RETRYING'')
             else held_by (rg_me g) epoch (au_control a'))))"
proof -
  obtain claim s z rt where s: "begun g env trigger targets everywhere a = Some (claim, s)"
      and body: "recovery_body g env claim trigger targets everywhere s = (Inl e, z)"
      and a': "a' = (failed_act g env claim (take 4000 (error_message e)) z)\<lparr>au_runtime := rt\<rparr>" "rt_epoch rt = Some (ct_epoch claim)"
    using assms(1,3,4) by (rule perform_fails)
  let ?ready = "is_ok (fst (recovery_prepared g env claim trigger targets everywhere s))"
  let ?key = "fence_key everywhere (length (au_shards a)) product"
  let ?c = "recorded g env claim (take 4000 (error_message e)) z"
  note s' = begun_held [OF s]
  have ready: "reached_ready g env trigger targets everywhere a = ?ready" by (simp add: reached_ready_def s)
  have c: "au_control a' = ?c" "rt_epoch (au_runtime a') = Some (ct_epoch claim)" by (simp_all add: a' failed_act_frame)
  have view: "kept_shut env everywhere n product a' = kept_shut env everywhere n product (snd (meanwhile (rg_lease g) (re_between env BeforeRecording) z))" for n
    by (rule kept_shut_shards) (simp add: a' failed_act_frame)
  have "\<exists>message. mutate_script clock slot rq (auction_view a' product) = (Some (recovering message), auction_view a' product)"
    if p: "everywhere \<or> product \<in> set targets" "shut_on_failure env ?ready ?key" "never_lifted env everywhere ?key"
      "\<not> k_mistyped (auction_view a' product)"
  proof -
    have "kept_shut env everywhere (length (au_shards a)) product z"
      using failing_body_shut [OF body _ p(1)] p(2) s' assms(2) by simp
    then have "kept_shut env everywhere (length (au_shards a)) product a'" using closed.point_stays by (simp add: view stays_def)
    then have "shut everywhere product a'" using p(3) by (simp add: kept_shut_def)
    then show ?thesis using p(4) by (intro refused_when_fenced) (simp_all add: shut_def split: if_splits)
  qed
  moreover have "re_recorded env \<longrightarrow> \<not> held_by (rg_me g) (ct_epoch claim) ?c"
    by (auto simp: recorded_def held_by_def fail_recovery_def Let_def split: if_splits)
  moreover have "if ?ready \<or> re_recorded env then ct_owner ?c = None \<and> ct_lease_until ?c = None
        \<and> ct_state ?c = (if ?ready then ''READY'' else ''FAILED_RETRYING'')
      else held_by (rg_me g) (ct_epoch claim) ?c" if u: "undisturbed env"
    using failing_body_row [OF body u refl conjunct1 [OF s']] recorded_row [OF u, where z = z and g = g and claim = claim and message = "take 4000 (error_message e)"]
    by (auto simp: row_done_def split: if_splits)
  ultimately show ?thesis unfolding ready c(1) using c(2) by blast
qed

section \<open>A completed recovery\<close>

lemma view_update:
  assumes "au_shards a \<noteq> []"
  shows "k_state (auction_view (update_client p f a) q) =
    (if shard_index q (au_shards a) = shard_index p (au_shards a)
     then k_state (rs_auctions (f (au_shards a ! shard_index p (au_shards a))) q)
     else k_state (auction_view a q))"
  by (simp add: auction_view_def Let_def update_client_nth [OF assms] shard_index_cong [of "au_shards (update_client p f a)" "au_shards a"])

lemma reload_frame:
  assumes "reload_act locked now p a = (Inr x, b)" "au_shards a \<noteq> []"
  shows "au_projector b = au_projector a \<and> au_ids b = au_ids a \<and> au_shards b \<noteq> []
    \<and> (q \<noteq> p \<longrightarrow> k_state (auction_view b q) = k_state (auction_view a q))"
proof -
  obtain r st where b: "bootstrap_auction (locked p) True True False now (au_settings a) p (au_db a) (auction_view a p) = (r, st)"
    by force
  define f where "f = (\<lambda>s. put_auction p st (s\<lparr>rs_foreign := (rs_foreign s)(p := Map.empty)\<rparr>))"
  have "b = a \<or> b = update_client p f a"
    using assms(1) by (simp add: reload_act_def b f_def split: sum.splits if_splits)
  moreover have "k_state (auction_view (update_client p f a) q) = k_state (auction_view a q)" if "q \<noteq> p"
    using that view_update [OF assms(2), of p f q] by (simp add: f_def put_auction_def auction_view_def Let_def)
  moreover have "au_shards (update_client p f a) \<noteq> []"
    using assms(2) by (simp flip: length_greater_0_conv)
  ultimately show ?thesis using assms(2) by auto
qed

lemma renew_frame:
  assumes "renew_act me configured now epoch a = (Inr x, b)"
  shows "au_projector b = au_projector a \<and> au_ids b = au_ids a \<and> au_shards b = au_shards a"
  using assms by (auto simp: renew_act_def split: sum.splits)

lemma converged_Inr:
  "converged_act p a = (Inr x, b) \<longleftrightarrow> b = a \<and> reconciled_status p (k_state (auction_view a p)) (au_db a) = Some ''converged''"
  by (auto simp: converged_act_def reconciled_status_def split: sum.splits)

lemma view_cong: "au_shards b = au_shards a \<Longrightarrow> auction_view b p = auction_view a p"
  by (simp add: auction_view_def)

text \<open>The database and the states of the auctions stay.\<close>

definition state_kept :: "authority \<Rightarrow> authority \<Rightarrow> bool" where
  "state_kept a b = (au_shards a \<noteq> [] \<and> au_shards b \<noteq> [] \<and> au_projector b = au_projector a \<and> au_ids b = au_ids a
     \<and> (\<forall>q. k_state (auction_view b q) = k_state (auction_view a q)))"

lemma state_kept_refl: "au_shards a \<noteq> [] \<Longrightarrow> state_kept a a"
  by (simp add: state_kept_def)

lemma state_kept_trans: "state_kept a b \<Longrightarrow> state_kept b c \<Longrightarrow> state_kept a c"
  by (simp add: state_kept_def)

lemma fences_state:
  assumes "au_shards a \<noteq> []"
  shows "state_kept a (set_fences closed everywhere keys a)"
proof -
  have "length (au_shards (set_fences closed everywhere keys a)) = length (au_shards a)" by simp
  then have "au_shards (set_fences closed everywhere keys a) \<noteq> []" using assms by (metis length_0_conv)
  then show ?thesis using assms view_set_fences [OF assms] by (simp add: state_kept_def)
qed

lemma control_state: "au_shards a \<noteq> [] \<Longrightarrow> state_kept a (a\<lparr>au_control := c\<rparr>)"
  by (simp add: state_kept_def auction_view_def)

lemma foreign_state: "state_kept a b \<Longrightarrow> state_kept a (foreign configured st b)"
  using fences_state [of b] control_state [of b] by (cases st) (auto simp: state_kept_def)

lemma meanwhile_state: "stays (state_kept a) (meanwhile configured bt)"
  by (rule stays_meanwhile) (rule foreign_state)

lemma fences_act_state: "stays (state_kept a) (fences_act closed everywhere targets ok err)"
  unfolding stays_def fences_act_split snd_conv using fences_state state_kept_trans by (metis state_kept_def)

lemma refresh_Cons:
  assumes "refresh_auctions me configured locked clock before epoch (p # ps) a = (Inr x, b)" "au_shards a \<noteq> []"
  obtains a0 a1 a2 where "state_kept a a0" "reload_act locked (clock p) p a0 = (Inr (), a1)"
    "reconciled_status p (k_state (auction_view a1 p)) (au_db a1) = Some ''converged''"
    "renew_act me configured (clock p) epoch a1 = (Inr (), a2)"
    "refresh_auctions me configured locked clock before epoch ps a2 = (Inr x, b)"
proof -
  from assms(1) obtain u a0 where m: "meanwhile configured (before p) a = (Inr u, a0)"
    and rest: "and_then (reload_act locked (clock p) p) (\<lambda>_. and_then (converged_act p) (\<lambda>_.
      and_then (renew_act me configured (clock p) epoch) (\<lambda>_. refresh_auctions me configured locked clock before epoch ps))) a0 = (Inr x, b)"
    unfolding refresh_auctions.simps by (rule and_then_InrE)
  have "state_kept a a0" using meanwhile_state m state_kept_refl [OF assms(2)] by (rule stays_run)
  then show ?thesis using rest by (auto dest!: and_then_Inr simp: converged_Inr intro: that)
qed

lemma refresh_frame:
  assumes "refresh_auctions me configured locked clock before epoch ps a = (Inr x, b)" "au_shards a \<noteq> []"
  shows "au_projector b = au_projector a \<and> au_ids b = au_ids a \<and> au_shards b \<noteq> []
    \<and> (q \<notin> set ps \<longrightarrow> k_state (auction_view b q) = k_state (auction_view a q))"
  using assms
proof (induction ps arbitrary: a)
  case (Cons p ps)
  obtain a0 a1 a2 where s: "state_kept a a0" "reload_act locked (clock p) p a0 = (Inr (), a1)"
      "renew_act me configured (clock p) epoch a1 = (Inr (), a2)"
      "refresh_auctions me configured locked clock before epoch ps a2 = (Inr x, b)"
    using Cons.prems by (rule refresh_Cons)
  have ne: "au_shards a0 \<noteq> []" using s(1) by (simp add: state_kept_def)
  note r = reload_frame [OF s(2) ne, of q] renew_frame [OF s(3)]
  with Cons.IH [OF s(4)] view_cong [of a2 a1 q] s(1) show ?case by (simp add: state_kept_def)
qed simp

lemma refresh_converges:
  assumes "refresh_auctions me configured locked clock before epoch ps a = (Inr x, b)" "au_shards a \<noteq> []" "q \<in> set ps"
  shows "reconciled_status q (k_state (auction_view b q)) (au_db b) = Some ''converged''"
  using assms
proof (induction ps arbitrary: a)
  case (Cons p ps)
  obtain a0 a1 a2 where s: "state_kept a a0" "reload_act locked (clock p) p a0 = (Inr (), a1)"
      "reconciled_status p (k_state (auction_view a1 p)) (au_db a1) = Some ''converged''"
      "renew_act me configured (clock p) epoch a1 = (Inr (), a2)"
      "refresh_auctions me configured locked clock before epoch ps a2 = (Inr x, b)"
    using Cons.prems(1,2) by (rule refresh_Cons)
  have ne0: "au_shards a0 \<noteq> []" using s(1) by (simp add: state_kept_def)
  note r = reload_frame [OF s(2) ne0, of q] renew_frame [OF s(4)]
  have ne: "au_shards a2 \<noteq> []" using r by simp
  show ?case
  proof (cases "q \<in> set ps")
    case False
    then have "q = p" using Cons.prems(3) by simp
    with refresh_frame [OF s(5) ne, of q] False s(3) r view_cong [of a2 a1 q] show ?thesis by simp
  qed (use Cons.IH [OF s(5) ne] in simp)
qed simp

lemma restore_answer_view:
  assumes "au_shards a \<noteq> []"
  shows "k_state (auction_view (restore_answer digest ttl now tr a) q) = k_state (auction_view a q)"
  using view_update [OF assms, of "tr_product tr" _ q]
  by (auto simp: restore_answer_def put_answer_def auction_view_def Let_def split: option.splits)

lemma restore_state: "stays (state_kept a) (restore_idempotency digest configured now broken err)"
proof -
  have one: "state_kept b (restore_answer digest ttl now tr b)" if "au_shards b \<noteq> []" for b ttl tr
  proof -
    have "length (au_shards (restore_answer digest ttl now tr b)) = length (au_shards b)"
      using restore_answer_frame fences_kept_length by blast
    then have "au_shards (restore_answer digest ttl now tr b) \<noteq> []" using that by (metis length_0_conv)
    then show ?thesis using that restore_answer_frame restore_answer_view [OF that] by (simp add: state_kept_def)
  qed
  have "state_kept a b \<Longrightarrow> state_kept a (fold (restore_answer digest ttl now) trs b)" for b ttl trs
  proof (induction trs arbitrary: b)
    case (Cons tr trs)
    then have "state_kept b (restore_answer digest ttl now tr b)" by (intro one) (simp add: state_kept_def)
    with Cons state_kept_trans show ?case by fastforce
  qed simp
  then show ?thesis by (auto simp: stays_def restore_idempotency_def Let_def split: option.split)
qed

lemma manifest_state: "stays (state_kept a) (write_manifest v ok err)"
proof -
  have "k_state (auction_view (snd (write_manifest v ok err b)) q) = k_state (auction_view b q)" if "au_shards b \<noteq> []" for b q
    using shard_index_less [OF that, of q] shard_index_cong [of "au_shards (snd (write_manifest v ok err b))" "au_shards b" q]
    by (auto simp: write_manifest_def auction_view_def Let_def nth_enumerate_eq)
  moreover have "length (au_shards (snd (write_manifest v ok err b))) = length (au_shards b)"
    "au_projector (snd (write_manifest v ok err b)) = au_projector b" "au_ids (snd (write_manifest v ok err b)) = au_ids b" for b
    by (simp_all add: write_manifest_def)
  ultimately show ?thesis by (simp add: stays_def state_kept_def flip: length_greater_0_conv)
qed

lemma seal_state: "stays (state_kept a) (recovery_seal g env claim)"
  unfolding recovery_seal_def by (intro stays_and_then meanwhile_state restore_state manifest_state)

lemma lifting_state: "stays (state_kept a) (lifting g env targets everywhere)"
  unfolding lifting_def by (intro stays_and_then meanwhile_state fences_act_state)

lemma complete_state: "stays (state_kept a) (complete_act env claim n seconds)"
  by (simp add: stays_def state_kept_def complete_frame view_cong [OF complete_frame(1)])

lemma work_refreshed:
  assumes "recovery_work g env claim trigger targets everywhere a = (Inr (refreshed, seconds), b)" "au_shards a \<noteq> []"
  obtains c where "au_shards c \<noteq> []" "refreshed = (if everywhere then active_product_ids c else targets)"
    "refresh_auctions (rg_me g) (rg_lease g) (re_locked env) (re_clock env) (\<lambda>p. re_between env (BeforeAuction p)) (ct_epoch claim)
       refreshed c = (Inr (), b)"
proof -
  define extend where "extend = (if trigger = ''FULL_DATA_LOSS''
      then extend_interrupted (rg_topics g) (re_event_ids env) (rg_grace g) (re_extended_at env) (ct_last_healthy claim) (ct_epoch claim)
      else (\<lambda>a. (returns ([], 0), a)))"
  obtain a1 a2 a3 a4 ps c where w: "drain_projection (rg_me g) (rg_lease g) (rg_projector g) (rg_parse g) (ct_epoch claim)
        (if everywhere then [] else targets) (re_rounds env) a = (Inr (), a1)"
      "meanwhile (rg_lease g) (re_between env BeforeExtension) a1 = (Inr (), a2)" "extend a2 = (Inr (ps, seconds), a3)"
      "meanwhile (rg_lease g) (re_between env BeforeRenewal) a3 = (Inr (), a4)"
      "renew_act (rg_me g) (rg_lease g) (re_extended_at env) (ct_epoch claim) a4 = (Inr (), c)"
    and c: "refreshed = (if everywhere then active_product_ids c else targets)"
      "refresh_auctions (rg_me g) (rg_lease g) (re_locked env) (re_clock env) (\<lambda>p. re_between env (BeforeAuction p)) (ct_epoch claim)
       refreshed c = (Inr (), b)"
    using assms(1) unfolding recovery_work_def extend_def [symmetric] by (auto dest!: and_then_Inr)
  let ?P = "kept_as_it_was env True (length (au_shards a)) 0 (shut True 0 a)"
  have "quiet extend" by (simp add: extend_def quiet_extend) (simp add: quiet_def)
  then have extend: "stays ?P extend" by (rule elsewhere.quiet_stays)
  have "?P a" using assms(2) by (simp add: kept_as_it_was_def)
  with elsewhere.drain_stays [OF subset_refl] w(1) have "?P a1" by (rule stays_run)
  with elsewhere.point_stays w(2) have "?P a2" by (rule stays_run)
  with extend w(3) have "?P a3" by (rule stays_run)
  with elsewhere.point_stays w(4) have "?P a4" by (rule stays_run)
  with elsewhere.renew_stays w(5) have "?P c" by (rule stays_run)
  then have "length (au_shards c) = length (au_shards a)" by (simp add: kept_as_it_was_def)
  then have "au_shards c \<noteq> []" using assms(2) by (metis length_0_conv)
  with c show ?thesis by (rule that [rotated])
qed

lemma work_shards:
  assumes "recovery_work g env claim trigger targets everywhere a = (Inr (refreshed, seconds), b)" "au_shards a \<noteq> []"
  shows "au_shards b \<noteq> []"
proof -
  have "kept_as_it_was env True (length (au_shards a)) 0 (shut True 0 a) b"
    using elsewhere.work_stays [OF refl] assms(1) by (rule stays_run) (use assms(2) in \<open>simp add: kept_as_it_was_def\<close>)
  then show ?thesis by (auto simp: kept_as_it_was_def)
qed

lemma work_Inr:
  assumes "recovery_work g env claim trigger targets everywhere a = (Inr (refreshed, seconds), b)" "au_shards a \<noteq> []"
  shows "refreshed = (if everywhere then active_product_ids b else targets)
    \<and> (q \<in> set refreshed \<longrightarrow> reconciled_status q (k_state (auction_view b q)) (au_db b) = Some ''converged'')"
proof -
  obtain c where c: "au_shards c \<noteq> []" "refreshed = (if everywhere then active_product_ids c else targets)"
    "refresh_auctions (rg_me g) (rg_lease g) (re_locked env) (re_clock env) (\<lambda>p. re_between env (BeforeAuction p)) (ct_epoch claim)
       refreshed c = (Inr (), b)"
    using assms by (rule work_refreshed)
  have "active_product_ids b = active_product_ids c"
    using refresh_frame [OF c(3,1)] by (simp add: active_product_ids_def)
  with c(2) refresh_converges [OF c(3,1)] show ?thesis by simp
qed

lemma parse_written [simp]:
  "parse_manifest (Some (Some (manifest_json c recovered_at))) = Some (ct_generation c, show_int (ct_epoch c))"
  by (simp add: parse_manifest_def manifest_json_def field_of_def)

lemma manifest_fences:
  "map rs_manifest (au_shards (set_fences closed everywhere targets a)) = map rs_manifest (au_shards a)"
proof -
  have "map rs_manifest (au_shards (fold (set_auction_fence closed) targets a)) = map rs_manifest (au_shards a)"
  proof (induction targets arbitrary: a)
    case (Cons p targets)
    have "map rs_manifest (au_shards (set_auction_fence closed p a)) = map rs_manifest (au_shards a)"
      by (cases "shard_index p (au_shards a) < length (au_shards a)")
         (simp_all add: set_auction_fence_def update_client_def Let_def map_update list_update_same_conv list_update_beyond)
    with Cons show ?case by simp
  qed simp
  then show ?thesis by (auto simp: set_fences_def nth_enumerate_eq intro!: nth_equalityI)
qed

text \<open>The manifests that are written stay.\<close>

definition manifests_say :: "control \<Rightarrow> authority \<Rightarrow> bool" where
  "manifests_say c a = (\<forall>m\<in>set (map rs_manifest (au_shards a)). parse_manifest m = Some (ct_generation c, show_int (ct_epoch c)))"

lemma manifests_foreign: "manifests_say c a \<Longrightarrow> manifests_say c (foreign configured st a)"
  by (cases st) (simp_all add: manifests_say_def manifest_fences del: set_map)

lemma manifests_meanwhile: "stays (manifests_say c) (meanwhile configured bt)"
  by (rule stays_meanwhile) (rule manifests_foreign)

lemma manifests_lifting: "stays (manifests_say c) (lifting g env targets everywhere)"
  unfolding lifting_def
  by (intro stays_and_then manifests_meanwhile) (simp add: stays_def fences_act_split manifests_say_def manifest_fences del: set_map)

lemma seal_manifests:
  assumes "recovery_seal g env claim a = (Inr x, b)"
  shows "manifests_say claim b"
proof -
  obtain c d where w: "write_manifest (manifest_json claim (re_iso env (re_completed_at env))) (re_manifest env) (re_error env) c = (Inr (), d)"
    and m: "meanwhile (rg_lease g) (re_between env BeforeCompletion) d = (Inr x, b)"
    using assms by (auto simp: recovery_seal_def dest!: and_then_Inr)
  have "manifests_say claim d"
    using w by (auto simp: write_manifest_def manifests_say_def in_set_enumerate_eq list_all_iff split: if_splits)
  with manifests_meanwhile m show ?thesis by (rule stays_run)
qed

text \<open>The stages of a recovery that answers ready.\<close>

lemma perform_ready:
  assumes "perform_recovery g env trigger targets everywhere a = (Inr rt, a')" "rt_state rt = ''ready''"
  obtains claim s n seconds b z where "begun g env trigger targets everywhere a = Some (claim, s)"
    "recovery_prepared g env claim trigger targets everywhere s = (Inr (n, seconds), b)"
    "lifting g env targets everywhere (snd (complete_act env claim n seconds b)) = (Inr (), z)"
    "a' = z\<lparr>au_runtime := rt\<rparr>" "rt_epoch rt = Some (ct_epoch claim)"
proof -
  obtain claim s z where s: "begun g env trigger targets everywhere a = Some (claim, s)"
    "recovery_body g env claim trigger targets everywhere s = (Inr (), z)" "a' = z\<lparr>au_runtime := rt\<rparr>" "rt_epoch rt = Some (ct_epoch claim)"
    using assms
    by (auto simp: perform_recovery_def begun_def recovering_runtime_def Let_def split: option.splits prod.splits sum.splits)
  from body_cases [OF s(2)] s that show ?thesis by blast
qed

lemma prepared_stages:
  assumes "recovery_prepared g env claim trigger targets everywhere s = (Inr (n, seconds), b)" "au_shards s \<noteq> []"
  obtains t w refreshed where "au_shards t \<noteq> []" "recovery_work g env claim trigger targets everywhere t = (Inr (refreshed, seconds), w)"
    "recovery_seal g env claim w = (Inr (), b)"
proof -
  obtain c t where c: "meanwhile (rg_lease g) (re_between env BeforeFences) s = (Inr (), c)"
      "fences_act True everywhere targets (re_set env) (re_error env) c = (Inr (), t)"
      "recovery_rest g env claim trigger targets everywhere t = (Inr (n, seconds), b)"
    using assms(1) by (auto simp: prepared_eq dest!: and_then_Inr)
  have "state_kept s c" using meanwhile_state c(1) state_kept_refl [OF assms(2)] by (rule stays_run)
  with fences_act_state c(2) have "state_kept s t" by (rule stays_run)
  then have "au_shards t \<noteq> []" by (simp add: state_kept_def)
  with c(3) show ?thesis using that by (auto simp: recovery_rest_def dest!: and_then_Inr)
qed

definition row_sealed :: "control \<Rightarrow> authority \<Rightarrow> bool" where
  "row_sealed claim a = (row_done a \<and> ct_generation (au_control a) = ct_generation claim \<and> ct_epoch (au_control a) = ct_epoch claim)"

lemma lifting_sealed:
  assumes "undisturbed env"
  shows "stays (row_sealed claim) (lifting g env targets everywhere)"
proof -
  have "row_sealed claim (foreign configured st a)" if "harmless st" "row_sealed claim a" for st a and configured :: "int option"
    using that by (induction st rule: harmless.induct) (auto simp: row_sealed_def row_done_def renew_lease_def heartbeat_def)
  with assms have step: "row_sealed claim (foreign configured st a)"
    if "st \<in> others env" "row_sealed claim a" for st a and configured :: "int option"
    using that unfolding undisturbed_def by blast
  have "stays (row_sealed claim) (meanwhile (rg_lease g) (re_between env BeforeLifting))"
    by (rule stays_meanwhile, rule step) (auto simp: others_def)
  then show ?thesis
    unfolding lifting_def by (intro stays_and_then) (simp_all add: stays_def fences_act_split row_sealed_def row_done_def)
qed

text \<open>What is left of the auctions when a recovery answers ready: those of its last refresh.\<close>

lemma ready_work:
  assumes "perform_recovery g env trigger targets everywhere a = (Inr rt, a')" "rt_state rt = ''ready''" "au_shards a \<noteq> []"
  obtains claim t w refreshed seconds where "au_shards t \<noteq> []"
    "recovery_work g env claim trigger targets everywhere t = (Inr (refreshed, seconds), w)" "state_kept w a'"
proof -
  obtain claim s n seconds b z where p: "begun g env trigger targets everywhere a = Some (claim, s)"
    "recovery_prepared g env claim trigger targets everywhere s = (Inr (n, seconds), b)"
    "lifting g env targets everywhere (snd (complete_act env claim n seconds b)) = (Inr (), z)"
    "a' = z\<lparr>au_runtime := rt\<rparr>"
    using assms(1,2) by (rule perform_ready)
  have "au_shards s \<noteq> []" using begun_held [OF p(1)] assms(3) by simp
  from p(2) this obtain t w refreshed where w: "au_shards t \<noteq> []"
    "recovery_work g env claim trigger targets everywhere t = (Inr (refreshed, seconds), w)" "recovery_seal g env claim w = (Inr (), b)"
    by (rule prepared_stages)
  have "au_shards w \<noteq> []"
    using w(2,1) by (rule work_shards)
  then have "state_kept w w" by (rule state_kept_refl)
  with seal_state w(3) have "state_kept w b" by (rule stays_run)
  then have "state_kept w (snd (complete_act env claim n seconds b))" using complete_state by (simp add: stays_def)
  with lifting_state p(3) have "state_kept w z" by (rule stays_run)
  then have "state_kept w a'" by (simp add: p(4) state_kept_def auction_view_def)
  with w(1,2) show ?thesis by (rule that)
qed

lemma completed_row:
  assumes "perform_recovery g env trigger targets everywhere a = (Inr rt, a')" "rt_state rt = ''ready''"
  shows "\<exists>claim. rt_epoch rt = Some (ct_epoch claim) \<and> manifests_say claim a'
    \<and> (undisturbed env \<longrightarrow> row_done a' \<and> ct_generation (au_control a') = ct_generation claim \<and> ct_epoch (au_control a') = ct_epoch claim)"
proof -
  obtain claim s n seconds b z where p: "begun g env trigger targets everywhere a = Some (claim, s)"
    "recovery_prepared g env claim trigger targets everywhere s = (Inr (n, seconds), b)"
    "lifting g env targets everywhere (snd (complete_act env claim n seconds b)) = (Inr (), z)"
    "a' = z\<lparr>au_runtime := rt\<rparr>" "rt_epoch rt = Some (ct_epoch claim)"
    using assms by (rule perform_ready)
  obtain w where "recovery_seal g env claim w = (Inr (), b)"
    using p(2) by (auto simp: recovery_prepared_def dest!: and_then_Inr)
  then have "manifests_say claim b" by (rule seal_manifests)
  then have "manifests_say claim (snd (complete_act env claim n seconds b))" by (simp add: manifests_say_def complete_frame)
  with manifests_lifting p(3) have m: "manifests_say claim z" by (rule stays_run)
  have "row_done z \<and> ct_generation (au_control z) = ct_generation claim \<and> ct_epoch (au_control z) = ct_epoch claim" if u: "undisturbed env"
  proof -
    have "row_held env (rg_me g) (ct_epoch claim) (ct_generation claim) b"
      using row.prepared_stays [OF refl fences_act_row] p(2) conjunct1 [OF begun_held [OF p(1)]] by (rule stays_run)
    then have "row_sealed claim (snd (complete_act env claim n seconds b))"
      using u by (simp add: row_held_def held_by_def row_sealed_def row_done_def complete_frame complete_recovery_def)
    with lifting_sealed [OF u] p(3) have "row_sealed claim z" by (rule stays_run)
    then show ?thesis by (simp add: row_sealed_def)
  qed
  with m p(4,5) show ?thesis by (intro exI [of _ claim]) (simp add: manifests_say_def row_done_def)
qed

text \<open>The fences of its scope are lifted last; those of the other scope are not its own.\<close>

lemma completed_fences:
  assumes "perform_recovery g env trigger targets everywhere a = (Inr rt, a')" "rt_state rt = ''ready''" "au_shards a \<noteq> []"
  shows "everywhere \<or> p \<in> set targets \<Longrightarrow> \<not> shut everywhere p a'"
    and "never_touched env (\<not> everywhere) (fence_key (\<not> everywhere) (length (au_shards a)) p) \<Longrightarrow>
      shut (\<not> everywhere) p a' = shut (\<not> everywhere) p a"
proof -
  obtain claim s n seconds b z where p: "begun g env trigger targets everywhere a = Some (claim, s)"
    "recovery_prepared g env claim trigger targets everywhere s = (Inr (n, seconds), b)"
    "lifting g env targets everywhere (snd (complete_act env claim n seconds b)) = (Inr (), z)" "a' = z\<lparr>au_runtime := rt\<rparr>"
    using assms(1,2) by (rule perform_ready)
  let ?P = "\<lambda>scope. kept_as_it_was env scope (length (au_shards a)) p (shut scope p a)" and ?c = "snd (complete_act env claim n seconds b)"
  have s: "au_shards s = au_shards a" using begun_held [OF p(1)] by simp
  have "?P (\<not> everywhere) s" using assms(3) shut_shards [OF s] by (simp add: kept_as_it_was_def s)
  with elsewhere.prepared_stays [OF refl fences_act_elsewhere] p(2) have b: "?P (\<not> everywhere) b" by (rule stays_run)
  have c: "?P (\<not> everywhere) ?c"
    using b shut_shards [OF complete_frame(1)] by (simp add: kept_as_it_was_def complete_frame)
  have "stays (?P (\<not> everywhere)) (lifting g env targets everywhere)"
    unfolding lifting_def by (intro stays_and_then elsewhere.point_stays fences_act_elsewhere)
  from this p(3) c have "?P (\<not> everywhere) z" by (rule stays_run)
  then show "shut (\<not> everywhere) p a' = shut (\<not> everywhere) p a"
    if "never_touched env (\<not> everywhere) (fence_key (\<not> everywhere) (length (au_shards a)) p)"
    using that shut_shards [of a' z] p(4) by (simp add: kept_as_it_was_def)
  obtain u d where d: "meanwhile (rg_lease g) (re_between env BeforeLifting) ?c = (Inr u, d)"
    "fences_act False everywhere targets (re_del env) (re_error env) d = (Inr (), z)"
    using p(3) unfolding lifting_def by (rule and_then_InrE)
  have "length (au_shards d) = length (au_shards a)"
    using meanwhile_length [of "rg_lease g" "re_between env BeforeLifting" ?c] c by (simp add: d(1) kept_as_it_was_def)
  then have ne: "au_shards d \<noteq> []" using assms(3) by (metis length_0_conv)
  show "\<not> shut everywhere p a'" if "everywhere \<or> p \<in> set targets"
  proof -
    have "list_all (re_del env) (fence_keys everywhere targets d)" and z: "z = set_fences False everywhere (fence_keys everywhere targets d) d"
      using d(2) by (auto simp: fences_act_split list_all_iff split: if_splits)
    then show ?thesis
      using shut_set_fences [OF ne] key_among [OF ne that] shut_shards [of a' z] p(4) by simp
  qed
qed


section \<open>Auctions that are still pending in their row\<close>

lemma bootstrap_forced_state:
  assumes "db_products db p = Some r"
  obtains st' where "bootstrap_auction False True True False now settings p db st = (Inr True, st')"
    "k_state st' = Some (sd_state (auction_seed now settings True p r db))"
  using assms fold_add_maximum_frame
  by (auto simp: bootstrap_auction_def bootstrap_script_def seed_recovery forget_state Let_def split: option.split)

lemma view_put:
  assumes "au_shards a \<noteq> []"
  shows "k_state (auction_view (update_client p (\<lambda>s. put_auction p st (h s)) a) p) = k_state st"
  using view_update [OF assms, of p "\<lambda>s. put_auction p st (h s)" p] by (simp add: put_auction_def)

lemma reload_state:
  assumes "reload_act locked now p a = (Inr x, b)" "au_shards a \<noteq> []" "\<not> locked p" "db_products (au_db a) p = Some r"
  shows "k_state (auction_view b p) = Some (sd_state (auction_seed now (au_settings a) True p r (au_db a)))"
proof -
  obtain st' where "bootstrap_auction False True True False now (au_settings a) p (au_db a) (auction_view a p) = (Inr True, st')"
    "k_state st' = Some (sd_state (auction_seed now (au_settings a) True p r (au_db a)))"
    using assms(4) by (rule bootstrap_forced_state)
  with assms(1,3) view_put [OF assms(2)] show ?thesis by (auto simp: reload_act_def)
qed

text \<open>The row says PENDING, the start has passed and the end has not.\<close>

definition started_pending :: "int \<Rightarrow> int \<Rightarrow> database \<Rightarrow> bool" where
  "started_pending now p db =
     (case db_products db p of
        None \<Rightarrow> False
      | Some r \<Rightarrow> pr_status r = ''PENDING'' \<and> (case pr_start_time r of None \<Rightarrow> False | Some t \<Rightarrow> t \<le> now)
          \<and> now < coalesce (pr_end_time r) 0)"

lemma started_pending_diverges:
  assumes "k_state st = Some (sd_state (auction_seed now settings True p r db))" "db_products db p = Some r" "started_pending now p db"
  shows "reconciled_status p (k_state st) db \<noteq> Some ''converged''"
proof -
  have "seed_status now r = ''ACTIVE''" "pr_status r = ''PENDING''"
    using assms(2,3) by (simp_all add: started_pending_def seed_status_def)
  then have h: "h_status (sd_state (auction_seed now settings True p r db)) = Some ''ACTIVE''" "pr_status r \<noteq> ''ACTIVE''"
    by (simp_all add: auction_seed_def Let_def)
  show ?thesis
    using h assms(2)
    by (auto simp: assms(1) reconciled_status_def reconcile_def compare_snapshots_def Let_def split: option.splits sum.splits)
qed

lemma refresh_blocked:
  assumes "refresh_auctions me configured locked clock before epoch ps a = (Inr x, b)" "au_shards a \<noteq> []"
    and "p \<in> set ps" "\<not> locked p"
  shows "\<not> started_pending (clock p) p (au_db a)"
  using assms(1-3)
proof (induction ps arbitrary: a)
  case (Cons q ps)
  obtain a0 a1 a2 where s: "state_kept a a0" "reload_act locked (clock q) q a0 = (Inr (), a1)"
      "reconciled_status q (k_state (auction_view a1 q)) (au_db a1) = Some ''converged''"
      "renew_act me configured (clock q) epoch a1 = (Inr (), a2)"
      "refresh_auctions me configured locked clock before epoch ps a2 = (Inr x, b)"
    using Cons.prems(1,2) by (rule refresh_Cons)
  have ne: "au_shards a0 \<noteq> []" and db: "au_db a0 = au_db a" using s(1) by (simp_all add: state_kept_def)
  note f = reload_frame [OF s(2) ne, of p] renew_frame [OF s(4)]
  show ?case
  proof (cases "p = q")
    case True
    show ?thesis
    proof
      assume pending: "started_pending (clock p) p (au_db a)"
      then obtain r where r: "db_products (au_db a) p = Some r" by (auto simp: started_pending_def split: option.splits)
      have "k_state (auction_view a1 p) = Some (sd_state (auction_seed (clock p) (au_settings a0) True p r (au_db a)))"
        using reload_state [OF s(2) ne] assms(4) r True db by simp
      from started_pending_diverges [OF this r pending] show False using s(3) f True db by simp
    qed
  next
    case False
    with Cons.IH [OF s(5)] Cons.prems f db show ?thesis by auto
  qed
qed simp

lemma work_pending:
  assumes "recovery_work g env claim trigger targets everywhere a = (Inr (refreshed, seconds), b)" "au_shards a \<noteq> []"
    and "q \<in> set refreshed" "\<not> re_locked env q"
  shows "\<not> started_pending (re_clock env q) q (au_db b)"
proof -
  obtain c where c: "au_shards c \<noteq> []"
    "refresh_auctions (rg_me g) (rg_lease g) (re_locked env) (re_clock env) (\<lambda>p. re_between env (BeforeAuction p)) (ct_epoch claim)
       refreshed c = (Inr (), b)"
    using assms(1,2) by (rule work_refreshed)
  show ?thesis
    using refresh_blocked [OF c(2,1) assms(3,4)] refresh_frame [OF c(2,1)] by simp
qed

text \<open>C7: A started auction whose row is still PENDING keeps a recovery from completing. Nothing but the
  projection of a mutation changes the status in PostgreSQL, while loading the auction promotes it
  in the keys, so the two never reconcile: as long as the row reads PENDING, the start has passed and
  the end has not, no recovery that loads the auction answers ready.\<close>

theorem started_pending_auction_blocks_recovery:
  assumes "perform_recovery g env trigger targets everywhere a = (r, a')" "au_shards a \<noteq> []"
    and "product \<in> set (if everywhere then active_product_ids a' else targets)"
    and "\<not> re_locked env product" "started_pending (re_clock env product) product (au_db a')"
  shows "\<not> (\<exists>rt. r = Inr rt \<and> rt_state rt = ''ready'')"
proof
  assume "\<exists>rt. r = Inr rt \<and> rt_state rt = ''ready''"
  then obtain rt where rt: "r = Inr rt" "rt_state rt = ''ready''" by blast
  obtain claim t w refreshed seconds where w: "au_shards t \<noteq> []"
    "recovery_work g env claim trigger targets everywhere t = (Inr (refreshed, seconds), w)" "state_kept w a'"
    using assms(1) [unfolded rt] rt(2) assms(2) by (rule ready_work)
  have db: "au_db a' = au_db w" "active_product_ids a' = active_product_ids w"
    using w(3) by (simp_all add: state_kept_def active_product_ids_def)
  then have "product \<in> set refreshed" using assms(3) work_Inr [OF w(2,1)] by (auto split: if_splits)
  from work_pending [OF w(2,1) this assms(4)] assms(5) db show False by simp
qed

section \<open>Restored answers\<close>

lemma replay_put:
  assumes "\<not> k_mistyped st" "\<not> k_fence st" "\<not> k_auction_fence st" "clock < expiry"
  shows "mutate_script clock slot rq (put_answer slot stored expiry st) =
    (Some (if rq_fingerprint rq = sr_fingerprint stored then sr_result stored
       else ReplyError ''IDEMPOTENCY_KEY_REUSED'' ''Idempotency key was used for another request'' 409),
     put_answer slot stored expiry st)"
  using assms by (cases stored) (intro replay_found, simp_all add: put_answer_def)

text \<open>A command of the client for a bid or a purchase.\<close>

definition offer_command :: "nat \<Rightarrow> mutation \<Rightarrow> command \<Rightarrow> bool" where
  "offer_command pid x c =
     (case x of
        Bid_by user amount \<Rightarrow> (\<exists>key cid role. c = place_bid_command user pid (show_nat amount) key cid role)
      | Buy_by user amount \<Rightarrow> (\<exists>key cid role. c = buy_now_command user pid (show_nat amount) key cid role)
      | _ \<Rightarrow> False)"

lemma spec_offer_leader:
  assumes "offer_command pid x c" "spec_mutate m x now = Inr m'" "bidding_ok m"
  shows "\<exists>u a. b_leader m' = Some (u, a)"
proof (cases x)
  case (Bid_by user amount)
  then have "spec_bid m user amount now = Inr m'" using assms(2) by (simp add: spec_mutate_def)
  from spec_bid_ok [OF assms(3) this] this show ?thesis
    by (auto simp: bidding_ok_def open_ok_def leader_ok_def spec_bid_Inr tick_def Let_def split: option.splits)
next
  case (Buy_by user amount)
  then show ?thesis using assms(2) by (auto simp: spec_mutate_def spec_buy_now_Inr tick_def)
qed (use assms(1) in \<open>simp_all add: offer_command_def\<close>)

lemma restored_offer:
  assumes "offer_command pid x c" "rq_fingerprint rq = fingerprint c" "asks rq x"
    and "event_shows pid x m m' rq ev" "answers pid x m m' rq d" "b_leader m' = Some (u, a)"
    and "now' - decimal_of (e_occurred_at ev) < ttl" "0 < ttl"
  shows "\<exists>left > 0. restored_record ttl now' (transition_of ev) = Some (rq_idempotency_key rq,
    \<lparr>sr_fingerprint = rq_fingerprint rq, sr_result = ReplySuccess d\<rparr>, left)"
proof -
  note ev = assms(4) [unfolded event_shows_def] and d = assms(5) [unfolded answers_def]
  have "0 < ttl - max 0 (now' - decimal_of (e_occurred_at ev))" using assms(7,8) by simp
  with assms(1-3,6) ev d show ?thesis
    by (cases x)
      (auto simp: offer_command_def restored_record_def transition_of_def operation_of_type_def throttled_def asks_def
        event_kind_def shown_def order_of_def leader_text_def place_bid_command_def buy_now_command_def fingerprint_def
        or_empty_def Let_def)
qed

text \<open>C8: A bidder who retries after a recovery gets the answer of before. When a bid or a purchase was
  accepted and its event projected, the record a recovery restores from the transition carries the
  fingerprint of the command and the script's own answer; once it is stored in the keys, whatever
  else they hold, every run under the same slot before the time to live is over answers so and
  changes nothing.\<close>

theorem restored_offer_replays:
  assumes "represents pid m st" "bidding_ok m" "asks rq x" "in_range (x, now)" "fresh_run clock slot rq st"
    and "rq_product_id rq = pid" "lua_tonumber (rq_now rq) = Some now" "b_sequence m < max_amount" "b_version m < max_amount"
    and "offer_command pid x c" "rq_fingerprint rq = fingerprint c"
    and "mutate_script clock slot rq st = (Some (ReplySuccess d), st')"
    and "now' - decimal_of (e_occurred_at (last (k_stream st'))) < ttl" "0 < ttl"
  shows "\<exists>stored left. restored_record ttl now' (transition_of (last (k_stream st'))) = Some (rq_idempotency_key rq, stored, left)
    \<and> (\<forall>lost clock' rq'. \<not> k_mistyped lost \<and> \<not> k_fence lost \<and> \<not> k_auction_fence lost
         \<and> clock' < now' + left \<and> rq_fingerprint rq' = fingerprint c
         \<longrightarrow> mutate_script clock' slot rq' (put_answer slot stored (now' + left) lost)
              = (Some (ReplySuccess d), put_answer slot stored (now' + left) lost))"
proof -
  obtain m' ev where s: "spec_mutate m x now = Inr m'" "k_stream st' = k_stream st @ [ev]" "event_shows pid x m m' rq ev"
      "answers pid x m m' rq d"
    using script_accepts [OF assms(1-9,12)] by blast
  obtain u a where "b_leader m' = Some (u, a)" using spec_offer_leader [OF assms(10) s(1) assms(2)] by blast
  then obtain left where left: "restored_record ttl now' (transition_of ev) = Some (rq_idempotency_key rq,
      \<lparr>sr_fingerprint = rq_fingerprint rq, sr_result = ReplySuccess d\<rparr>, left)"
    using restored_offer [OF assms(10,11,3) s(3,4) _ _ assms(14)] assms(13) s(2) by auto
  show ?thesis
    by (rule exI [of _ "\<lparr>sr_fingerprint = rq_fingerprint rq, sr_result = ReplySuccess d\<rparr>"], rule exI [of _ left])
       (use left s(2) assms(11) in \<open>auto simp: replay_put\<close>)
qed

text \<open>A cancellation with a reason is not replayed. The restored fingerprint of a CANCEL drops the
  reason the command's fingerprint has, so after a recovery a retry of the same command is refused
  with IDEMPOTENCY_KEY_REUSED.\<close>

theorem restored_cancel_conflicts:
  assumes "c = cancel_command product actor role key cid (Some reason)" "reason \<noteq> ''''"
    and "e_type ev = ''AUCTION_CANCELLED''" "e_product_id ev = show_nat product" "e_actor_id ev = show_nat actor"
    and "restored_record ttl now' (transition_of ev) = Some (key', stored, left)"
    and "\<not> k_mistyped st" "\<not> k_fence st" "\<not> k_auction_fence st" "clock < now' + left" "rq_fingerprint rq = fingerprint c"
  shows "mutate_script clock slot rq (put_answer slot stored (now' + left) st) =
    (Some (ReplyError ''IDEMPOTENCY_KEY_REUSED'' ''Idempotency key was used for another request'' 409),
     put_answer slot stored (now' + left) st)"
proof -
  have "sr_fingerprint stored = join_colon [''CANCEL'', show_nat product, show_nat actor, '''', '''', '''']"
    using assms(3-6) by (auto simp: restored_record_def transition_of_def operation_of_type_def throttled_def Let_def split: if_splits)
  then have "rq_fingerprint rq \<noteq> sr_fingerprint stored"
    using assms(1,2,11) by (simp add: fingerprint_def cancel_command_def join_colon_def)
  with replay_put [OF assms(7-10)] show ?thesis by simp
qed

section \<open>An example\<close>

definition example_shard :: redis_shard where
  "example_shard =
     \<lparr>rs_auctions = (\<lambda>_. forget_auction 7 (store_of 7 mirror_bidding)), rs_foreign = (\<lambda>_ _. None),
      rs_deadlines = Map.empty, rs_fence = False, rs_manifest = None, rs_planned = False\<rparr>"

definition example_runtime :: runtime where
  "example_runtime =
     \<lparr>rt_state = ''checking'', rt_ready = False, rt_epoch = None, rt_trigger = None, rt_error = None, rt_checked = None,
      rt_scope = None, rt_affected = None\<rparr>"

definition example_projector :: "database \<Rightarrow> projector" where
  "example_projector db =
     \<lparr>pj_database = db, pj_shards = (\<lambda>_. \<lparr>sh_entries = [], sh_pending = {}, sh_retries = Map.empty, sh_dlq = []\<rparr>),
      pj_expiring = {}, pj_processed = 0, pj_failed = 0, pj_batches = 0, pj_last_batch = 0\<rparr>"

definition example_authority :: "database \<Rightarrow> authority" where
  "example_authority db =
     \<lparr>au_shards = [example_shard], au_projector = example_projector db, au_ids = [7], au_epochs = (\<lambda>_. 0),
      au_created = (\<lambda>_. 0), au_settings = None, au_control = idle_control, au_runs = Map.empty,
      au_runtime = example_runtime\<rparr>"

definition example_config :: recovery_config where
  "example_config =
     \<lparr>rg_me = ''a'', rg_lease = None, rg_grace = None, rg_ttl = None,
      rg_projector = \<lparr>pc_max_attempts = 5, pc_dlq_maxlen = 100, pc_trim = (\<lambda>_. 0)\<rparr>,
      rg_topics = kafka_topics None None None None None, rg_parse = (\<lambda>_. None), rg_digest = (\<lambda>key. key)\<rparr>"

definition alone :: between where
  "alone = \<lparr>bt_others = [], bt_fault = None\<rparr>"

definition quiet_round :: drain_round where
  "quiet_round = \<lparr>dr_between = alone, dr_now = 400, dr_claimed = [], dr_fresh = [], dr_order = (\<lambda>lanes. lanes), dr_streams = [],
     dr_groups = [(0, Some 0)]\<rparr>"

definition example_env :: "drain_round list \<Rightarrow> recovery_env" where
  "example_env rounds =
     \<lparr>re_claimed_at = 400, re_rounds = rounds, re_extended_at = 400, re_event_ids = (\<lambda>_. ''e''), re_locked = (\<lambda>_. False),
      re_clock = (\<lambda>_. 500), re_completed_at = 600, re_iso = (\<lambda>_. ''t''), re_between = (\<lambda>_. alone), re_set = (\<lambda>_. True),
      re_broken = None, re_manifest = (\<lambda>_. True), re_del = (\<lambda>_. True), re_recorded = True, re_error = ''e''\<rparr>"

definition pending_database :: database where
  "pending_database = mirror_database\<lparr>db_products := [7 \<mapsto> mirror_product\<lparr>pr_status := ''PENDING''\<rparr>]\<rparr>"

definition example_recovery :: "drain_round list \<Rightarrow> database \<Rightarrow> (recovery_error, runtime) result \<times> authority" where
  "example_recovery rounds db =
     perform_recovery example_config (example_env rounds) ''MANIFEST_MISMATCH'' [] True (example_authority db)"

lemma example_completes:
  "(case example_recovery [quiet_round] mirror_database of
      (Inr rt, a') \<Rightarrow> rt_state rt = ''ready'' \<and> active_product_ids a' = [7] | _ \<Rightarrow> False)"
  by code_simp

definition failing_recovery :: "recovery_env \<Rightarrow> (recovery_error, runtime) result \<times> authority" where
  "failing_recovery env = perform_recovery example_config env ''MANIFEST_MISMATCH'' [] True (example_authority mirror_database)"

text \<open>One fails to drain the streams, the other to delete the fence after READY.\<close>

definition late_env :: recovery_env where
  "late_env = (example_env [quiet_round])\<lparr>re_del := (\<lambda>_. False)\<rparr>"

lemma early_failure:
  "(case failing_recovery (example_env []) of (Inl _, a') \<Rightarrow> \<not> k_mistyped (auction_view a' 7) | _ \<Rightarrow> False)"
  by code_simp

lemma late_failure:
  "(case failing_recovery late_env of (Inl _, a') \<Rightarrow> \<not> k_mistyped (auction_view a' 7) | _ \<Rightarrow> False)"
  by code_simp

lemma early_ready: "\<not> reached_ready example_config (example_env []) ''MANIFEST_MISMATCH'' [] True (example_authority mirror_database)"
  by code_simp

lemma late_ready: "reached_ready example_config late_env ''MANIFEST_MISMATCH'' [] True (example_authority mirror_database)"
  by code_simp

lemma example_alone: "others (example_env []) = {}" "others (example_env [quiet_round]) = {}" "others late_env = {}"
  by (simp_all add: others_def example_env_def late_env_def quiet_round_def alone_def)

lemma pending_run:
  "(case example_recovery [quiet_round] pending_database of
      (_, a') \<Rightarrow> started_pending 500 7 (au_db a') \<and> active_product_ids a' = [7])"
  by code_simp

theorem failed_recovery_stays_closed_witness:
  "\<exists>e a' e2 a2. failing_recovery (example_env []) = (Inl e, a') \<and> ct_state (au_control a') = ''FAILED_RETRYING''
     \<and> (\<exists>message. mutate_script 700 ''s'' mirror_request (auction_view a' 7) = (Some (recovering message), auction_view a' 7))
     \<and> failing_recovery late_env = (Inl e2, a2) \<and> ct_state (au_control a2) = ''READY''
     \<and> (\<exists>message. mutate_script 700 ''s'' mirror_request (auction_view a2 7) = (Some (recovering message), auction_view a2 7))"
proof -
  obtain e a' where r: "failing_recovery (example_env []) = (Inl e, a')" "\<not> k_mistyped (auction_view a' 7)"
    using early_failure by (auto split: prod.splits sum.splits)
  obtain e2 a2 where l: "failing_recovery late_env = (Inl e2, a2)" "\<not> k_mistyped (auction_view a2 7)"
    using late_failure by (auto split: prod.splits sum.splits)
  have ne: "au_shards (example_authority mirror_database) \<noteq> []" by (simp add: example_authority_def)
  have points: "bt_fault (re_between (example_env rounds) point) = None" "bt_fault (re_between late_env point) = None"
    "re_set (example_env rounds) key" "\<not> re_del late_env key" "re_recorded (example_env rounds)" "re_recorded late_env" for rounds point key
    by (simp_all add: example_env_def late_env_def alone_def)
  have quiet: "never_lifted (example_env []) scope key" "never_lifted late_env scope key" "undisturbed (example_env [])" "undisturbed late_env" for scope key
    by (simp_all add: never_lifted_def undisturbed_def example_alone)
  note facts = early_ready late_ready points quiet shut_on_failure_def
  from failed_recovery_stays_closed [OF r(1) [unfolded failing_recovery_def] ne, of 7 700 "''s''" mirror_request] r(2)
  have "ct_state (au_control a') = ''FAILED_RETRYING''
      \<and> (\<exists>message. mutate_script 700 ''s'' mirror_request (auction_view a' 7) = (Some (recovering message), auction_view a' 7))"
    by (auto simp: facts)
  moreover from failed_recovery_stays_closed [OF l(1) [unfolded failing_recovery_def] ne, of 7 700 "''s''" mirror_request] l(2)
  have "ct_state (au_control a2) = ''READY''
      \<and> (\<exists>message. mutate_script 700 ''s'' mirror_request (auction_view a2 7) = (Some (recovering message), auction_view a2 7))"
    by (auto simp: facts)
  ultimately show ?thesis using r(1) l(1) by blast
qed


theorem started_pending_auction_blocks_recovery_witness:
  "\<not> (\<exists>rt. fst (example_recovery [quiet_round] pending_database) = Inr rt \<and> rt_state rt = ''ready'')"
proof -
  obtain r a' where r: "example_recovery [quiet_round] pending_database = (r, a')" by force
  from pending_run r have "started_pending 500 7 (au_db a')" "active_product_ids a' = [7]" by auto
  with started_pending_auction_blocks_recovery [OF r [unfolded example_recovery_def], of 7] r show ?thesis
    by (auto simp: example_authority_def example_env_def)
qed

lemma restored_left:
  "restored_record ttl now tr = Some (key, stored, left) \<Longrightarrow> left = ttl - max 0 (now - decimal_of (e_occurred_at (tr_payload tr)))"
  by (auto simp: restored_record_def Let_def split: option.splits if_splits)

definition offer_request :: request where
  "offer_request = mirror_request\<lparr>rq_fingerprint := fingerprint (place_bid_command 3 7 (show_nat 200) ''i1'' ''c1'' None)\<rparr>"

lemma offer_event: "last_event_of offer_request = Some (example_event\<lparr>e_idempotency_key := ''i1''\<rparr>)"
  by code_simp

lemma offer_facts:
  "fresh_run 0 ''s'' offer_request (store_of 7 mirror_bidding)" "asks offer_request (Bid_by 3 200)"
  "rq_product_id offer_request = 7" "lua_tonumber (rq_now offer_request) = Some 500"
  "rq_fingerprint offer_request = fingerprint (place_bid_command 3 7 (show_nat 200) ''i1'' ''c1'' None)"
  using mirror_facts(1,3,5,7)
  by (simp_all add: offer_request_def fresh_run_def find_replay_def within_rate_def asks_def store_of_def live_def)

theorem restored_offer_replays_witness:
  "\<exists>d st' stored left. mutate_script 0 ''s'' offer_request (store_of 7 mirror_bidding) = (Some (ReplySuccess d), st')
     \<and> restored_record 86400000 600 (transition_of (last (k_stream st'))) = Some (''i1'', stored, left)
     \<and> fst (mutate_script 700 ''s'' offer_request (put_answer ''s'' stored (600 + left) (store_of 7 mirror_bidding)))
         = Some (ReplySuccess d)"
proof -
  obtain d st' where r: "mutate_script 0 ''s'' offer_request (store_of 7 mirror_bidding) = (Some (ReplySuccess d), st')"
      "last (k_stream st') = example_event\<lparr>e_idempotency_key := ''i1''\<rparr>"
    using offer_event by (auto simp: last_event_of_def split: option.splits reply.splits prod.splits)
  have rep: "represents 7 mirror_bidding (store_of 7 mirror_bidding)" using mirror_in_step by (simp add: in_step_def)
  have cmd: "offer_command 7 (Bid_by 3 200) (place_bid_command 3 7 (show_nat 200) ''i1'' ''c1'' None)"
    by (auto simp: offer_command_def)
  have range: "in_range (Bid_by 3 200, 500)" by (simp add: in_range_def rank_bound_def)
  have age: "600 - decimal_of (e_occurred_at (last (k_stream st'))) < 86400000"
    unfolding r(2) decimal_of_def by simp
  have key: "rq_idempotency_key offer_request = ''i1''"
    by (simp add: offer_request_def mirror_request_def example_request_def)
  obtain stored left where s: "restored_record 86400000 600 (transition_of (last (k_stream st'))) = Some (''i1'', stored, left)"
      "\<forall>lost clock' rq'. \<not> k_mistyped lost \<and> \<not> k_fence lost \<and> \<not> k_auction_fence lost
         \<and> clock' < 600 + left \<and> rq_fingerprint rq' = fingerprint (place_bid_command 3 7 (show_nat 200) ''i1'' ''c1'' None)
         \<longrightarrow> mutate_script clock' ''s'' rq' (put_answer ''s'' stored (600 + left) lost)
              = (Some (ReplySuccess d), put_answer ''s'' stored (600 + left) lost)"
    using restored_offer_replays [OF rep mirror_bidding_ok offer_facts(2) range offer_facts(1,3,4) mirror_facts(9,10) cmd
        offer_facts(5) r(1) age] unfolding key by auto
  have "700 < 600 + left"
    using restored_left [OF s(1)] by (simp add: r(2) transition_of_def example_event_def)
  then show ?thesis using r(1) s offer_facts(5) by (auto simp: store_of_def)
qed

theorem restored_cancel_conflicts_witness:
  "\<exists>stored left. fst (mutate_script 700 ''s'' (mirror_request\<lparr>rq_fingerprint := fingerprint (cancel_command 7 4 ''user'' ''i1'' ''c1'' (Some ''late''))\<rparr>)
      (put_answer ''s'' stored (600 + left) (store_of 7 mirror_bidding)))
    = Some (ReplyError ''IDEMPOTENCY_KEY_REUSED'' ''Idempotency key was used for another request'' 409)"
proof -
  let ?ev = "example_event\<lparr>e_type := ''AUCTION_CANCELLED'', e_actor_id := show_nat 4, e_reason := Some ''late''\<rparr>"
  obtain key stored left where r: "restored_record 86400000 600 (transition_of ?ev) = Some (key, stored, left)" "700 < 600 + left"
    by (simp add: restored_record_def transition_of_def operation_of_type_def throttled_def example_event_def decimal_of_def)
  have "e_product_id ?ev = show_nat 7" "e_actor_id ?ev = show_nat 4" by (simp_all add: example_event_def)
  from restored_cancel_conflicts [OF refl _ _ this r(1) _ _ _ r(2), where reason = "''late''" and role = "''user''" and key = "''i1''"
      and cid = "''c1''" and st = "store_of 7 mirror_bidding" and slot = "''s''"
      and rq = "mirror_request\<lparr>rq_fingerprint := fingerprint (cancel_command 7 4 ''user'' ''i1'' ''c1'' (Some ''late''))\<rparr>"]
  show ?thesis by (intro exI [of _ stored] exI [of _ left]) (simp add: store_of_def)
qed

end
