(* ===== verification/Outbox_Relay.thy ===== *)
theory Outbox_Relay
  imports Recovery
begin

text \<open>
  The relay of the outbox to Kafka (outbox-relay.worker.ts). A row of the outbox is claimed with a
  lease, checked, published with the other rows of its topic in one request to the broker, and
  marked delivered, terminal, or due again after a delay. The broker is the argument \<open>publish\<close>:
  it accepts all batches of a request or gives an error. The relay loop and its heartbeat repeat
  \<open>relay_batch\<close>.
\<close>

section \<open>Rows\<close>

record relay_row =
  ry_id :: nat
  ry_event_id :: string
  ry_event_type :: string
  ry_event_version :: int
  ry_aggregate_id :: string
  ry_payload :: "json option"
  ry_topic :: string
  ry_correlation_id :: string
  ry_causation_id :: "string option"
  ry_occurred_at :: int
  ry_attempts :: int
  ry_available_at :: int
  ry_delivered_at :: "int option"
  ry_terminal_at :: "int option"
  ry_last_error :: "string option"

text \<open>\<open>/^[a-z][a-z0-9_]*(?:\.[a-z0-9_]+)*\.v[1-9]\d*$/\<close>: segments between dots, the last one a
  version.\<close>

definition is_lower :: "char \<Rightarrow> bool" where
  "is_lower c = (let n = (of_char c :: nat) in 97 \<le> n \<and> n \<le> 122)"

definition is_word :: "char \<Rightarrow> bool" where
  "is_word c = (is_lower c \<or> is_digit c \<or> c = CHR ''_'')"

fun split_dots :: "string \<Rightarrow> string list" where
  "split_dots [] = [[]]"
| "split_dots (c # cs) =
     (if c = CHR ''.'' then [] # split_dots cs
      else (case split_dots cs of [] \<Rightarrow> [[c]] | s # ss \<Rightarrow> (c # s) # ss))"

fun version_segment :: "string \<Rightarrow> bool" where
  "version_segment (v # d # ds) = (v = CHR ''v'' \<and> is_digit d \<and> d \<noteq> CHR ''0'' \<and> digits ds)"
| "version_segment _ = False"

definition event_type_pattern :: "string \<Rightarrow> bool" where
  "event_type_pattern s =
     (let segments = split_dots s
      in 2 \<le> length segments \<and> version_segment (last segments)
         \<and> list_all (\<lambda>p. p \<noteq> [] \<and> list_all is_word p) (butlast segments)
         \<and> is_lower (hd (hd segments)))"

definition outbox_retry_delay_ms :: "int \<Rightarrow> int \<Rightarrow> int" where
  "outbox_retry_delay_ms attempt max_backoff = min max_backoff (1000 * 2 ^ nat (min (max 0 (attempt - 1)) 16))"

definition validate_relay_row :: "topics \<Rightarrow> relay_row \<Rightarrow> string option" where
  "validate_relay_row tp r =
     (if ry_topic r \<notin> relay_topics tp then Some (''Unsupported outbox topic: '' @ ry_topic r)
      else if \<not> event_type_pattern (ry_event_type r) then Some (''Invalid event type: '' @ ry_event_type r)
      else if ry_event_version r < 1 then Some ''Invalid event version''
      else if ry_aggregate_id r = '''' \<or> ry_correlation_id r = '''' \<or> ry_event_id r = '''' then Some ''Invalid event envelope''
      else if \<not> (case ry_payload r of Some (JObject _) \<Rightarrow> True | _ \<Rightarrow> False) then Some ''Invalid event payload''
      else None)"

section \<open>One batch\<close>

definition claimable :: "nat set \<Rightarrow> int \<Rightarrow> relay_row \<Rightarrow> bool" where
  "claimable locked now r =
     (ry_delivered_at r = None \<and> ry_terminal_at r = None \<and> ry_available_at r \<le> now \<and> ry_id r \<notin> locked)"

text \<open>\<open>locked\<close> are the rows other transactions hold (SKIP LOCKED). The rows are in the order of
  their ids; the claimed ones are returned as they were read.\<close>

definition claim_outbox_rows :: "nat set \<Rightarrow> nat \<Rightarrow> int \<Rightarrow> int \<Rightarrow> relay_row list \<Rightarrow> relay_row list \<times> relay_row list" where
  "claim_outbox_rows locked limit lease now rows =
     (let claimed = take limit (filter (claimable locked now) rows)
      in (claimed, map (\<lambda>r. if ry_id r \<in> ry_id ` set claimed
            then r\<lparr>ry_attempts := ry_attempts r + 1, ry_available_at := now + lease\<rparr> else r) rows))"

definition mark_terminal :: "int \<Rightarrow> string \<Rightarrow> relay_row \<Rightarrow> relay_row" where
  "mark_terminal now reason r =
     (if ry_delivered_at r = None
      then r\<lparr>ry_terminal_at := Some now, ry_last_error := Some (take 2000 reason)\<rparr> else r)"

definition undecided :: "relay_row \<Rightarrow> bool" where
  "undecided r = (ry_delivered_at r = None \<and> ry_terminal_at r = None)"

text \<open>The delay counts from the attempts the row had when it was claimed.\<close>

definition mark_retry :: "int \<Rightarrow> int \<Rightarrow> string \<Rightarrow> int \<Rightarrow> relay_row \<Rightarrow> relay_row" where
  "mark_retry now max_backoff message attempts r =
     (if undecided r
      then r\<lparr>ry_available_at := now + outbox_retry_delay_ms (attempts + 1) max_backoff,
             ry_last_error := Some (take 2000 message)\<rparr> else r)"

definition mark_delivered :: "int \<Rightarrow> relay_row \<Rightarrow> relay_row" where
  "mark_delivered now r = (if undecided r then r\<lparr>ry_delivered_at := Some now, ry_last_error := None\<rparr> else r)"

definition relay_envelope :: "relay_row \<Rightarrow> envelope" where
  "relay_envelope r = create_event_envelope '''' '''' 0
     \<lparr>ei_event_id = Some (ry_event_id r), ei_event_type = ry_event_type r, ei_event_version = Some (ry_event_version r),
      ei_aggregate_id = ry_aggregate_id r, ei_occurred_at = Some (ry_occurred_at r),
      ei_correlation_id = Some (ry_correlation_id r), ei_causation_id = ry_causation_id r,
      ei_payload = coalesce (ry_payload r) JNull\<rparr>"

definition message_of :: "relay_row \<Rightarrow> string \<times> json" where
  "message_of r = (ry_aggregate_id r, envelope_json (relay_envelope r))"

text \<open>\<open>groups.set(topic, [...(groups.get(topic) ?? []), row])\<close>.\<close>

definition topic_batches :: "relay_row list \<Rightarrow> (string \<times> (string \<times> json) list) list" where
  "topic_batches rows = map (\<lambda>(topic, group). (topic, map message_of group)) (lanes_of ry_topic rows)"

definition update_ids :: "nat set \<Rightarrow> (relay_row \<Rightarrow> relay_row) \<Rightarrow> relay_row list \<Rightarrow> relay_row list" where
  "update_ids ids f rows = map (\<lambda>r. if ry_id r \<in> ids then f r else r) rows"

definition mark_invalid :: "topics \<Rightarrow> int \<Rightarrow> relay_row list \<Rightarrow> relay_row list \<Rightarrow> relay_row list" where
  "mark_invalid tp now claimed rows =
     fold (\<lambda>c. case validate_relay_row tp c of None \<Rightarrow> id | Some reason \<Rightarrow> update_ids {ry_id c} (mark_terminal now reason)) claimed rows"

definition relay_batch ::
    "topics \<Rightarrow> ((string \<times> (string \<times> json) list) list \<Rightarrow> (string, unit) result) \<Rightarrow> nat set \<Rightarrow> nat \<Rightarrow> int \<Rightarrow> int \<Rightarrow> int \<Rightarrow> int
     \<Rightarrow> relay_row list \<Rightarrow> nat \<times> relay_row list" where
  "relay_batch tp publish locked batch_size lease max_backoff now later rows =
     (let (claimed, rows1) = claim_outbox_rows locked batch_size lease now rows;
          valid = filter (\<lambda>r. validate_relay_row tp r = None) claimed;
          rows2 = mark_invalid tp later claimed rows1
      in (length claimed,
          if valid = [] then rows2
          else case publish (topic_batches valid) of
            Inr _ \<Rightarrow> update_ids (ry_id ` set valid) (mark_delivered later) rows2
          | Inl message \<Rightarrow>
              fold (\<lambda>c. update_ids {ry_id c} (mark_retry later max_backoff message (ry_attempts c))) valid rows2))"

section \<open>Delays\<close>

lemma delay_power: "(1::int) \<le> 2 ^ n" by simp

text \<open>The delay of a retry is bounded. It starts at a second, never exceeds the maximum, does not
  fall from one attempt to the next, and stays at the value of the seventeenth attempt from there
  on, so the power never grows beyond 2 to the 16.\<close>

theorem outbox_delay_bounds:
  assumes "1000 \<le> max_backoff"
  shows "1000 \<le> outbox_retry_delay_ms attempt max_backoff \<and> outbox_retry_delay_ms attempt max_backoff \<le> max_backoff
    \<and> outbox_retry_delay_ms attempt max_backoff \<le> outbox_retry_delay_ms (attempt + 1) max_backoff
    \<and> outbox_retry_delay_ms attempt max_backoff \<le> 65536000
    \<and> (17 \<le> attempt \<longrightarrow> outbox_retry_delay_ms attempt max_backoff = min max_backoff 65536000)"
proof -
  let ?n = "\<lambda>a. nat (min (max 0 (a - 1)) 16)"
  have "(2::int) ^ ?n attempt \<le> 2 ^ ?n (attempt + 1)" by (intro power_increasing) auto
  moreover have "(2::int) ^ ?n attempt \<le> 2 ^ 16" by (intro power_increasing) auto
  moreover have "?n attempt = 16" if "17 \<le> attempt" using that by auto
  ultimately show ?thesis
    using assms delay_power [of "?n attempt"] by (auto simp: outbox_retry_delay_ms_def min_le_iff_disj)
qed

theorem outbox_delay_bounds_witness: "outbox_retry_delay_ms 3 300000 = 4000 \<and> outbox_retry_delay_ms 40 300000 \<le> 300000"
  using outbox_delay_bounds [of 300000 40] by (simp add: outbox_retry_delay_ms_def)

section \<open>The fate of a row\<close>

lemma fold_update_ids:
  assumes "distinct (map ry_id cs)" "\<And>c r. ry_id (f c r) = ry_id r"
  shows "fold (\<lambda>c. update_ids {ry_id c} (f c)) cs rows
    = map (\<lambda>r. case find (\<lambda>c. ry_id c = ry_id r) cs of None \<Rightarrow> r | Some c \<Rightarrow> f c r) rows"
  using assms(1)
proof (induction cs arbitrary: rows)
  case (Cons c cs)
  have none: "find (\<lambda>c'. ry_id c' = ry_id c) cs = None" unfolding find_None_iff using Cons.prems by (metis distinct.simps(2) image_eqI list.set_map list.simps(9))
  have "fold (\<lambda>c. update_ids {ry_id c} (f c)) (c # cs) rows
      = map (\<lambda>r. case find (\<lambda>c. ry_id c = ry_id r) cs of None \<Rightarrow> r | Some c \<Rightarrow> f c r) (update_ids {ry_id c} (f c) rows)"
    using Cons by simp
  also have "\<dots> = map (\<lambda>r. case find (\<lambda>c. ry_id c = ry_id r) (c # cs) of None \<Rightarrow> r | Some c \<Rightarrow> f c r) rows"
    using none assms(2) by (auto simp: update_ids_def)
  finally show ?case .
qed simp

text \<open>What a batch makes of one row; \<open>claimed\<close> says whether it was claimed.\<close>

definition relay_fate :: "topics \<Rightarrow> (string, unit) result \<Rightarrow> int \<Rightarrow> int \<Rightarrow> int \<Rightarrow> int \<Rightarrow> bool \<Rightarrow> relay_row \<Rightarrow> relay_row" where
  "relay_fate tp sent lease max_backoff now later claimed r =
     (if \<not> claimed then r
      else let r1 = r\<lparr>ry_attempts := ry_attempts r + 1, ry_available_at := now + lease\<rparr>
           in case validate_relay_row tp r of
                Some reason \<Rightarrow> mark_terminal later reason r1
              | None \<Rightarrow> (case sent of
                  Inr _ \<Rightarrow> mark_delivered later r1
                | Inl message \<Rightarrow> mark_retry later max_backoff message (ry_attempts r) r1))"

lemma find_by_id:
  assumes "distinct (map ry_id rows)" "r \<in> set rows" "set cs \<subseteq> set rows"
  shows "find (\<lambda>c. ry_id c = ry_id r) cs = (if r \<in> set cs then Some r else None)"
  using assms
proof (induction cs)
  case (Cons c cs)
  then have "ry_id c = ry_id r \<longleftrightarrow> c = r" by (auto dest: distinct_map [THEN iffD1] simp: inj_on_def distinct_map)
  with Cons show ?case by auto
qed simp

lemma mark_invalid_map:
  assumes "distinct (map ry_id cs)"
  shows "mark_invalid tp now cs rows = map (\<lambda>r. case find (\<lambda>c. ry_id c = ry_id r) cs of None \<Rightarrow> r
    | Some c \<Rightarrow> (case validate_relay_row tp c of None \<Rightarrow> r | Some reason \<Rightarrow> mark_terminal now reason r)) rows"
proof -
  have "(\<lambda>c. case validate_relay_row tp c of None \<Rightarrow> id | Some reason \<Rightarrow> update_ids {ry_id c} (mark_terminal now reason))
      = (\<lambda>c. update_ids {ry_id c} (\<lambda>r. case validate_relay_row tp c of None \<Rightarrow> r | Some reason \<Rightarrow> mark_terminal now reason r))"
    by (auto simp: update_ids_def fun_eq_iff map_idI split: option.splits)
  then have "mark_invalid tp now cs rows = fold (\<lambda>c. update_ids {ry_id c} (\<lambda>r. case validate_relay_row tp c of
      None \<Rightarrow> r | Some reason \<Rightarrow> mark_terminal now reason r)) cs rows"
    by (simp add: mark_invalid_def)
  also have "\<dots> = map (\<lambda>r. case find (\<lambda>c. ry_id c = ry_id r) cs of None \<Rightarrow> r
    | Some c \<Rightarrow> (case validate_relay_row tp c of None \<Rightarrow> r | Some reason \<Rightarrow> mark_terminal now reason r)) rows"
    by (rule fold_update_ids [OF assms]) (auto simp: mark_terminal_def split: option.splits)
  finally show ?thesis .
qed

lemma relay_batch_rows:
  fixes rows :: "relay_row list" and now :: int and locked :: "nat set" and batch_size :: nat and tp :: topics
  assumes "distinct (map ry_id rows)"
  defines "claimed \<equiv> take batch_size (filter (claimable locked now) rows)"
  defines "valid \<equiv> filter (\<lambda>r. validate_relay_row tp r = None) claimed"
  shows "relay_batch tp publish locked batch_size lease max_backoff now later rows = (length claimed,
    map (\<lambda>r. relay_fate tp (publish (topic_batches valid)) lease max_backoff now later (r \<in> set claimed) r) rows)"
proof -
  have sub: "set claimed \<subseteq> set rows" "set valid \<subseteq> set rows" by (auto simp: claimed_def valid_def dest: in_set_takeD)
  have dist: "distinct (map ry_id claimed)" "distinct (map ry_id valid)"
    using assms(1) by (auto simp: claimed_def valid_def take_map [symmetric] distinct_map_filter)
  let ?claim = "\<lambda>r. if r \<in> set claimed then r\<lparr>ry_attempts := ry_attempts r + 1, ry_available_at := now + lease\<rparr> else r"
  have ids: "ry_id r \<in> ry_id ` set cs \<longleftrightarrow> r \<in> set cs" if "set cs \<subseteq> set rows" "r \<in> set rows" for cs r
    using that assms(1) by (auto simp: distinct_map inj_on_def)
  have rows1: "claim_outbox_rows locked batch_size lease now rows = (claimed, map ?claim rows)"
    using ids [OF sub(1)] by (auto simp: claim_outbox_rows_def Let_def simp flip: claimed_def)
  have find: "find (\<lambda>c. ry_id c = ry_id (?claim r)) cs = (if r \<in> set cs then Some r else None)"
    if "r \<in> set rows" "set cs \<subseteq> set rows" for r cs
    using find_by_id [OF assms(1) that] by simp
  have in_valid: "r \<in> set valid \<longleftrightarrow> r \<in> set claimed \<and> validate_relay_row tp r = None" for r by (simp add: valid_def)
  have kept: "ry_id (mark_retry later max_backoff m k r) = ry_id r" "ry_id (mark_terminal later s r) = ry_id r" for m k s r
    by (simp_all add: mark_retry_def mark_terminal_def)
  define rows2 where "rows2 = mark_invalid tp later claimed (map ?claim rows)"
  have rows2: "rows2 = map (\<lambda>r. if r \<in> set claimed then case validate_relay_row tp r of None \<Rightarrow> ?claim r
      | Some reason \<Rightarrow> mark_terminal later reason (?claim r) else r) rows"
    using find [OF _ sub(1)] by (auto simp: rows2_def mark_invalid_map [OF dist(1)])
  have rows2_ids: "ry_id (if r \<in> set claimed then case validate_relay_row tp r of None \<Rightarrow> ?claim r
      | Some reason \<Rightarrow> mark_terminal later reason (?claim r) else r) = ry_id r" for r
    by (simp add: kept split: option.split)
  let ?fate = "\<lambda>r. relay_fate tp (publish (topic_batches valid)) lease max_backoff now later (r \<in> set claimed) r"
  have "(if valid = [] then rows2
      else case publish (topic_batches valid) of
        Inr _ \<Rightarrow> update_ids (ry_id ` set valid) (mark_delivered later) rows2
      | Inl message \<Rightarrow> fold (\<lambda>c. update_ids {ry_id c} (mark_retry later max_backoff message (ry_attempts c))) valid rows2)
    = map ?fate rows"
  proof (cases "valid = []")
    case True
    then have "\<forall>r \<in> set claimed. validate_relay_row tp r \<noteq> None" by (auto simp: valid_def filter_empty_conv)
    with True show ?thesis by (auto simp: rows2 relay_fate_def)
  next
    case False
    show ?thesis
    proof (cases "publish (topic_batches valid)")
      case (Inl m)
      have "fold (\<lambda>c. update_ids {ry_id c} (mark_retry later max_backoff m (ry_attempts c))) valid rows2
          = map (\<lambda>r. case find (\<lambda>c. ry_id c = ry_id r) valid of None \<Rightarrow> r
              | Some c \<Rightarrow> mark_retry later max_backoff m (ry_attempts c) r) rows2"
        by (rule fold_update_ids [OF dist(2)]) (simp add: kept)
      also have "\<dots> = map ?fate rows"
        using find_by_id [OF assms(1) _ sub(2)] in_valid Inl by (auto simp: rows2 rows2_ids relay_fate_def split: option.splits)
      finally show ?thesis using False Inl by simp
    next
      case (Inr u)
      have "update_ids (ry_id ` set valid) (mark_delivered later) rows2 = map ?fate rows"
        using ids [OF sub(2)] in_valid Inr by (auto simp: update_ids_def rows2 rows2_ids relay_fate_def split: option.splits)
      with False Inr show ?thesis by simp
    qed
  qed
  then show ?thesis
    unfolding relay_batch_def rows1 Let_def prod.case valid_def [symmetric] rows2_def [symmetric] by simp
qed

lemma relay_lanes_members: "x \<in> set items \<longleftrightarrow> (\<exists>k lane. (k, lane) \<in> set (lanes_of key_of items) \<and> x \<in> set lane)"
proof -
  have "x \<in> set items \<longleftrightarrow> x \<in> set (only key_of (key_of x) items)" by (simp add: only_def)
  also have "\<dots> \<longleftrightarrow> x \<in> set (only key_of (key_of x) (concat (map snd (lanes_of key_of items))))" by (simp add: lanes_of_only)
  also have "\<dots> \<longleftrightarrow> (\<exists>k lane. (k, lane) \<in> set (lanes_of key_of items) \<and> x \<in> set lane)" by (force simp: only_def)
  finally show ?thesis .
qed

lemma topic_batch_of:
  assumes "r \<in> set valid"
  shows "\<exists>ms. (ry_topic r, ms) \<in> set (topic_batches valid) \<and> message_of r \<in> set ms"
proof -
  obtain k lane where l: "(k, lane) \<in> set (lanes_of ry_topic valid)" "r \<in> set lane"
    using assms relay_lanes_members by metis
  then have "k = ry_topic r" using lanes_of_well [of ry_topic valid] by (auto simp: well_laned_def)
  with l show ?thesis by (force simp: topic_batches_def)
qed

text \<open>C24: The relay loses no row and publishes none it has not checked. A batch leaves a row alone, or
  claims it and counts the attempt; then the row is terminal because a check failed, or delivered
  because the broker accepted a request with its envelope under its topic and aggregate, or still
  undelivered and due again after the delay of that attempt, also when only the rest of the request
  failed.\<close>

theorem relay_loses_no_row:
  assumes "distinct (map ry_id rows)" "relay_batch tp publish locked batch_size lease max_backoff now later rows = (n, rows')"
    and "i < length rows" "r = rows ! i" "r' = rows' ! i"
  shows "r' = r
    \<or> claimable locked now r \<and> ry_id r' = ry_id r \<and> ry_attempts r' = ry_attempts r + 1
      \<and> (case validate_relay_row tp r of
           Some reason \<Rightarrow> ry_terminal_at r' = Some later \<and> ry_delivered_at r' = None
         | None \<Rightarrow>
             ry_terminal_at r' = None
             \<and> (ry_delivered_at r' = Some later
                  \<and> (\<exists>batches ms. publish batches = Inr () \<and> (ry_topic r, ms) \<in> set batches \<and> message_of r \<in> set ms)
                \<or> ry_delivered_at r' = None
                  \<and> ry_available_at r' = later + outbox_retry_delay_ms (ry_attempts r') max_backoff))"
proof -
  let ?claimed = "take batch_size (filter (claimable locked now) rows)"
  let ?valid = "filter (\<lambda>r. validate_relay_row tp r = None) ?claimed"
  have r': "r' = relay_fate tp (publish (topic_batches ?valid)) lease max_backoff now later (r \<in> set ?claimed) r"
    using relay_batch_rows [OF assms(1)] assms(2-5) by (metis (no_types, lifting) nth_map prod.inject)
  show ?thesis
  proof (cases "r \<in> set ?claimed")
    case True
    then have c: "claimable locked now r" by (auto dest: in_set_takeD)
    show ?thesis
    proof (cases "validate_relay_row tp r")
      case None
      then have "r \<in> set ?valid" using True by simp
      from topic_batch_of [OF this] obtain ms where "(ry_topic r, ms) \<in> set (topic_batches ?valid)" "message_of r \<in> set ms"
        by blast
      then have sent: "publish (topic_batches ?valid) = Inr () \<Longrightarrow>
          \<exists>batches ms. publish batches = Inr () \<and> (ry_topic r, ms) \<in> set batches \<and> message_of r \<in> set ms"
        by blast
      show ?thesis
      proof (cases "publish (topic_batches ?valid)")
        case (Inl m)
        with c None True show ?thesis
          by (simp add: r' relay_fate_def mark_retry_def undecided_def claimable_def)
      next
        case (Inr u)
        with c None True sent show ?thesis
          by (simp add: r' relay_fate_def mark_delivered_def undecided_def claimable_def)
      qed
    qed (use c True in \<open>simp add: r' relay_fate_def mark_terminal_def claimable_def\<close>)
  qed (simp add: r' relay_fate_def)
qed

text \<open>C25: The event of a recovery is never published. Its type has no version, which the relay's check
  requires, so a batch that claims such a row ends it, and none delivers it.\<close>

theorem recovery_event_never_published:
  assumes "distinct (map ry_id rows)" "relay_batch tp publish locked batch_size lease max_backoff now later rows = (n, rows')"
    and "i < length rows" "ry_event_type (rows ! i) = ob_event_type (recovered_outbox event_id topic product epoch seconds)"
    and "undecided (rows ! i)"
  shows "ry_delivered_at (rows' ! i) = None
    \<and> (rows ! i \<in> set (fst (claim_outbox_rows locked batch_size lease now rows)) \<longrightarrow> ry_terminal_at (rows' ! i) = Some later)"
proof -
  let ?claimed = "take batch_size (filter (claimable locked now) rows)"
  have "\<not> event_type_pattern (ry_event_type (rows ! i))" unfolding assms(4) by (simp add: recovered_outbox_def) code_simp
  then have "validate_relay_row tp (rows ! i) \<noteq> None" by (simp add: validate_relay_row_def)
  then obtain reason where reason: "validate_relay_row tp (rows ! i) = Some reason" by blast
  have r': "rows' ! i = relay_fate tp (publish (topic_batches (filter (\<lambda>r. validate_relay_row tp r = None) ?claimed)))
      lease max_backoff now later (rows ! i \<in> set ?claimed) (rows ! i)"
    using relay_batch_rows [OF assms(1)] assms(2,3) by (metis (no_types, lifting) nth_map prod.inject)
  with assms(5) show ?thesis
    by (auto simp: relay_fate_def reason mark_terminal_def undecided_def claim_outbox_rows_def Let_def)
qed

section \<open>An example\<close>

definition example_row :: "nat \<Rightarrow> string \<Rightarrow> relay_row" where
  "example_row i kind =
     \<lparr>ry_id = i, ry_event_id = ''e'', ry_event_type = kind, ry_event_version = 1, ry_aggregate_id = ''7'',
      ry_payload = Some (JObject []), ry_topic = ''domain_events'', ry_correlation_id = ''c'', ry_causation_id = None,
      ry_occurred_at = 0, ry_attempts = 0, ry_available_at = 0, ry_delivered_at = None, ry_terminal_at = None,
      ry_last_error = None\<rparr>"

theorem relay_loses_no_row_witness:
  "(\<exists>n rows'. relay_batch (kafka_topics None None None None None) (\<lambda>_. Inl ''down'') {} 10 30000 300000 100 200
     [example_row 1 ''auction.closed.v1''] = (n, rows') \<and> ry_delivered_at (rows' ! 0) = None
     \<and> ry_available_at (rows' ! 0) = 200 + outbox_retry_delay_ms (ry_attempts (rows' ! 0)) 300000)"
proof -
  let ?rows = "[example_row 1 ''auction.closed.v1'']"
  have "\<exists>n r'. relay_batch (kafka_topics None None None None None) (\<lambda>_. Inl ''down'') {} 10 30000 300000 100 200 ?rows = (n, [r'])
      \<and> r' \<noteq> example_row 1 ''auction.closed.v1'' \<and> validate_relay_row (kafka_topics None None None None None) (example_row 1 ''auction.closed.v1'') = None"
  proof -
    have "validate_relay_row (kafka_topics None None None None None) (example_row 1 ''auction.closed.v1'') = None" by code_simp
    then show ?thesis
      by (simp add: relay_batch_rows relay_fate_def claimable_def example_row_def mark_retry_def undecided_def)
  qed
  then obtain n r' where b: "relay_batch (kafka_topics None None None None None) (\<lambda>_. Inl ''down'') {} 10 30000 300000 100 200 ?rows = (n, [r'])"
      "r' \<noteq> example_row 1 ''auction.closed.v1''"
      "validate_relay_row (kafka_topics None None None None None) (example_row 1 ''auction.closed.v1'') = None"
    by blast
  from relay_loses_no_row [OF _ b(1), of 0 "example_row 1 ''auction.closed.v1''" r'] b
  show ?thesis by auto
qed

theorem recovery_event_never_published_witness:
  "\<exists>n rows'. relay_batch (kafka_topics None None None None None) (\<lambda>_. Inr ()) {} 10 30000 300000 100 200
     [example_row 2 ''auction.authority_recovered''] = (n, rows') \<and> ry_delivered_at (rows' ! 0) = None \<and> ry_terminal_at (rows' ! 0) = Some 200"
proof -
  obtain n rows' where b: "relay_batch (kafka_topics None None None None None) (\<lambda>_. Inr ()) {} 10 30000 300000 100 200
     [example_row 2 ''auction.authority_recovered''] = (n, rows')" by force
  from recovery_event_never_published [OF _ b, of 0] b show ?thesis
    by (simp add: recovered_outbox_def example_row_def undecided_def claim_outbox_rows_def claimable_def Let_def)
qed

end
