(* ===== verification/Notifications.thy ===== *)
theory Notifications
  imports Postgres_Store Worker_Pool
begin

text \<open>
  From published events to queued mails (notification-consumer.worker.ts, notification.service.ts):
  which mails an event asks for, the transaction that queues them with the receipt of the event, the
  handling of one Kafka message with its retries, and a batch with its commit. The HTML templates
  are kept as terms (\<open>mail\<close>); rendering them, SHA-256 and the slug of a product name are
  arguments.
\<close>

section \<open>Tables\<close>

record person =
  us_email :: string
  us_name :: string

record listing =
  li_name :: "string option"
  li_price :: "int option"
  li_seller :: int
  li_owner :: "int option"

record question =
  qu_product :: int
  qu_user :: int
  qu_content :: "string option"
  qu_parent :: "int option"

record event_receipt =
  er_topic :: string
  er_type :: string
  er_version :: int
  er_aggregate :: string
  er_correlation :: string
  er_payload :: json
  er_status :: string
  er_attempts :: int
  er_error :: "string option"
  er_partition :: "int option"
  er_offset :: "string option"
  er_processed_at :: "int option"
  er_terminal_at :: "int option"

record delivery =
  dv_source :: string
  dv_key :: string
  dv_email :: string
  dv_template :: string
  dv_subject :: string
  dv_html :: string
  dv_text :: string
  dv_message_id :: string
  dv_status :: string
  dv_attempts :: int
  dv_available_at :: int
  dv_lease_until :: "int option"
  dv_last_error :: "string option"
  dv_sent_at :: "int option"
  dv_terminal_at :: "int option"

record mail_db =
  md_users :: "int \<rightharpoonup> person"
  md_listings :: "int \<rightharpoonup> listing"
  md_histories :: "history_row list"
  md_questions :: "int \<rightharpoonup> question"
  md_applications :: "int \<rightharpoonup> int"
  md_receipts :: "string \<rightharpoonup> event_receipt"
  md_deliveries :: "delivery list"
  md_enqueued :: "int set"
  md_outbox :: "outbox_row list"

text \<open>Two unique indexes: the mail of an event for a recipient, and the message id.\<close>

definition delivery_clash :: "delivery \<Rightarrow> delivery \<Rightarrow> bool" where
  "delivery_clash a b =
     (dv_source a = dv_source b \<and> dv_key a = dv_key b \<and> dv_template a = dv_template b \<or> dv_message_id a = dv_message_id b)"

interpretation deliveries: unique_table delivery_clash
  by unfold_locales (auto simp: delivery_clash_def)

section \<open>Drafts\<close>

datatype mail =
    NoWinner string string int
  | WonBy string string int string
  | YouWon string string int
  | YouLost string string int
  | QuestionAsked string string string string
  | QuestionAnswered string string string string string string
  | DescriptionChanged string string int string string
  | SellerDecision string string

record draft =
  df_key :: string
  df_email :: string
  df_template :: string
  df_subject :: string
  df_mail :: mail

text \<open>What the mails depend on: the URL of the shop, the slug of a name, rendering, SHA-256.\<close>

record mailing =
  mg_client_url :: "string option"
  mg_slug :: "string \<Rightarrow> string"
  mg_render :: "mail \<Rightarrow> string"
  mg_sha256 :: "string \<Rightarrow> string"
  mg_local_time :: "string \<Rightarrow> string"

definition product_url :: "mailing \<Rightarrow> string \<Rightarrow> int \<Rightarrow> string" where
  "product_url g name product =
     env_or (mg_client_url g) ''http://localhost:5173'' @ ''/product/'' @ mg_slug g name @ ''-'' @ show_int product"

definition stable_message_id :: "mailing \<Rightarrow> string \<Rightarrow> string \<Rightarrow> string \<Rightarrow> string" where
  "stable_message_id g source key template =
     ''<'' @ mg_sha256 g (source @ '':'' @ key @ '':'' @ template) @ ''@events.online-auction>''"

text \<open>\<open>html.replace(/<[^>]*>/g, " ").replace(/\s+/g, " ").trim()\<close>.\<close>

definition is_space :: "char \<Rightarrow> bool" where
  "is_space c = (let n = (of_char c :: nat) in n = 32 \<or> (9 \<le> n \<and> n \<le> 13))"

function strip_tags :: "string \<Rightarrow> string" where
  "strip_tags [] = []"
| "strip_tags (c # cs) =
     (if c = CHR ''<'' \<and> CHR ''>'' \<in> set cs then CHR '' '' # strip_tags (drop 1 (dropWhile (\<lambda>x. x \<noteq> CHR ''>'') cs))
      else c # strip_tags cs)"
  by pat_completeness auto
termination
  by (relation "measure length") (auto simp: less_Suc_eq_le intro: le_trans [OF diff_le_self length_dropWhile_le])

fun squeeze_spaces :: "string \<Rightarrow> string" where
  "squeeze_spaces (c # d # cs) =
     (if is_space c then (if is_space d then squeeze_spaces (d # cs) else CHR '' '' # squeeze_spaces (d # cs))
      else c # squeeze_spaces (d # cs))"
| "squeeze_spaces [c] = (if is_space c then [CHR '' ''] else [c])"
| "squeeze_spaces [] = []"

definition trim_spaces :: "string \<Rightarrow> string" where
  "trim_spaces s = rev (dropWhile is_space (rev (dropWhile is_space s)))"

definition text_from_html :: "string \<Rightarrow> string" where
  "text_from_html html = trim_spaces (squeeze_spaces (strip_tags html))"

definition big_int_of :: "string \<Rightarrow> (string, int) result" where
  "big_int_of s = (case big_int s of None \<Rightarrow> throws ''SyntaxError'' | Some n \<Rightarrow> returns n)"

definition payload_id :: "envelope \<Rightarrow> string \<Rightarrow> (string, int) result" where
  "payload_id ev field =
     (case field_of field (ev_payload ev) of
        None \<Rightarrow> big_int_of (ev_aggregate_id ev)
      | Some JNull \<Rightarrow> big_int_of (ev_aggregate_id ev)
      | Some (JString s) \<Rightarrow> big_int_of s
      | Some (JInt n) \<Rightarrow> returns n
      | Some (JFraction _) \<Rightarrow> throws ''RangeError''
      | Some _ \<Rightarrow> throws (''Missing '' @ field))"

definition user_key :: "int \<Rightarrow> string" where
  "user_key user = ''user:'' @ show_int user"

definition require_user :: "mail_db \<Rightarrow> int \<Rightarrow> string \<Rightarrow> (string, person) result" where
  "require_user db user message = (case md_users db user of None \<Rightarrow> throws message | Some p \<Rightarrow> returns p)"

text \<open>The other bidders that still stand, each once.\<close>

definition losing_bidders :: "mail_db \<Rightarrow> int \<Rightarrow> int \<Rightarrow> int list" where
  "losing_bidders db product winner =
     remdups (map hi_user (filter (\<lambda>h. hi_product h = product \<and> hi_status h = None \<and> hi_user h \<noteq> winner) (md_histories db)))"

definition auction_drafts :: "mailing \<Rightarrow> envelope \<Rightarrow> mail_db \<Rightarrow> (string, draft list) result" where
  "auction_drafts g ev db =
     bind_result (big_int_of (ev_aggregate_id ev)) (\<lambda>product.
     case md_listings db product of
       None \<Rightarrow> throws (''Auction '' @ ev_aggregate_id ev @ '' is unavailable'')
     | Some li \<Rightarrow>
         if li_name li = None \<or> li_name li = Some '''' then throws (''Auction '' @ ev_aggregate_id ev @ '' is unavailable'')
         else
           let name = coalesce (li_name li) ''''; link = product_url g name product; price = coalesce (li_price li) 0
           in bind_result (require_user db (li_seller li) (''Seller for auction '' @ ev_aggregate_id ev @ '' is unavailable'')) (\<lambda>seller.
              case li_owner li of
                None \<Rightarrow> returns [\<lparr>df_key = user_key (li_seller li), df_email = us_email seller,
                  df_template = ''auction-seller-no-winner'', df_subject = ''Auction ended: '' @ name,
                  df_mail = NoWinner name link price\<rparr>]
              | Some owner \<Rightarrow>
                  bind_result (require_user db owner (''Winner for auction '' @ ev_aggregate_id ev @ '' is unavailable'')) (\<lambda>winner.
                  returns
                    ([\<lparr>df_key = user_key owner, df_email = us_email winner, df_template = ''auction-winner'',
                       df_subject = ''Congratulations! You won: '' @ name, df_mail = YouWon name link price\<rparr>,
                      \<lparr>df_key = user_key (li_seller li), df_email = us_email seller, df_template = ''auction-seller-with-winner'',
                       df_subject = ''Sold! Auction ended: '' @ name, df_mail = WonBy name link price (us_name winner)\<rparr>]
                     @ List.map_filter (\<lambda>user. map_option (\<lambda>loser.
                         \<lparr>df_key = user_key user, df_email = us_email loser, df_template = ''auction-loser'',
                          df_subject = ''Auction ended: '' @ name, df_mail = YouLost name link price\<rparr>) (md_users db user))
                         (losing_bidders db product owner)))))"

definition question_drafts :: "mailing \<Rightarrow> envelope \<Rightarrow> bool \<Rightarrow> mail_db \<Rightarrow> (string, draft list) result" where
  "question_drafts g ev answered db =
     bind_result (payload_id ev ''questionId'') (\<lambda>i.
     let unavailable = ''Question '' @ show_int i @ '' is unavailable'' in
     case md_questions db i of
       None \<Rightarrow> throws unavailable
     | Some q \<Rightarrow>
         (case md_listings db (qu_product q) of
            None \<Rightarrow> throws unavailable
          | Some li \<Rightarrow>
              if li_name li = None \<or> li_name li = Some '''' then throws unavailable
              else
                let name = coalesce (li_name li) ''''; link = product_url g name (qu_product q) in
                bind_result (require_user db (li_seller li) (''Seller for question '' @ show_int i @ '' is unavailable'')) (\<lambda>seller.
                if \<not> answered
                then returns (if li_seller li = qu_user q then []
                  else [\<lparr>df_key = user_key (li_seller li), df_email = us_email seller,
                    df_template = ''product-question-created'', df_subject = ''New question regarding your product'',
                    df_mail = QuestionAsked (us_name seller) name link (coalesce (qu_content q) '''')\<rparr>])
                else (case (case qu_parent q of None \<Rightarrow> None | Some p \<Rightarrow> md_questions db p) of
                    None \<Rightarrow> returns []
                  | Some parent \<Rightarrow>
                      (case md_users db (qu_user parent) of
                         None \<Rightarrow> returns []
                       | Some asker \<Rightarrow>
                           returns (if qu_user parent = li_seller li then []
                             else [\<lparr>df_key = user_key (qu_user parent), df_email = us_email asker,
                               df_template = ''product-question-answered'', df_subject = ''Seller replied to your question'',
                               df_mail = QuestionAnswered (us_name asker) (us_name seller) name link
                                 (coalesce (qu_content parent) '''') (coalesce (qu_content q) '''')\<rparr>]))))))"

definition description_drafts :: "mailing \<Rightarrow> envelope \<Rightarrow> mail_db \<Rightarrow> (string, draft list) result" where
  "description_drafts g ev db =
     bind_result (big_int_of (ev_aggregate_id ev)) (\<lambda>product.
     case md_listings db product of
       None \<Rightarrow> returns []
     | Some li \<Rightarrow>
         (case (li_name li, li_owner li, li_price li) of
            (Some name, Some owner, Some price) \<Rightarrow>
              if name = '''' then returns []
              else (case md_users db owner of
                  None \<Rightarrow> returns []
                | Some bidder \<Rightarrow> returns [\<lparr>df_key = user_key owner, df_email = us_email bidder,
                    df_template = ''product-description-changed'', df_subject = ''Product description update alert'',
                    df_mail = DescriptionChanged (us_name bidder) name price (product_url g name product)
                      (mg_local_time g (ev_occurred_at ev))\<rparr>])
          | _ \<Rightarrow> returns []))"

definition seller_decision_drafts :: "envelope \<Rightarrow> mail_db \<Rightarrow> (string, draft list) result" where
  "seller_decision_drafts ev db =
     bind_result (big_int_of (ev_aggregate_id ev)) (\<lambda>i.
     case md_applications db i of
       None \<Rightarrow> throws (''Seller application '' @ ev_aggregate_id ev @ '' is unavailable'')
     | Some user \<Rightarrow>
         (case md_users db user of
            None \<Rightarrow> throws (''Seller application '' @ ev_aggregate_id ev @ '' is unavailable'')
          | Some p \<Rightarrow>
              let decision = (if ev_event_type ev = ''seller.approved.v1'' then ''approved'' else ''rejected'')
              in returns [\<lparr>df_key = user_key user, df_email = us_email p, df_template = ''seller-application-'' @ decision,
                   df_subject = ''Seller application '' @ decision, df_mail = SellerDecision (us_name p) decision\<rparr>]))"

definition auction_ended :: "envelope \<Rightarrow> bool" where
  "auction_ended ev =
     (normalize_event_type (ev_event_type ev) \<in> {Some ''auction.closed.v1'', Some ''auction.buy_now_completed.v1''})"

definition resolve_notification_drafts :: "mailing \<Rightarrow> envelope \<Rightarrow> mail_db \<Rightarrow> (string, draft list) result" where
  "resolve_notification_drafts g ev db =
     (if auction_ended ev then auction_drafts g ev db
      else if ev_event_type ev = ''product.question_created.v1'' then question_drafts g ev False db
      else if ev_event_type ev = ''product.question_answered.v1'' then question_drafts g ev True db
      else if ev_event_type ev = ''product.description_changed.v1'' then description_drafts g ev db
      else if ev_event_type ev \<in> {''seller.approved.v1'', ''seller.rejected.v1''} then seller_decision_drafts ev db
      else returns [])"

section \<open>Queueing\<close>

record origin =
  og_topic :: string
  og_partition :: "int option"
  og_offset :: "string option"

definition settled :: "mail_db \<Rightarrow> string \<Rightarrow> bool" where
  "settled db event_id = (case md_receipts db event_id of None \<Rightarrow> False | Some r \<Rightarrow> er_status r \<in> {''processed'', ''terminal''})"

definition new_receipt :: "envelope \<Rightarrow> origin \<Rightarrow> string \<Rightarrow> event_receipt" where
  "new_receipt ev og status =
     \<lparr>er_topic = og_topic og, er_type = ev_event_type ev, er_version = ev_event_version ev,
      er_aggregate = ev_aggregate_id ev, er_correlation = ev_correlation_id ev, er_payload = ev_payload ev,
      er_status = status, er_attempts = 1, er_error = None, er_partition = og_partition og, er_offset = og_offset og,
      er_processed_at = None, er_terminal_at = None\<rparr>"

definition processed_receipt :: "envelope \<Rightarrow> origin \<Rightarrow> int \<Rightarrow> event_receipt option \<Rightarrow> event_receipt" where
  "processed_receipt ev og now old =
     (case old of
        None \<Rightarrow> (new_receipt ev og ''processed'')\<lparr>er_processed_at := Some now\<rparr>
      | Some r \<Rightarrow> r\<lparr>er_status := ''processed'', er_attempts := er_attempts r + 1, er_partition := og_partition og,
          er_offset := og_offset og, er_processed_at := Some now, er_error := None\<rparr>)"

definition delivery_of :: "mailing \<Rightarrow> string \<Rightarrow> int \<Rightarrow> draft \<Rightarrow> delivery" where
  "delivery_of g source now d =
     (let html = mg_render g (df_mail d) in
      \<lparr>dv_source = source, dv_key = df_key d, dv_email = df_email d, dv_template = df_template d, dv_subject = df_subject d,
       dv_html = html, dv_text = text_from_html html, dv_message_id = stable_message_id g source (df_key d) (df_template d),
       dv_status = ''pending'', dv_attempts = 0, dv_available_at = now, dv_lease_until = None, dv_last_error = None,
       dv_sent_at = None, dv_terminal_at = None\<rparr>)"

datatype enqueued = Processed | DuplicateEvent

definition enqueue_notification :: "mailing \<Rightarrow> origin \<Rightarrow> int \<Rightarrow> envelope \<Rightarrow> mail_db \<Rightarrow> (string, enqueued) result \<times> mail_db" where
  "enqueue_notification g og now ev db =
     (if settled db (ev_event_id ev) then (returns DuplicateEvent, db)
      else case resolve_notification_drafts g ev db of
        Inl e \<Rightarrow> (throws e, db)
      | Inr drafts \<Rightarrow>
          (returns Processed,
           db\<lparr>md_receipts := (md_receipts db)(ev_event_id ev \<mapsto> processed_receipt ev og now (md_receipts db (ev_event_id ev))),
              md_deliveries := fold (insert_skip delivery_clash) (map (delivery_of g (ev_event_id ev) now) drafts) (md_deliveries db),
              md_enqueued := (if auction_ended ev then insert (the (big_int (ev_aggregate_id ev))) (md_enqueued db) else md_enqueued db)\<rparr>))"

section \<open>One message\<close>

definition notification_event_types :: "string set" where
  "notification_event_types =
     {''auction.closed.v1'', ''auction.buy_now_completed.v1'', ''product.question_created.v1'', ''product.question_answered.v1'',
      ''product.description_changed.v1'', ''seller.approved.v1'', ''seller.rejected.v1''}"

definition requires_notification :: "string \<Rightarrow> bool" where
  "requires_notification kind = (kind \<in> notification_event_types)"

text \<open>A Kafka message: its offset and the text it carries, \<open>Some None\<close> when that is no JSON.\<close>

record kafka_message =
  km_offset :: nat
  km_value :: "json option option"

definition hex_slice :: "nat \<Rightarrow> nat \<Rightarrow> string \<Rightarrow> string" where
  "hex_slice i j s = take (j - i) (drop i s)"

definition synthetic_event_id :: "mailing \<Rightarrow> string \<Rightarrow> int \<Rightarrow> nat \<Rightarrow> string" where
  "synthetic_event_id g topic part offset =
     (let h = mg_sha256 g (topic @ '':'' @ show_int part @ '':'' @ show_nat offset)
      in hex_slice 0 8 h @ ''-'' @ hex_slice 8 12 h @ ''-4'' @ hex_slice 13 16 h @ ''-a'' @ hex_slice 17 20 h @ ''-'' @ hex_slice 20 32 h)"

record consumer_config =
  cf_mailing :: mailing
  cf_group :: string
  cf_dlq_topic :: string
  cf_retry_limit :: int
  cf_topic :: string
  cf_partition :: int

definition origin_of :: "consumer_config \<Rightarrow> kafka_message \<Rightarrow> origin" where
  "origin_of cf m = \<lparr>og_topic = cf_topic cf, og_partition = Some (cf_partition cf), og_offset = Some (show_nat (km_offset m))\<rparr>"

definition failure_outbox :: "consumer_config \<Rightarrow> string \<Rightarrow> kafka_message \<Rightarrow> envelope \<Rightarrow> int \<Rightarrow> string \<Rightarrow> outbox_row" where
  "failure_outbox cf row_id m ev attempts message =
     \<lparr>ob_event_id = row_id, ob_event_type = ''notification.consumer_failed.v1'', ob_event_version = 1,
      ob_aggregate_id = ev_aggregate_id ev,
      ob_payload = JsonPayload (JObject [(''consumer'', JString (cf_group cf)), (''sourceTopic'', JString (cf_topic cf)),
        (''partition'', JInt (cf_partition cf)), (''offset'', JString (show_nat (km_offset m))), (''event'', envelope_json ev),
        (''attempt'', JInt attempts), (''error'', JString (take 500 message))]),
      ob_topic = cf_dlq_topic cf\<rparr>"

text \<open>\<open>row_id\<close> is the random id of the outbox row.\<close>

definition terminal_receipt :: "consumer_config \<Rightarrow> string \<Rightarrow> int \<Rightarrow> kafka_message \<Rightarrow> envelope \<Rightarrow> int \<Rightarrow> string \<Rightarrow> mail_db \<Rightarrow> mail_db" where
  "terminal_receipt cf row_id now m ev attempts message db =
     (let r = (case md_receipts db (ev_event_id ev) of None \<Rightarrow> new_receipt ev (origin_of cf m) ''terminal'' | Some r \<Rightarrow> r)
      in db\<lparr>md_receipts := (md_receipts db)(ev_event_id ev \<mapsto>
             r\<lparr>er_status := ''terminal'', er_attempts := attempts, er_error := Some (take 2000 message), er_terminal_at := Some now\<rparr>),
           md_outbox := md_outbox db @ [failure_outbox cf row_id m ev attempts message]\<rparr>)"

definition retrying_receipt :: "consumer_config \<Rightarrow> kafka_message \<Rightarrow> envelope \<Rightarrow> string \<Rightarrow> event_receipt option \<Rightarrow> event_receipt" where
  "retrying_receipt cf m ev message old =
     (case old of
        None \<Rightarrow> (new_receipt ev (origin_of cf m) ''retrying'')\<lparr>er_error := Some (take 2000 message)\<rparr>
      | Some r \<Rightarrow> r\<lparr>er_status := ''retrying'', er_attempts := er_attempts r + 1, er_error := Some (take 2000 message)\<rparr>)"

definition invalid_event :: "string \<Rightarrow> int \<Rightarrow> envelope" where
  "invalid_event event_id now =
     \<lparr>ev_event_id = event_id, ev_event_type = ''notification.invalid_event.v1'', ev_event_version = 1, ev_aggregate_id = ''invalid'',
      ev_occurred_at = iso_string now, ev_correlation_id = event_id, ev_causation_id = None, ev_payload = JObject []\<rparr>"

definition message_event :: "kafka_message \<Rightarrow> (string, envelope) result" where
  "message_event m = (case km_value m of None \<Rightarrow> throws ''Kafka event has no value'' | Some parsed \<Rightarrow> parse_event_envelope parsed)"

definition process_kafka_message :: "consumer_config \<Rightarrow> string \<Rightarrow> int \<Rightarrow> kafka_message \<Rightarrow> mail_db \<Rightarrow> (string, unit) result \<times> mail_db" where
  "process_kafka_message cf row_id now m db =
     (case message_event m of
        Inl e \<Rightarrow>
          (returns (), terminal_receipt cf row_id now m
             (invalid_event (synthetic_event_id (cf_mailing cf) (cf_topic cf) (cf_partition cf) (km_offset m)) now) (cf_retry_limit cf) e db)
      | Inr ev \<Rightarrow>
          if \<not> requires_notification (ev_event_type ev) then (returns (), db)
          else (case enqueue_notification (cf_mailing cf) (origin_of cf m) now ev db of
              (Inr _, db') \<Rightarrow> (returns (), db')
            | (Inl e, db') \<Rightarrow>
                let r = retrying_receipt cf m ev e (md_receipts db' (ev_event_id ev));
                    db2 = db'\<lparr>md_receipts := (md_receipts db')(ev_event_id ev \<mapsto> r)\<rparr>
                in if er_attempts r \<ge> cf_retry_limit cf
                   then (returns (), terminal_receipt cf row_id now m ev (er_attempts r) e db2)
                   else (throws e, db2)))"

section \<open>One batch\<close>

text \<open>The messages in the order in which they are handled, each with the moment's clock, a random id
  and whether the consumer was stopping, not running, or the batch stale. A message that throws does
  not keep the other workers from theirs. \<open>None\<close>: nothing was committed.\<close>

record handling =
  hd_message :: kafka_message
  hd_stopping :: bool
  hd_row_id :: string
  hd_now :: int

definition handle_one :: "consumer_config \<Rightarrow> handling \<Rightarrow> bool \<times> mail_db \<Rightarrow> bool \<times> mail_db" where
  "handle_one cf h s =
     (if hd_stopping h then s
      else case process_kafka_message cf (hd_row_id h) (hd_now h) (hd_message h) (snd s) of
        (Inl _, db) \<Rightarrow> (True, db) | (Inr _, db) \<Rightarrow> (fst s, db))"

definition each_batch :: "consumer_config \<Rightarrow> kafka_message list \<Rightarrow> handling list \<Rightarrow> mail_db \<Rightarrow> nat option \<times> mail_db" where
  "each_batch cf messages order db =
     (let (failed, db') = fold (handle_one cf) order (False, db)
      in (if failed \<or> messages = [] then None else Some (km_offset (last messages) + 1), db'))"

section \<open>Queueing is idempotent\<close>

text \<open>What the drafts are resolved from.\<close>

definition same_world :: "mail_db \<Rightarrow> mail_db \<Rightarrow> bool" where
  "same_world db db' =
     (md_users db' = md_users db \<and> md_listings db' = md_listings db \<and> md_histories db' = md_histories db
      \<and> md_questions db' = md_questions db \<and> md_applications db' = md_applications db)"

lemma same_world_drafts:
  assumes "same_world db db'"
  shows "resolve_notification_drafts g ev db' = resolve_notification_drafts g ev db"
proof -
  have w: "md_users db' = md_users db" "md_listings db' = md_listings db" "md_histories db' = md_histories db"
    "md_questions db' = md_questions db" "md_applications db' = md_applications db"
    using assms by (simp_all add: same_world_def)
  have u: "require_user db' = require_user db" "losing_bidders db' = losing_bidders db"
    by (simp_all add: fun_eq_iff require_user_def losing_bidders_def w)
  have "auction_drafts g ev db' = auction_drafts g ev db" unfolding auction_drafts_def w u ..
  moreover have "question_drafts g ev b db' = question_drafts g ev b db" for b unfolding question_drafts_def w u ..
  moreover have "description_drafts g ev db' = description_drafts g ev db" unfolding description_drafts_def w ..
  moreover have "seller_decision_drafts ev db' = seller_decision_drafts ev db" unfolding seller_decision_drafts_def w ..
  ultimately show ?thesis by (simp add: resolve_notification_drafts_def)
qed

lemma same_world_simps [simp]: "same_world db db" "same_world db (db\<lparr>md_receipts := r\<rparr>)"
  by (simp_all add: same_world_def)

lemma same_world_trans: "same_world a b \<Longrightarrow> same_world b c \<Longrightarrow> same_world a c"
  by (simp add: same_world_def)

lemma enqueue_world: "same_world db (snd (enqueue_notification g og now ev db))"
  by (simp add: enqueue_notification_def same_world_def split: sum.split)

lemma terminal_frame:
  "same_world db (terminal_receipt cf row_id now m ev attempts message db)"
  "md_deliveries (terminal_receipt cf row_id now m ev attempts message db) = md_deliveries db"
  by (simp_all add: terminal_receipt_def same_world_def Let_def)

lemma terminal_world:
  "same_world db db' \<Longrightarrow> same_world db (terminal_receipt cf row_id now m ev attempts message (db'\<lparr>md_receipts := x\<rparr>))"
  by (simp add: same_world_def terminal_receipt_def Let_def)

lemma receipts_world: "same_world db db' \<Longrightarrow> same_world db (db'\<lparr>md_receipts := x\<rparr>)"
  by (simp add: same_world_def)

lemma process_world: "same_world db (snd (process_kafka_message cf row_id now m db))"
proof (cases "message_event m")
  case (Inl e)
  then show ?thesis by (simp add: process_kafka_message_def terminal_frame)
next
  case (Inr ev)
  obtain r db' where e: "enqueue_notification (cf_mailing cf) (origin_of cf m) now ev db = (r, db')" by force
  then have "same_world db db'" using enqueue_world by (metis snd_conv)
  with e Inr show ?thesis
    by (auto simp: process_kafka_message_def Let_def intro: terminal_world receipts_world split: sum.split)
qed

lemma settled_receipt:
  "settled (db\<lparr>md_receipts := (md_receipts db)(i \<mapsto> r)\<rparr>) j = (if j = i then er_status r \<in> {''processed'', ''terminal''} else settled db j)"
  by (simp add: settled_def)

lemma settled_enqueue:
  "settled (snd (enqueue_notification g og now ev db)) i \<longleftrightarrow>
     settled db i \<or> i = ev_event_id ev \<and> is_ok (resolve_notification_drafts g ev db)"
  by (auto simp: enqueue_notification_def settled_def processed_receipt_def new_receipt_def split: sum.split option.split)

interpretation queueing: idempotent_consumer
  "\<lambda>(og, now, ev) db. snd (enqueue_notification g og now ev db)"
  "\<lambda>db (og, now, ev). settled db (ev_event_id ev)"
  "\<lambda>db (og, now, ev). is_ok (resolve_notification_drafts g ev db)" for g
proof
  fix db :: mail_db and e :: "origin \<times> int \<times> envelope"
  obtain og now ev where e: "e = (og, now, ev)" by (cases e) auto
  show "(case e of (og, now, ev) \<Rightarrow> is_ok (resolve_notification_drafts g ev db)) \<Longrightarrow>
      (case e of (og, now, ev) \<Rightarrow> settled ((case e of (og, now, ev) \<Rightarrow> \<lambda>db. snd (enqueue_notification g og now ev db)) db) (ev_event_id ev))"
    by (simp add: e settled_enqueue)
  show "(case e of (og, now, ev) \<Rightarrow> settled db (ev_event_id ev)) \<Longrightarrow>
      (case e of (og, now, ev) \<Rightarrow> settled ((case e' of (og, now, ev) \<Rightarrow> \<lambda>db. snd (enqueue_notification g og now ev db)) db) (ev_event_id ev))"
    for e' :: "origin \<times> int \<times> envelope"
    by (cases e') (simp add: e settled_enqueue)
  show "(case e of (og, now, ev) \<Rightarrow> settled db (ev_event_id ev)) \<Longrightarrow>
      (case e of (og, now, ev) \<Rightarrow> \<lambda>db. snd (enqueue_notification g og now ev db)) db = db"
    by (simp add: e enqueue_notification_def)
qed

section \<open>Rows of the queue\<close>

definition queue_ok :: "mailing \<Rightarrow> delivery list \<Rightarrow> bool" where
  "queue_ok g rows = (unique_rows delivery_clash rows
     \<and> (\<forall>r \<in> set rows. dv_message_id r = stable_message_id g (dv_source r) (dv_key r) (dv_template r)))"

definition queued :: "mailing \<Rightarrow> string \<Rightarrow> draft \<Rightarrow> delivery list \<Rightarrow> bool" where
  "queued g source d rows = (\<exists>r \<in> set rows. dv_message_id r = stable_message_id g source (df_key d) (df_template d))"

lemma insert_skip_grows: "set rows \<subseteq> set (insert_skip clash r rows)"
  by (auto simp: insert_skip_def)

lemma fold_skip_grows: "set rows \<subseteq> set (fold (insert_skip clash) rs rows)"
  by (induction rs arbitrary: rows) (auto dest: insert_skip_grows [THEN subsetD])

lemma delivery_of_id: "dv_message_id (delivery_of g source now d) = stable_message_id g source (df_key d) (df_template d)"
  by (simp add: delivery_of_def Let_def)

lemma queue_ok_insert:
  assumes "queue_ok g rows"
  shows "queue_ok g (insert_skip delivery_clash (delivery_of g source now d) rows)
    \<and> queued g source d (insert_skip delivery_clash (delivery_of g source now d) rows)"
proof -
  let ?r = "delivery_of g source now d"
  have "unique_rows delivery_clash (insert_skip delivery_clash ?r rows)"
    using assms by (intro deliveries.insert_skip_unique) (simp add: queue_ok_def)
  moreover have "queued g source d rows" if c: "clashes delivery_clash ?r rows"
  proof -
    obtain a where a: "a \<in> set rows" "delivery_clash ?r a" using c by (auto simp: clashes_def list_ex_iff)
    then have "dv_message_id a = stable_message_id g (dv_source a) (dv_key a) (dv_template a)" using assms by (simp add: queue_ok_def)
    with a show ?thesis
      unfolding queued_def by (intro bexI [OF _ a(1)]) (auto simp: delivery_clash_def delivery_of_def Let_def)
  qed
  ultimately show ?thesis
    using assms by (auto simp: queue_ok_def insert_skip_def queued_def delivery_of_def Let_def)
qed

lemma queued_mono: "queued g source d rows \<Longrightarrow> set rows \<subseteq> set rows' \<Longrightarrow> queued g source d rows'"
  by (auto simp: queued_def)

lemma queue_ok_fold:
  assumes "queue_ok g rows"
  shows "queue_ok g (fold (insert_skip delivery_clash) (map (delivery_of g source now) ds) rows)
    \<and> (\<forall>d \<in> set ds. queued g source d (fold (insert_skip delivery_clash) (map (delivery_of g source now) ds) rows))"
  using assms
proof (induction ds arbitrary: rows)
  case (Cons d ds)
  note i = queue_ok_insert [OF Cons.prems, of source now d]
  with Cons.IH [of "insert_skip delivery_clash (delivery_of g source now d) rows"] show ?case
    by (auto intro: queued_mono fold_skip_grows [THEN subsetD])
qed simp

lemma queued_once:
  assumes "queue_ok g rows" "queued g source d rows"
  shows "length (filter (\<lambda>r. dv_message_id r = stable_message_id g source (df_key d) (df_template d)) rows) = 1"
  using assms
proof (induction rows)
  case (Cons a rows)
  let ?is = "\<lambda>r. dv_message_id r = stable_message_id g source (df_key d) (df_template d)"
  have ok: "queue_ok g rows" and apart: "\<forall>b \<in> set rows. \<not> delivery_clash a b"
    using Cons.prems(1) by (auto simp: queue_ok_def unique_rows_def)
  show ?case
  proof (cases "?is a")
    case True
    then have "filter ?is rows = []" using apart by (auto simp: filter_empty_conv delivery_clash_def)
    with True show ?thesis by simp
  next
    case False
    then have "queued g source d rows" using Cons.prems(2) by (simp add: queued_def)
    with Cons.IH [OF ok] False show ?thesis by simp
  qed
qed (simp add: queued_def)

section \<open>Every draft is queued once\<close>

lemma settled_terminal:
  "settled (terminal_receipt cf row_id now m ev attempts message db) i \<longleftrightarrow> settled db i \<or> i = ev_event_id ev"
  by (auto simp: terminal_receipt_def settled_def Let_def split: option.splits)

text \<open>What the messages around an event must not do: carry another event under its id.\<close>

definition carries :: "consumer_config \<Rightarrow> envelope \<Rightarrow> handling \<Rightarrow> bool" where
  "carries cf ev h =
     (case message_event (hd_message h) of
        Inl _ \<Rightarrow> synthetic_event_id (cf_mailing cf) (cf_topic cf) (cf_partition cf) (km_offset (hd_message h)) \<noteq> ev_event_id ev
      | Inr ev' \<Rightarrow> ev_event_id ev' = ev_event_id ev \<longrightarrow> ev' = ev)"

definition mails_queued :: "mailing \<Rightarrow> envelope \<Rightarrow> draft list \<Rightarrow> mail_db \<Rightarrow> bool" where
  "mails_queued g ev drafts db =
     (queue_ok g (md_deliveries db) \<and> resolve_notification_drafts g ev db = Inr drafts
      \<and> (settled db (ev_event_id ev) \<longrightarrow> (\<forall>d \<in> set drafts. queued g (ev_event_id ev) d (md_deliveries db))))"

lemma enqueue_queued:
  assumes "mails_queued g ev drafts db" "ev_event_id ev' = ev_event_id ev \<longrightarrow> ev' = ev"
  shows "mails_queued g ev drafts (snd (enqueue_notification g og now ev' db))"
proof (cases "settled db (ev_event_id ev')")
  case True
  with assms(1) show ?thesis by (simp add: enqueue_notification_def)
next
  case False
  show ?thesis
  proof (cases "resolve_notification_drafts g ev' db")
    case (Inl e)
    with False assms(1) show ?thesis by (simp add: enqueue_notification_def)
  next
    case (Inr ds)
    let ?db = "snd (enqueue_notification g og now ev' db)"
    have rows: "md_deliveries ?db = fold (insert_skip delivery_clash) (map (delivery_of g (ev_event_id ev') now) ds) (md_deliveries db)"
      using False Inr by (simp add: enqueue_notification_def)
    have ok: "queue_ok g (md_deliveries db)" using assms(1) by (simp add: mails_queued_def)
    note f = queue_ok_fold [OF ok, of "ev_event_id ev'" now ds, folded rows]
    have grows: "set (md_deliveries db) \<subseteq> set (md_deliveries ?db)" unfolding rows by (rule fold_skip_grows)
    have "resolve_notification_drafts g ev ?db = Inr drafts"
      using assms(1) same_world_drafts [OF enqueue_world] by (simp add: mails_queued_def)
    moreover have "\<forall>d \<in> set drafts. queued g (ev_event_id ev) d (md_deliveries ?db)" if s: "settled ?db (ev_event_id ev)"
    proof (cases "ev' = ev")
      case True
      then have "ds = drafts" using Inr assms(1) by (simp add: mails_queued_def)
      with f True show ?thesis by simp
    next
      case False
      then have "settled db (ev_event_id ev)" using s assms(2) by (auto simp: settled_enqueue)
      with assms(1) grows show ?thesis by (auto simp: mails_queued_def intro: queued_mono)
    qed
    ultimately show ?thesis using f by (simp add: mails_queued_def)
  qed
qed

lemma mails_queued_frame:
  assumes "mails_queued g ev drafts db" "same_world db db'" "md_deliveries db' = md_deliveries db"
    and "settled db' (ev_event_id ev) \<longrightarrow> settled db (ev_event_id ev)"
  shows "mails_queued g ev drafts db'"
  using assms same_world_drafts [OF assms(2)] by (auto simp: mails_queued_def)

lemma enqueue_fails:
  assumes "enqueue_notification g og now ev db = (Inl e, db')"
  shows "db' = db \<and> resolve_notification_drafts g ev db = Inl e \<and> \<not> settled db (ev_event_id ev)"
  using assms by (auto simp: enqueue_notification_def split: if_splits sum.splits)

lemma handle_queued:
  assumes "mails_queued (cf_mailing cf) ev drafts (snd s)" "carries cf ev h"
  shows "mails_queued (cf_mailing cf) ev drafts (snd (handle_one cf h s))"
proof -
  let ?db = "snd s" and ?m = "hd_message h"
  have "mails_queued (cf_mailing cf) ev drafts (snd (process_kafka_message cf (hd_row_id h) (hd_now h) ?m ?db))"
  proof (cases "message_event ?m")
    case (Inl e)
    with assms(2) show ?thesis
      by (intro mails_queued_frame [OF assms(1) process_world])
         (auto simp: process_kafka_message_def terminal_frame settled_terminal carries_def invalid_event_def)
  next
    case (Inr ev')
    obtain r db' where e: "enqueue_notification (cf_mailing cf) (origin_of cf ?m) (hd_now h) ev' ?db = (r, db')" by force
    have q: "mails_queued (cf_mailing cf) ev drafts db'"
      using enqueue_queued [OF assms(1), of ev' "origin_of cf ?m" "hd_now h"] assms(2) Inr e by (simp add: carries_def)
    show ?thesis
    proof (cases r)
      case (Inl e')
      then have f: "db' = ?db" "resolve_notification_drafts (cf_mailing cf) ev' ?db = Inl e'" using enqueue_fails e by blast+
      then have "ev_event_id ev' \<noteq> ev_event_id ev"
        using assms(1,2) Inr by (auto simp: carries_def mails_queued_def)
      then show ?thesis
        by (intro mails_queued_frame [OF assms(1) process_world])
           (auto simp: process_kafka_message_def Inr e Inl f(1) Let_def terminal_frame settled_terminal settled_receipt)
    qed (use assms(1) q Inr e in \<open>simp add: process_kafka_message_def\<close>)
  qed
  then show ?thesis using assms(1) by (auto simp: handle_one_def split: prod.split sum.split)
qed

lemma handle_settles:
  assumes "\<not> hd_stopping h" "message_event (hd_message h) = Inr ev" "requires_notification (ev_event_type ev)"
    and "is_ok (resolve_notification_drafts (cf_mailing cf) ev (snd s))"
  shows "settled (snd (handle_one cf h s)) (ev_event_id ev)"
proof -
  obtain r db' where e: "enqueue_notification (cf_mailing cf) (origin_of cf (hd_message h)) (hd_now h) ev (snd s) = (r, db')" by force
  have "is_ok r" using e assms(4) by (auto simp: enqueue_notification_def is_ok_iff split: if_splits)
  then obtain x where "r = Inr x" by (auto simp: is_ok_iff)
  moreover have "settled db' (ev_event_id ev)"
    using settled_enqueue [of "cf_mailing cf" "origin_of cf (hd_message h)" "hd_now h" ev "snd s" "ev_event_id ev"] e assms(4) by simp
  ultimately show ?thesis using assms(1-3) e by (simp add: handle_one_def process_kafka_message_def)
qed

lemma handle_settled:
  assumes "settled (snd s) i"
  shows "settled (snd (handle_one cf h s)) i"
proof -
  have "settled (snd (process_kafka_message cf (hd_row_id h) (hd_now h) (hd_message h) (snd s))) i"
  proof (cases "message_event (hd_message h)")
    case (Inr ev)
    obtain r db' where e: "enqueue_notification (cf_mailing cf) (origin_of cf (hd_message h)) (hd_now h) ev (snd s) = (r, db')" by force
    have s: "settled db' i"
      using settled_enqueue [of "cf_mailing cf" "origin_of cf (hd_message h)" "hd_now h" ev "snd s" i] e assms by simp
    have "r = Inl x \<Longrightarrow> i \<noteq> ev_event_id ev" for x using enqueue_fails e assms by blast
    with s e Inr assms show ?thesis
      by (auto simp: process_kafka_message_def Let_def settled_terminal settled_receipt split: sum.split)
  qed (use assms in \<open>simp add: process_kafka_message_def settled_terminal\<close>)
  then show ?thesis using assms by (auto simp: handle_one_def split: prod.split sum.split)
qed

lemma fold_queued:
  assumes "mails_queued (cf_mailing cf) ev drafts (snd s)" "\<forall>h \<in> set order. carries cf ev h"
    and "h \<in> set order" "\<not> hd_stopping h" "message_event (hd_message h) = Inr ev" "requires_notification (ev_event_type ev)"
  shows "mails_queued (cf_mailing cf) ev drafts (snd (fold (handle_one cf) order s))
    \<and> settled (snd (fold (handle_one cf) order s)) (ev_event_id ev)"
  using assms(1-3)
proof (induction order arbitrary: s)
  case (Cons x order)
  have q: "mails_queued (cf_mailing cf) ev drafts (snd (handle_one cf x s))"
    using Cons.prems by (intro handle_queued) auto
  have keep: "mails_queued (cf_mailing cf) ev drafts (snd (fold (handle_one cf) hs t)) \<and> (settled (snd t) (ev_event_id ev)
      \<longrightarrow> settled (snd (fold (handle_one cf) hs t)) (ev_event_id ev))"
    if "mails_queued (cf_mailing cf) ev drafts (snd t)" "set hs \<subseteq> set order" for hs t
    using that
  proof (induction hs arbitrary: t)
    case (Cons y hs)
    moreover have "carries cf ev y" using Cons.prems(2) \<open>\<forall>h \<in> set (x # order). carries cf ev h\<close> by auto
    ultimately show ?case using handle_queued [of cf ev drafts t y] handle_settled by auto
  qed simp
  show ?case
  proof (cases "x = h")
    case True
    have "settled (snd (handle_one cf x s)) (ev_event_id ev)"
      unfolding True using assms(4-6) Cons.prems(1) by (intro handle_settles) (auto simp: mails_queued_def is_ok_iff)
    with keep [OF q, of order] show ?thesis by simp
  next
    case False
    with Cons.IH [OF q] Cons.prems show ?thesis by simp
  qed
qed simp

text \<open>C26: Each mail of an event is queued exactly once. Take any messages in any order of handling,
  redelivered any number of times, among them one with an event whose recipients can be resolved and
  that was not settled before. Afterwards the event is settled and for each of its drafts the queue
  holds exactly one row with the draft's message id.\<close>

theorem mails_are_queued_once:
  assumes "queue_ok (cf_mailing cf) (md_deliveries db)" "\<not> settled db (ev_event_id ev)"
    and "resolve_notification_drafts (cf_mailing cf) ev db = Inr drafts" "\<forall>h \<in> set order. carries cf ev h"
    and "h \<in> set order" "\<not> hd_stopping h" "message_event (hd_message h) = Inr ev" "requires_notification (ev_event_type ev)"
    and "each_batch cf messages order db = (offset, db')" "d \<in> set drafts"
  shows "settled db' (ev_event_id ev)
    \<and> length (filter (\<lambda>r. dv_message_id r = stable_message_id (cf_mailing cf) (ev_event_id ev) (df_key d) (df_template d))
        (md_deliveries db')) = 1"
proof -
  have "mails_queued (cf_mailing cf) ev drafts (snd (False, db))" using assms(1-3) by (simp add: mails_queued_def)
  from fold_queued [OF this assms(4-8)] assms(9) have "mails_queued (cf_mailing cf) ev drafts db'" "settled db' (ev_event_id ev)"
    by (auto simp: each_batch_def split: prod.splits)
  then show ?thesis using queued_once assms(10) by (auto simp: mails_queued_def)
qed

text \<open>A batch that is stopped drops messages. Messages reached after the consumer began to stop, or
  when the batch went stale, are passed over; but the batch then commits the offset after its last
  message, just as if it had held only the others: the ones passed over are never handled.\<close>

theorem stopping_batch_drops_messages:
  "each_batch cf messages order db = each_batch cf messages (filter (\<lambda>h. \<not> hd_stopping h) order) db
   \<and> each_batch cf (messages @ [m]) (map (\<lambda>h. h\<lparr>hd_stopping := True\<rparr>) order) db = (Some (km_offset m + 1), db)"
proof -
  have "fold (handle_one cf) order s = fold (handle_one cf) (filter (\<lambda>h. \<not> hd_stopping h) order) s" for s
    by (induction order arbitrary: s) (auto simp: handle_one_def)
  moreover have "fold (handle_one cf) (map (\<lambda>h. h\<lparr>hd_stopping := True\<rparr>) order) s = s" for s
    by (induction order) (auto simp: handle_one_def)
  ultimately show ?thesis by (simp add: each_batch_def)
qed

section \<open>Messages that keep failing\<close>

text \<open>The state after \<open>n\<close> handlings of the same message.\<close>

definition handled_times :: "consumer_config \<Rightarrow> string \<Rightarrow> int \<Rightarrow> kafka_message \<Rightarrow> nat \<Rightarrow> mail_db \<Rightarrow> mail_db" where
  "handled_times cf row_id now m n db = ((\<lambda>db. snd (process_kafka_message cf row_id now m db)) ^^ n) db"

lemma handled_Suc:
  "handled_times cf row_id now m (Suc n) db = snd (process_kafka_message cf row_id now m (handled_times cf row_id now m n db))"
  by (simp add: handled_times_def)

lemma handled_world: "same_world db (handled_times cf row_id now m n db)"
  by (induction n) (auto simp: handled_times_def intro: same_world_trans process_world)

lemma process_failing:
  assumes "message_event m = Inr ev" "requires_notification (ev_event_type ev)" "\<not> settled db (ev_event_id ev)"
    and "resolve_notification_drafts (cf_mailing cf) ev db = Inl e"
  defines "r \<equiv> retrying_receipt cf m ev e (md_receipts db (ev_event_id ev))"
  shows "process_kafka_message cf row_id now m db =
    (let db' = db\<lparr>md_receipts := (md_receipts db)(ev_event_id ev \<mapsto> r)\<rparr>
     in if cf_retry_limit cf \<le> er_attempts r then (Inr (), terminal_receipt cf row_id now m ev (er_attempts r) e db') else (Inl e, db'))"
  using assms by (simp add: process_kafka_message_def enqueue_notification_def Let_def)

text \<open>C27: A message that always fails is given up after the retry limit. If the recipients of its event
  can never be resolved, the first handlings throw, so that nothing is committed and Kafka delivers it
  again; the handling that reaches the limit returns, leaves a terminal receipt and one event for
  the dead-letter topic; every later one returns at once and changes nothing.\<close>

theorem poison_message_ends:
  assumes "message_event m = Inr ev" "requires_notification (ev_event_type ev)"
    and "resolve_notification_drafts (cf_mailing cf) ev db = Inl e" "md_receipts db (ev_event_id ev) = None"
    and "1 \<le> cf_retry_limit cf"
  shows "fst (process_kafka_message cf row_id now m (handled_times cf row_id now m n db))
      = (if int n + 1 < cf_retry_limit cf then Inl e else Inr ())
    \<and> (case md_receipts (handled_times cf row_id now m n db) (ev_event_id ev) of
         None \<Rightarrow> n = 0
       | Some r \<Rightarrow> er_attempts r = min (int n) (cf_retry_limit cf)
           \<and> er_status r = (if int n < cf_retry_limit cf then ''retrying'' else ''terminal''))
    \<and> length (md_outbox (handled_times cf row_id now m n db))
        = length (md_outbox db) + (if int n < cf_retry_limit cf then 0 else 1)"
proof -
  let ?s = "\<lambda>n. handled_times cf row_id now m n db"
  have inv: "(case md_receipts (?s n) (ev_event_id ev) of
         None \<Rightarrow> n = 0
       | Some r \<Rightarrow> 0 < n \<and> er_attempts r = min (int n) (cf_retry_limit cf)
           \<and> er_status r = (if int n < cf_retry_limit cf then ''retrying'' else ''terminal''))
    \<and> length (md_outbox (?s n)) = length (md_outbox db) + (if int n < cf_retry_limit cf then 0 else 1)" for n
  proof (induction n)
    case 0
    then show ?case using assms(4,5) by (simp add: handled_times_def)
  next
    case (Suc n)
    have res: "resolve_notification_drafts (cf_mailing cf) ev (?s n) = Inl e"
      using same_world_drafts [OF handled_world] assms(3) by simp
    show ?case
    proof (cases "int n < cf_retry_limit cf")
      case True
      then have "\<not> settled (?s n) (ev_event_id ev)" using Suc by (auto simp: settled_def split: option.splits)
      from process_failing [OF assms(1,2) this res, of row_id now] Suc True show ?thesis
        by (auto simp: handled_Suc Let_def retrying_receipt_def new_receipt_def terminal_receipt_def split: option.splits)
    next
      case False
      then have s: "settled (?s n) (ev_event_id ev)" using Suc assms(5) by (auto simp: settled_def split: option.splits if_splits)
      then have "?s (Suc n) = ?s n"
        using assms(1,2) by (simp add: handled_Suc process_kafka_message_def enqueue_notification_def)
      with Suc False s show ?thesis by (auto simp: settled_def split: option.splits)
    qed
  qed
  have res: "resolve_notification_drafts (cf_mailing cf) ev (?s n) = Inl e"
    using same_world_drafts [OF handled_world] assms(3) by simp
  have "fst (process_kafka_message cf row_id now m (?s n)) = (if int n + 1 < cf_retry_limit cf then Inl e else Inr ())"
  proof (cases "int n < cf_retry_limit cf")
    case True
    then have "\<not> settled (?s n) (ev_event_id ev)" using inv [of n] by (auto simp: settled_def split: option.splits)
    from process_failing [OF assms(1,2) this res, of row_id now] inv [of n] True show ?thesis
      by (auto simp: Let_def retrying_receipt_def new_receipt_def split: option.splits)
  next
    case False
    then have s: "settled (?s n) (ev_event_id ev)" using inv [of n] assms(5) by (auto simp: settled_def split: option.splits if_splits)
    with False show ?thesis using assms(1,2) by (simp add: process_kafka_message_def enqueue_notification_def)
  qed
  with inv [of n] show ?thesis by (auto split: option.splits)
qed

section \<open>An example\<close>

definition example_mailing :: mailing where
  "example_mailing = \<lparr>mg_client_url = None, mg_slug = (\<lambda>s. s), mg_render = (\<lambda>_. ''<p>mail</p>''), mg_sha256 = (\<lambda>s. s), mg_local_time = (\<lambda>s. s)\<rparr>"

definition example_consumer :: consumer_config where
  "example_consumer = \<lparr>cf_mailing = example_mailing, cf_group = ''g'', cf_dlq_topic = ''dlq'', cf_retry_limit = 3,
     cf_topic = ''domain_events'', cf_partition = 0\<rparr>"

definition example_envelope :: envelope where
  "example_envelope = \<lparr>ev_event_id = ''e1'', ev_event_type = ''seller.approved.v1'', ev_event_version = 1, ev_aggregate_id = ''7'',
     ev_occurred_at = ''t'', ev_correlation_id = ''c'', ev_causation_id = None, ev_payload = JObject []\<rparr>"

definition example_message :: kafka_message where
  "example_message = \<lparr>km_offset = 4, km_value = Some (Some (envelope_json example_envelope))\<rparr>"

definition example_mail_db :: mail_db where
  "example_mail_db = \<lparr>md_users = [3 \<mapsto> \<lparr>us_email = ''a@b'', us_name = ''ann''\<rparr>], md_listings = Map.empty, md_histories = [],
     md_questions = Map.empty, md_applications = [7 \<mapsto> 3], md_receipts = Map.empty, md_deliveries = [], md_enqueued = {}, md_outbox = []\<rparr>"

definition example_handling :: handling where
  "example_handling = \<lparr>hd_message = example_message, hd_stopping = False, hd_row_id = ''r'', hd_now = 5\<rparr>"

definition example_draft :: draft where
  "example_draft = \<lparr>df_key = user_key 3, df_email = ''a@b'', df_template = ''seller-application-approved'',
     df_subject = ''Seller application approved'', df_mail = SellerDecision ''ann'' ''approved''\<rparr>"

lemma example_parsed: "message_event example_message = Inr example_envelope"
  by (simp add: message_event_def example_message_def parse_event_envelope_def envelope_json_def example_envelope_def field_of_def)

lemma example_drafts: "resolve_notification_drafts example_mailing example_envelope example_mail_db = Inr [example_draft]"
  by (simp add: resolve_notification_drafts_def auction_ended_def example_envelope_def normalize_event_type_def
      canonical_event_types_def legacy_aliases_def seller_decision_drafts_def big_int_of_def big_int_def is_digit_def
      dec_val_def digit_val_def example_mail_db_def example_draft_def Let_def)

theorem mails_are_queued_once_witness:
  "\<exists>offset db'. each_batch example_consumer [example_message] [example_handling, example_handling] example_mail_db = (offset, db')
     \<and> length (filter (\<lambda>r. dv_message_id r = stable_message_id example_mailing ''e1'' (user_key 3) ''seller-application-approved'')
         (md_deliveries db')) = 1"
proof -
  obtain offset db' where b: "each_batch example_consumer [example_message] [example_handling, example_handling] example_mail_db = (offset, db')"
    by force
  have facts: "cf_mailing example_consumer = example_mailing" "md_deliveries example_mail_db = []" "ev_event_id example_envelope = ''e1''"
    "\<not> settled example_mail_db ''e1''" "requires_notification (ev_event_type example_envelope)" "hd_message example_handling = example_message"
    "\<not> hd_stopping example_handling" "df_key example_draft = user_key 3" "df_template example_draft = ''seller-application-approved''"
    by (simp_all add: example_consumer_def example_mail_db_def example_envelope_def settled_def requires_notification_def
        notification_event_types_def example_handling_def example_draft_def)
  have "carries example_consumer example_envelope example_handling" by (simp add: carries_def facts example_parsed)
  with mails_are_queued_once [OF _ _ _ _ _ _ _ _ b, of example_envelope "[example_draft]" example_handling example_draft] b
  show ?thesis by (simp add: facts example_drafts example_parsed queue_ok_def unique_rows_def)
qed

theorem poison_message_ends_witness:
  "fst (process_kafka_message example_consumer ''r'' 5 example_message
     (handled_times example_consumer ''r'' 5 example_message 2 (example_mail_db\<lparr>md_applications := Map.empty\<rparr>))) = Inr ()"
proof -
  have "resolve_notification_drafts example_mailing example_envelope (example_mail_db\<lparr>md_applications := Map.empty\<rparr>)
      = Inl ''Seller application 7 is unavailable''"
    by (simp add: resolve_notification_drafts_def auction_ended_def example_envelope_def normalize_event_type_def
      canonical_event_types_def legacy_aliases_def seller_decision_drafts_def big_int_of_def big_int_def is_digit_def
      dec_val_def digit_val_def)
  from poison_message_ends [of example_message example_envelope example_consumer "example_mail_db\<lparr>md_applications := Map.empty\<rparr>" _ "''r''" 5 2]
    this example_parsed
  show ?thesis
    by (simp add: example_consumer_def requires_notification_def notification_event_types_def example_envelope_def example_mail_db_def)
qed

end
