(* ===== verification/Email_Delivery.thy ===== *)
theory Email_Delivery
  imports Notifications
begin

text \<open>
  Sending the queued mails (email-delivery.worker.ts). A batch claims rows with a lease, hands each to
  the SMTP server (the argument \<open>smtp\<close>) and marks it sent, due again, or terminal with an event for
  the dead-letter topic. \<open>courier_step\<close> is the same at the grain of single statements for one row,
  with several workers that may be slow or crash.
\<close>

section \<open>The batch\<close>

definition retry_delays_ms :: "int list" where
  "retry_delays_ms = [30000, 120000, 600000, 1800000, 7200000]"

definition email_retry_delay_ms :: "int \<Rightarrow> int" where
  "email_retry_delay_ms attempt = retry_delays_ms ! nat (min (max (attempt - 1) 0) (int (length retry_delays_ms) - 1))"

definition deliverable :: "int \<Rightarrow> delivery \<Rightarrow> bool" where
  "deliverable now r =
     (dv_terminal_at r = None \<and> dv_sent_at r = None \<and> dv_available_at r \<le> now
      \<and> (dv_status r = ''pending''
         \<or> dv_status r = ''leased'' \<and> (case dv_lease_until r of None \<Rightarrow> False | Some t \<Rightarrow> t \<le> now)))"

definition lease_row :: "int \<Rightarrow> int \<Rightarrow> delivery \<Rightarrow> delivery" where
  "lease_row lease now r = r\<lparr>dv_status := ''leased'', dv_attempts := dv_attempts r + 1, dv_lease_until := Some (now + lease)\<rparr>"

text \<open>The positions of the claimed rows, in the order of their ids, with the rows as they were read.\<close>

definition claim_deliveries :: "nat set \<Rightarrow> nat \<Rightarrow> int \<Rightarrow> int \<Rightarrow> delivery list \<Rightarrow> (nat \<times> delivery) list \<times> delivery list" where
  "claim_deliveries locked limit lease now rows =
     (let claimed = take limit (filter (\<lambda>(i, r). deliverable now r \<and> i \<notin> locked) (enumerate 0 rows))
      in (claimed, fold (\<lambda>(i, _) rows. rows[i := lease_row lease now (rows ! i)]) claimed rows))"

definition mark_sent :: "int \<Rightarrow> delivery \<Rightarrow> delivery" where
  "mark_sent now r = r\<lparr>dv_status := ''sent'', dv_sent_at := Some now, dv_lease_until := None, dv_last_error := None\<rparr>"

text \<open>\<open>attempts\<close> is the count the row had when it was claimed.\<close>

definition mark_failed :: "int \<Rightarrow> int \<Rightarrow> int \<Rightarrow> string \<Rightarrow> delivery \<Rightarrow> delivery" where
  "mark_failed max_attempts now attempts message r =
     (if attempts + 1 \<ge> max_attempts
      then r\<lparr>dv_status := ''terminal'', dv_terminal_at := Some now, dv_lease_until := None, dv_last_error := Some (take 2000 message)\<rparr>
      else r\<lparr>dv_status := ''pending'', dv_lease_until := None, dv_available_at := now + email_retry_delay_ms (attempts + 1),
             dv_last_error := Some (take 2000 message)\<rparr>)"

definition delivery_failed_outbox :: "string \<Rightarrow> string \<Rightarrow> nat \<Rightarrow> delivery \<Rightarrow> string \<Rightarrow> outbox_row" where
  "delivery_failed_outbox row_id topic i r message =
     \<lparr>ob_event_id = row_id, ob_event_type = ''email.delivery_failed.v1'', ob_event_version = 1, ob_aggregate_id = show_nat i,
      ob_payload = JsonPayload (JObject [(''consumer'', JString ''email-delivery''), (''sourceEventId'', JString (dv_source r)),
        (''deliveryId'', JString (show_nat i)), (''templateKey'', JString (dv_template r)), (''attempt'', JInt (dv_attempts r + 1)),
        (''error'', JString (take 500 message))]),
      ob_topic = topic\<rparr>"

record courier_config =
  cc_mode :: "string option"
  cc_max_attempts :: int
  cc_lease :: int
  cc_limit :: nat
  cc_dlq_topic :: string

text \<open>The database may throw: at the update to \<open>sent\<close>, which the \<open>catch\<close> takes for a failed delivery although the server has the
  mail, and at the transaction of that failure, which leaves the row leased.\<close>

record courier_faults =
  cu_sent :: "delivery \<Rightarrow> string option"
  cu_failed :: "delivery \<Rightarrow> string option"

text \<open>Any mode but \<open>smtp\<close> sends nothing and marks the row as sent.\<close>

definition send_failure :: "courier_config \<Rightarrow> (delivery \<Rightarrow> (string, unit) result) \<Rightarrow> courier_faults \<Rightarrow> delivery \<Rightarrow> string option" where
  "send_failure cf smtp faults r =
     (case (if coalesce (cc_mode cf) ''disabled'' = ''smtp'' then smtp r else returns ()) of
        Inl message \<Rightarrow> Some message
      | Inr _ \<Rightarrow> cu_sent faults r)"

definition deliver_one :: "courier_config \<Rightarrow> (delivery \<Rightarrow> (string, unit) result) \<Rightarrow> courier_faults \<Rightarrow> (nat \<Rightarrow> string) \<Rightarrow> int \<Rightarrow> nat \<times> delivery
    \<Rightarrow> delivery list \<times> outbox_row list \<times> string list \<Rightarrow> delivery list \<times> outbox_row list \<times> string list" where
  "deliver_one cf smtp faults row_ids now claimed s =
     (case (claimed, s) of ((i, r), (rows, outbox, errs)) \<Rightarrow>
        (case send_failure cf smtp faults r of
           None \<Rightarrow> (rows[i := mark_sent now (rows ! i)], outbox, errs)
         | Some message \<Rightarrow>
             (case cu_failed faults r of
                Some err \<Rightarrow> (rows, outbox, errs @ [err])
              | None \<Rightarrow>
                  (rows[i := mark_failed (cc_max_attempts cf) now (dv_attempts r) message (rows ! i)],
                   if dv_attempts r + 1 \<ge> cc_max_attempts cf
                   then outbox @ [delivery_failed_outbox (row_ids i) (cc_dlq_topic cf) i r message] else outbox, errs))))"

text \<open>The deliveries of a batch all run; the batch rejects with the first that threw.\<close>

definition run_email_batch :: "courier_config \<Rightarrow> (delivery \<Rightarrow> (string, unit) result) \<Rightarrow> courier_faults \<Rightarrow> (nat \<Rightarrow> string) \<Rightarrow> nat set
    \<Rightarrow> int \<Rightarrow> int \<Rightarrow> mail_db \<Rightarrow> (string, nat) result \<times> mail_db" where
  "run_email_batch cf smtp faults row_ids locked now later db =
     (let (claimed, rows) = claim_deliveries locked (cc_limit cf) (cc_lease cf) now (md_deliveries db);
          (rows', outbox, errs) = fold (deliver_one cf smtp faults row_ids later) claimed (rows, md_outbox db, [])
      in (case errs of [] \<Rightarrow> returns (length claimed) | err # _ \<Rightarrow> throws err, db\<lparr>md_deliveries := rows', md_outbox := outbox\<rparr>))"

section \<open>Auctions that ended before their notification was queued\<close>

definition recovery_event_id :: "mailing \<Rightarrow> int \<Rightarrow> string" where
  "recovery_event_id g product =
     (let h = mg_sha256 g (''auction-recovery:'' @ show_int product)
      in hex_slice 0 8 h @ ''-'' @ hex_slice 8 12 h @ ''-4'' @ hex_slice 13 16 h @ ''-a'' @ hex_slice 17 20 h @ ''-'' @ hex_slice 20 32 h)"

definition recovery_envelope :: "mailing \<Rightarrow> int \<Rightarrow> int \<Rightarrow> envelope" where
  "recovery_envelope g product end_time =
     (let i = recovery_event_id g product in
      \<lparr>ev_event_id = i, ev_event_type = ''auction.closed.v1'', ev_event_version = 1, ev_aggregate_id = show_int product,
       ev_occurred_at = iso_string end_time, ev_correlation_id = i, ev_causation_id = None,
       ev_payload = JObject [(''productId'', JString (show_int product)), (''recovery'', JBool True)]\<rparr>)"

text \<open>\<open>ended\<close> are the ENDED and SOLD products with their end, oldest first. The first one that throws
  ends the run.\<close>

fun recover_each :: "mailing \<Rightarrow> int \<Rightarrow> (int \<times> int option) list \<Rightarrow> mail_db \<Rightarrow> (string, unit) result \<times> mail_db" where
  "recover_each g now [] db = (returns (), db)"
| "recover_each g now ((product, end_time) # rest) db =
     (case enqueue_notification g \<lparr>og_topic = ''scheduled_recovery'', og_partition = None, og_offset = None\<rparr> now
         (recovery_envelope g product (coalesce end_time now)) db of
        (Inl e, db') \<Rightarrow> (throws e, db')
      | (Inr _, db') \<Rightarrow> recover_each g now rest db')"

definition recover_legacy_notifications :: "mailing \<Rightarrow> nat \<Rightarrow> int \<Rightarrow> (int \<times> int option) list \<Rightarrow> mail_db \<Rightarrow> (string, nat) result \<times> mail_db" where
  "recover_legacy_notifications g limit now ended db =
     (let products = take limit (filter (\<lambda>p. fst p \<notin> md_enqueued db) ended)
      in case recover_each g now products db of
           (Inl e, db') \<Rightarrow> (throws e, db')
         | (Inr _, db') \<Rightarrow> (returns (length products), db'))"

section \<open>Workers on one row\<close>

text \<open>The workers that have claimed the row, with the attempts they read and the time of the claim; the
  copies the server accepted; the attempts that ended without a statement (a crash, or a failure whose transaction threw)
  and those of them behind an acceptance; and the acceptances that were recorded as failures, because the update to \<open>sent\<close>
  threw or the reply of the server was lost.\<close>

record courier =
  co_row :: delivery
  co_flight :: "nat \<rightharpoonup> int \<times> int"
  co_now :: int
  co_copies :: nat
  co_crashes :: int
  co_unrecorded :: nat
  co_reverted :: nat

text \<open>\<open>prompt\<close>: a worker ends its attempt before its lease does.\<close>

inductive courier_step :: "bool \<Rightarrow> int \<Rightarrow> int \<Rightarrow> courier \<Rightarrow> courier \<Rightarrow> bool" for prompt max_attempts lease where
  claim: "courier_step prompt max_attempts lease c
      (c\<lparr>co_row := lease_row lease now (co_row c), co_flight := (co_flight c)(w \<mapsto> (dv_attempts (co_row c), now)), co_now := now\<rparr>)"
    if "co_now c \<le> now" "co_flight c w = None" "deliverable now (co_row c)"
| sent: "courier_step prompt max_attempts lease c
      (c\<lparr>co_row := mark_sent now (co_row c), co_flight := (co_flight c)(w := None), co_now := now, co_copies := co_copies c + 1\<rparr>)"
    if "co_now c \<le> now" "co_flight c w = Some (k, t)" "prompt \<longrightarrow> now < t + lease"
| failed: "courier_step prompt max_attempts lease c
      (c\<lparr>co_row := mark_failed max_attempts now k message (co_row c), co_flight := (co_flight c)(w := None), co_now := now\<rparr>)"
    if "co_now c \<le> now" "co_flight c w = Some (k, t)" "prompt \<longrightarrow> now < t + lease"
| reverted: "courier_step prompt max_attempts lease c
      (c\<lparr>co_row := mark_failed max_attempts now k message (co_row c), co_flight := (co_flight c)(w := None), co_now := now,
         co_copies := co_copies c + 1, co_reverted := co_reverted c + 1\<rparr>)"
    if "co_now c \<le> now" "co_flight c w = Some (k, t)" "prompt \<longrightarrow> now < t + lease"
| crash: "courier_step prompt max_attempts lease c
      (c\<lparr>co_flight := (co_flight c)(w := None), co_crashes := co_crashes c + 1,
         co_copies := co_copies c + (if accepted then 1 else 0), co_unrecorded := co_unrecorded c + (if accepted then 1 else 0)\<rparr>)"
    if "co_flight c w = Some (k, t)"

inductive courier_run :: "bool \<Rightarrow> int \<Rightarrow> int \<Rightarrow> courier \<Rightarrow> courier \<Rightarrow> bool" for prompt max_attempts lease where
  start: "courier_run prompt max_attempts lease c c"
| step: "courier_run prompt max_attempts lease c c' \<Longrightarrow> courier_step prompt max_attempts lease c' c'' \<Longrightarrow>
    courier_run prompt max_attempts lease c c''"

inductive_cases courier_stepE: "courier_step prompt max_attempts lease c c'"

definition fresh_courier :: "delivery \<Rightarrow> int \<Rightarrow> courier" where
  "fresh_courier r now = \<lparr>co_row = r, co_flight = Map.empty, co_now = now, co_copies = 0, co_crashes = 0, co_unrecorded = 0,
     co_reverted = 0\<rparr>"

definition open_row :: "delivery \<Rightarrow> bool" where
  "open_row r = (dv_sent_at r = None \<and> dv_terminal_at r = None)"

text \<open>A worker in flight holds the row, or its lease has run out.\<close>

definition holds :: "int \<Rightarrow> courier \<Rightarrow> int \<Rightarrow> int \<Rightarrow> bool" where
  "holds lease c k t =
     (open_row (co_row c) \<and> dv_status (co_row c) = ''leased'' \<and> dv_lease_until (co_row c) = Some (t + lease)
      \<and> dv_attempts (co_row c) = k + 1)"

definition expired_others :: "int \<Rightarrow> courier \<Rightarrow> nat \<Rightarrow> bool" where
  "expired_others lease c w = (\<forall>w' k t. w' \<noteq> w \<and> co_flight c w' = Some (k, t) \<longrightarrow> t + lease \<le> co_now c)"

definition courier_ok :: "int \<Rightarrow> int \<Rightarrow> courier \<Rightarrow> bool" where
  "courier_ok max_attempts lease c =
     (finite (dom (co_flight c))
      \<and> (\<forall>w k t. co_flight c w = Some (k, t) \<longrightarrow> t + lease \<le> co_now c \<or> holds lease c k t \<and> expired_others lease c w)
      \<and> (dv_sent_at (co_row c) = None \<longrightarrow> co_copies c = co_unrecorded c + co_reverted c)
      \<and> co_copies c \<le> co_unrecorded c + co_reverted c + 1
      \<and> 0 \<le> co_crashes c
      \<and> dv_attempts (co_row c) \<le> max_attempts + co_crashes c + int (card (dom (co_flight c))) - (if open_row (co_row c) then 1 else 0))"

lemma card_landed:
  assumes "finite (dom m)" "m w = Some x"
  shows "card (dom m) = Suc (card (dom (m(w := None))))"
proof -
  have "dom (m(w := None)) = dom m - {w}" by simp
  then show ?thesis using card_Suc_Diff1 [OF assms(1) domI [of m w, OF assms(2)]] by (simp only:)
qed

lemma live_holds:
  assumes "courier_ok max_attempts lease c" "co_flight c w = Some (k, t)" "co_now c \<le> now" "now < t + lease"
  shows "holds lease c k t \<and> expired_others lease c w"
proof -
  have "t + lease \<le> co_now c \<or> holds lease c k t \<and> expired_others lease c w"
    using assms(1,2) unfolding courier_ok_def by blast
  with assms(3,4) show ?thesis by auto
qed

lemma landed_ok:
  assumes "courier_ok max_attempts lease c" "co_flight c w = Some (k, t)" "co_now c \<le> now" "expired_others lease c w"
    and "co_now c' = now" "co_flight c' = (co_flight c)(w := None)"
    and "dv_sent_at (co_row c') = None \<longrightarrow> co_copies c' = co_unrecorded c' + co_reverted c'"
      "co_copies c' \<le> co_unrecorded c' + co_reverted c' + 1" "0 \<le> co_crashes c'"
    and "dv_attempts (co_row c') \<le> max_attempts + co_crashes c' + int (card (dom (co_flight c'))) - (if open_row (co_row c') then 1 else 0)"
  shows "courier_ok max_attempts lease c'"
  using assms unfolding courier_ok_def expired_others_def by (auto split: if_splits) (meson order_trans)+

lemma courier_step_ok:
  assumes "courier_step True max_attempts lease c c'" "courier_ok max_attempts lease c" "1 \<le> max_attempts"
  shows "courier_ok max_attempts lease c'"
  using assms(1)
proof (cases rule: courier_step.cases)
  case (claim now w)
  have old: "t + lease \<le> now" if "co_flight c v = Some (k, t)" for v k t
  proof -
    have "t + lease \<le> co_now c \<or> holds lease c k t" using assms(2) that by (auto simp: courier_ok_def)
    then show ?thesis using claim(2,4) by (auto simp: holds_def deliverable_def)
  qed
  have "open_row (co_row c)" using claim(4) by (simp add: deliverable_def open_row_def)
  then show ?thesis
    using assms(2) claim old
    by (auto simp: courier_ok_def holds_def expired_others_def lease_row_def open_row_def domIff)
next
  case (sent now w k t)
  have l: "holds lease c k t" "expired_others lease c w" using live_holds [OF assms(2) sent(3,2)] sent(4) by auto
  have "card (dom (co_flight c)) = Suc (card (dom ((co_flight c)(w := None))))"
    using assms(2) sent(3) by (intro card_landed) (auto simp: courier_ok_def)
  with l assms(2) show ?thesis
    by (intro landed_ok [OF assms(2) sent(3,2) l(2)])
       (auto simp: sent(1) mark_sent_def open_row_def courier_ok_def holds_def)
next
  case (failed now w k t message)
  have l: "holds lease c k t" "expired_others lease c w" using live_holds [OF assms(2) failed(3,2)] failed(4) by auto
  have "card (dom (co_flight c)) = Suc (card (dom ((co_flight c)(w := None))))"
    using assms(2) failed(3) by (intro card_landed) (auto simp: courier_ok_def)
  with l assms(2) show ?thesis
    by (intro landed_ok [OF assms(2) failed(3,2) l(2)])
       (auto simp: failed(1) mark_failed_def open_row_def courier_ok_def holds_def)
next
  case (reverted now w k t message)
  have l: "holds lease c k t" "expired_others lease c w" using live_holds [OF assms(2) reverted(3,2)] reverted(4) by auto
  have "card (dom (co_flight c)) = Suc (card (dom ((co_flight c)(w := None))))"
    using assms(2) reverted(3) by (intro card_landed) (auto simp: courier_ok_def)
  with l assms(2) show ?thesis
    by (intro landed_ok [OF assms(2) reverted(3,2) l(2)])
       (auto simp: reverted(1) mark_failed_def open_row_def courier_ok_def holds_def)
next
  case (crash w k t accepted)
  have "card (dom (co_flight c)) = Suc (card (dom ((co_flight c)(w := None))))"
    using assms(2) crash(2) by (intro card_landed) (auto simp: courier_ok_def)
  then have count: "dv_attempts (co_row c') \<le> max_attempts + co_crashes c' + int (card (dom (co_flight c'))) - (if open_row (co_row c') then 1 else 0)"
    using assms(2) by (auto simp: courier_ok_def crash(1))
  have expired: "expired_others lease c v \<Longrightarrow> expired_others lease c' v" for v
    by (simp add: crash(1) expired_others_def)
  have held: "holds lease c' = holds lease c" "co_now c' = co_now c" by (simp_all add: crash(1) holds_def fun_eq_iff)
  have "t' + lease \<le> co_now c' \<or> holds lease c' k' t' \<and> expired_others lease c' v" if "co_flight c' v = Some (k', t')" for v k' t'
  proof -
    have "co_flight c v = Some (k', t')" using that by (simp add: crash(1) split: if_splits)
    then have "t' + lease \<le> co_now c \<or> holds lease c k' t' \<and> expired_others lease c v"
      using assms(2) unfolding courier_ok_def by blast
    with expired held show ?thesis by auto
  qed
  moreover have "finite (dom (co_flight c'))" "dv_sent_at (co_row c') = None \<longrightarrow> co_copies c' = co_unrecorded c' + co_reverted c'"
    "co_copies c' \<le> co_unrecorded c' + co_reverted c' + 1" "0 \<le> co_crashes c'"
    using assms(2) by (simp_all add: courier_ok_def crash(1))
  ultimately show ?thesis unfolding courier_ok_def using count by blast
qed

lemma courier_run_ok:
  "courier_run True max_attempts lease c c' \<Longrightarrow> courier_ok max_attempts lease c \<Longrightarrow> 1 \<le> max_attempts \<Longrightarrow>
   courier_ok max_attempts lease c'"
  by (induction rule: courier_run.induct) (auto intro: courier_step_ok)

text \<open>C28: A mail is sent once for every acceptance that is lost, and once more. Whatever workers claim, send, fail and crash on a
  row, as long as an attempt that ends does so within its lease, the server has accepted at most one copy more than there
  were acceptances without their record: workers that ended between the acceptance and its record, and acceptances that the
  \<open>catch\<close> recorded as failures because the update to \<open>sent\<close> threw or the reply was lost. So without such faults it accepts at
  most one copy. The attempts are bounded by the maximum, the workers that ended without a statement and those still in
  flight.\<close>

theorem prompt_workers_send_once:
  assumes "courier_run True max_attempts lease (fresh_courier r now) c" "1 \<le> max_attempts" "open_row r" "dv_attempts r = 0"
  shows "co_copies c \<le> 1 + co_unrecorded c + co_reverted c
    \<and> dv_attempts (co_row c) \<le> max_attempts + co_crashes c + int (card (dom (co_flight c)))"
proof -
  have "courier_ok max_attempts lease (fresh_courier r now)"
    using assms(2-4) by (simp add: courier_ok_def fresh_courier_def)
  from courier_run_ok [OF assms(1) this assms(2)] show ?thesis by (auto simp: courier_ok_def split: if_splits)
qed

section \<open>The batch does what the workers do\<close>

lemma fold_update_nth:
  assumes "distinct (map fst cs)" "j < length rows"
  shows "fold (\<lambda>(i, x) rows. rows[i := f i x (rows ! i)]) cs rows ! j
    = (case map_of cs j of None \<Rightarrow> rows ! j | Some x \<Rightarrow> f j x (rows ! j))"
  using assms
proof (induction cs arbitrary: rows)
  case (Cons c cs)
  obtain i x where c: "c = (i, x)" by force
  have "map_of cs i = None" using Cons.prems(1) by (simp add: c map_of_eq_None_iff)
  with Cons show ?case by (cases "i = j") (auto simp: c split: option.split)
qed simp

lemma fold_update_length: "length (fold (\<lambda>(i, x) rows. rows[i := f i x (rows ! i)]) cs rows) = length rows"
  by (induction cs arbitrary: rows) auto

lemma claimed_rows:
  assumes "claim_deliveries locked limit lease now rows = (claimed, rows')"
  shows "distinct (map fst claimed)" "\<forall>(i, r) \<in> set claimed. i < length rows \<and> r = rows ! i \<and> deliverable now r"
    "length rows' = length rows"
    "j < length rows \<Longrightarrow> rows' ! j = (case map_of claimed j of None \<Rightarrow> rows ! j | Some _ \<Rightarrow> lease_row lease now (rows ! j))"
proof -
  have c: "claimed = take limit (filter (\<lambda>(i, r). deliverable now r \<and> i \<notin> locked) (enumerate 0 rows))"
    and r: "rows' = fold (\<lambda>(i, x) rows. rows[i := lease_row lease now (rows ! i)]) claimed rows"
    using assms by (auto simp: claim_deliveries_def Let_def)
  have "distinct (map fst (filter (\<lambda>(i, r). deliverable now r \<and> i \<notin> locked) (enumerate 0 rows)))"
    by (intro distinct_map_filter) simp
  then show d: "distinct (map fst claimed)" unfolding c take_map [symmetric] by (rule distinct_take)
  show "\<forall>(i, r) \<in> set claimed. i < length rows \<and> r = rows ! i \<and> deliverable now r"
    by (auto simp: c in_set_enumerate_eq dest!: in_set_takeD)
  show "length rows' = length rows" unfolding r by (rule fold_update_length)
  show "rows' ! j = (case map_of claimed j of None \<Rightarrow> rows ! j | Some _ \<Rightarrow> lease_row lease now (rows ! j))" if "j < length rows"
    unfolding r using fold_update_nth [OF d that, of "\<lambda>i x. lease_row lease now"] by simp
qed

definition outcome_row :: "courier_config \<Rightarrow> (delivery \<Rightarrow> (string, unit) result) \<Rightarrow> courier_faults \<Rightarrow> int \<Rightarrow> delivery \<Rightarrow> delivery \<Rightarrow> delivery" where
  "outcome_row cf smtp faults now read current =
     (case send_failure cf smtp faults read of
        None \<Rightarrow> mark_sent now current
      | Some message \<Rightarrow>
          if cu_failed faults read = None then mark_failed (cc_max_attempts cf) now (dv_attempts read) message current else current)"

lemma deliver_rows:
  "fst (fold (deliver_one cf smtp faults row_ids now) claimed (rows, outbox, errs))
   = fold (\<lambda>(i, r) rows. rows[i := outcome_row cf smtp faults now r (rows ! i)]) claimed rows"
proof (induction claimed arbitrary: rows outbox errs)
  case (Cons c cs)
  obtain i r where c: "c = (i, r)" by force
  have "fst (deliver_one cf smtp faults row_ids now (i, r) (rows, outbox, errs)) = rows[i := outcome_row cf smtp faults now r (rows ! i)]"
    by (auto simp: deliver_one_def outcome_row_def split: option.split)
  then obtain outbox' errs' where "deliver_one cf smtp faults row_ids now (i, r) (rows, outbox, errs)
      = (rows[i := outcome_row cf smtp faults now r (rows ! i)], outbox', errs')"
    by (metis prod.collapse)
  then show ?case
    using Cons [of "rows[i := outcome_row cf smtp faults now r (rows ! i)]" outbox' errs'] by (simp only: c fold.simps comp_apply prod.case)
qed simp

text \<open>A batch leases and settles rows like prompt workers, and touches no other. Each row is as it was,
  or was deliverable and is now what a claim followed at once by its outcome makes of it: sent when
  the server accepted it and the update went through, otherwise due again after the delay of the attempt or terminal at the
  last one, and still leased when even that could not be written.\<close>

theorem email_batch_settles_claimed_rows:
  assumes "run_email_batch cf smtp faults row_ids locked now later db = (n, db')" "i < length (md_deliveries db)"
  shows "length (md_deliveries db') = length (md_deliveries db)
    \<and> (md_deliveries db' ! i = md_deliveries db ! i
       \<or> deliverable now (md_deliveries db ! i)
         \<and> md_deliveries db' ! i = outcome_row cf smtp faults later (md_deliveries db ! i) (lease_row (cc_lease cf) now (md_deliveries db ! i)))"
proof -
  let ?rows = "md_deliveries db"
  obtain claimed rows1 where c: "claim_deliveries locked (cc_limit cf) (cc_lease cf) now ?rows = (claimed, rows1)" by force
  note f = claimed_rows [OF c]
  have rows': "md_deliveries db' = fold (\<lambda>(i, r) rows. rows[i := outcome_row cf smtp faults later r (rows ! i)]) claimed rows1"
    using assms(1) deliver_rows [of cf smtp faults row_ids later claimed rows1 "md_outbox db" "[]"]
    by (auto simp: run_email_batch_def c split: prod.splits)
  have i: "i < length rows1" using assms(2) f(3) by simp
  have "md_deliveries db' ! i = (case map_of claimed i of None \<Rightarrow> rows1 ! i | Some r \<Rightarrow> outcome_row cf smtp faults later r (rows1 ! i))"
    unfolding rows' by (rule fold_update_nth [OF f(1) i])
  moreover have "length (md_deliveries db') = length ?rows"
    using fold_update_length [of "\<lambda>i x. outcome_row cf smtp faults later x" claimed rows1] f(3) by (simp only: rows')
  ultimately show ?thesis
    using f(2,4) assms(2) by (auto split: option.splits dest!: map_of_SomeD)
qed

section \<open>Examples\<close>

definition example_delivery :: delivery where
  "example_delivery = delivery_of example_mailing ''e1'' 0 example_draft"

definition example_courier_config :: courier_config where
  "example_courier_config = \<lparr>cc_mode = Some ''smtp'', cc_max_attempts = 5, cc_lease = 300000, cc_limit = 2, cc_dlq_topic = ''dlq''\<rparr>"

theorem email_batch_settles_claimed_rows_witness:
  "\<exists>n db'. run_email_batch example_courier_config (\<lambda>_. Inl ''down'') \<lparr>cu_sent = \<lambda>_. None, cu_failed = \<lambda>_. None\<rparr> (\<lambda>_. ''r'') {} 10 20
       (example_mail_db\<lparr>md_deliveries := [example_delivery]\<rparr>) = (n, db')
     \<and> length (md_deliveries db') = 1"
proof -
  obtain n db' where b: "run_email_batch example_courier_config (\<lambda>_. Inl ''down'') \<lparr>cu_sent = \<lambda>_. None, cu_failed = \<lambda>_. None\<rparr> (\<lambda>_. ''r'') {} 10 20
       (example_mail_db\<lparr>md_deliveries := [example_delivery]\<rparr>) = (n, db')" by force
  from email_batch_settles_claimed_rows [OF b, of 0] b show ?thesis by simp
qed

text \<open>The first acceptance is recorded as a failure, the mail is sent again.\<close>

lemma delivered_run:
  "\<exists>c. courier_run True 5 100 (fresh_courier example_delivery 0) c \<and> co_copies c = 2 \<and> co_reverted c = 1 \<and> co_unrecorded c = 0"
proof -
  let ?c0 = "fresh_courier example_delivery 0"
  let ?c1 = "?c0\<lparr>co_row := lease_row 100 1 (co_row ?c0), co_flight := (co_flight ?c0)(0 \<mapsto> (dv_attempts (co_row ?c0), 1)), co_now := 1\<rparr>"
  let ?c2 = "?c1\<lparr>co_row := mark_failed 5 2 (dv_attempts (co_row ?c0)) ''db'' (co_row ?c1), co_flight := (co_flight ?c1)(0 := None),
    co_now := 2, co_copies := co_copies ?c1 + 1, co_reverted := co_reverted ?c1 + 1\<rparr>"
  let ?c3 = "?c2\<lparr>co_row := lease_row 100 40000 (co_row ?c2), co_flight := (co_flight ?c2)(0 \<mapsto> (dv_attempts (co_row ?c2), 40000)), co_now := 40000\<rparr>"
  let ?c4 = "?c3\<lparr>co_row := mark_sent 40001 (co_row ?c3), co_flight := (co_flight ?c3)(0 := None), co_now := 40001, co_copies := co_copies ?c3 + 1\<rparr>"
  note row = fresh_courier_def deliverable_def example_delivery_def delivery_of_def Let_def
  have "courier_step True 5 100 ?c0 ?c1" by (rule courier_step.claim) (simp_all add: row)
  moreover have "courier_step True 5 100 ?c1 ?c2"
    by (rule courier_step.reverted [of _ _ 0 "dv_attempts (co_row ?c0)" 1]) (simp_all add: fresh_courier_def)
  moreover have "courier_step True 5 100 ?c2 ?c3"
    by (rule courier_step.claim) (simp_all add: row mark_failed_def lease_row_def email_retry_delay_ms_def retry_delays_ms_def)
  moreover have "courier_step True 5 100 ?c3 ?c4"
    by (rule courier_step.sent [of _ _ 0 "dv_attempts (co_row ?c2)" 40000]) (simp_all add: fresh_courier_def)
  ultimately have "courier_run True 5 100 ?c0 ?c4" by (meson courier_run.intros)
  then show ?thesis by (intro exI [of _ ?c4]) (simp add: fresh_courier_def)
qed

theorem prompt_workers_send_once_witness:
  "\<exists>c. courier_run True 5 100 (fresh_courier example_delivery 0) c \<and> co_copies c = 2 \<and> co_copies c \<le> 1 + co_unrecorded c + co_reverted c"
proof -
  obtain c where c: "courier_run True 5 100 (fresh_courier example_delivery 0) c" "co_copies c = 2" using delivered_run by blast
  from prompt_workers_send_once [OF c(1)] c show ?thesis
    by (auto simp: open_row_def example_delivery_def delivery_of_def Let_def)
qed


section \<open>The recovery and the event itself\<close>

lemma enqueue_result:
  assumes "\<not> settled db (ev_event_id ev)" "resolve_notification_drafts g ev db = Inr ds"
  shows "\<exists>db'. enqueue_notification g og now ev db = (Inr Processed, db')
    \<and> md_deliveries db' = fold (insert_skip delivery_clash) (map (delivery_of g (ev_event_id ev) now) ds) (md_deliveries db)
    \<and> same_world db db' \<and> (\<forall>i. settled db' i \<longleftrightarrow> settled db i \<or> i = ev_event_id ev)"
proof -
  have "fst (enqueue_notification g og now ev db) = Inr Processed" using assms by (simp add: enqueue_notification_def)
  then obtain db' where e: "enqueue_notification g og now ev db = (Inr Processed, db')" by (metis prod.collapse)
  then show ?thesis
    using assms enqueue_world [of db g og now ev] settled_enqueue [of g og now ev db] by (auto simp: enqueue_notification_def)
qed

lemma same_auction_drafts:
  assumes "auction_ended ev" "auction_ended ev'" "ev_aggregate_id ev' = ev_aggregate_id ev"
  shows "resolve_notification_drafts g ev' db = resolve_notification_drafts g ev db"
proof -
  have "auction_drafts g ev' db = auction_drafts g ev db" unfolding auction_drafts_def assms(3) ..
  with assms(1,2) show ?thesis by (simp add: resolve_notification_drafts_def)
qed

lemma recovery_ended: "auction_ended (recovery_envelope g product end_time)"
  by (simp add: auction_ended_def recovery_envelope_def Let_def normalize_event_type_def canonical_event_types_def)

text \<open>C29: The recovery of ended auctions can send every mail twice. It takes an auction whose mails are not
  queued yet, also one whose own event is still on its way, and queues its mails under an id of its
  own. When the event arrives, it is not a duplicate, and each of its drafts is queued again: the
  queue then holds two rows for it.\<close>

theorem recovery_duplicates_mails:
  assumes "queue_ok g (md_deliveries db)" "product \<notin> md_enqueued db" "0 < limit"
    and "auction_ended ev" "ev_aggregate_id ev = show_int product" "resolve_notification_drafts g ev db = Inr drafts"
    and "\<not> settled db (ev_event_id ev)" "\<not> settled db (recovery_event_id g product)" "ev_event_id ev \<noteq> recovery_event_id g product"
    and "recover_legacy_notifications g limit now [(product, end_time)] db = (recovered, db1)"
    and "enqueue_notification g og later ev db1 = (handled, db2)" "d \<in> set drafts"
    and "m1 = stable_message_id g (recovery_event_id g product) (df_key d) (df_template d)"
    and "m2 = stable_message_id g (ev_event_id ev) (df_key d) (df_template d)" "m1 \<noteq> m2"
  shows "recovered = Inr 1 \<and> handled = Inr Processed
    \<and> length (filter (\<lambda>r. dv_message_id r = m1) (md_deliveries db2)) = 1
    \<and> length (filter (\<lambda>r. dv_message_id r = m2) (md_deliveries db2)) = 1"
proof -
  let ?ev0 = "recovery_envelope g product (coalesce end_time now)"
  have id0: "ev_event_id ?ev0 = recovery_event_id g product" "ev_aggregate_id ?ev0 = show_int product"
    by (simp_all add: recovery_envelope_def Let_def)
  have drafts0: "resolve_notification_drafts g ?ev0 db = Inr drafts"
    using same_auction_drafts [OF assms(4) recovery_ended] assms(5,6) id0(2) by metis
  obtain db' where e1: "enqueue_notification g \<lparr>og_topic = ''scheduled_recovery'', og_partition = None, og_offset = None\<rparr> now ?ev0 db
      = (Inr Processed, db')"
    "md_deliveries db' = fold (insert_skip delivery_clash) (map (delivery_of g (recovery_event_id g product) now) drafts) (md_deliveries db)"
    "same_world db db'" "\<forall>i. settled db' i \<longleftrightarrow> settled db i \<or> i = recovery_event_id g product"
    using enqueue_result [OF _ drafts0] assms(8) id0(1) by metis
  have "recovered = Inr 1 \<and> db1 = db'"
    using assms(2,3,10) e1(1) by (cases limit) (simp_all add: recover_legacy_notifications_def)
  then have r: "recovered = Inr 1" "db1 = db'" by simp_all
  have "resolve_notification_drafts g ev db1 = Inr drafts" using same_world_drafts [OF e1(3)] assms(6) r(2) by simp
  moreover have "\<not> settled db1 (ev_event_id ev)" using e1(4) assms(7,9) r(2) by simp
  ultimately have e2: "handled = Inr Processed"
    "md_deliveries db2 = fold (insert_skip delivery_clash) (map (delivery_of g (ev_event_id ev) later) drafts) (md_deliveries db1)"
    using enqueue_result [of db1 ev g drafts og later] assms(11) by auto
  have q1: "queue_ok g (md_deliveries db1)" "queued g (recovery_event_id g product) d (md_deliveries db1)"
    using queue_ok_fold [OF assms(1), of "recovery_event_id g product" now drafts] assms(12) e1(2) r(2) by auto
  have q2: "queue_ok g (md_deliveries db2)" "queued g (ev_event_id ev) d (md_deliveries db2)"
    using queue_ok_fold [OF q1(1), of "ev_event_id ev" later drafts] assms(12) e2(2) by auto
  have "queued g (recovery_event_id g product) d (md_deliveries db2)"
    using queued_mono [OF q1(2)] fold_skip_grows e2(2) by metis
  with q2 r(1) e2(1) queued_once [OF q2(1)] show ?thesis by (simp add: assms(13,14))
qed

definition example_ended_db :: mail_db where
  "example_ended_db = example_mail_db\<lparr>md_listings := [9 \<mapsto>
     \<lparr>li_name = Some ''lamp'', li_price = Some 5, li_seller = 3, li_owner = None\<rparr>]\<rparr>"

definition example_closed :: envelope where
  "example_closed = example_envelope\<lparr>ev_event_type := ''auction.closed.v1'', ev_aggregate_id := ''9''\<rparr>"

definition example_no_winner :: draft where
  "example_no_winner = \<lparr>df_key = user_key 3, df_email = ''a@b'', df_template = ''auction-seller-no-winner'',
     df_subject = ''Auction ended: lamp'', df_mail = NoWinner ''lamp'' (product_url example_mailing ''lamp'' 9) 5\<rparr>"

lemma example_closed_drafts: "resolve_notification_drafts example_mailing example_closed example_ended_db = Inr [example_no_winner]"
  by (simp add: resolve_notification_drafts_def auction_ended_def example_closed_def normalize_event_type_def
      canonical_event_types_def auction_drafts_def big_int_of_def big_int_def is_digit_def dec_val_def digit_val_def
      example_ended_db_def example_mail_db_def require_user_def example_no_winner_def Let_def)

theorem recovery_duplicates_mails_witness:
  "\<exists>recovered db1 handled db2 m1 m2. recover_legacy_notifications example_mailing 50 3 [(9, Some 1)] example_ended_db = (recovered, db1)
     \<and> enqueue_notification example_mailing \<lparr>og_topic = ''t'', og_partition = None, og_offset = None\<rparr> 4 example_closed db1 = (handled, db2)
     \<and> m1 \<noteq> m2 \<and> length (filter (\<lambda>r. dv_message_id r = m1) (md_deliveries db2)) = 1
     \<and> length (filter (\<lambda>r. dv_message_id r = m2) (md_deliveries db2)) = 1"
proof -
  let ?m1 = "stable_message_id example_mailing (recovery_event_id example_mailing 9) (df_key example_no_winner) (df_template example_no_winner)"
  let ?m2 = "stable_message_id example_mailing (ev_event_id example_closed) (df_key example_no_winner) (df_template example_no_winner)"
  obtain recovered db1 where r: "recover_legacy_notifications example_mailing 50 3 [(9, Some 1)] example_ended_db = (recovered, db1)" by force
  obtain handled db2 where e: "enqueue_notification example_mailing \<lparr>og_topic = ''t'', og_partition = None, og_offset = None\<rparr> 4 example_closed db1
      = (handled, db2)" by force
  have start: "queue_ok example_mailing (md_deliveries example_ended_db)" "9 \<notin> md_enqueued example_ended_db" "\<And>i. \<not> settled example_ended_db i"
    by (simp_all add: queue_ok_def unique_rows_def example_ended_db_def example_mail_db_def settled_def)
  have event: "auction_ended example_closed" "ev_aggregate_id example_closed = show_int 9" by code_simp+
  have apart: "ev_event_id example_closed \<noteq> recovery_event_id example_mailing 9" "?m1 \<noteq> ?m2" by code_simp+
  from recovery_duplicates_mails [OF start(1,2) _ event example_closed_drafts start(3,3) apart(1) r e _ refl refl apart(2)] r e apart(2)
  show ?thesis by (intro exI [of _ recovered] exI [of _ db1] exI [of _ handled] exI [of _ db2] exI [of _ ?m1] exI [of _ ?m2]) simp
qed

end
