(* ===== verification/Pg_Engine.thy ===== *)
theory Pg_Engine
  imports Bootstrap
begin

text \<open>
  The PostgreSQL engine: the transactions of place-bid.use-case.ts, buy-now.use-case.ts and
  ban-bidder.use-case.ts over bid.repository.ts and bid-outbox.repository.ts. A transaction either
  gives its answer and the next tables or an error, and then the tables stay as they were. The
  product row and the idempotency key are locked, so transactions on an auction run one after
  another; one reading of the clock serves a transaction.
\<close>

section \<open>Tables\<close>

record audit_row =
  ad_actor :: nat
  ad_action :: string
  ad_type :: string
  ad_resource :: string
  ad_result :: string
  ad_correlation :: string
  ad_metadata :: json

text \<open>\<open>pg_users\<close>: rating and number of ratings. The rating is a float; only \<open>rating < 4\<close> is asked of it,
  which its integer part decides. \<open>pg_extend\<close>: the row of extend_bidding_time, threshold and
  extension in minutes. History rows are in the order of \<open>created_at\<close>.\<close>

record pg_store =
  pg_db :: database
  pg_users :: "int \<rightharpoonup> int option \<times> int option"
  pg_extend :: "(int option \<times> int option) option"
  pg_audits :: "audit_row list"

text \<open>What a transaction draws: ids of its two events and of its order.\<close>

record draws =
  dr_event :: string
  dr_second :: string
  dr_order :: string

text \<open>An error of the database client aborts the transaction.\<close>

definition required :: "string \<Rightarrow> 'a option \<Rightarrow> (bid_error, 'a) result" where
  "required message x = (case x of None \<Rightarrow> throws (BidUnexpectedError message) | Some y \<Rightarrow> returns y)"

section \<open>Repository\<close>

definition status_of_name :: "string \<Rightarrow> auction_status" where
  "status_of_name s =
     (if s = ''PENDING'' then PENDING else if s = ''ACTIVE'' then ACTIVE else if s = ''SOLD'' then SOLD
      else if s = ''ENDED'' then ENDED else CANCELLED)"

definition map_auction_row :: "int \<Rightarrow> nat \<Rightarrow> product_row \<Rightarrow> auction" where
  "map_auction_row now product p =
     (let start_time = coalesce (pr_start_time p) 0; end_time = coalesce (pr_end_time p) 0
      in \<lparr>a_product_id = product, a_seller_id = nat (pr_seller p), a_current_price = coalesce (pr_current_price p) 0,
          a_start_price = coalesce (pr_start_price p) 0, a_step_price = coalesce (pr_step_price p) 0,
          a_price_owner_id = map_option nat (product_row.pr_owner p), a_buy_now_price = pr_buy_now_price p,
          a_start_time = start_time, a_end_time = end_time, a_is_removed = coalesce (pr_removed p) False,
          a_status = (if pr_status p = ''PENDING'' \<and> start_time \<le> now \<and> end_time > now then ACTIVE else status_of_name (pr_status p)),
          a_version = pr_version p, a_sequence = pr_sequence p\<rparr>)"

definition lock_auction :: "int \<Rightarrow> nat \<Rightarrow> pg_store \<Rightarrow> auction option" where
  "lock_auction now product pg = map_option (map_auction_row now product) (db_products (pg_db pg) (int product))"

definition update_auction :: "auction \<Rightarrow> int \<Rightarrow> nat \<Rightarrow> nat \<Rightarrow> int option \<Rightarrow> pg_store \<Rightarrow> pg_store" where
  "update_auction a current_price owner turns end_time pg =
     pg\<lparr>pg_db := (pg_db pg)\<lparr>db_products := (db_products (pg_db pg))(int (a_product_id a) := map_option (\<lambda>p.
        p\<lparr>pr_current_price := Some current_price, product_row.pr_owner := Some (int owner),
          product_row.pr_turns := map_option (\<lambda>n. n + int turns) (product_row.pr_turns p),
          pr_end_time := (case end_time of None \<Rightarrow> pr_end_time p | Some t \<Rightarrow> Some t),
          pr_version := pr_version p + 1, pr_sequence := pr_sequence p + 1\<rparr>)
        (db_products (pg_db pg) (int (a_product_id a))))\<rparr>\<rparr>"

definition eligibility_of :: "nat \<Rightarrow> nat \<Rightarrow> pg_store \<Rightarrow> (bid_error, eligibility) result" where
  "eligibility_of product user pg =
     (case pg_users pg (int user) of
        None \<Rightarrow> throws (BidDomainError ''User not found'' 403 ''BID_REJECTED'')
      | Some (rating, ratings) \<Rightarrow>
          returns \<lparr>el_rating = coalesce rating 0, el_rating_count = coalesce ratings 0,
            el_banned = list_ex (\<lambda>b. bn_product b = int product \<and> bn_user b = int user) (db_bans (pg_db pg))\<rparr>)"

text \<open>The standing row with the highest maximum, the latest of them.\<close>

definition higher_row :: "history_row \<Rightarrow> history_row \<Rightarrow> history_row" where
  "higher_row best h = (if hi_max best \<le> hi_max h then h else best)"

definition leader_row :: "int \<Rightarrow> history_row list \<Rightarrow> history_row option" where
  "leader_row product rows =
     (case standing product rows of [] \<Rightarrow> None | h # hs \<Rightarrow> Some (foldl higher_row h hs))"

definition leader_of :: "int \<Rightarrow> history_row list \<Rightarrow> proxy_bid option" where
  "leader_of product rows = map_option (\<lambda>h. \<lparr>pb_user = nat (hi_user h), pb_max = hi_max h\<rparr>) (leader_row product rows)"

definition bid_row :: "nat \<Rightarrow> nat \<Rightarrow> int \<Rightarrow> int \<Rightarrow> nat \<Rightarrow> history_row" where
  "bid_row product user max_price product_price owner =
     \<lparr>hi_event_id = None, hi_product = int product, hi_user = int user, hi_max = max_price, hi_price = product_price,
      hi_owner = Some (int owner), hi_status = None, hi_sequence = None, hi_version = None\<rparr>"

text \<open>No unique index of the history concerns such a row.\<close>

definition record_bid :: "history_row \<Rightarrow> pg_store \<Rightarrow> pg_store" where
  "record_bid h pg = pg\<lparr>pg_db := (pg_db pg)\<lparr>db_histories := db_histories (pg_db pg) @ [h]\<rparr>\<rparr>"

fun raise_first :: "int \<Rightarrow> int \<Rightarrow> int \<Rightarrow> history_row list \<Rightarrow> history_row list" where
  "raise_first product user max_price [] = []"
| "raise_first product user max_price (h # hs) =
     (if hi_product h = product \<and> hi_user h = user \<and> hi_status h = None then h\<lparr>hi_max := max_price\<rparr> # hs
      else h # raise_first product user max_price hs)"

text \<open>The latest standing row of the bidder.\<close>

definition update_leader_max :: "nat \<Rightarrow> nat \<Rightarrow> int \<Rightarrow> pg_store \<Rightarrow> pg_store" where
  "update_leader_max product user max_price pg =
     pg\<lparr>pg_db := (pg_db pg)\<lparr>db_histories := rev (raise_first (int product) (int user) max_price (rev (db_histories (pg_db pg))))\<rparr>\<rparr>"

definition create_order :: "string \<Rightarrow> nat \<Rightarrow> nat \<Rightarrow> pg_store \<Rightarrow> (bid_error, pg_store) result" where
  "create_order order_id user product pg =
     bind_result (required ''Unique constraint failed'' (insert_row order_clash
       \<lparr>od_public_id = order_id, od_product = int product, od_user = int user, od_sequence = None\<rparr> (db_orders (pg_db pg))))
     (\<lambda>orders. returns (pg\<lparr>pg_db := (pg_db pg)\<lparr>db_orders := orders\<rparr>\<rparr>))"

text \<open>The reference to the user makes the insert of a ban fail for an unknown one.\<close>

definition ban_user :: "nat \<Rightarrow> nat \<Rightarrow> string \<Rightarrow> pg_store \<Rightarrow> (bid_error, pg_store) result" where
  "ban_user product user reason pg =
     (if pg_users pg (int user) = None then throws (BidUnexpectedError ''Foreign key constraint violated'')
      else bind_result (required ''Unique constraint failed'' (insert_row ban_clash
        \<lparr>bn_product = int product, bn_user = int user, bn_reason = Some reason\<rparr> (db_bans (pg_db pg))))
      (\<lambda>bans. returns (pg\<lparr>pg_db := (pg_db pg)\<lparr>db_bans := bans,
         db_histories := map (\<lambda>h. if hi_product h = int product \<and> hi_user h = int user \<and> hi_status h = None
           then h\<lparr>hi_status := Some ''BANNED''\<rparr> else h) (db_histories (pg_db pg))\<rparr>\<rparr>)))"

definition extended_end_time :: "int \<Rightarrow> auction \<Rightarrow> pg_store \<Rightarrow> int option" where
  "extended_end_time now a pg =
     (let threshold = (case pg_extend pg of None \<Rightarrow> 0 | Some (t, _) \<Rightarrow> coalesce t 0);
          extension = (case pg_extend pg of None \<Rightarrow> 0 | Some (_, e) \<Rightarrow> coalesce e 0)
      in if threshold \<le> 0 \<or> extension \<le> 0 \<or> a_end_time a > now + threshold * 60000 then None
         else Some (a_end_time a + extension * 60000))"

definition add_outbox_event :: "topics \<Rightarrow> string \<Rightarrow> string \<Rightarrow> string \<Rightarrow> string \<Rightarrow> json \<Rightarrow> pg_store \<Rightarrow> (bid_error, pg_store) result" where
  "add_outbox_event tp topic event_id event_type aggregate payload pg =
     (if topic \<notin> relay_topics tp then throws (BidUnexpectedError (''Unsupported outbox topic: '' @ topic))
      else bind_result (required ''Unique constraint failed'' (insert_row outbox_clash
        \<lparr>ob_event_id = event_id, ob_event_type = event_type, ob_event_version = 1, ob_aggregate_id = aggregate,
         ob_payload = JsonPayload payload, ob_topic = topic\<rparr> (db_outbox (pg_db pg))))
      (\<lambda>outbox. returns (pg\<lparr>pg_db := (pg_db pg)\<lparr>db_outbox := outbox\<rparr>\<rparr>)))"

definition add_bid_outbox_event :: "topics \<Rightarrow> string \<Rightarrow> string \<Rightarrow> nat \<Rightarrow> json \<Rightarrow> pg_store \<Rightarrow> (bid_error, pg_store) result" where
  "add_bid_outbox_event tp event_id event_type aggregate payload =
     add_outbox_event tp (tp_bidding tp) event_id event_type (show_nat aggregate) payload"

definition find_idempotent_response :: "string \<Rightarrow> nat \<Rightarrow> string \<Rightarrow> string \<Rightarrow> pg_store \<Rightarrow> (bid_error, json option) result" where
  "find_idempotent_response operation user key fp pg =
     (if key = '''' then returns None
      else case find (\<lambda>r. id_operation r = operation \<and> id_user r = int user \<and> id_key r = key) (db_idempotency (pg_db pg)) of
        None \<Rightarrow> returns None
      | Some r \<Rightarrow> if id_fingerprint r \<noteq> fp
          then throws (bid_rejected ''Idempotency key was already used for a different request'')
          else returns (Some (id_response r)))"

definition save_idempotent_response :: "string \<Rightarrow> nat \<Rightarrow> string \<Rightarrow> string \<Rightarrow> json \<Rightarrow> pg_store \<Rightarrow> (bid_error, pg_store) result" where
  "save_idempotent_response operation user key fp response pg =
     (if key = '''' then returns pg
      else bind_result (required ''Unique constraint failed'' (insert_row idempotency_clash
        \<lparr>id_operation = operation, id_user = int user, id_key = key, id_fingerprint = fp, id_response = response\<rparr>
        (db_idempotency (pg_db pg))))
      (\<lambda>rows. returns (pg\<lparr>pg_db := (pg_db pg)\<lparr>db_idempotency := rows\<rparr>\<rparr>)))"

section \<open>What bids and purchases share\<close>

record offer =
  of_user :: nat
  of_product :: nat
  of_amount :: string
  of_key :: string

definition offer_fingerprint :: "offer \<Rightarrow> string" where
  "offer_fingerprint i = show_nat (of_product i) @ '':'' @ of_amount i"

datatype admitted = Replayed json | Admitted auction int

definition admit :: "int \<Rightarrow> string \<Rightarrow> string \<Rightarrow> offer \<Rightarrow> pg_store \<Rightarrow> (bid_error, admitted) result" where
  "admit now operation field i pg =
     bind_result (parse_money_vnd (of_amount i) field) (\<lambda>amount.
     bind_result (find_idempotent_response operation (of_user i) (of_key i) (offer_fingerprint i) pg) (\<lambda>replay.
     case replay of
       Some response \<Rightarrow> returns (Replayed response)
     | None \<Rightarrow>
         (case lock_auction now (of_product i) pg of
            None \<Rightarrow> throws (bid_rejected ''Product not found'')
          | Some a \<Rightarrow>
              bind_result (assert_auction_available a now) (\<lambda>_.
              bind_result (eligibility_of (of_product i) (of_user i) pg) (\<lambda>el.
              bind_result (assert_bidder_can_participate a (of_user i) el) (\<lambda>_.
              returns (Admitted a amount)))))))"

section \<open>Purchases\<close>

definition complete_purchase :: "topics \<Rightarrow> int \<Rightarrow> draws \<Rightarrow> auction \<Rightarrow> nat \<Rightarrow> pg_store \<Rightarrow> (bid_error, string \<times> string \<times> pg_store) result" where
  "complete_purchase tp now dr a user pg =
     (case a_buy_now_price a of
        None \<Rightarrow> throws (bid_rejected ''Product does not have buy now price'')
      | Some price \<Rightarrow>
          bind_result (create_order (dr_order dr) user (a_product_id a)
            (record_bid (bid_row (a_product_id a) user price price user) (update_auction a price user 1 (Some now) pg))) (\<lambda>pg1.
          bind_result (add_bid_outbox_event tp (dr_event dr) ''auction.buy_now_completed'' (a_product_id a)
            (JObject [(''productId'', JInt (int (a_product_id a))), (''buyerId'', JInt (int user)),
              (''orderId'', JString (dr_order dr)), (''currentPrice'', JString (show_int price))]) pg1) (\<lambda>pg2.
          returns (dr_order dr, iso_string now, pg2))))"

definition buy_now :: "topics \<Rightarrow> int \<Rightarrow> draws \<Rightarrow> offer \<Rightarrow> pg_store \<Rightarrow> (bid_error, json \<times> pg_store) result" where
  "buy_now tp now dr i pg =
     bind_result (admit now ''buy_now'' ''buy_price'' i pg) (\<lambda>admitted.
     case admitted of
       Replayed response \<Rightarrow> returns (response, pg)
     | Admitted a amount \<Rightarrow>
         bind_result (assert_buy_now_available a (of_user i) amount) (\<lambda>_.
         bind_result (complete_purchase tp now dr a (of_user i) pg) (\<lambda>(order_id, end_time, pg1).
         let response = JObject [(''status'', JString ''success''), (''order_id'', JString order_id), (''end_time'', JString end_time)]
         in bind_result (save_idempotent_response ''buy_now'' (of_user i) (of_key i) (offer_fingerprint i) response pg1) (\<lambda>pg2.
            returns (response, pg2)))))"

section \<open>Bids\<close>

definition shadow_compare :: "auction \<Rightarrow> nat \<Rightarrow> int \<Rightarrow> proxy_bid option \<Rightarrow> shadow_counters \<Rightarrow> (bid_error, shadow_counters) result" where
  "shadow_compare a user maximum leader c =
     bind_result (decide_lua_reference_bid (shadow_state a leader) user maximum) (\<lambda>d.
     let r = calculate_proxy_bid a \<lparr>pb_user = user, pb_max = maximum\<rparr> leader
     in returns (record_shadow_comparison (rd_current_price d = pr_price r \<and> rd_leader d = proxy_result.pr_owner r) c))"

definition record_turns :: "auction \<Rightarrow> nat \<Rightarrow> int \<Rightarrow> proxy_bid option \<Rightarrow> proxy_result \<Rightarrow> pg_store \<Rightarrow> (bid_error, pg_store) result" where
  "record_turns a user maximum leader r pg =
     (let product = a_product_id a;
          pg1 = record_bid (bid_row product user maximum (pr_price r) (proxy_result.pr_owner r)) pg
      in case leader of
        None \<Rightarrow> returns pg1
      | Some l \<Rightarrow>
          if pb_user l = user
          then if maximum \<le> pb_max l
               then throws (bid_rejected ''Your new maximum bid must be higher than your current maximum bid'')
               else returns (update_leader_max product user maximum pg)
          else if maximum \<le> pb_max l
          then returns (record_bid (bid_row product (pb_user l) (pb_max l) (pr_price r) (pb_user l)) pg1)
          else returns pg1)"

definition accept_turns :: "topics \<Rightarrow> int \<Rightarrow> draws \<Rightarrow> auction \<Rightarrow> nat \<Rightarrow> int \<Rightarrow> proxy_bid option \<Rightarrow> pg_store \<Rightarrow> (bid_error, pg_store) result" where
  "accept_turns tp now dr a user maximum leader pg =
     (let r = calculate_proxy_bid a \<lparr>pb_user = user, pb_max = maximum\<rparr> leader; product = a_product_id a
      in bind_result (record_turns a user maximum leader r pg) (\<lambda>pg1.
         let end_time = extended_end_time now a pg1
         in bind_result (add_bid_outbox_event tp (dr_event dr) ''bid.accepted'' product
              (JObject [(''productId'', JInt (int product)), (''bidderId'', JInt (int user)),
                (''currentPrice'', JString (show_int (pr_price r))), (''priceOwnerId'', JInt (int (proxy_result.pr_owner r)))])
              (update_auction a (pr_price r) (proxy_result.pr_owner r) (proxy_result.pr_turns r) end_time pg1)) (\<lambda>pg2.
            case end_time of
              None \<Rightarrow> returns pg2
            | Some t \<Rightarrow> add_bid_outbox_event tp (dr_second dr) ''auction.extended'' product
                (JObject [(''productId'', JInt (int product)), (''endTime'', JString (iso_string t))]) pg2)))"

text \<open>The shadow counters are memory of the process: they keep what an aborted transaction counted.\<close>

definition settle_bid :: "topics \<Rightarrow> bid_engine \<Rightarrow> int \<Rightarrow> draws \<Rightarrow> auction \<Rightarrow> nat \<Rightarrow> int \<Rightarrow> pg_store \<Rightarrow> shadow_counters
    \<Rightarrow> (bid_error, pg_store) result \<times> shadow_counters" where
  "settle_bid tp engine now dr a user maximum pg c =
     (if (case a_buy_now_price a of None \<Rightarrow> False | Some price \<Rightarrow> price \<le> maximum)
      then (bind_result (complete_purchase tp now dr a user pg) (\<lambda>(_, _, pg1). returns pg1), c)
      else let leader = leader_of (int (a_product_id a)) (db_histories (pg_db pg))
           in case (if engine = ShadowEngine then shadow_compare a user maximum leader c else returns c) of
                Inl e \<Rightarrow> (throws e, c)
              | Inr c' \<Rightarrow> (accept_turns tp now dr a user maximum leader pg, c'))"

definition bid_response :: json where
  "bid_response = JObject [(''status'', JString ''success'')]"

definition place_bid :: "topics \<Rightarrow> bid_engine \<Rightarrow> int \<Rightarrow> draws \<Rightarrow> offer \<Rightarrow> pg_store \<Rightarrow> shadow_counters
    \<Rightarrow> (bid_error, json \<times> pg_store) result \<times> shadow_counters" where
  "place_bid tp engine now dr i pg c =
     (case bind_result (admit now ''place_bid'' ''max_price'' i pg) (\<lambda>admitted. case admitted of
          Replayed response \<Rightarrow> returns admitted
        | Admitted a maximum \<Rightarrow> bind_result (assert_bid_amount a maximum) (\<lambda>_. returns admitted)) of
        Inl e \<Rightarrow> (throws e, c)
      | Inr (Replayed response) \<Rightarrow> (returns (response, pg), c)
      | Inr (Admitted a maximum) \<Rightarrow>
          (case settle_bid tp engine now dr a (of_user i) maximum pg c of
             (r, c') \<Rightarrow>
               (bind_result r (\<lambda>pg1.
                bind_result (save_idempotent_response ''place_bid'' (of_user i) (of_key i) (offer_fingerprint i) bid_response pg1) (\<lambda>pg2.
                returns (bid_response, pg2))), c')))"

section \<open>Bans\<close>

definition ban_bidder :: "topics \<Rightarrow> int \<Rightarrow> draws \<Rightarrow> nat \<Rightarrow> string \<Rightarrow> nat \<Rightarrow> nat \<Rightarrow> string \<Rightarrow> string \<Rightarrow> pg_store
    \<Rightarrow> (bid_error, pg_store) result" where
  "ban_bidder tp now dr actor role product banned reason correlation pg =
     (case lock_auction now product pg of
        None \<Rightarrow> throws (bid_rejected ''Product not found'')
      | Some a \<Rightarrow>
          bind_result (assert_ban_authority actor role a) (\<lambda>_.
          if list_ex (\<lambda>b. bn_product b = int product \<and> bn_user b = int banned) (db_bans (pg_db pg))
          then throws (bid_rejected ''Bidder was already banned'')
          else bind_result (ban_user product banned reason pg) (\<lambda>pg1.
               bind_result (add_bid_outbox_event tp (dr_event dr) ''bidder.banned'' product
                 (JObject [(''productId'', JInt (int product)), (''bannedUserId'', JInt (int banned)), (''reason'', JString reason)]) pg1) (\<lambda>pg2.
               returns (pg2\<lparr>pg_audits := pg_audits pg2 @ [\<lparr>ad_actor = actor, ad_action = ''bidder.ban'', ad_type = ''product_bidder'',
                 ad_resource = show_nat product @ '':'' @ show_nat banned, ad_result = ''success'', ad_correlation = correlation,
                 ad_metadata = JObject [(''reason'', JString reason)]\<rparr>]\<rparr>)))))"

end
