(* ===== verification/Pg_Properties.thy ===== *)
theory Pg_Properties
  imports Pg_Engine Auction_Properties
begin

text \<open>
  Properties of the PostgreSQL engine: an accepted bid is the specification's, a purchase is final
  whatever transactions follow, and a retry gets the first answer.
\<close>

section \<open>Rows of the history\<close>

lemma standing_rows_append [simp]:
  "standing p (rows @ rows') = standing p rows @ standing p rows'"
  by (simp add: standing_def)

lemma standing_one [simp]:
  "standing p [] = []" "hi_product h = p \<Longrightarrow> hi_status h = None \<Longrightarrow> standing p (h # hs) = h # standing p hs"
  by (simp_all add: standing_def)

lemma leader_row_snoc:
  assumes "hi_product h = p" "hi_status h = None"
  shows "leader_row p (rows @ [h]) = Some (case leader_row p rows of None \<Rightarrow> h | Some l \<Rightarrow> higher_row l h)"
  using assms by (cases "standing p rows") (auto simp: leader_row_def standing_def)

lemma higher_rows:
  "foldl higher_row h hs \<in> set (h # hs) \<and> (\<forall>x \<in> set (h # hs). hi_max x \<le> hi_max (foldl higher_row h hs))"
proof (induction hs rule: rev_induct)
  case (snoc x xs)
  then show ?case by (auto simp: higher_row_def)
qed simp

lemma leader_row_highest:
  "leader_row p rows = Some l \<Longrightarrow> l \<in> set (standing p rows) \<and> (\<forall>x \<in> set (standing p rows). hi_max x \<le> hi_max l)"
  using higher_rows by (cases "standing p rows") (auto simp: leader_row_def)

lemma leader_row_None: "leader_row p rows = None \<longleftrightarrow> standing p rows = []"
  by (cases "standing p rows") (simp_all add: leader_row_def)

lemma leader_row_unique:
  assumes "h \<in> set (standing p rows)" "\<forall>x \<in> set (standing p rows). x = h \<or> hi_max x < hi_max h"
  shows "leader_row p rows = Some h"
proof -
  obtain l where l: "leader_row p rows = Some l" using assms(1) leader_row_None by fastforce
  then have "hi_max h \<le> hi_max l" "l = h \<or> hi_max l < hi_max h" using leader_row_highest [OF l] assms by blast+
  with l show ?thesis by auto
qed

lemma user_maximum_snoc:
  assumes "hi_product h = p" "hi_status h = None"
  shows "user_maximum p (rows @ [h]) u =
    (if hi_user h = u then Some (case user_maximum p rows u of None \<Rightarrow> hi_max h | Some m \<Rightarrow> max (hi_max h) m) else user_maximum p rows u)"
  using assms by (cases "filter (\<lambda>h. hi_user h = u) (standing p rows)") (auto simp: user_maximum_def standing_def)

lemma user_maximum_top:
  assumes "h \<in> set (standing p rows)" "\<forall>x \<in> set (standing p rows). hi_user x = hi_user h \<longrightarrow> hi_max x \<le> hi_max h"
  shows "user_maximum p rows (hi_user h) = Some (hi_max h)"
proof -
  have "Max (hi_max ` rows_of p rows (hi_user h)) = hi_max h"
    using assms by (intro Max_eqI) (auto simp: rows_of_def)
  then show ?thesis using assms(1) by (auto simp: user_maximum_Max rows_of_empty)
qed

lemma raise_first_split:
  assumes "h \<in> set (standing p rows)" "hi_user h = u"
  shows "\<exists>xs y ys. rows = xs @ y # ys \<and> hi_product y = p \<and> hi_user y = u \<and> hi_status y = None
    \<and> raise_first p u m rows = xs @ y\<lparr>hi_max := m\<rparr> # ys"
  using assms
proof (induction rows)
  case (Cons x rows)
  show ?case
  proof (cases "hi_product x = p \<and> hi_user x = u \<and> hi_status x = None")
    case True
    then show ?thesis by (intro exI [of _ "[]"] exI [of _ x] exI [of _ rows]) simp
  next
    case False
    then have "h \<in> set (standing p rows)" using Cons.prems by (auto simp: standing_def split: if_splits)
    then obtain xs y ys where "rows = xs @ y # ys \<and> hi_product y = p \<and> hi_user y = u \<and> hi_status y = None
      \<and> raise_first p u m rows = xs @ y\<lparr>hi_max := m\<rparr> # ys" using Cons by blast
    with False show ?thesis by (intro exI [of _ "x # xs"] exI [of _ y] exI [of _ ys]) auto
  qed
qed (simp add: standing_def)

text \<open>A leader who raises: the maximum of that bidder alone changes, and the row leads.\<close>

lemma raised_rows:
  assumes "leader_row p rows = Some l" "hi_max l < m" "rows' = rev (raise_first p (hi_user l) m (rev rows))"
  shows "\<exists>h. leader_row p rows' = Some h \<and> hi_user h = hi_user l \<and> hi_max h = m"
    "user_maximum p rows' u = (if u = hi_user l then Some m else user_maximum p rows u)"
    "\<forall>x \<in> set (standing p rows'). x \<in> set (standing p rows) \<or> hi_user x = hi_user l \<and> hi_max x = m"
proof -
  have l: "l \<in> set (standing p rows)" "\<forall>x \<in> set (standing p rows). hi_max x \<le> hi_max l"
    using leader_row_highest [OF assms(1)] by auto
  then have "l \<in> set (standing p (rev rows))" by (simp add: standing_def)
  from raise_first_split [OF this refl] obtain xs y ys where y: "rev rows = xs @ y # ys" "hi_product y = p"
    "hi_user y = hi_user l" "hi_status y = None" "rows' = rev (xs @ y\<lparr>hi_max := m\<rparr> # ys)"
    unfolding assms(3) by metis
  then have rows: "rows = rev ys @ y # rev xs" by (metis append_assoc append_Cons append_Nil rev.simps(2) rev_append rev_rev_ident)
  have st: "standing p rows = standing p (rev ys) @ y # standing p (rev xs)"
    "standing p rows' = standing p (rev ys) @ y\<lparr>hi_max := m\<rparr> # standing p (rev xs)"
    using y by (simp_all add: rows)
  have less: "\<forall>x \<in> set (standing p (rev ys)) \<union> set (standing p (rev xs)). hi_max x < m"
    using l(2) assms(2) by (auto simp: st intro: le_less_trans)
  have "leader_row p rows' = Some (y\<lparr>hi_max := m\<rparr>)"
    using less by (intro leader_row_unique) (auto simp: st)
  with y(3) show "\<exists>h. leader_row p rows' = Some h \<and> hi_user h = hi_user l \<and> hi_max h = m" by auto
  have "user_maximum p rows' (hi_user (y\<lparr>hi_max := m\<rparr>)) = Some m"
    using user_maximum_top [of "y\<lparr>hi_max := m\<rparr>" p rows'] less by (force simp: st)
  with y(3) show "user_maximum p rows' u = (if u = hi_user l then Some m else user_maximum p rows u)"
    by (auto simp: user_maximum_def st)
  show "\<forall>x \<in> set (standing p rows'). x \<in> set (standing p rows) \<or> hi_user x = hi_user l \<and> hi_max x = m"
    using y(3) by (auto simp: st)
qed

lemma bidder_max_insort:
  assumes "distinct (map snd (b_ranking m))" "b_ranking m' = insort (amount, actor) (without actor (b_ranking m))"
  shows "bidder_max m' u = (if u = actor then Some amount else bidder_max m u)"
proof -
  have "distinct (map snd (b_ranking m'))"
    using assms by (auto simp: distinct_map_insort without_def distinct_map_filter)
  from bidder_max_Some [OF this] have "bidder_max m' u = Some a \<longleftrightarrow> (if u = actor then Some amount else bidder_max m u) = Some a" for a
    using bidder_max_Some [OF assms(1)] by (auto simp: assms(2) set_insort_key)
  then show ?thesis by (metis not_None_eq)
qed

section \<open>An accepted bid\<close>

lemma required_Inr [simp]: "required message x = Inr y \<longleftrightarrow> x = Some y"
  by (simp add: required_def split: option.split)

text \<open>What bids and purchases read and write, apart from the tables of events and answers.\<close>

definition same_auctions :: "pg_store \<Rightarrow> pg_store \<Rightarrow> bool" where
  "same_auctions pg pg' =
     (db_products (pg_db pg') = db_products (pg_db pg) \<and> db_histories (pg_db pg') = db_histories (pg_db pg)
      \<and> db_bans (pg_db pg') = db_bans (pg_db pg) \<and> pg_users pg' = pg_users pg \<and> pg_extend pg' = pg_extend pg
      \<and> db_orders (pg_db pg') = db_orders (pg_db pg))"

lemma same_auctions_trans: "same_auctions a b \<Longrightarrow> same_auctions b c \<Longrightarrow> same_auctions a c"
  by (simp add: same_auctions_def)

lemma bid_outbox_frame: "add_bid_outbox_event tp event_id event_type product payload pg = Inr pg' \<Longrightarrow>
    same_auctions pg pg' \<and> db_idempotency (pg_db pg') = db_idempotency (pg_db pg)"
  by (auto simp: add_bid_outbox_event_def add_outbox_event_def same_auctions_def bind_result_Inr_iff split: if_splits)

lemma save_frame: "save_idempotent_response operation user key fp response pg = Inr pg' \<Longrightarrow> same_auctions pg pg'"
  by (auto simp: save_idempotent_response_def same_auctions_def bind_result_Inr_iff split: if_splits)

lemma admit_new:
  assumes "admit now operation field i pg = Inr r"
    and "find_idempotent_response operation (of_user i) (of_key i) (offer_fingerprint i) pg = Inr None"
  obtains a amount el where "r = Admitted a amount" "parse_money_vnd (of_amount i) field = Inr amount"
    "lock_auction now (of_product i) pg = Some a" "assert_auction_available a now = Inr ()"
    "eligibility_of (of_product i) (of_user i) pg = Inr el" "assert_bidder_can_participate a (of_user i) el = Inr ()"
  using assms by (auto simp: admit_def bind_result_Inr_iff split: option.splits)

lemma place_bid_new:
  assumes "place_bid tp engine now dr i pg c = (Inr (response, pg'), c')"
    and "find_idempotent_response ''place_bid'' (of_user i) (of_key i) (offer_fingerprint i) pg = Inr None"
  obtains a amount el pg1 where "parse_money_vnd (of_amount i) ''max_price'' = Inr amount"
    "lock_auction now (of_product i) pg = Some a" "assert_auction_available a now = Inr ()"
    "eligibility_of (of_product i) (of_user i) pg = Inr el" "assert_bidder_can_participate a (of_user i) el = Inr ()"
    "assert_bid_amount a amount = Inr ()" "fst (settle_bid tp engine now dr a (of_user i) amount pg c) = Inr pg1"
    "save_idempotent_response ''place_bid'' (of_user i) (of_key i) (offer_fingerprint i) bid_response pg1 = Inr pg'"
    "response = bid_response"
proof -
  obtain r where r: "admit now ''place_bid'' ''max_price'' i pg = Inr r"
    using assms(1) by (cases "admit now ''place_bid'' ''max_price'' i pg") (auto simp: place_bid_def)
  from admit_new [OF r assms(2)] obtain a amount el where a: "r = Admitted a amount"
    "parse_money_vnd (of_amount i) ''max_price'' = Inr amount"
    "lock_auction now (of_product i) pg = Some a" "assert_auction_available a now = Inr ()"
    "eligibility_of (of_product i) (of_user i) pg = Inr el" "assert_bidder_can_participate a (of_user i) el = Inr ()" .
  have amount: "assert_bid_amount a amount = Inr ()"
    using assms(1) r a(1) by (cases "assert_bid_amount a amount") (auto simp: place_bid_def)
  obtain x where x: "settle_bid tp engine now dr a (of_user i) amount pg c = (x, c')"
    using assms(1) r a(1) amount by (auto simp: place_bid_def split: prod.splits)
  with assms(1) r a(1) amount have "bind_result x (\<lambda>pg1. bind_result (save_idempotent_response ''place_bid'' (of_user i) (of_key i)
      (offer_fingerprint i) bid_response pg1) (\<lambda>pg2. returns (bid_response, pg2))) = Inr (response, pg')"
    by (simp add: place_bid_def)
  then obtain pg1 where "x = Inr pg1" "save_idempotent_response ''place_bid'' (of_user i) (of_key i) (offer_fingerprint i) bid_response pg1 = Inr pg'"
    "response = bid_response"
    by (auto simp: bind_result_Inr_iff)
  with a amount x show ?thesis by (intro that [of amount a el pg1]) simp_all
qed

text \<open>The tables hold the auction \<open>m\<close>: the rows mirror it, the query for the leader finds its leader, and
  the maxima of the other bidders are not above the price.\<close>

definition pg_holds :: "nat \<Rightarrow> bidding \<Rightarrow> pg_store \<Rightarrow> bool" where
  "pg_holds pid m pg =
     (mirrors pid m (pg_db pg)
      \<and> leader_of (int pid) (db_histories (pg_db pg)) = map_option (\<lambda>(b, a). \<lparr>pb_user = b, pb_max = int a\<rparr>) (b_leader m)
      \<and> (\<forall>(a, b) \<in> set (b_ranking m). Some b \<noteq> map_option fst (b_leader m) \<longrightarrow> a \<le> b_price m))"

lemma pg_holds_cong: "same_auctions pg pg' \<Longrightarrow> pg_holds pid m pg' \<longleftrightarrow> pg_holds pid m pg"
  by (simp add: same_auctions_def pg_holds_def mirrors_def bidders_mirrored_def db_maximum_def)

lemma held_auction:
  assumes "pg_holds pid m pg" "lock_auction now pid pg = Some a"
  shows "a_current_price a = int (b_price m) \<and> a_step_price a = int (b_step m) \<and> a_seller_id a = b_seller m
    \<and> a_buy_now_price a = map_option int (b_buy_now m) \<and> a_start_time a = b_start_at m \<and> a_end_time a = b_end_at m
    \<and> a_status a = status_at m now \<and> a_product_id a = pid"
proof -
  obtain p where p: "db_products (pg_db pg) (int pid) = Some p" "product_mirrored m p"
    using assms(1) by (auto simp: pg_holds_def mirrors_def)
  have "status_of_name (status_name s) = s" for s by (cases s) (simp_all add: status_of_name_def)
  with assms(2) p show ?thesis
    by (auto simp: lock_auction_def map_auction_row_def product_mirrored_def Let_def status_at_def)
qed

lemma held_guard:
  assumes "pg_holds pid m pg" "lock_auction now pid pg = Some a" "assert_auction_available a now = Inr ()"
    and "eligibility_of pid user pg = Inr el" "assert_bidder_can_participate a user el = Inr ()"
  shows "spec_guard m user now = None"
proof -
  note h = held_auction [OF assms(1,2)]
  have avail: "a_status a \<in> {PENDING, ACTIVE}" "b_start_at m \<le> now" "now < b_end_at m"
    using assms(3) h by (auto simp: assert_auction_available_ok)
  have "status_at m now \<noteq> PENDING" using avail(2,3) by (auto simp: status_at_def)
  then have "status_at m now = ACTIVE" using avail(1) h by auto
  moreover have "user \<noteq> b_seller m" "\<not> el_banned el"
    using assms(5) h by (auto simp: assert_bidder_can_participate_def split: if_splits)
  moreover have "user \<notin> b_bans m"
  proof
    assume "user \<in> b_bans m"
    then have "int user \<in> bn_user ` set (filter (\<lambda>b. bn_product b = int pid) (db_bans (pg_db pg)))"
      using assms(1) by (auto simp: pg_holds_def mirrors_def bidders_mirrored_def)
    then have "el_banned el" using assms(4) by (auto simp: eligibility_of_def list_ex_iff split: option.splits)
    with \<open>\<not> el_banned el\<close> show False by simp
  qed
  ultimately show ?thesis using avail by (auto simp: spec_guard_None)
qed


lemma spec_proxy_calculated:
  fixes user n :: nat
  assumes "a_current_price a = int (b_price m)" "a_step_price a = int (b_step m)"
  defines "r \<equiv> calculate_proxy_bid a \<lparr>pb_user = user, pb_max = int n\<rparr>
      (map_option (\<lambda>(b, t). \<lparr>pb_user = b, pb_max = int t\<rparr>) (b_leader m))"
  shows "pr_price r = int (fst (spec_proxy m user n)) \<and> proxy_result.pr_owner r = fst (snd (spec_proxy m user n))"
  using assms(1,2) by (auto simp: r_def calculate_proxy_bid_def spec_proxy_def min_money_def split: option.split)

lemma leader_of_Some:
  "leader_of p rows = Some l \<longleftrightarrow> (\<exists>h. leader_row p rows = Some h \<and> l = \<lparr>pb_user = nat (hi_user h), pb_max = hi_max h\<rparr>)"
  by (auto simp: leader_of_def)

lemma held_leader:
  assumes "pg_holds pid m pg" "b_leader m = Some (b, t)"
  obtains l where "leader_row (int pid) (db_histories (pg_db pg)) = Some l" "hi_user l = int b" "hi_max l = int t"
proof -
  have "leader_of (int pid) (db_histories (pg_db pg)) = Some \<lparr>pb_user = b, pb_max = int t\<rparr>"
    using assms by (simp add: pg_holds_def)
  then obtain l where l: "leader_row (int pid) (db_histories (pg_db pg)) = Some l" "b = nat (hi_user l)" "hi_max l = int t"
    by (auto simp: leader_of_Some)
  have "0 \<le> hi_user l"
    using leader_row_highest [OF l(1)] assms(1) by (auto simp: pg_holds_def mirrors_def bidders_mirrored_def)
  with l show ?thesis by (intro that) auto
qed

lemma held_no_leader:
  "pg_holds pid m pg \<Longrightarrow> b_leader m = None \<Longrightarrow> leader_row (int pid) (db_histories (pg_db pg)) = None"
  by (simp add: pg_holds_def leader_of_def)

text \<open>What the recorded rows of an accepted bid say.\<close>

definition rows_say :: "nat \<Rightarrow> (nat \<Rightarrow> nat option) \<Rightarrow> nat \<Rightarrow> nat \<Rightarrow> history_row list \<Rightarrow> bool" where
  "rows_say pid maxima b t rows =
     ((\<forall>h \<in> set (standing (int pid) rows). 0 \<le> hi_user h \<and> 0 \<le> hi_max h)
      \<and> (\<forall>u. map_option nat (user_maximum (int pid) rows (int u)) = maxima u)
      \<and> leader_of (int pid) rows = Some \<lparr>pb_user = b, pb_max = int t\<rparr>)"

lemma bid_row_simps [simp]:
  "hi_product (bid_row pid user n price b) = int pid" "hi_status (bid_row pid user n price b) = None"
  "hi_user (bid_row pid user n price b) = int user" "hi_max (bid_row pid user n price b) = n"
  by (simp_all add: bid_row_def)

lemma record_bid_db [simp]:
  "db_histories (pg_db (record_bid h pg)) = db_histories (pg_db pg) @ [h]"
  by (simp add: record_bid_def)

lemma appended_bid:
  assumes "\<forall>h \<in> set (standing (int pid) rows). 0 \<le> hi_user h \<and> 0 \<le> hi_max h"
    and "\<And>u. map_option nat (user_maximum (int pid) rows (int u)) = maxima u"
    and "\<And>k. maxima user = Some k \<Longrightarrow> k \<le> n"
  shows "(\<forall>h \<in> set (standing (int pid) (rows @ [bid_row pid user (int n) price b])). 0 \<le> hi_user h \<and> 0 \<le> hi_max h)
    \<and> (\<forall>u. map_option nat (user_maximum (int pid) (rows @ [bid_row pid user (int n) price b]) (int u)) = (maxima(user \<mapsto> n)) u)"
proof -
  have "user_maximum (int pid) rows (int user) = Some k \<Longrightarrow> k \<le> int n" for k
    using assms(2) [of user] assms(3) [of "nat k"] by (cases "maxima user") auto
  then show ?thesis using assms(1,2) by (auto simp: user_maximum_snoc max_def split: option.splits)
qed

lemma recorded_turns:
  assumes holds: "pg_holds pid m pg" and ok: "bidding_ok m" "status_at m now = ACTIVE"
    and a: "a_current_price a = int (b_price m)" "a_step_price a = int (b_step m)" "a_product_id a = pid"
    and high: "b_price m < n"
    and rec: "record_turns a user (int n) (leader_of (int pid) (db_histories (pg_db pg)))
      (calculate_proxy_bid a \<lparr>pb_user = user, pb_max = int n\<rparr> (leader_of (int pid) (db_histories (pg_db pg)))) pg = Inr pg1"
  shows "rows_say pid ((bidder_max m)(user \<mapsto> n)) (fst (snd (spec_proxy m user n))) (snd (snd (spec_proxy m user n))) (db_histories (pg_db pg1))
    \<and> (\<forall>previous. bidder_max m user = Some previous \<longrightarrow> previous < n)"
proof -
  let ?p = "int pid" and ?rows = "db_histories (pg_db pg)"
  have lead: "leader_of ?p ?rows = map_option (\<lambda>(b, t). \<lparr>pb_user = b, pb_max = int t\<rparr>) (b_leader m)"
    using holds by (simp add: pg_holds_def)
  have rows: "\<forall>h \<in> set (standing ?p ?rows). 0 \<le> hi_user h \<and> 0 \<le> hi_max h"
    "\<And>u. map_option nat (user_maximum ?p ?rows (int u)) = bidder_max m u"
    using holds by (auto simp: pg_holds_def mirrors_def bidders_mirrored_def db_maximum_def)
  have dist: "distinct (map snd (b_ranking m))" and lok: "leader_ok m"
    using ok bidding_ok_open by (auto simp: bidding_ok_def ranking_ok_def)
  have others: "k \<le> b_price m" if "bidder_max m u = Some k" "Some u \<noteq> map_option fst (b_leader m)" for u k
    using that holds dist by (auto simp: pg_holds_def bidder_max_Some)
  note app = appended_bid [of pid ?rows "bidder_max m" user n, OF rows]
  show ?thesis
  proof (cases "b_leader m")
    case None
    then have "bidder_max m user = None" using lok by (simp add: leader_ok_def bidder_max_def)
    moreover have "db_histories (pg_db pg1) = ?rows @ [bid_row pid user (int n) (int (b_price m)) user]"
      using rec lead None a by (auto simp: record_turns_def calculate_proxy_bid_def Let_def)
    ultimately show ?thesis
      using app None held_no_leader [OF holds None]
      by (simp add: rows_say_def spec_proxy_def leader_of_def leader_row_snoc)
  next
    case (Some bt)
    obtain b t where bt: "bt = (b, t)" by force
    obtain l where l: "leader_row ?p ?rows = Some l" "hi_user l = int b" "hi_max l = int t"
      using held_leader [OF holds] Some bt by metis
    have top: "bidder_max m b = Some t" "b_price m \<le> t" using lok dist by (auto simp: leader_ok_def Some bt bidder_max_Some)
    let ?r = "calculate_proxy_bid a \<lparr>pb_user = user, pb_max = int n\<rparr> (Some \<lparr>pb_user = b, pb_max = int t\<rparr>)"
    have rec': "record_turns a user (int n) (Some \<lparr>pb_user = b, pb_max = int t\<rparr>) ?r pg = Inr pg1"
      using rec lead Some bt by simp
    show ?thesis
    proof (cases "b = user")
      case True
      with rec' have n: "t < n" and pg1: "db_histories (pg_db pg1) = rev (raise_first ?p (hi_user l) (int n) (rev ?rows))"
        by (auto simp: record_turns_def update_leader_max_def a(3) l(2) split: if_splits)
      have less: "hi_max l < int n" using n l(3) by simp
      note up = raised_rows [OF l(1) less pg1]
      have "\<forall>h \<in> set (standing ?p (db_histories (pg_db pg1))). 0 \<le> hi_user h \<and> 0 \<le> hi_max h"
        using up(3) rows(1) l(2) by force
      moreover have "map_option nat (user_maximum ?p (db_histories (pg_db pg1)) (int u)) = ((bidder_max m)(user \<mapsto> n)) u" for u
        using up(2) [of "int u"] rows(2) [of u] l(2) True by auto
      moreover have "leader_of ?p (db_histories (pg_db pg1)) = Some \<lparr>pb_user = b, pb_max = int n\<rparr>"
        using up(1) l(2) by (auto simp: leader_of_def)
      ultimately show ?thesis
        using True n top by (auto simp: rows_say_def spec_proxy_def Some bt)
    next
      case False
      have prev: "k \<le> n" "k < n" if "bidder_max m user = Some k" for k
        using others [OF that] False high by (auto simp: Some bt)
      let ?new = "bid_row pid user (int n) (pr_price ?r) (proxy_result.pr_owner ?r)"
      note step = app [of "pr_price ?r" "proxy_result.pr_owner ?r", OF prev(1)]
      show ?thesis
      proof (cases "n \<le> t")
        case True
        have pg1: "db_histories (pg_db pg1) = (?rows @ [?new]) @ [bid_row pid b (int t) (pr_price ?r) b]"
          using rec' False True by (auto simp: record_turns_def a(3) Let_def split: if_splits)
        have "((bidder_max m)(user \<mapsto> n)) b = Some k \<Longrightarrow> k \<le> t" for k using top(1) False by simp
        from appended_bid [of pid "?rows @ [?new]" "(bidder_max m)(user \<mapsto> n)" b t, OF step [THEN conjunct1] step [THEN conjunct2, rule_format] this]
        show ?thesis
          using False True prev top l by (auto simp: rows_say_def pg1 spec_proxy_def Some bt leader_of_def leader_row_snoc higher_row_def simp del: append_assoc)
      next
        case False
        have pg1: "db_histories (pg_db pg1) = ?rows @ [?new]"
          using rec' False \<open>b \<noteq> user\<close> by (auto simp: record_turns_def a(3) Let_def split: if_splits)
        with step show ?thesis
          using False \<open>b \<noteq> user\<close> prev l by (auto simp: rows_say_def spec_proxy_def Some bt leader_of_def leader_row_snoc higher_row_def)
      qed
    qed
  qed
qed


lemma accept_turns_effect:
  assumes "accept_turns tp now dr a user maximum leader pg = Inr pg'"
  defines "r \<equiv> calculate_proxy_bid a \<lparr>pb_user = user, pb_max = maximum\<rparr> leader"
  obtains pg1 where "record_turns a user maximum leader r pg = Inr pg1"
    "same_auctions (update_auction a (pr_price r) (proxy_result.pr_owner r) (proxy_result.pr_turns r) (extended_end_time now a pg1) pg1) pg'"
proof -
  let ?u = "\<lambda>pg1. update_auction a (pr_price r) (proxy_result.pr_owner r) (proxy_result.pr_turns r) (extended_end_time now a pg1) pg1"
  obtain pg1 pg2 payload where t: "record_turns a user maximum leader r pg = Inr pg1"
    "add_bid_outbox_event tp (dr_event dr) ''bid.accepted'' (a_product_id a) payload (?u pg1) = Inr pg2"
    "(case extended_end_time now a pg1 of None \<Rightarrow> Inr pg2
     | Some t \<Rightarrow> add_bid_outbox_event tp (dr_second dr) ''auction.extended'' (a_product_id a)
         (JObject [(''productId'', JInt (int (a_product_id a))), (''endTime'', JString (iso_string t))]) pg2) = Inr pg'"
    using assms(1) unfolding accept_turns_def r_def [symmetric] Let_def bind_result_Inr_iff by blast
  have "same_auctions pg2 pg'" using t(3) bid_outbox_frame by (auto simp: same_auctions_def split: option.splits)
  with t(2) have "same_auctions (?u pg1) pg'" using bid_outbox_frame same_auctions_trans by blast
  with t(1) show ?thesis by (rule that)
qed

lemma record_turns_frame:
  "record_turns a user maximum leader r pg = Inr pg1 \<Longrightarrow>
   db_products (pg_db pg1) = db_products (pg_db pg) \<and> db_bans (pg_db pg1) = db_bans (pg_db pg)
   \<and> pg_extend pg1 = pg_extend pg \<and> pg_users pg1 = pg_users pg"
  by (auto simp: record_turns_def record_bid_def update_leader_max_def Let_def split: option.splits if_splits)

lemma extended_spec_end:
  assumes "tuned (pg_extend pg) m" "a_end_time a = b_end_at m"
  shows "coalesce (extended_end_time now a pg) (b_end_at m) = spec_end (m\<lparr>b_auto := True\<rparr>) now"
  using assms by (auto simp: extended_end_time_def spec_end_def tuned_def Let_def split: option.splits)

lemma bid_quiet:
  assumes "leader_ok m" "b_price m \<le> n"
    and "\<forall>(a, b) \<in> set (b_ranking m). Some b \<noteq> map_option fst (b_leader m) \<longrightarrow> a \<le> b_price m"
  shows "\<forall>(a, b) \<in> set (insort (n, user) (without user (b_ranking m))). b \<noteq> fst (snd (spec_proxy m user n)) \<longrightarrow> a \<le> fst (spec_proxy m user n)"
proof (cases "b_leader m")
  case (Some bt)
  obtain b t where bt: "bt = (b, t)" by force
  have "b_price m \<le> t" "\<And>a' b'. (a', b') \<in> set (b_ranking m) \<Longrightarrow> a' \<le> t \<and> (b' \<noteq> b \<longrightarrow> a' \<le> b_price m)"
    using assms(1,3) by (auto simp: leader_ok_def Some bt)
  then show ?thesis using assms(2) by (fastforce simp: spec_proxy_def Some bt set_insort_key split: if_splits)
qed (use assms(1) in \<open>auto simp: leader_ok_def spec_proxy_def without_def\<close>)

lemma updated_mirrors:
  assumes "pg_holds pid m pg" "a_product_id a = pid" "distinct (map snd (b_ranking m))"
    and "rows_say pid ((bidder_max m)(user \<mapsto> n)) (fst (snd s)) (snd (snd s)) (db_histories (pg_db pg2))"
    and "db_products (pg_db pg2) = db_products (pg_db pg)" "db_bans (pg_db pg2) = db_bans (pg_db pg)"
    and "coalesce end_time (b_end_at m) = finish"
  defines "m' \<equiv> tick m\<lparr>b_price := fst s, b_leader := Some (snd s), b_ranking := insort (n, user) (without user (b_ranking m)), b_end_at := finish\<rparr>"
  shows "mirrors pid m' (pg_db (update_auction a (int (fst s)) (fst (snd s)) turns end_time pg2))"
proof -
  let ?db = "pg_db (update_auction a (int (fst s)) (fst (snd s)) turns end_time pg2)"
  obtain p where p: "db_products (pg_db pg) (int pid) = Some p" "product_mirrored m p" and bm: "bidders_mirrored pid m (pg_db pg)"
    using assms(1) by (auto simp: pg_holds_def mirrors_def)
  have "\<exists>p'. db_products ?db (int pid) = Some p' \<and> product_mirrored m' p'"
    using p assms(2,5,7) by (auto simp: update_auction_def product_mirrored_def m'_def tick_def split: option.split)
  moreover have "bidder_max m' u = ((bidder_max m)(user \<mapsto> n)) u" for u
    using bidder_max_insort [OF assms(3), of m' n user u] by (simp add: m'_def tick_def)
  moreover have "b_bans m' = b_bans m" "db_histories ?db = db_histories (pg_db pg2)" "db_bans ?db = db_bans (pg_db pg)"
    by (simp_all add: m'_def tick_def update_auction_def assms(6))
  ultimately show ?thesis
    using assms(4) bm by (simp add: mirrors_def bidders_mirrored_def rows_say_def db_maximum_def)
qed

text \<open>The PostgreSQL engine makes the specification's bid. Take tables that hold an auction with a
  positive step, and an accepted bid that is no retry and below the purchase price: the
  specification accepts it too, and afterwards the tables hold its next auction, but for the status,
  which the engine does not write, and the deadline, which it extends as if every auction asked for it.\<close>

lemma bid_refines_spec:
  assumes "pg_holds (of_product i) m pg" "bidding_ok m" "tuned (pg_extend pg) m" "0 < b_step m"
    and "place_bid tp engine now dr i pg c = (Inr (response, pg'), c')"
    and "find_idempotent_response ''place_bid'' (of_user i) (of_key i) (offer_fingerprint i) pg = Inr None"
    and "case b_buy_now m of None \<Rightarrow> True | Some price \<Rightarrow> dec_val (of_amount i) < price"
  shows "\<exists>m'. spec_bid m (of_user i) (dec_val (of_amount i)) now = Inr m' \<and> pg_holds (of_product i) (m'\<lparr>b_status := b_status m, b_end_at := spec_end (m\<lparr>b_auto := True\<rparr>) now\<rparr>) pg'"
proof -
  let ?n = "dec_val (of_amount i)" and ?u = "of_user i" and ?pid = "of_product i"
  from place_bid_new [OF assms(5,6)] obtain a amount el pg1 where b: "parse_money_vnd (of_amount i) ''max_price'' = Inr amount"
    "lock_auction now ?pid pg = Some a" "assert_auction_available a now = Inr ()"
    "eligibility_of ?pid ?u pg = Inr el" "assert_bidder_can_participate a ?u el = Inr ()"
    "assert_bid_amount a amount = Inr ()" "fst (settle_bid tp engine now dr a ?u amount pg c) = Inr pg1"
    "save_idempotent_response ''place_bid'' ?u (of_key i) (offer_fingerprint i) bid_response pg1 = Inr pg'" .
  have n: "amount = int ?n" "int ?n \<le> max_vnd" using b(1) by (auto simp: parse_money_Inr)
  note h = held_auction [OF assms(1) b(2)]
  have guard: "spec_guard m ?u now = None" using held_guard [OF assms(1) b(2-5)] .
  then have act: "status_at m now = ACTIVE" by (simp add: spec_guard_None)
  have enough: "b_price m + b_step m \<le> ?n" using b(6) h n assms(4) by (auto simp: assert_bid_amount_ok)
  let ?leader = "leader_of (int ?pid) (db_histories (pg_db pg))"
  let ?r = "calculate_proxy_bid a \<lparr>pb_user = ?u, pb_max = int ?n\<rparr> ?leader"
  have "accept_turns tp now dr a ?u (int ?n) ?leader pg = Inr pg1"
    using b(7) assms(7) h n by (auto simp: settle_bid_def Let_def split: option.splits sum.splits)
  from accept_turns_effect [OF this] obtain pg2 where t: "record_turns a ?u (int ?n) ?leader ?r pg = Inr pg2"
    "same_auctions (update_auction a (pr_price ?r) (proxy_result.pr_owner ?r) (proxy_result.pr_turns ?r) (extended_end_time now a pg2) pg2) pg1" .
  let ?s = "spec_proxy m ?u ?n"
  have say: "rows_say ?pid ((bidder_max m)(?u \<mapsto> ?n)) (fst (snd ?s)) (snd (snd ?s)) (db_histories (pg_db pg2))"
    "\<forall>previous. bidder_max m ?u = Some previous \<longrightarrow> previous < ?n"
    using recorded_turns [OF assms(1,2) act _ _ _ _ t(1)] h enough assms(4) by auto
  have max: "b_price m + b_step m \<le> max_amount" using enough n(2) by (simp add: max_amount_def max_vnd_def)
  let ?m' = "tick m\<lparr>b_price := fst ?s, b_leader := Some (snd ?s), b_ranking := insort (?n, ?u) (without ?u (b_ranking m)),
      b_end_at := spec_end m now\<rparr>"
  let ?p' = "?m'\<lparr>b_end_at := spec_end (m\<lparr>b_auto := True\<rparr>) now\<rparr>"
  have spec: "spec_bid m ?u ?n now = Inr (?m'\<lparr>b_status := ACTIVE\<rparr>)"
    "?m'\<lparr>b_status := ACTIVE, b_status := b_status m, b_end_at := spec_end (m\<lparr>b_auto := True\<rparr>) now\<rparr> = ?p'"
    using guard enough max say(2) by (simp_all add: spec_bid_Inr tick_def)
  have r: "pr_price ?r = int (fst ?s)" "proxy_result.pr_owner ?r = fst (snd ?s)"
    using spec_proxy_calculated [of a m ?u ?n] h assms(1) by (simp_all add: pg_holds_def)
  note f = record_turns_frame [OF t(1)]
  have dist: "distinct (map snd (b_ranking m))" "leader_ok m"
    using assms(2) act bidding_ok_open by (auto simp: bidding_ok_def ranking_ok_def)
  have finish: "coalesce (extended_end_time now a pg2) (b_end_at m) = spec_end (m\<lparr>b_auto := True\<rparr>) now"
    using extended_spec_end [of pg2 m a now] assms(3) h f by simp
  have "mirrors ?pid ?p' (pg_db (update_auction a (pr_price ?r) (proxy_result.pr_owner ?r) (proxy_result.pr_turns ?r) (extended_end_time now a pg2) pg2))"
    unfolding r using updated_mirrors [OF assms(1) _ dist(1) say(1) _ _ finish, of a] h f by simp
  moreover have "leader_of (int ?pid) (db_histories (pg_db pg2)) = Some \<lparr>pb_user = fst (snd ?s), pb_max = int (snd (snd ?s))\<rparr>"
    using say(1) by (simp add: rows_say_def)
  moreover have "\<forall>(a, b) \<in> set (b_ranking ?p'). Some b \<noteq> map_option fst (b_leader ?p') \<longrightarrow> a \<le> b_price ?p'"
    using bid_quiet [OF dist(2), of ?n ?u] enough assms(1) by (simp add: pg_holds_def tick_def)
  ultimately have "pg_holds ?pid ?p' (update_auction a (pr_price ?r) (proxy_result.pr_owner ?r) (proxy_result.pr_turns ?r) (extended_end_time now a pg2) pg2)"
    by (simp add: pg_holds_def update_auction_def tick_def split_beta)
  then have "pg_holds ?pid ?p' pg'"
    using pg_holds_cong [OF same_auctions_trans [OF t(2) save_frame [OF b(8)]]] by simp
  then have "pg_holds ?pid (?m'\<lparr>b_status := ACTIVE, b_status := b_status m, b_end_at := spec_end (m\<lparr>b_auto := True\<rparr>) now\<rparr>) pg'" by (simp only: spec(2))
  with spec(1) show ?thesis by (intro exI [of _ "?m'\<lparr>b_status := ACTIVE\<rparr>"] conjI)
qed

section \<open>The two engines\<close>

text \<open>C23: Where a bid is a bid to both engines, they agree, but for the deadline of an auction that is not to be extended. Let the
  tables and the Redis keys hold the same auction with a positive step, let both engines have the same extension settings, and let
  the bid be no retry in either store and below the purchase price, with no fence set and its caller within the rate at Redis. If
  the PostgreSQL engine accepts it, so does the script at the same moment, and afterwards tables and keys hold the same next
  auction, but for the status, which the PostgreSQL engine does not write, and for the deadline, which it extends whether or not
  the auction is marked for automatic extension.\<close>

theorem engines_agree:
  assumes "pg_holds (of_product i) m pg" "bidding_ok m" "tuned (pg_extend pg) m" "0 < b_step m"
    and "place_bid tp engine now dr i pg c = (Inr (response, pg'), c')"
    and "find_idempotent_response ''place_bid'' (of_user i) (of_key i) (offer_fingerprint i) pg = Inr None"
    and "case b_buy_now m of None \<Rightarrow> True | Some price \<Rightarrow> dec_val (of_amount i) < price"
    and "represents (of_product i) m st" "asks rq (Bid_by (of_user i) (dec_val (of_amount i)))" "of_user i < rank_bound"
    and "fresh_run clock slot rq st" "rq_product_id rq = of_product i" "lua_tonumber (rq_now rq) = Some now"
    and "b_sequence m < max_amount" "b_version m < max_amount"
  shows "\<exists>m'. accepted (of_product i) (Bid_by (of_user i) (dec_val (of_amount i))) m m' rq st (mutate_script clock slot rq st)
    \<and> pg_holds (of_product i) (m'\<lparr>b_status := b_status m, b_end_at := spec_end (m\<lparr>b_auto := True\<rparr>) now\<rparr>) pg'"
proof -
  let ?x = "Bid_by (of_user i) (dec_val (of_amount i))"
  obtain m' where m': "spec_bid m (of_user i) (dec_val (of_amount i)) now = Inr m'"
    "pg_holds (of_product i) (m'\<lparr>b_status := b_status m, b_end_at := spec_end (m\<lparr>b_auto := True\<rparr>) now\<rparr>) pg'"
    using bid_refines_spec [OF assms(1-7)] by blast
  obtain amount where "parse_money_vnd (of_amount i) ''max_price'' = Inr amount"
    using assms(5) by (cases "parse_money_vnd (of_amount i) ''max_price''") (auto simp: place_bid_def admit_def)
  then have "dec_val (of_amount i) < rank_bound" by (simp add: parse_money_Inr max_vnd_def rank_bound_def)
  then have "in_range (?x, now)" using assms(10) by (simp add: in_range_def)
  moreover have "within_rate clock rq st" using assms(11) by (simp add: fresh_run_def)
  moreover have "ranking_ok (b_ranking m)" using assms(2) by (simp add: bidding_ok_def)
  ultimately have "refines_run (of_product i) m ?x now rq st (mutate_script clock slot rq st)"
    using mutate_loaded_refines [OF assms(8) _ assms(9), of now clock slot]
    by (simp only: mutate_script_loaded [OF assms(8,11-15)])
  then show ?thesis using m' by (auto simp: refines_run_def spec_mutate_def)
qed

section \<open>Bans\<close>

text \<open>A ban at the PostgreSQL engine keeps the bidder out but keeps what the bidder did to the price.
  None of the bidder's rows counts any more and no further bid is accepted; but the product row is
  the same, so a banned leader stays its owner at a price only that bidder's maximum explains.\<close>

theorem postgres_ban_keeps_price:
  assumes "ban_bidder tp now dr actor role product banned reason correlation pg = Inr pg'"
  shows "db_products (pg_db pg') = db_products (pg_db pg)
    \<and> (\<forall>h \<in> set (standing (int product) (db_histories (pg_db pg'))). hi_user h \<noteq> int banned)
    \<and> (of_user i = banned \<and> of_product i = product
        \<and> find_idempotent_response ''place_bid'' banned (of_key i) (offer_fingerprint i) pg' = Inr None
       \<longrightarrow> (\<exists>e. fst (place_bid tp' engine later dr' i pg' c) = Inl e))"
proof -
  obtain a pg1 pg2 payload where b: "ban_user product banned reason pg = Inr pg1"
    "add_bid_outbox_event tp (dr_event dr) ''bidder.banned'' product payload pg1 = Inr pg2"
    "pg_db pg' = pg_db pg2" "pg_users pg' = pg_users pg2"
    using assms by (auto simp: ban_bidder_def bind_result_Inr_iff split: option.splits if_splits)
  have s: "same_auctions pg1 pg2" using bid_outbox_frame [OF b(2)] by simp
  have u: "db_products (pg_db pg1) = db_products (pg_db pg)"
    "\<forall>h \<in> set (standing (int product) (db_histories (pg_db pg1))). hi_user h \<noteq> int banned"
    "list_ex (\<lambda>b. bn_product b = int product \<and> bn_user b = int banned) (db_bans (pg_db pg1))"
    using b(1) by (auto simp: ban_user_def bind_result_Inr_iff standing_def bans.insert_row_iff list_ex_iff split: if_splits)
  have "\<exists>e. fst (place_bid tp' engine later dr' i pg' c) = Inl e"
    if i: "of_user i = banned" "of_product i = product" "find_idempotent_response ''place_bid'' banned (of_key i) (offer_fingerprint i) pg' = Inr None"
  proof (cases "admit later ''place_bid'' ''max_price'' i pg'")
    case (Inr r)
    from admit_new [OF Inr] i obtain a el where "eligibility_of product banned pg' = Inr el"
      "assert_bidder_can_participate a banned el = Inr ()" by metis
    moreover have "el_banned el" if "eligibility_of product banned pg' = Inr el" for el
      using that u(3) s b(3) by (auto simp: eligibility_of_def same_auctions_def list_ex_iff split: option.splits)
    ultimately have False by (auto simp: assert_bidder_can_participate_def split: if_splits)
    then show ?thesis ..
  qed (simp add: place_bid_def)
  with u s b(3) show ?thesis by (simp add: same_auctions_def)
qed

section \<open>Runs of transactions\<close>

datatype transaction =
    BidNow (tx_time: int) draws offer
  | BuyNow (tx_time: int) draws offer
  | BanNow (tx_time: int) draws nat string nat nat string string

text \<open>A transaction that throws leaves the tables as they are.\<close>

definition transact :: "topics \<Rightarrow> bid_engine \<Rightarrow> transaction \<Rightarrow> pg_store \<times> shadow_counters \<Rightarrow> pg_store \<times> shadow_counters" where
  "transact tp engine x s =
     (case x of
        BidNow now dr i \<Rightarrow>
          (case place_bid tp engine now dr i (fst s) (snd s) of
             (Inl _, c) \<Rightarrow> (fst s, c)
           | (Inr (_, pg), c) \<Rightarrow> (pg, c))
      | BuyNow now dr i \<Rightarrow> (case buy_now tp now dr i (fst s) of Inl _ \<Rightarrow> s | Inr (_, pg) \<Rightarrow> (pg, snd s))
      | BanNow now dr actor role product banned reason correlation \<Rightarrow>
          (case ban_bidder tp now dr actor role product banned reason correlation (fst s) of
             Inl _ \<Rightarrow> s
           | Inr pg \<Rightarrow> (pg, snd s)))"

text \<open>What a transaction on another auction, or one that is refused, leaves of an auction.\<close>

definition untouched :: "int \<Rightarrow> pg_store \<Rightarrow> pg_store \<Rightarrow> bool" where
  "untouched product pg pg' =
     (db_products (pg_db pg') product = db_products (pg_db pg) product
      \<and> filter (\<lambda>r. od_product r = product) (db_orders (pg_db pg')) = filter (\<lambda>r. od_product r = product) (db_orders (pg_db pg)))"

lemma untouched_refl [simp]: "untouched product pg pg"
  by (simp add: untouched_def)

lemma untouched_trans: "untouched product a b \<Longrightarrow> untouched product b c \<Longrightarrow> untouched product a c"
  by (simp add: untouched_def)

lemma same_untouched: "same_auctions pg pg' \<Longrightarrow> untouched product pg pg'"
  by (simp add: same_auctions_def untouched_def)

lemma complete_purchase_effect:
  assumes "complete_purchase tp now dr a user pg = Inr (order_id, end_time, pg')"
  obtains price orders where "a_buy_now_price a = Some price"
    "insert_row order_clash \<lparr>od_public_id = dr_order dr, od_product = int (a_product_id a), od_user = int user, od_sequence = None\<rparr>
       (db_orders (pg_db pg)) = Some orders"
    "db_orders (pg_db pg') = orders"
    "db_products (pg_db pg') = db_products (pg_db (update_auction a price user 1 (Some now) pg))"
proof -
  obtain price where p: "a_buy_now_price a = Some price" using assms by (auto simp: complete_purchase_def split: option.splits)
  with assms obtain pg1 payload where "create_order (dr_order dr) user (a_product_id a)
        (record_bid (bid_row (a_product_id a) user price price user) (update_auction a price user 1 (Some now) pg)) = Inr pg1"
      and out: "add_bid_outbox_event tp (dr_event dr) ''auction.buy_now_completed'' (a_product_id a) payload pg1 = Inr pg'"
    by (auto simp: complete_purchase_def bind_result_Inr_iff)
  then have "db_orders (pg_db pg1) = the (insert_row order_clash
        \<lparr>od_public_id = dr_order dr, od_product = int (a_product_id a), od_user = int user, od_sequence = None\<rparr> (db_orders (pg_db pg)))
      \<and> insert_row order_clash
        \<lparr>od_public_id = dr_order dr, od_product = int (a_product_id a), od_user = int user, od_sequence = None\<rparr> (db_orders (pg_db pg)) \<noteq> None
      \<and> db_products (pg_db pg1) = db_products (pg_db (update_auction a price user 1 (Some now) pg))"
    by (auto simp: create_order_def bind_result_Inr_iff record_bid_def update_auction_def)
  moreover have "same_auctions pg1 pg'" using bid_outbox_frame [OF out] by simp
  ultimately show ?thesis using p by (auto simp: same_auctions_def intro: that)
qed

lemma purchase_untouched:
  assumes "complete_purchase tp now dr a user pg = Inr (order_id, end_time, pg')" "int (a_product_id a) \<noteq> product"
  shows "untouched product pg pg'"
proof -
  from complete_purchase_effect [OF assms(1)] obtain price orders where "insert_row order_clash
      \<lparr>od_public_id = dr_order dr, od_product = int (a_product_id a), od_user = int user, od_sequence = None\<rparr> (db_orders (pg_db pg)) = Some orders"
    "db_orders (pg_db pg') = orders"
    "db_products (pg_db pg') = db_products (pg_db (update_auction a price user 1 (Some now) pg))" by metis
  then show ?thesis using assms(2) by (simp add: untouched_def update_auction_def orders.insert_row_iff)
qed

lemma accept_turns_untouched:
  assumes "accept_turns tp now dr a user maximum leader pg = Inr pg'" "int (a_product_id a) \<noteq> product"
  shows "untouched product pg pg'"
proof -
  let ?r = "calculate_proxy_bid a \<lparr>pb_user = user, pb_max = maximum\<rparr> leader"
  from accept_turns_effect [OF assms(1)] obtain pg1 where t: "record_turns a user maximum leader ?r pg = Inr pg1"
    "same_auctions (update_auction a (pr_price ?r) (proxy_result.pr_owner ?r) (proxy_result.pr_turns ?r) (extended_end_time now a pg1) pg1) pg'" .
  have "db_orders (pg_db pg1) = db_orders (pg_db pg)"
    using t(1) by (auto simp: record_turns_def record_bid_def update_leader_max_def Let_def split: option.splits if_splits)
  with record_turns_frame [OF t(1)] t(2) assms(2) show ?thesis
    by (simp add: untouched_def same_auctions_def update_auction_def)
qed

lemma lock_auction_id: "lock_auction now product pg = Some a \<Longrightarrow> a_product_id a = product"
  by (auto simp: lock_auction_def map_auction_row_def Let_def)

text \<open>What a bid or a purchase does to an auction it is not about, or that is over.\<close>

definition over :: "int \<Rightarrow> int \<Rightarrow> pg_store \<Rightarrow> bool" where
  "over now product pg = (case db_products (pg_db pg) product of None \<Rightarrow> False | Some p \<Rightarrow> coalesce (pr_end_time p) 0 \<le> now)"

lemma over_unavailable:
  assumes "over now (int product) pg" "now \<le> later" "lock_auction later product pg = Some a"
  shows "assert_auction_available a later \<noteq> Inr ()"
  using assms by (auto simp: over_def lock_auction_def map_auction_row_def Let_def assert_auction_available_ok split: option.splits)

lemma admitted_auction:
  assumes "admit now operation field i pg = Inr (Admitted a amount)"
  shows "lock_auction now (of_product i) pg = Some a \<and> assert_auction_available a now = Inr ()"
  using assms by (auto simp: admit_def bind_result_Inr_iff split: option.splits)

lemma admitted_elsewhere:
  assumes "admit later operation field i pg = Inr (Admitted a amount)" "over now product pg" "now \<le> later"
  shows "int (a_product_id a) \<noteq> product"
proof
  assume "int (a_product_id a) = product"
  moreover have "a_product_id a = of_product i" using admitted_auction [OF assms(1)] lock_auction_id by blast
  ultimately have "over now (int (of_product i)) pg" using assms(2) by simp
  from over_unavailable [OF this assms(3)] admitted_auction [OF assms(1)] show False by blast
qed

lemma buy_now_over:
  assumes "over now product pg" "now \<le> later" "buy_now tp later dr i pg = Inr (response, pg')"
  shows "untouched product pg pg'"
proof -
  obtain r where r: "admit later ''buy_now'' ''buy_price'' i pg = Inr r"
    using assms(3) by (auto simp: buy_now_def bind_result_Inr_iff)
  show ?thesis
  proof (cases r)
    case (Admitted a amount)
    obtain order_id end_time pg1 where c: "complete_purchase tp later dr a (of_user i) pg = Inr (order_id, end_time, pg1)"
      "save_idempotent_response ''buy_now'' (of_user i) (of_key i) (offer_fingerprint i)
         (JObject [(''status'', JString ''success''), (''order_id'', JString order_id), (''end_time'', JString end_time)]) pg1 = Inr pg'"
      using assms(3) r Admitted by (auto simp: buy_now_def bind_result_Inr_iff Let_def split: prod.splits)
    then show ?thesis
      using purchase_untouched [OF c(1)] admitted_elsewhere [OF r [unfolded Admitted] assms(1,2)] save_frame [OF c(2)]
      by (blast intro: untouched_trans same_untouched)
  qed (use assms(3) r in \<open>simp add: buy_now_def\<close>)
qed

lemma place_bid_over:
  assumes "over now product pg" "now \<le> later" "place_bid tp engine later dr i pg c = (Inr (response, pg'), c')"
  shows "untouched product pg pg'"
proof -
  obtain r where r: "admit later ''place_bid'' ''max_price'' i pg = Inr r"
    using assms(3) by (cases "admit later ''place_bid'' ''max_price'' i pg") (auto simp: place_bid_def)
  show ?thesis
  proof (cases r)
    case (Admitted a amount)
    have else_where: "int (a_product_id a) \<noteq> product" by (rule admitted_elsewhere [OF r [unfolded Admitted] assms(1,2)])
    have "assert_bid_amount a amount = Inr ()"
      using assms(3) r Admitted by (cases "assert_bid_amount a amount") (auto simp: place_bid_def)
    then obtain pg1 where s: "fst (settle_bid tp engine later dr a (of_user i) amount pg c) = Inr pg1"
      "save_idempotent_response ''place_bid'' (of_user i) (of_key i) (offer_fingerprint i) bid_response pg1 = Inr pg'"
      using assms(3) r Admitted by (auto simp: place_bid_def bind_result_Inr_iff split: prod.splits)
    have "untouched product pg pg1"
      using s(1) purchase_untouched [OF _ else_where] accept_turns_untouched [OF _ else_where]
      by (auto simp: settle_bid_def Let_def bind_result_Inr_iff split: if_splits sum.splits option.splits)
    with save_frame [OF s(2)] show ?thesis by (blast intro: untouched_trans same_untouched)
  qed (use assms(3) r in \<open>simp add: place_bid_def\<close>)
qed

lemma ban_bidder_untouched:
  assumes "ban_bidder tp now dr actor role product' banned reason correlation pg = Inr pg'"
  shows "untouched product pg pg'"
  using assms bid_outbox_frame
  by (fastforce simp: ban_bidder_def bind_result_Inr_iff ban_user_def untouched_def same_auctions_def split: option.splits if_splits)

lemma transact_over:
  assumes "over now product (fst s)" "now \<le> tx_time x"
  shows "untouched product (fst s) (fst (transact tp engine x s)) \<and> over now product (fst (transact tp engine x s))"
proof -
  have "untouched product (fst s) (fst (transact tp engine x s))"
    using assms buy_now_over place_bid_over ban_bidder_untouched
    by (cases x) (fastforce simp: transact_def split: prod.splits sum.splits)+
  with assms(1) show ?thesis by (simp add: over_def untouched_def)
qed

text \<open>C32: A purchase is final. After an accepted purchase at the PostgreSQL engine, whatever bids,
  purchases and bans follow, the auction keeps the purchase price and the buyer, and exactly one
  order exists for it, the buyer's.\<close>

theorem postgres_purchase_is_final:
  assumes "buy_now tp now dr i pg = Inr (response, pg')"
    and "find_idempotent_response ''buy_now'' (of_user i) (of_key i) (offer_fingerprint i) pg = Inr None"
    and "\<forall>x \<in> set xs. now \<le> tx_time x" "fold (transact tp engine) xs (pg', c) = (pg'', c'')"
  shows "\<exists>p. db_products (pg_db pg'') (int (of_product i)) = Some p
    \<and> pr_current_price p = pr_buy_now_price p \<and> product_row.pr_owner p = Some (int (of_user i)) \<and> pr_end_time p = Some now
    \<and> filter (\<lambda>r. od_product r = int (of_product i)) (db_orders (pg_db pg''))
        = [\<lparr>od_public_id = dr_order dr, od_product = int (of_product i), od_user = int (of_user i), od_sequence = None\<rparr>]"
proof -
  let ?p = "int (of_product i)"
  obtain r where r: "admit now ''buy_now'' ''buy_price'' i pg = Inr r" using assms(1) by (auto simp: buy_now_def bind_result_Inr_iff)
  from admit_new [OF r assms(2)] obtain a amount where a: "r = Admitted a amount" "lock_auction now (of_product i) pg = Some a" by metis
  obtain order_id end_time pg1 where c: "complete_purchase tp now dr a (of_user i) pg = Inr (order_id, end_time, pg1)"
    "save_idempotent_response ''buy_now'' (of_user i) (of_key i) (offer_fingerprint i)
       (JObject [(''status'', JString ''success''), (''order_id'', JString order_id), (''end_time'', JString end_time)]) pg1 = Inr pg'"
    using assms(1) r a(1) by (auto simp: buy_now_def bind_result_Inr_iff Let_def split: prod.splits)
  obtain p where p: "db_products (pg_db pg) ?p = Some p" "a_buy_now_price a = pr_buy_now_price p" "a_product_id a = of_product i"
    using a(2) by (auto simp: lock_auction_def map_auction_row_def Let_def)
  from complete_purchase_effect [OF c(1)] obtain price orders where e: "a_buy_now_price a = Some price"
    "insert_row order_clash \<lparr>od_public_id = dr_order dr, od_product = int (a_product_id a), od_user = int (of_user i), od_sequence = None\<rparr>
       (db_orders (pg_db pg)) = Some orders" "db_orders (pg_db pg1) = orders"
    "db_products (pg_db pg1) = db_products (pg_db (update_auction a price (of_user i) 1 (Some now) pg))" .
  have start: "untouched ?p pg1 pg'" "over now ?p pg'"
    using save_frame [OF c(2)] e p by (auto simp: same_auctions_def untouched_def over_def update_auction_def)
  have "untouched ?p pg' (fst (fold (transact tp engine) xs (pg', c)))"
    if "\<forall>x \<in> set xs. now \<le> tx_time x" "over now ?p pg'" for xs pg' c
    using that
  proof (induction xs arbitrary: pg' c)
    case (Cons x xs)
    obtain pg2 c2 where "transact tp engine x (pg', c) = (pg2, c2)" by force
    with transact_over [of now ?p "(pg', c)" x tp engine] Cons show ?case by (auto intro: untouched_trans)
  qed simp
  with start assms(3,4) have u: "untouched ?p pg1 pg''" by (metis fst_conv untouched_trans)
  have "filter (\<lambda>r. od_product r = ?p) (db_orders (pg_db pg)) = []"
    using e(2) p(3) by (auto simp: orders.insert_row_iff filter_empty_conv order_clash_def)
  with e p u show ?thesis by (auto simp: untouched_def update_auction_def orders.insert_row_iff)
qed

section \<open>Retries\<close>

definition answers_kept :: "pg_store \<Rightarrow> pg_store \<Rightarrow> bool" where
  "answers_kept pg pg' = (\<exists>rows. db_idempotency (pg_db pg') = db_idempotency (pg_db pg) @ rows)"

lemma answers_kept_same: "db_idempotency (pg_db pg') = db_idempotency (pg_db pg) \<Longrightarrow> answers_kept pg pg'"
  by (simp add: answers_kept_def)

lemma answers_kept_trans: "answers_kept a b \<Longrightarrow> answers_kept b c \<Longrightarrow> answers_kept a c"
  by (auto simp: answers_kept_def)

lemma find_append: "find P (xs @ ys) = (case find P xs of None \<Rightarrow> find P ys | Some x \<Rightarrow> Some x)"
  by (induction xs) auto

lemma answers_kept_find:
  "answers_kept pg pg' \<Longrightarrow> find_idempotent_response operation user key fp pg = Inr (Some response) \<Longrightarrow>
   find_idempotent_response operation user key fp pg' = Inr (Some response)"
  by (auto simp: answers_kept_def find_idempotent_response_def find_append split: if_splits option.splits)

lemma answers_kept_clash:
  "answers_kept pg pg' \<Longrightarrow> find_idempotent_response operation user key fp pg = Inl e \<Longrightarrow>
   find_idempotent_response operation user key fp pg' = Inl e"
  by (auto simp: answers_kept_def find_idempotent_response_def find_append split: if_splits option.splits)

lemma save_answers:
  assumes "save_idempotent_response operation user key fp response pg = Inr pg'"
  shows "answers_kept pg pg'"
    "key \<noteq> '''' \<Longrightarrow> find_idempotent_response operation user key fp pg' = Inr (Some response)"
    "key \<noteq> '''' \<Longrightarrow> fp' \<noteq> fp \<Longrightarrow> find_idempotent_response operation user key fp' pg'
      = Inl (bid_rejected ''Idempotency key was already used for a different request'')"
proof -
  have rows: "db_idempotency (pg_db pg') = db_idempotency (pg_db pg) @ [\<lparr>id_operation = operation, id_user = int user, id_key = key,
        id_fingerprint = fp, id_response = response\<rparr>]
      \<and> (\<forall>r \<in> set (db_idempotency (pg_db pg)). \<not> (id_operation r = operation \<and> id_user r = int user \<and> id_key r = key))"
    if "key \<noteq> ''''"
    using assms that by (auto simp: save_idempotent_response_def bind_result_Inr_iff idempotency.insert_row_iff idempotency_clash_def)
  show "answers_kept pg pg'"
    using assms rows by (cases "key = ''''") (auto simp: save_idempotent_response_def answers_kept_def)
  have none: "find (\<lambda>r. id_operation r = operation \<and> id_user r = int user \<and> id_key r = key) (db_idempotency (pg_db pg)) = None"
    if "key \<noteq> ''''" using rows [OF that] by (auto simp: find_None_iff)
  show "find_idempotent_response operation user key fp pg' = Inr (Some response)" if "key \<noteq> ''''"
    using rows [OF that] none [OF that] that by (simp add: find_idempotent_response_def find_append)
  show "find_idempotent_response operation user key fp' pg' = Inl (bid_rejected ''Idempotency key was already used for a different request'')"
    if "key \<noteq> ''''" "fp' \<noteq> fp"
    using rows [OF that(1)] none [OF that(1)] that by (simp add: find_idempotent_response_def find_append)
qed

lemma complete_purchase_answers:
  assumes "complete_purchase tp now dr a user pg = Inr (order_id, end_time, pg')"
  shows "db_idempotency (pg_db pg') = db_idempotency (pg_db pg)"
proof -
  obtain price where p: "a_buy_now_price a = Some price" using assms by (auto simp: complete_purchase_def split: option.splits)
  with assms obtain pg1 payload where "create_order (dr_order dr) user (a_product_id a)
        (record_bid (bid_row (a_product_id a) user price price user) (update_auction a price user 1 (Some now) pg)) = Inr pg1"
      "add_bid_outbox_event tp (dr_event dr) ''auction.buy_now_completed'' (a_product_id a) payload pg1 = Inr pg'"
    by (auto simp: complete_purchase_def bind_result_Inr_iff)
  then show ?thesis
    using bid_outbox_frame by (auto simp: create_order_def bind_result_Inr_iff record_bid_def update_auction_def)
qed

lemma accept_turns_answers:
  assumes "accept_turns tp now dr a user maximum leader pg = Inr pg'"
  shows "db_idempotency (pg_db pg') = db_idempotency (pg_db pg)"
proof -
  let ?r = "calculate_proxy_bid a \<lparr>pb_user = user, pb_max = maximum\<rparr> leader"
  let ?u = "\<lambda>pg1. update_auction a (pr_price ?r) (proxy_result.pr_owner ?r) (proxy_result.pr_turns ?r) (extended_end_time now a pg1) pg1"
  obtain pg1 pg2 payload where t: "record_turns a user maximum leader ?r pg = Inr pg1"
    "add_bid_outbox_event tp (dr_event dr) ''bid.accepted'' (a_product_id a) payload (?u pg1) = Inr pg2"
    "(case extended_end_time now a pg1 of None \<Rightarrow> Inr pg2
     | Some t \<Rightarrow> add_bid_outbox_event tp (dr_second dr) ''auction.extended'' (a_product_id a)
         (JObject [(''productId'', JInt (int (a_product_id a))), (''endTime'', JString (iso_string t))]) pg2) = Inr pg'"
    using assms(1) unfolding accept_turns_def Let_def bind_result_Inr_iff by blast
  have "db_idempotency (pg_db pg1) = db_idempotency (pg_db pg)"
    using t(1) by (auto simp: record_turns_def record_bid_def update_leader_max_def Let_def split: option.splits if_splits)
  moreover have "db_idempotency (pg_db pg') = db_idempotency (pg_db pg2)"
    using t(3) bid_outbox_frame by (auto split: option.splits)
  ultimately show ?thesis using bid_outbox_frame [OF t(2)] by (simp add: update_auction_def)
qed

lemma settle_answers:
  assumes "fst (settle_bid tp engine now dr a user maximum pg c) = Inr pg'"
  shows "db_idempotency (pg_db pg') = db_idempotency (pg_db pg)"
  using assms complete_purchase_answers accept_turns_answers
  by (auto simp: settle_bid_def Let_def bind_result_Inr_iff split: if_splits sum.splits option.splits)

text \<open>The last step of an accepted bid: a replay, or the answer saved after the rest.\<close>

lemma place_bid_last:
  assumes "place_bid tp engine now dr i pg c = (Inr (response, pg'), c')"
  shows "(\<exists>amount. parse_money_vnd (of_amount i) ''max_price'' = Inr amount)
    \<and> (find_idempotent_response ''place_bid'' (of_user i) (of_key i) (offer_fingerprint i) pg = Inr (Some response) \<and> pg' = pg
      \<or> (\<exists>pg1. db_idempotency (pg_db pg1) = db_idempotency (pg_db pg)
           \<and> save_idempotent_response ''place_bid'' (of_user i) (of_key i) (offer_fingerprint i) response pg1 = Inr pg'))"
proof -
  obtain r where r: "admit now ''place_bid'' ''max_price'' i pg = Inr r"
    using assms by (cases "admit now ''place_bid'' ''max_price'' i pg") (auto simp: place_bid_def)
  then obtain amount replay where f: "parse_money_vnd (of_amount i) ''max_price'' = Inr amount"
    "find_idempotent_response ''place_bid'' (of_user i) (of_key i) (offer_fingerprint i) pg = Inr replay"
    by (auto simp: admit_def bind_result_Inr_iff)
  show ?thesis
  proof (cases replay)
    case None
    from place_bid_new [OF assms f(2) [unfolded None]] obtain a amount' el pg1 where
      "parse_money_vnd (of_amount i) ''max_price'' = Inr amount'"
      "lock_auction now (of_product i) pg = Some a" "assert_auction_available a now = Inr ()"
      "eligibility_of (of_product i) (of_user i) pg = Inr el" "assert_bidder_can_participate a (of_user i) el = Inr ()"
      "assert_bid_amount a amount' = Inr ()" and n: "fst (settle_bid tp engine now dr a (of_user i) amount' pg c) = Inr pg1"
      "save_idempotent_response ''place_bid'' (of_user i) (of_key i) (offer_fingerprint i) bid_response pg1 = Inr pg'"
      "response = bid_response" .
    have "db_idempotency (pg_db pg1) = db_idempotency (pg_db pg)" by (rule settle_answers [OF n(1)])
    with f(1) n(2,3) show ?thesis by blast
  next
    case (Some y)
    then have "r = Replayed y" using r f by (simp add: admit_def)
    with assms r Some f show ?thesis by (simp add: place_bid_def)
  qed
qed

lemma place_bid_answers:
  assumes "place_bid tp engine now dr i pg c = (Inr (response, pg'), c')"
  shows "answers_kept pg pg'"
proof (cases "pg' = pg")
  case False
  then obtain pg1 where "db_idempotency (pg_db pg1) = db_idempotency (pg_db pg)"
    "save_idempotent_response ''place_bid'' (of_user i) (of_key i) (offer_fingerprint i) response pg1 = Inr pg'"
    using place_bid_last [OF assms] by blast
  then show ?thesis using save_answers(1) answers_kept_same answers_kept_trans by blast
qed (simp add: answers_kept_def)

lemma buy_now_answers:
  assumes "buy_now tp now dr i pg = Inr (response, pg')"
  shows "answers_kept pg pg'"
proof -
  obtain r where r: "admit now ''buy_now'' ''buy_price'' i pg = Inr r" using assms by (auto simp: buy_now_def bind_result_Inr_iff)
  show ?thesis
  proof (cases r)
    case (Admitted a amount)
    obtain order_id end_time pg1 where c: "complete_purchase tp now dr a (of_user i) pg = Inr (order_id, end_time, pg1)"
      "save_idempotent_response ''buy_now'' (of_user i) (of_key i) (offer_fingerprint i)
         (JObject [(''status'', JString ''success''), (''order_id'', JString order_id), (''end_time'', JString end_time)]) pg1 = Inr pg'"
      using assms r Admitted by (auto simp: buy_now_def bind_result_Inr_iff Let_def split: prod.splits)
    then show ?thesis
      using complete_purchase_answers [OF c(1)] save_answers(1) [OF c(2)] by (blast intro: answers_kept_trans answers_kept_same)
  qed (use assms r in \<open>simp add: buy_now_def answers_kept_def\<close>)
qed

lemma ban_bidder_answers:
  assumes "ban_bidder tp now dr actor role product banned reason correlation pg = Inr pg'"
  shows "answers_kept pg pg'"
  using assms bid_outbox_frame
  by (fastforce simp: ban_bidder_def bind_result_Inr_iff ban_user_def answers_kept_def split: option.splits if_splits)

lemma transact_answers: "answers_kept (fst s) (fst (transact tp engine x s))"
proof (cases x)
  case (BidNow now dr i)
  then show ?thesis
    using place_bid_answers [of tp engine now dr i "fst s" "snd s"]
    by (auto simp: transact_def answers_kept_def split: prod.splits sum.splits)
next
  case (BuyNow now dr i)
  then show ?thesis
    using buy_now_answers [of tp now dr i "fst s"] by (auto simp: transact_def answers_kept_def split: prod.splits sum.splits)
next
  case (BanNow now dr actor role product banned reason correlation)
  then show ?thesis
    using ban_bidder_answers [of tp now dr actor role product banned reason correlation "fst s"]
    by (auto simp: transact_def answers_kept_def split: sum.splits)
qed

lemma run_answers: "answers_kept (fst s) (fst (fold (transact tp engine) xs s))"
proof (induction xs arbitrary: s)
  case (Cons x xs)
  then show ?case using answers_kept_trans [OF transact_answers [of s tp engine x]] by simp
qed (simp add: answers_kept_def)

text \<open>A retry of a bid gets the first answer. Once the PostgreSQL engine has accepted a bid under a key,
  then after any further transactions the same request is answered alike and changes nothing, while
  the key is refused for another amount or auction.\<close>

theorem postgres_retry_replays:
  assumes "place_bid tp engine now dr i pg c = (Inr (response, pg1), c1)" "of_key i \<noteq> ''''"
    and "fold (transact tp engine) xs (pg1, c1) = (pg2, c2)"
    and "of_user i' = of_user i" "of_key i' = of_key i" "parse_money_vnd (of_amount i') ''max_price'' = Inr amount"
    and "find_idempotent_response ''place_bid'' (of_user i) (of_key i) (offer_fingerprint i) pg = Inr None"
  shows "place_bid tp engine' later dr' i' pg2 c2 =
    (if offer_fingerprint i' = offer_fingerprint i then (Inr (response, pg2), c2)
     else (Inl (bid_rejected ''Idempotency key was already used for a different request''), c2))"
proof -
  obtain pg0 where s: "save_idempotent_response ''place_bid'' (of_user i) (of_key i) (offer_fingerprint i) response pg0 = Inr pg1"
    using place_bid_last [OF assms(1)] assms(7) by auto
  have kept: "answers_kept pg1 pg2" using run_answers [of "(pg1, c1)" tp engine xs] assms(3) by simp
  note f = save_answers(2) [OF s assms(2)] save_answers(3) [OF s assms(2), of "offer_fingerprint i'"]
  show ?thesis
  proof (cases "offer_fingerprint i' = offer_fingerprint i")
    case True
    with answers_kept_find [OF kept f(1)] assms(4-6) show ?thesis by (simp add: place_bid_def admit_def)
  next
    case False
    with answers_kept_clash [OF kept f(2) [OF False]] assms(4-6) show ?thesis by (simp add: place_bid_def admit_def)
  qed
qed

section \<open>Examples\<close>

definition example_held :: bidding where
  "example_held = example_bidding\<lparr>b_window := 60000, b_extension := 60000\<rparr>"

definition example_db :: database where
  "example_db = \<lparr>db_users = {2, 3, 4, 9},
     db_products = [7 \<mapsto> \<lparr>pr_seller = 4, pr_start_price = Some 50, pr_step_price = Some 10, pr_current_price = Some 110,
       pr_buy_now_price = Some 900, pr_owner = Some 2, pr_turns = Some 3, pr_start_time = Some 0, pr_end_time = Some 1000,
       pr_removed = Some False, pr_auto_extended = Some True, pr_status = ''ACTIVE'', pr_version = 4, pr_sequence = 4\<rparr>],
     db_transitions = [], db_histories = [bid_row 7 3 100 100 3, bid_row 7 2 150 110 2], db_bans = [\<lparr>bn_product = 7, bn_user = 9, bn_reason = None\<rparr>],
     db_orders = [], db_receipts = [], db_outbox = [], db_idempotency = []\<rparr>"

definition example_pg :: pg_store where
  "example_pg = \<lparr>pg_db = example_db, pg_users = (\<lambda>u. if u \<in> {2, 3, 4, 9} then Some (None, None) else None),
     pg_extend = Some (Some 1, Some 1), pg_audits = []\<rparr>"

definition example_offer :: "string \<Rightarrow> offer" where
  "example_offer amount = \<lparr>of_user = 3, of_product = 7, of_amount = amount, of_key = ''k''\<rparr>"

definition example_draws :: draws where
  "example_draws = \<lparr>dr_event = ''u1'', dr_second = ''u2'', dr_order = ''o1''\<rparr>"

definition example_topics :: topics where
  "example_topics = kafka_topics None None None None None"

lemma example_held_ok: "bidding_ok example_held" "tuned (pg_extend example_pg) example_held"
  using example_bidding_ok
  by (simp_all add: example_held_def bidding_ok_def open_ok_def leader_ok_def example_bidding_def tuned_def example_pg_def)

lemma example_pg_holds: "pg_holds 7 example_held example_pg"
proof -
  have st: "standing 7 [bid_row 7 3 100 100 3, bid_row 7 2 150 110 2] = [bid_row 7 3 100 100 3, bid_row 7 2 150 110 2]"
    by (simp add: standing_def bid_row_def)
  have "db_maximum 7 example_db u = bidder_max example_held u" for u
    by (simp add: db_maximum_def user_maximum_def example_db_def st bidder_max_def example_held_def example_bidding_def bid_row_def)
  then show ?thesis
    by (simp add: pg_holds_def mirrors_def bidders_mirrored_def product_mirrored_def example_pg_def example_db_def st leader_of_def
        leader_row_def higher_row_def example_held_def example_bidding_def bid_row_def)
qed

lemma example_new: "find_idempotent_response operation 3 ''k'' fp example_pg = Inr None"
  by (simp add: find_idempotent_response_def example_pg_def example_db_def)

lemma example_bid_accepted:
  obtains pg' c' where "place_bid example_topics PostgresEngine 500 example_draws (example_offer ''200'') example_pg \<lparr>sc_matched = 0, sc_mismatched = 0\<rparr>
    = (Inr (bid_response, pg'), c')"
proof -
  let ?r = "place_bid example_topics PostgresEngine 500 example_draws (example_offer ''200'') example_pg \<lparr>sc_matched = 0, sc_mismatched = 0\<rparr>"
  have "is_ok (map_sum id fst (fst ?r)) \<and> (case fst ?r of Inl _ \<Rightarrow> False | Inr (x, _) \<Rightarrow> x = bid_response)" by code_simp
  then obtain pg' where "fst ?r = Inr (bid_response, pg')" by (auto split: sum.splits)
  then show ?thesis using that by (metis prod.collapse)
qed

lemma example_held_fresh: "fresh_run 0 slot example_request (store_of 7 example_held)"
  by (simp add: fresh_run_def store_of_def find_replay_def live_def within_rate_def rate_count_def example_request_def)

theorem engines_agree_witness:
  "\<exists>m' pg'. accepted 7 (Bid_by 3 200) example_held m' example_request (store_of 7 example_held)
       (mutate_script 0 ''s'' example_request (store_of 7 example_held))
     \<and> pg_holds 7 (m'\<lparr>b_status := ACTIVE, b_end_at := spec_end example_held 500\<rparr>) pg'"
proof -
  obtain pg' c' where b: "place_bid example_topics PostgresEngine 500 example_draws (example_offer ''200'') example_pg \<lparr>sc_matched = 0, sc_mismatched = 0\<rparr>
    = (Inr (bid_response, pg'), c')" by (rule example_bid_accepted)
  have o: "of_product (example_offer ''200'') = 7" "of_user (example_offer ''200'') = 3" "of_key (example_offer ''200'') = ''k''"
    "dec_val (of_amount (example_offer ''200'')) = 200"
    by (simp_all add: example_offer_def dec_val_def digit_val_def)
  have m: "b_auto example_held" "b_step example_held = 10" "b_buy_now example_held = Some 900" "b_status example_held = ACTIVE"
    "b_sequence example_held = 4" "b_version example_held = 4"
    by (simp_all add: example_held_def example_bidding_def)
  have auto: "example_held\<lparr>b_auto := True\<rparr> = example_held" by (simp add: example_held_def example_bidding_def)
  have rq: "rq_product_id example_request = 7" "lua_tonumber (rq_now example_request) = Some 500"
    by (simp_all add: example_request_def)
  from engines_agree [OF _ example_held_ok _ b, of "store_of 7 example_held" example_request 0 "''s''"]
  show ?thesis
    by (auto simp: o m auto rq example_pg_holds example_new example_asks example_held_fresh rank_bound_def max_amount_def)
qed

theorem postgres_ban_keeps_price_witness:
  "\<exists>pg'. ban_bidder example_topics 500 example_draws 4 ''seller'' 7 2 ''r'' ''c'' example_pg = Inr pg'
     \<and> (\<exists>p. db_products (pg_db pg') 7 = Some p \<and> product_row.pr_owner p = Some 2)"
proof -
  have "is_ok (map_sum id (\<lambda>_. ()) (ban_bidder example_topics 500 example_draws 4 ''seller'' 7 2 ''r'' ''c'' example_pg))" by code_simp
  then obtain pg' where b: "ban_bidder example_topics 500 example_draws 4 ''seller'' 7 2 ''r'' ''c'' example_pg = Inr pg'"
    by (auto simp: is_ok_iff map_sum_def split: sum.splits)
  from postgres_ban_keeps_price [OF b] have "db_products (pg_db pg') = db_products (pg_db example_pg)" by blast
  with b show ?thesis by (simp add: example_pg_def example_db_def)
qed

theorem postgres_purchase_is_final_witness:
  "\<exists>response pg' pg'' c''. buy_now example_topics 500 example_draws (example_offer ''900'') example_pg = Inr (response, pg')
     \<and> transact example_topics PostgresEngine (BidNow 600 example_draws (example_offer ''950'')) (pg', \<lparr>sc_matched = 0, sc_mismatched = 0\<rparr>) = (pg'', c'')
     \<and> length (filter (\<lambda>r. od_product r = 7) (db_orders (pg_db pg''))) = 1"
proof -
  have "is_ok (map_sum id fst (buy_now example_topics 500 example_draws (example_offer ''900'') example_pg))" by code_simp
  then obtain response pg' where b: "buy_now example_topics 500 example_draws (example_offer ''900'') example_pg = Inr (response, pg')"
    by (auto simp: is_ok_iff map_sum_def split: sum.splits)
  obtain pg'' c'' where t: "transact example_topics PostgresEngine (BidNow 600 example_draws (example_offer ''950'')) (pg', \<lparr>sc_matched = 0, sc_mismatched = 0\<rparr>)
     = (pg'', c'')" by force
  have o: "of_product (example_offer x) = 7" "of_user (example_offer x) = 3" "of_key (example_offer x) = ''k''" for x
    by (simp_all add: example_offer_def)
  from postgres_purchase_is_final [OF b, where xs = "[BidNow 600 example_draws (example_offer ''950'')]" and engine = PostgresEngine and pg'' = pg'' and c'' = c'' and c = "\<lparr>sc_matched = 0, sc_mismatched = 0\<rparr>"] t
  have "length (filter (\<lambda>r. od_product r = 7) (db_orders (pg_db pg''))) = 1" by (auto simp: o example_new)
  with b t show ?thesis by blast
qed

theorem postgres_retry_replays_witness:
  "\<exists>pg1 c1. place_bid example_topics PostgresEngine 500 example_draws (example_offer ''200'') example_pg \<lparr>sc_matched = 0, sc_mismatched = 0\<rparr>
       = (Inr (bid_response, pg1), c1)
     \<and> place_bid example_topics PostgresEngine 700 example_draws (example_offer ''200'') pg1 c1 = (Inr (bid_response, pg1), c1)"
proof -
  obtain pg1 c1 where b: "place_bid example_topics PostgresEngine 500 example_draws (example_offer ''200'') example_pg \<lparr>sc_matched = 0, sc_mismatched = 0\<rparr>
    = (Inr (bid_response, pg1), c1)" by (rule example_bid_accepted)
  have "parse_money_vnd ''200'' ''max_price'' = Inr 200"
    by (simp add: parse_money_Inr vnd_pattern_def is_digit_def dec_val_def digit_val_def max_vnd_def)
  with postgres_retry_replays [OF b, where xs = "[]" and i' = "example_offer ''200''" and amount = 200 and engine' = PostgresEngine and later = 700] b
  show ?thesis by (auto simp: example_offer_def example_new)
qed

end
