(* ===== verification/Auth_Snapshot.thy ===== *)
theory Auth_Snapshot
  imports Json
begin

text \<open>
  Who a request acts for: accounts/infrastructure/auth-snapshot.cache.ts and
  middlewares/auth.middleware.ts. Role, status and version of an account are cached twice: in a hash
  of Redis with a lifetime, written only when it is not older than what it replaces, and in the
  memory of each process with a shorter one. \<open>auth_step\<close> runs several processes whose reads and
  writes are slow and may fail; the accounts are given by their history \<open>account_at\<close>, so the lemmas can say how old
  an answer is. The counters and samples of the metrics are left out. Times are milliseconds.
\<close>

section \<open>Snapshots\<close>

record principal =
  pp_user :: int
  pp_role :: string
  pp_status :: string
  pp_version :: int

text \<open>A hash of Redis with the end of its lifetime; a missing field is \<open>null\<close>.\<close>

record snapshot_hash =
  sh_role :: "string option"
  sh_status :: "string option"
  sh_version :: "string option"
  sh_expires :: int

record snapshot_config =
  sn_ttl :: int
  sn_local_ttl :: int

definition is_safe_integer :: "int \<Rightarrow> bool" where
  "is_safe_integer n = (- 9007199254740991 \<le> n \<and> n \<le> 9007199254740991)"

text \<open>\<open>Number(null)\<close> is zero.\<close>

definition number_of_field :: "string option \<Rightarrow> int option" where
  "number_of_field v = (case v of None \<Rightarrow> Some 0 | Some s \<Rightarrow> big_int s)"

definition parse_snapshot :: "int \<Rightarrow> string option \<Rightarrow> string option \<Rightarrow> string option \<Rightarrow> principal option" where
  "parse_snapshot user role status version =
     (case (role, status, number_of_field version) of
        (Some r, Some s, Some v) \<Rightarrow>
          if r = '''' \<or> s = '''' \<or> \<not> is_safe_integer v \<or> v < 0 then None
          else Some \<lparr>pp_user = user, pp_role = r, pp_status = s, pp_version = v\<rparr>
      | _ \<Rightarrow> None)"

text \<open>The local entries of a process: principal and end of the entry.\<close>

definition local_snapshot :: "int \<Rightarrow> int \<Rightarrow> (int \<rightharpoonup> principal \<times> int) \<Rightarrow> principal option \<times> (int \<rightharpoonup> principal \<times> int)" where
  "local_snapshot now user entries =
     (case entries user of
        None \<Rightarrow> (None, entries)
      | Some (p, expires) \<Rightarrow> if expires > now then (Some p, entries) else (None, entries(user := None)))"

definition local_ttl_ms :: "snapshot_config \<Rightarrow> int" where
  "local_ttl_ms cf = max 0 (sn_local_ttl cf)"

definition remember_local_snapshot :: "snapshot_config \<Rightarrow> int \<Rightarrow> principal \<Rightarrow> (int \<rightharpoonup> principal \<times> int) \<Rightarrow> (int \<rightharpoonup> principal \<times> int)" where
  "remember_local_snapshot cf now p entries =
     (if local_ttl_ms cf \<le> 0 then entries else entries(pp_user p \<mapsto> (p, now + local_ttl_ms cf)))"

definition invalidate_local_snapshot :: "int \<Rightarrow> (int \<rightharpoonup> principal \<times> int) \<Rightarrow> (int \<rightharpoonup> principal \<times> int)" where
  "invalidate_local_snapshot user entries = entries(user := None)"

definition live_hash :: "int \<Rightarrow> snapshot_hash option \<Rightarrow> snapshot_hash option" where
  "live_hash now h = (case h of None \<Rightarrow> None | Some x \<Rightarrow> if now < sh_expires x then Some x else None)"

definition read_auth_snapshot :: "int \<Rightarrow> int \<Rightarrow> (int \<rightharpoonup> snapshot_hash) \<Rightarrow> principal option" where
  "read_auth_snapshot now user redis =
     (case live_hash now (redis user) of
        None \<Rightarrow> parse_snapshot user None None None
      | Some h \<Rightarrow> parse_snapshot user (sh_role h) (sh_status h) (sh_version h))"

text \<open>The script WRITE_IF_CURRENT. \<open>None\<close> is the error of comparing a version that is not a number.\<close>

definition write_if_current :: "int \<Rightarrow> int \<Rightarrow> principal \<Rightarrow> snapshot_hash option \<Rightarrow> (bool \<times> snapshot_hash option) option" where
  "write_if_current ttl now p h =
     (let old = live_hash now h;
          new = Some \<lparr>sh_role = Some (pp_role p), sh_status = Some (pp_status p), sh_version = Some (show_int (pp_version p)),
                      sh_expires = now + ttl * 1000\<rparr>
      in case (case old of None \<Rightarrow> None | Some x \<Rightarrow> sh_version x) of
           None \<Rightarrow> Some (True, new)
         | Some current \<Rightarrow>
             (case big_int current of
                None \<Rightarrow> None
              | Some n \<Rightarrow> if n > pp_version p then Some (False, old) else Some (True, new)))"

text \<open>A failed write is logged and forgotten.\<close>

definition write_snapshot_best_effort :: "snapshot_config \<Rightarrow> bool \<Rightarrow> int \<Rightarrow> principal \<Rightarrow> (int \<rightharpoonup> snapshot_hash) \<Rightarrow> (int \<rightharpoonup> snapshot_hash)" where
  "write_snapshot_best_effort cf reachable now p redis =
     (if \<not> reachable then redis
      else case write_if_current (sn_ttl cf) now p (redis (pp_user p)) of
             None \<Rightarrow> redis
           | Some (_, h) \<Rightarrow> redis(pp_user p := h))"

section \<open>Answers\<close>

definition resolve_auth_principal :: "snapshot_config \<Rightarrow> bool \<Rightarrow> int \<Rightarrow> (int \<Rightarrow> principal option) \<Rightarrow> int
    \<Rightarrow> (int \<rightharpoonup> principal \<times> int) \<Rightarrow> (int \<rightharpoonup> snapshot_hash)
    \<Rightarrow> principal option \<times> (int \<rightharpoonup> principal \<times> int) \<times> (int \<rightharpoonup> snapshot_hash)" where
  "resolve_auth_principal cf reachable now lookup user entries redis =
     (case local_snapshot now user entries of
        (Some p, entries') \<Rightarrow> (Some p, entries', redis)
      | (None, entries') \<Rightarrow>
          (case (if reachable then read_auth_snapshot now user redis else None) of
             Some p \<Rightarrow> (Some p, remember_local_snapshot cf now p entries', redis)
           | None \<Rightarrow>
               (case lookup user of
                  None \<Rightarrow> (None, entries', redis)
                | Some p \<Rightarrow>
                    (Some p, remember_local_snapshot cf now p entries', write_snapshot_best_effort cf reachable now p redis))))"

text \<open>What a verified access token says; \<open>None\<close> is a claim that is not a number.\<close>

record access_claims =
  ac_user :: "int option"
  ac_version :: "int option"

definition authenticated :: "access_claims \<Rightarrow> principal option \<Rightarrow> principal option" where
  "authenticated claims p =
     (case p of
        None \<Rightarrow> None
      | Some x \<Rightarrow> if pp_status x = ''inactive'' \<or> Some (pp_version x) \<noteq> ac_version claims then None else Some x)"

definition authenticate_token :: "snapshot_config \<Rightarrow> bool \<Rightarrow> int \<Rightarrow> (int \<Rightarrow> principal option) \<Rightarrow> access_claims
    \<Rightarrow> (int \<rightharpoonup> principal \<times> int) \<Rightarrow> (int \<rightharpoonup> snapshot_hash)
    \<Rightarrow> principal option \<times> (int \<rightharpoonup> principal \<times> int) \<times> (int \<rightharpoonup> snapshot_hash)" where
  "authenticate_token cf reachable now lookup claims entries redis =
     (case (ac_user claims, ac_version claims) of
        (Some user, Some _) \<Rightarrow>
          (case resolve_auth_principal cf reachable now lookup user entries redis of
             (p, rest) \<Rightarrow> (authenticated claims p, rest))
      | _ \<Rightarrow> (None, entries, redis))"

text \<open>\<open>verifyToken\<close>: the status of the answer, or the account the handlers see. \<open>None\<close>: no cookie; \<open>Some None\<close>: a
  token that does not verify.\<close>

datatype admission = Unauthorized string | Proceed principal

definition verify_token :: "access_claims option option \<Rightarrow> (access_claims \<Rightarrow> principal option) \<Rightarrow> admission" where
  "verify_token token authenticate =
     (case token of
        None \<Rightarrow> Unauthorized ''Access token is missing''
      | Some None \<Rightarrow> Unauthorized ''Invalid access token''
      | Some (Some claims) \<Rightarrow>
          (case authenticate claims of None \<Rightarrow> Unauthorized ''Invalid access token'' | Some p \<Rightarrow> Proceed p))"

definition verify_role :: "string list \<Rightarrow> principal option \<Rightarrow> int option" where
  "verify_role allowed user =
     (case user of None \<Rightarrow> Some 401 | Some p \<Rightarrow> if pp_role p \<notin> set allowed then Some 403 else None)"

section \<open>Several processes\<close>

text \<open>A read on its way into the caches: the process, what was read, when, and whether from the database.\<close>

record flight =
  fl_process :: nat
  fl_principal :: principal
  fl_read_at :: int
  fl_database :: bool

record auth_world =
  wd_now :: int
  wd_redis :: "int \<rightharpoonup> snapshot_hash"
  wd_local :: "nat \<Rightarrow> int \<rightharpoonup> principal \<times> int"
  wd_flights :: "nat \<rightharpoonup> flight"

text \<open>\<open>look_up\<close> is the fallback of \<open>resolveAuthPrincipal\<close> and the row of an access-changing write; both
  write to Redis, only the first remembers locally (the other is dropped). \<open>delay\<close> bounds the time from a read to
  the writes it causes, and so to the answer.\<close>

inductive auth_step :: "snapshot_config \<Rightarrow> int \<Rightarrow> (int \<Rightarrow> int \<Rightarrow> principal option) \<Rightarrow> auth_world \<Rightarrow> auth_world \<Rightarrow> bool"
  for cf delay account_at where
  tick: "wd_now w \<le> now \<Longrightarrow> auth_step cf delay account_at w (w\<lparr>wd_now := now\<rparr>)"
| look_in_redis: "read_auth_snapshot (wd_now w) user (wd_redis w) = Some p \<Longrightarrow> wd_flights w f = None \<Longrightarrow>
    auth_step cf delay account_at w
      (w\<lparr>wd_flights := (wd_flights w)(f \<mapsto> \<lparr>fl_process = n, fl_principal = p, fl_read_at = wd_now w, fl_database = False\<rparr>)\<rparr>)"
| look_up: "account_at (wd_now w) user = Some p \<Longrightarrow> wd_flights w f = None \<Longrightarrow>
    auth_step cf delay account_at w
      (w\<lparr>wd_flights := (wd_flights w)(f \<mapsto> \<lparr>fl_process = n, fl_principal = p, fl_read_at = wd_now w, fl_database = True\<rparr>)\<rparr>)"
| write_through: "wd_flights w f = Some x \<Longrightarrow> fl_database x \<Longrightarrow> wd_now w \<le> fl_read_at x + delay \<Longrightarrow>
    auth_step cf delay account_at w
      (w\<lparr>wd_redis := write_snapshot_best_effort cf reachable (wd_now w) (fl_principal x) (wd_redis w)\<rparr>)"
| remember: "wd_flights w f = Some x \<Longrightarrow> wd_now w \<le> fl_read_at x + delay \<Longrightarrow>
    auth_step cf delay account_at w
      (w\<lparr>wd_local := (wd_local w)(fl_process x := remember_local_snapshot cf (wd_now w) (fl_principal x) (wd_local w (fl_process x))),
         wd_flights := (wd_flights w)(f := None)\<rparr>)"
| drop: "auth_step cf delay account_at w (w\<lparr>wd_flights := (wd_flights w)(f := None)\<rparr>)"
| invalidate: "auth_step cf delay account_at w
    (w\<lparr>wd_local := (wd_local w)(n := invalidate_local_snapshot user (wd_local w n))\<rparr>)"
| evict: "auth_step cf delay account_at w (w\<lparr>wd_redis := (wd_redis w)(user := None)\<rparr>)"

inductive auth_run :: "snapshot_config \<Rightarrow> int \<Rightarrow> (int \<Rightarrow> int \<Rightarrow> principal option) \<Rightarrow> auth_world \<Rightarrow> auth_world \<Rightarrow> bool"
  for cf delay account_at where
  start: "auth_run cf delay account_at w w"
| step: "auth_run cf delay account_at w w' \<Longrightarrow> auth_step cf delay account_at w' w'' \<Longrightarrow> auth_run cf delay account_at w w''"

text \<open>The principals process \<open>n\<close> may act on for a user: its live local entry, or a read about to land.\<close>

definition acts_on :: "int \<Rightarrow> nat \<Rightarrow> int \<Rightarrow> auth_world \<Rightarrow> principal \<Rightarrow> bool" where
  "acts_on delay n user w p =
     (fst (local_snapshot (wd_now w) user (wd_local w n)) = Some p
      \<or> (\<exists>f x. wd_flights w f = Some x \<and> fl_process x = n \<and> fl_principal x = p \<and> pp_user p = user
          \<and> wd_now w \<le> fl_read_at x + delay))"

definition cold_world :: "int \<Rightarrow> auth_world" where
  "cold_world now = \<lparr>wd_now = now, wd_redis = Map.empty, wd_local = (\<lambda>_. Map.empty), wd_flights = Map.empty\<rparr>"

section \<open>How old an answer is\<close>

text \<open>The account was as \<open>p\<close> says at a moment from \<open>limit\<close> to \<open>now\<close>.\<close>

definition held_until :: "(int \<Rightarrow> int \<Rightarrow> principal option) \<Rightarrow> principal \<Rightarrow> int \<Rightarrow> int \<Rightarrow> bool" where
  "held_until account_at p now limit = (\<exists>s. account_at s (pp_user p) = Some p \<and> s \<le> now \<and> limit \<le> s)"

definition own_ids :: "(int \<Rightarrow> int \<Rightarrow> principal option) \<Rightarrow> bool" where
  "own_ids account_at = (\<forall>s user p. account_at s user = Some p \<longrightarrow> pp_user p = user)"

definition auth_ok :: "snapshot_config \<Rightarrow> int \<Rightarrow> (int \<Rightarrow> int \<Rightarrow> principal option) \<Rightarrow> auth_world \<Rightarrow> bool" where
  "auth_ok cf delay account_at w =
     ((\<forall>user h p. wd_redis w user = Some h \<and> parse_snapshot user (sh_role h) (sh_status h) (sh_version h) = Some p \<longrightarrow>
         held_until account_at p (wd_now w) (sh_expires h - delay - sn_ttl cf * 1000))
      \<and> (\<forall>f x. wd_flights w f = Some x \<longrightarrow>
           held_until account_at (fl_principal x) (wd_now w) (fl_read_at x - delay - sn_ttl cf * 1000)
           \<and> (fl_database x \<longrightarrow> held_until account_at (fl_principal x) (wd_now w) (fl_read_at x)))
      \<and> (\<forall>n user p e. wd_local w n user = Some (p, e) \<longrightarrow> pp_user p = user
           \<and> held_until account_at p (wd_now w) (e - local_ttl_ms cf - 2 * delay - sn_ttl cf * 1000)))"

lemma held_later: "held_until account_at p now limit \<Longrightarrow> now \<le> now' \<Longrightarrow> limit' \<le> limit \<Longrightarrow> held_until account_at p now' limit'"
  by (fastforce simp: held_until_def)

lemma parse_user: "parse_snapshot user r s v = Some p \<Longrightarrow> pp_user p = user"
  by (auto simp: parse_snapshot_def split: option.splits if_splits)

lemma parse_written_snapshot:
  "parse_snapshot (pp_user p) (Some (pp_role p)) (Some (pp_status p)) (Some (show_int (pp_version p))) = Some q \<Longrightarrow> q = p"
  by (auto simp: parse_snapshot_def number_of_field_def split: if_splits)

lemma read_live:
  "read_auth_snapshot now user redis = Some p \<Longrightarrow>
   \<exists>h. redis user = Some h \<and> now < sh_expires h \<and> parse_snapshot user (sh_role h) (sh_status h) (sh_version h) = Some p"
  by (auto simp: read_auth_snapshot_def live_hash_def parse_snapshot_def split: option.splits if_splits)

lemma written_hash:
  assumes "write_snapshot_best_effort cf reachable now p redis user = Some h"
  shows "redis user = Some h \<or> user = pp_user p \<and> h = \<lparr>sh_role = Some (pp_role p), sh_status = Some (pp_status p),
    sh_version = Some (show_int (pp_version p)), sh_expires = now + sn_ttl cf * 1000\<rparr>"
  using assms
  by (auto simp: write_snapshot_best_effort_def write_if_current_def live_hash_def Let_def split: if_splits option.splits)

lemma held_now: "own_ids account_at \<Longrightarrow> account_at now user = Some p \<Longrightarrow> limit \<le> now \<Longrightarrow> held_until account_at p now limit"
  unfolding held_until_def by (rule exI [of _ now]) (simp add: own_ids_def)

lemma auth_okI:
  assumes "\<And>user h p. wd_redis w user = Some h \<Longrightarrow>
      parse_snapshot user (sh_role h) (sh_status h) (sh_version h) = Some p \<Longrightarrow>
      held_until account_at p (wd_now w) (sh_expires h - delay - sn_ttl cf * 1000)"
    and "\<And>f x. wd_flights w f = Some x \<Longrightarrow>
      held_until account_at (fl_principal x) (wd_now w) (fl_read_at x - delay - sn_ttl cf * 1000)"
    and "\<And>f x. wd_flights w f = Some x \<Longrightarrow> fl_database x \<Longrightarrow> held_until account_at (fl_principal x) (wd_now w) (fl_read_at x)"
    and "\<And>n user p e. wd_local w n user = Some (p, e) \<Longrightarrow>
      pp_user p = user \<and> held_until account_at p (wd_now w) (e - local_ttl_ms cf - 2 * delay - sn_ttl cf * 1000)"
  shows "auth_ok cf delay account_at w"
  using assms unfolding auth_ok_def by blast

lemma auth_okD:
  assumes "auth_ok cf delay account_at w"
  shows "wd_redis w user = Some h \<Longrightarrow> parse_snapshot user (sh_role h) (sh_status h) (sh_version h) = Some p \<Longrightarrow>
      held_until account_at p (wd_now w) (sh_expires h - delay - sn_ttl cf * 1000)"
    and "wd_flights w f = Some x \<Longrightarrow>
      held_until account_at (fl_principal x) (wd_now w) (fl_read_at x - delay - sn_ttl cf * 1000)"
    and "wd_flights w f = Some x \<Longrightarrow> fl_database x \<Longrightarrow> held_until account_at (fl_principal x) (wd_now w) (fl_read_at x)"
    and "wd_local w n user = Some (p, e) \<Longrightarrow> pp_user p = user"
    and "wd_local w n user = Some (p, e) \<Longrightarrow>
      held_until account_at p (wd_now w) (e - local_ttl_ms cf - 2 * delay - sn_ttl cf * 1000)"
  using assms unfolding auth_ok_def by blast+

lemma auth_step_ok:
  assumes "auth_step cf delay account_at w w'" "auth_ok cf delay account_at w" "own_ids account_at"
    "0 \<le> delay" "0 \<le> sn_ttl cf"
  shows "auth_ok cf delay account_at w'"
  using assms(1)
proof cases
  case (tick now)
  have later: "held_until account_at q (wd_now w) l \<Longrightarrow> held_until account_at q now l" for q l
    by (rule held_later [OF _ tick(2) order_refl])
  show ?thesis
    unfolding tick(1) by (rule auth_okI) (simp_all add: later auth_okD [OF assms(2)])
next
  case (look_in_redis user p f n)
  obtain h where h: "wd_redis w user = Some h" "wd_now w < sh_expires h"
      "parse_snapshot user (sh_role h) (sh_status h) (sh_version h) = Some p"
    using read_live [OF look_in_redis(2)] by blast
  have "held_until account_at p (wd_now w) (wd_now w - delay - sn_ttl cf * 1000)"
    using held_later [OF auth_okD(1) [OF assms(2) h(1,3)] order_refl] h(2) by simp
  then show ?thesis
    using look_in_redis(1) by (auto intro!: auth_okI intro: auth_okD [OF assms(2)] split: if_splits)
next
  case (look_up user p f n)
  have "held_until account_at p (wd_now w) (wd_now w)"
    "held_until account_at p (wd_now w) (wd_now w - delay - sn_ttl cf * 1000)"
    using held_now [OF assms(3) look_up(2)] assms(4,5) by simp_all
  then show ?thesis
    using look_up(1) by (auto intro!: auth_okI intro: auth_okD [OF assms(2)] split: if_splits)
next
  case (write_through f x reachable)
  have "held_until account_at (fl_principal x) (wd_now w) (wd_now w - delay)"
    using held_later [OF auth_okD(3) [OF assms(2) write_through(2,3)] order_refl] write_through(4) by simp
  then show ?thesis
    using write_through(1)
    by (auto intro!: auth_okI intro: auth_okD [OF assms(2)] dest!: written_hash parse_written_snapshot)
next
  case (remember f x)
  have "held_until account_at (fl_principal x) (wd_now w) (wd_now w - 2 * delay - sn_ttl cf * 1000)"
    using held_later [OF auth_okD(2) [OF assms(2) remember(2)] order_refl] remember(3) by simp
  then show ?thesis
    using remember(1)
    by (auto intro!: auth_okI intro: auth_okD [OF assms(2)] simp: remember_local_snapshot_def split: if_splits)
next
  case (drop f)
  then show ?thesis
    by (auto intro!: auth_okI intro: auth_okD [OF assms(2)] split: if_splits)
next
  case (invalidate n user)
  then show ?thesis
    by (auto intro!: auth_okI intro: auth_okD [OF assms(2)] simp: invalidate_local_snapshot_def split: if_splits)
next
  case (evict user)
  then show ?thesis
    by (auto intro!: auth_okI intro: auth_okD [OF assms(2)] split: if_splits)
qed

lemma auth_run_ok:
  assumes "auth_run cf delay account_at v w" "auth_ok cf delay account_at v" "own_ids account_at" "0 \<le> delay" "0 \<le> sn_ttl cf"
  shows "auth_ok cf delay account_at w"
  using assms(1,2) by induction (blast intro: auth_step_ok assms(3-5))+

lemma cold_world_ok: "auth_ok cf delay account_at (cold_world t)"
  by (simp add: auth_ok_def cold_world_def)

lemma acted_on_held:
  assumes "auth_ok cf delay account_at w" "acts_on delay n user w p" "0 \<le> delay" "0 \<le> sn_ttl cf"
  shows "pp_user p = user" "held_until account_at p (wd_now w) (wd_now w - local_ttl_ms cf - 2 * delay - sn_ttl cf * 1000)"
proof -
  consider (entry) e where "wd_local w n user = Some (p, e)" "wd_now w < e"
    | (flying) f x where "wd_flights w f = Some x" "fl_principal x = p" "pp_user p = user" "wd_now w \<le> fl_read_at x + delay"
    using assms(2) by (auto simp: acts_on_def local_snapshot_def split: option.splits if_splits)
  then show "pp_user p = user"
    using auth_okD(4) [OF assms(1)] by cases blast+
  have ttl: "0 \<le> local_ttl_ms cf"
    by (simp add: local_ttl_ms_def)
  from \<open>acts_on delay n user w p\<close>
  consider (entry) e where "wd_local w n user = Some (p, e)" "wd_now w < e"
    | (flying) f x where "wd_flights w f = Some x" "fl_principal x = p" "wd_now w \<le> fl_read_at x + delay"
    by (auto simp: acts_on_def local_snapshot_def split: option.splits if_splits)
  then show "held_until account_at p (wd_now w) (wd_now w - local_ttl_ms cf - 2 * delay - sn_ttl cf * 1000)"
  proof cases
    case entry
    show ?thesis
      by (rule held_later [OF auth_okD(5) [OF assms(1) entry(1)] order_refl]) (use entry in simp)
  next
    case flying
    show ?thesis
      by (rule held_later [OF auth_okD(2) [OF assms(1) flying(1), unfolded flying(2)] order_refl]) (use flying ttl assms(3) in simp)
  qed
qed

section \<open>Properties\<close>

text \<open>C12: A revoked access token dies within a known time. Let the account of a user differ from the token from
  time \<open>r\<close> on (another version, inactive, or gone). Whatever the processes of the API have cached, however their
  reads and writes are interleaved, and even when every invalidation is lost, a process that lets the token pass
  does so before the lifetime of the shared snapshot, the lifetime of the local one and twice the time an answer
  may be on its way have passed since \<open>r\<close>.
\<close>

theorem revoked_token_dies:
  assumes "auth_run cf delay account_at (cold_world t) w" "own_ids account_at" "0 \<le> delay" "0 \<le> sn_ttl cf"
    and "acts_on delay n user w p" "authenticated claims (Some p) \<noteq> None"
    and "\<And>s. r \<le> s \<Longrightarrow> authenticated claims (account_at s user) = None"
  shows "wd_now w < r + sn_ttl cf * 1000 + local_ttl_ms cf + 2 * delay"
proof -
  obtain s where s: "account_at s user = Some p" "wd_now w - local_ttl_ms cf - 2 * delay - sn_ttl cf * 1000 \<le> s"
    using acted_on_held [OF auth_run_ok [OF assms(1) cold_world_ok assms(2-4)] assms(5,3,4)] unfolding held_until_def by blast
  have "s < r"
    using assms(6,7) s(1) by (metis not_le)
  then show ?thesis
    using s(2) by linarith
qed

definition example_member :: "int \<Rightarrow> principal" where
  "example_member version = \<lparr>pp_user = 5, pp_role = ''user'', pp_status = ''active'', pp_version = version\<rparr>"

definition example_accounts :: "int \<Rightarrow> int \<Rightarrow> principal option" where
  "example_accounts t user = (if user = 5 then Some (example_member (if t < 100 then 0 else 1)) else None)"

text \<open>Read at 99, written at 100 when the password has just been changed, and found in Redis at 200.\<close>

definition example_flight :: flight where
  "example_flight = \<lparr>fl_process = 0, fl_principal = example_member 0, fl_read_at = 99, fl_database = True\<rparr>"

definition example_hash :: snapshot_hash where
  "example_hash = \<lparr>sh_role = Some ''user'', sh_status = Some ''active'', sh_version = Some ''0'', sh_expires = 30100\<rparr>"

lemma example_auth_run:
  "auth_run \<lparr>sn_ttl = 30, sn_local_ttl = 2000\<rparr> 50 example_accounts (cold_world 99)
     \<lparr>wd_now = 200, wd_redis = [5 \<mapsto> example_hash], wd_local = (\<lambda>_. Map.empty),
      wd_flights = [0 \<mapsto> example_flight, 1 \<mapsto> \<lparr>fl_process = 1, fl_principal = example_member 0, fl_read_at = 200, fl_database = False\<rparr>]\<rparr>"
  (is "auth_run ?cf _ _ _ ?w")
proof -
  let ?start = "cold_world 99"
  have zero: "show_int 0 = ''0''"
    by code_simp
  have number: "big_int ''0'' = Some 0"
    by code_simp
  have "auth_run ?cf 50 example_accounts ?start (?start\<lparr>wd_flights := [0 \<mapsto> example_flight]\<rparr>)" (is "auth_run _ _ _ _ ?w1")
    by (rule auth_run.step [OF auth_run.start])
      (use look_up [where user = 5 and f = 0 and n = 0 and w = ?start and p = "example_member 0" and cf = ?cf and delay = 50
        and account_at = example_accounts] in \<open>simp add: cold_world_def example_accounts_def example_flight_def\<close>)
  then have "auth_run ?cf 50 example_accounts ?start (?w1\<lparr>wd_now := 100\<rparr>)" (is "auth_run _ _ _ _ ?w2")
    by (rule auth_run.step) (rule tick, simp add: cold_world_def)
  then have "auth_run ?cf 50 example_accounts ?start (?w2\<lparr>wd_redis := [5 \<mapsto> example_hash]\<rparr>)" (is "auth_run _ _ _ _ ?w3")
    by (rule auth_run.step)
      (use write_through [where f = 0 and w = ?w2 and x = example_flight and cf = ?cf and delay = 50
        and account_at = example_accounts and reachable = True]
       in \<open>simp add: cold_world_def example_flight_def write_snapshot_best_effort_def write_if_current_def live_hash_def
            example_member_def example_hash_def zero\<close>)
  then have "auth_run ?cf 50 example_accounts ?start (?w3\<lparr>wd_now := 200\<rparr>)" (is "auth_run _ _ _ _ ?w4")
    by (rule auth_run.step) (rule tick, simp add: cold_world_def)
  then show ?thesis
    by (rule auth_run.step)
      (use look_in_redis [where user = 5 and f = 1 and n = 1 and w = ?w4 and p = "example_member 0" and cf = ?cf and delay = 50
        and account_at = example_accounts] in \<open>simp add: cold_world_def example_accounts_def example_flight_def
          read_auth_snapshot_def live_hash_def example_hash_def example_member_def parse_snapshot_def number_of_field_def number is_safe_integer_def\<close>)
qed

theorem revoked_token_dies_witness:
  "(200 :: int) < 100 + 30 * 1000 + local_ttl_ms \<lparr>sn_ttl = 30, sn_local_ttl = 2000\<rparr> + 2 * 50"
proof -
  let ?claims = "\<lparr>ac_user = Some 5, ac_version = Some 0\<rparr>"
  let ?flights = "[0 \<mapsto> example_flight, 1 \<mapsto>
    \<lparr>fl_process = 1, fl_principal = example_member 0, fl_read_at = 200, fl_database = False\<rparr>] :: nat \<rightharpoonup> flight"
  have "acts_on 50 1 5 \<lparr>wd_now = 200, wd_redis = [5 \<mapsto> example_hash], wd_local = (\<lambda>_. Map.empty), wd_flights = ?flights\<rparr>
      (example_member 0)"
    unfolding acts_on_def by (intro disjI2 exI [of _ 1]) (simp add: example_member_def)
  then show ?thesis
    using revoked_token_dies [OF example_auth_run, where claims = ?claims and r = 100 and user = 5 and n = 1]
    by (auto simp: own_ids_def example_accounts_def example_member_def authenticated_def split: if_splits)
qed

end
