(* ===== verification/Accounts.thy ===== *)
theory Accounts
  imports Auth_Snapshot Postgres_Store
begin

text \<open>
  Accounts and sessions: accounts.controller.ts, account-auth.use-case.ts, auth-session.service.ts and
  account.repository.ts. A handler takes the library, the clock, what it draws, the cookies and fields of its
  request and the state, and gives its answer and the state; a rejected promise is \<open>Raised\<close> and keeps what was
  written before it. The library is jsonwebtoken and bcrypt: signing and verifying with the secrets of the process,
  hashing with a drawn salt, comparing. Validated bodies have their fields; a cookie may hold any text, so every
  claim of a token is optional. Times are milliseconds; Redis answers the sessions.
\<close>

section \<open>Rows and state\<close>

record user_row =
  us_id :: int
  us_email :: string
  us_full_name :: string
  us_username :: string
  us_password :: "string option"
  us_address :: "string option"
  us_role :: "string option"
  us_status :: string
  us_version :: int

record otp_row =
  ot_email :: string
  ot_otp :: string
  ot_expiry :: "int option"

record application_row =
  ap_id :: int
  ap_user :: int
  ap_reason :: "string option"
  ap_expiry :: "int option"
  ap_status :: "string option"

record audit_row =
  ad_actor :: "int option"
  ad_action :: string
  ad_resource_type :: string
  ad_resource_id :: string
  ad_correlation :: string

record stored_session =
  rs_user :: int
  rs_id :: string
  rs_token :: string
  rs_version :: int
  rs_remember :: bool

text \<open>The tables, the keys of Redis with the end of their lifetime, the local snapshots of the process and the
  mails handed to \<open>sendMail\<close> (recipient, title, text).\<close>

record auth_state =
  au_users :: "user_row list"
  au_next_user :: int
  au_otps :: "otp_row list"
  au_applications :: "application_row list"
  au_outbox :: "outbox_row list"
  au_audit :: "audit_row list"
  au_sessions :: "string \<rightharpoonup> string \<times> int"
  au_tokens :: "string \<rightharpoonup> stored_session \<times> int"
  au_snapshots :: "int \<rightharpoonup> snapshot_hash"
  au_local :: "int \<rightharpoonup> principal \<times> int"
  au_mails :: "(string \<times> string \<times> string) list"

definition user_clash :: "user_row \<Rightarrow> user_row \<Rightarrow> bool" where
  "user_clash a b = (us_id a = us_id b \<or> us_email a = us_email b)"

definition otp_clash :: "otp_row \<Rightarrow> otp_row \<Rightarrow> bool" where
  "otp_clash a b = (ot_email a = ot_email b)"

interpretation users: unique_table user_clash
  by unfold_locales (auto simp: user_clash_def)

interpretation otps: unique_table otp_clash
  by unfold_locales (auto simp: otp_clash_def)

section \<open>Tokens and passwords\<close>

text \<open>The claims of the tokens signed with \<open>JWT_SECRET\<close> for the OTP dialogues, and of refresh tokens.\<close>

record otp_claims =
  oc_otp :: "string option"
  oc_email :: "string option"
  oc_full_name :: "string option"
  oc_address :: "string option"
  oc_password :: "string option"
  oc_new_password :: "string option"
  oc_user :: "int option"

record refresh_claims =
  rf_user :: "int option"
  rf_version :: "int option"
  rf_sid :: "string option"
  rf_jti :: "string option"
  rf_section :: "string option"

record auth_lib =
  al_sign :: "int \<Rightarrow> otp_claims \<Rightarrow> string"
  al_verify :: "int \<Rightarrow> string \<Rightarrow> otp_claims option"
  al_sign_access :: "int \<Rightarrow> access_claims \<Rightarrow> string"
  al_sign_refresh :: "int \<Rightarrow> int \<Rightarrow> refresh_claims \<Rightarrow> string"
  al_verify_refresh :: "int \<Rightarrow> string \<Rightarrow> refresh_claims option"
  al_hash :: "string \<Rightarrow> string \<Rightarrow> string"
  al_compare :: "string \<Rightarrow> string \<Rightarrow> bool"

record draws_of_request =
  dw_digit :: "nat \<Rightarrow> nat"
  dw_salt :: string
  dw_session :: string
  dw_token :: string

definition no_claims :: otp_claims where
  "no_claims = \<lparr>oc_otp = None, oc_email = None, oc_full_name = None, oc_address = None, oc_password = None,
     oc_new_password = None, oc_user = None\<rparr>"

definition generate_otp :: "nat \<Rightarrow> (nat \<Rightarrow> nat) \<Rightarrow> string" where
  "generate_otp len digit = concat (map (\<lambda>i. show_nat (digit i)) [0..<len])"

text \<open>\<open>bcrypt.hash(undefined, salt)\<close> throws.\<close>

definition hash_password :: "auth_lib \<Rightarrow> draws_of_request \<Rightarrow> string option \<Rightarrow> (string, string) result" where
  "hash_password lib dw password =
     (case password of None \<Rightarrow> throws ''Illegal arguments'' | Some p \<Rightarrow> returns (al_hash lib (dw_salt dw) p))"

text \<open>\<open>response\<close>: the parsed answer of reCAPTCHA; \<open>None\<close> when the request or its parsing throws.\<close>

definition verify_captcha :: "string option \<Rightarrow> json option \<Rightarrow> bool" where
  "verify_captcha secret response =
     (case secret of
        None \<Rightarrow> False
      | Some key \<Rightarrow>
          if key = '''' then False
          else case response of None \<Rightarrow> False | Some v \<Rightarrow> field_of ''success'' v = Some (JBool True))"

definition present :: "string option \<Rightarrow> bool" where
  "present cookie = (cookie \<noteq> None \<and> cookie \<noteq> Some '''')"

text \<open>\<open>`${x}`\<close>.\<close>

definition text_of :: "string option \<Rightarrow> string" where
  "text_of x = coalesce x ''undefined''"

section \<open>The repository\<close>

definition find_by_email :: "string \<Rightarrow> user_row list \<Rightarrow> user_row option" where
  "find_by_email email rows = find (\<lambda>u. us_email u = email) rows"

definition find_by_id :: "int \<Rightarrow> user_row list \<Rightarrow> user_row option" where
  "find_by_id user rows = find (\<lambda>u. us_id u = user) rows"

definition principal_of :: "user_row \<Rightarrow> principal" where
  "principal_of u = \<lparr>pp_user = us_id u, pp_role = coalesce (us_role u) ''user'', pp_status = us_status u, pp_version = us_version u\<rparr>"

definition find_auth_principal :: "auth_state \<Rightarrow> int \<Rightarrow> principal option" where
  "find_auth_principal st user = map_option principal_of (find_by_id user (au_users st))"

text \<open>\<open>prisma.users.update\<close> on a unique column: the row must exist.\<close>

definition update_user :: "(user_row \<Rightarrow> bool) \<Rightarrow> (user_row \<Rightarrow> user_row) \<Rightarrow> user_row list \<Rightarrow> (user_row \<times> user_row list) option" where
  "update_user chosen change rows =
     (case find chosen rows of
        None \<Rightarrow> None
      | Some u \<Rightarrow> Some (change u, map (\<lambda>x. if chosen x then change x else x) rows))"

text \<open>\<open>invalidateAuthSnapshotBestEffort\<close>; the message to the other processes only empties their caches.\<close>

definition invalidate_snapshot :: "snapshot_config \<Rightarrow> bool \<Rightarrow> int \<Rightarrow> principal \<Rightarrow> auth_state \<Rightarrow> auth_state" where
  "invalidate_snapshot cf reachable now p st =
     st\<lparr>au_local := invalidate_local_snapshot (pp_user p) (au_local st),
        au_snapshots := write_snapshot_best_effort cf reachable now p (au_snapshots st)\<rparr>"

record new_account =
  na_full_name :: "string option"
  na_email :: "string option"
  na_password :: "string option"
  na_address :: "string option"
  na_username :: "string option"

definition fits :: "nat \<Rightarrow> string option \<Rightarrow> bool" where
  "fits width x = (case x of None \<Rightarrow> True | Some s \<Rightarrow> length s \<le> width)"

text \<open>\<open>prisma.users.create\<close> with the defaults, the widths and the unique columns of the table.\<close>

definition create_account :: "new_account \<Rightarrow> auth_state \<Rightarrow> (string, auth_state) result" where
  "create_account a st =
     (case (na_full_name a, na_email a, na_username a) of
        (Some full_name, Some email, Some username) \<Rightarrow>
          if \<not> fits 50 (Some full_name) \<or> \<not> fits 50 (Some email) \<or> \<not> fits 50 (Some username)
             \<or> \<not> fits 100 (na_password a) \<or> \<not> fits 100 (na_address a) then throws ''P2000''
          else (case insert_row user_clash \<lparr>us_id = au_next_user st, us_email = email, us_full_name = full_name,
                  us_username = username, us_password = na_password a, us_address = na_address a,
                  us_role = Some ''user'', us_status = ''active'', us_version = 0\<rparr> (au_users st) of
                None \<Rightarrow> throws ''P2002''
              | Some rows \<Rightarrow> returns (st\<lparr>au_users := rows, au_next_user := au_next_user st + 1\<rparr>))
      | _ \<Rightarrow> throws ''Argument is missing'')"

definition update_password :: "snapshot_config \<Rightarrow> bool \<Rightarrow> int \<Rightarrow> string option \<Rightarrow> string \<Rightarrow> auth_state \<Rightarrow> (string, auth_state) result" where
  "update_password cf reachable now email password st =
     (case email of
        None \<Rightarrow> throws ''Argument is missing''
      | Some e \<Rightarrow>
          if \<not> fits 100 (Some password) then throws ''P2000''
          else (case update_user (\<lambda>u. us_email u = e)
                  (\<lambda>u. u\<lparr>us_password := Some password, us_version := us_version u + 1\<rparr>) (au_users st) of
                None \<Rightarrow> throws ''P2025''
              | Some (u, rows) \<Rightarrow> returns (invalidate_snapshot cf reachable now (principal_of u) (st\<lparr>au_users := rows\<rparr>))))"

definition create_otp :: "int \<Rightarrow> string \<Rightarrow> string \<Rightarrow> auth_state \<Rightarrow> (string, auth_state) result" where
  "create_otp now email otp st =
     (if \<not> fits 10 (Some otp) \<or> \<not> fits 255 (Some email) then throws ''P2000''
      else case insert_row otp_clash \<lparr>ot_email = email, ot_otp = otp, ot_expiry = Some (now + 120000)\<rparr> (au_otps st) of
             None \<Rightarrow> throws ''P2002''
           | Some rows \<Rightarrow> returns (st\<lparr>au_otps := rows\<rparr>))"

definition find_otp_by_email :: "string \<Rightarrow> otp_row list \<Rightarrow> otp_row option" where
  "find_otp_by_email email rows = find (\<lambda>r. ot_email r = email) rows"

text \<open>\<open>findFirst\<close>: a condition that is \<open>undefined\<close> does not filter.\<close>

definition find_email_and_otp :: "string option \<Rightarrow> string option \<Rightarrow> otp_row list \<Rightarrow> otp_row option" where
  "find_email_and_otp email otp rows =
     find (\<lambda>r. (email = None \<or> email = Some (ot_email r)) \<and> (otp = None \<or> otp = Some (ot_otp r))) rows"

definition delete_otp :: "string option \<Rightarrow> auth_state \<Rightarrow> auth_state" where
  "delete_otp email st = st\<lparr>au_otps := filter (\<lambda>r. \<not> (email = None \<or> email = Some (ot_email r))) (au_otps st)\<rparr>"

definition expired_otp :: "int \<Rightarrow> otp_row \<Rightarrow> bool" where
  "expired_otp now r = (case ot_expiry r of None \<Rightarrow> False | Some t \<Rightarrow> t + 120000 < now)"

definition delete_expired_otps :: "int \<Rightarrow> auth_state \<Rightarrow> auth_state" where
  "delete_expired_otps now st = st\<lparr>au_otps := filter (\<lambda>r. \<not> expired_otp now r) (au_otps st)\<rparr>"

section \<open>Refresh sessions\<close>

definition live_value :: "int \<Rightarrow> ('a \<times> int) option \<Rightarrow> 'a option" where
  "live_value now e = (case e of None \<Rightarrow> None | Some (v, expires) \<Rightarrow> if now < expires then Some v else None)"

definition ttl_for :: "bool \<Rightarrow> int" where
  "ttl_for long = (if long then 7 * 24 * 60 * 60 else 24 * 60 * 60)"

definition create_refresh_session :: "draws_of_request \<Rightarrow> int \<Rightarrow> int \<Rightarrow> bool \<Rightarrow> string option \<Rightarrow> stored_session" where
  "create_refresh_session dw user version long session =
     \<lparr>rs_user = user, rs_id = coalesce session (dw_session dw), rs_token = dw_token dw, rs_version = version, rs_remember = long\<rparr>"

definition persist_refresh_session :: "int \<Rightarrow> stored_session \<Rightarrow> auth_state \<Rightarrow> auth_state" where
  "persist_refresh_session now s st =
     (let expires = now + ttl_for (rs_remember s) * 1000
      in st\<lparr>au_sessions := (au_sessions st)(rs_id s \<mapsto> (''active'', expires)),
            au_tokens := (au_tokens st)(rs_token s \<mapsto> (s, expires))\<rparr>)"

datatype consume_result = Active | Reused | Revoked

text \<open>\<open>KEEPTTL\<close>: the entry keeps the end of its lifetime.\<close>

definition revoke_family :: "string \<Rightarrow> auth_state \<Rightarrow> auth_state" where
  "revoke_family session st =
     st\<lparr>au_sessions := (au_sessions st)(session := map_option (\<lambda>(_, expires). (''revoked'', expires)) (au_sessions st session))\<rparr>"

definition consume_refresh_session :: "int \<Rightarrow> string \<Rightarrow> string \<Rightarrow> auth_state \<Rightarrow> consume_result \<times> auth_state" where
  "consume_refresh_session now session token st =
     (if live_value now (au_sessions st session) \<noteq> Some ''active'' then (Revoked, st)
      else case live_value now (au_tokens st token) of
             Some _ \<Rightarrow> (Active, st\<lparr>au_tokens := (au_tokens st)(token := None)\<rparr>)
           | None \<Rightarrow> (Reused, revoke_family session st))"

definition revoke_refresh_session :: "int \<Rightarrow> string \<Rightarrow> string option \<Rightarrow> auth_state \<Rightarrow> auth_state" where
  "revoke_refresh_session now session token st =
     (let st' = (if live_value now (au_sessions st session) \<noteq> None then revoke_family session st else st)
      in if present token then st'\<lparr>au_tokens := (au_tokens st')(the token := None)\<rparr> else st')"

end
