(* ===== verification/Account_Handlers.thy ===== *)
theory Account_Handlers
  imports Accounts
begin

text \<open>
  The handlers of accounts.controller.ts, in its order. \<open>request_env\<close> is what a handler runs in: the library, the
  configuration, whether the cache answers, the clock and the draws of the request. Attributes of cookies other
  than their name, text and age, and the data of the answers beside code and message, are left out.
\<close>

record request_env =
  re_lib :: auth_lib
  re_cf :: snapshot_config
  re_reachable :: bool
  re_now :: int
  re_draws :: draws_of_request

datatype cookie = SetCookie string string int | ClearCookie string

record auth_reply =
  an_status :: int
  an_code :: string
  an_message :: string
  an_cookies :: "cookie list"

datatype http_result = Replied auth_reply | Raised string

definition say :: "string \<Rightarrow> string \<Rightarrow> cookie list \<Rightarrow> http_result" where
  "say code message cookies = Replied \<lparr>an_status = 200, an_code = code, an_message = message, an_cookies = cookies\<rparr>"

definition deny :: "int \<Rightarrow> string \<Rightarrow> http_result" where
  "deny status message = Replied \<lparr>an_status = status, an_code = ''error'', an_message = message, an_cookies = []\<rparr>"

definition succeeded :: "http_result \<Rightarrow> bool" where
  "succeeded r = (case r of Replied a \<Rightarrow> an_code a = ''success'' | Raised _ \<Rightarrow> False)"

definition clear_session_cookies :: "cookie list" where
  "clear_session_cookies = [ClearCookie ''accessToken'', ClearCookie ''refreshToken'']"

definition otp_mail :: "string \<Rightarrow> string" where
  "otp_mail otp = ''Your OTP is <b>'' @ otp @ ''</b>. It is valid for 5 minutes. Do not share it.''"

definition sign :: "request_env \<Rightarrow> otp_claims \<Rightarrow> string" where
  "sign e c = al_sign (re_lib e) (re_now e) c"

definition verify :: "request_env \<Rightarrow> string option \<Rightarrow> otp_claims option" where
  "verify e cookie = al_verify (re_lib e) (re_now e) (text_of cookie)"

definition send_mail :: "string \<Rightarrow> string \<Rightarrow> string \<Rightarrow> auth_state \<Rightarrow> auth_state" where
  "send_mail recipient title content st = st\<lparr>au_mails := au_mails st @ [(recipient, title, content)]\<rparr>"

definition generate_access_token :: "request_env \<Rightarrow> int \<Rightarrow> int \<Rightarrow> string" where
  "generate_access_token e user version =
     al_sign_access (re_lib e) (re_now e) \<lparr>ac_user = Some user, ac_version = Some version\<rparr>"

text \<open>\<open>expiresIn\<close> is seven days or one.\<close>

definition generate_refresh_token :: "request_env \<Rightarrow> int \<Rightarrow> int \<Rightarrow> bool \<Rightarrow> string \<Rightarrow> string \<Rightarrow> string" where
  "generate_refresh_token e user version long session token =
     al_sign_refresh (re_lib e) (re_now e) (ttl_for long)
       \<lparr>rf_user = Some user, rf_version = Some version, rf_sid = Some session, rf_jti = Some token,
        rf_section = Some (if long then ''long'' else ''short'')\<rparr>"

definition issue_session :: "request_env \<Rightarrow> user_row \<Rightarrow> bool \<Rightarrow> string option \<Rightarrow> auth_state \<Rightarrow> cookie list \<times> auth_state" where
  "issue_session e account long session st =
     (let s = create_refresh_session (re_draws e) (us_id account) (us_version account) long session
      in ([SetCookie ''accessToken'' (generate_access_token e (us_id account) (us_version account)) (15 * 60 * 1000),
           SetCookie ''refreshToken'' (generate_refresh_token e (us_id account) (us_version account) long (rs_id s) (rs_token s))
             (if long then 7 * 24 * 60 * 60 * 1000 else 24 * 60 * 60 * 1000)],
          persist_refresh_session (re_now e) s st))"

section \<open>Registration\<close>

definition verify_account :: "request_env \<Rightarrow> string option \<Rightarrow> auth_state \<Rightarrow> http_result \<times> auth_state" where
  "verify_account e cookie st =
     (let st = delete_expired_otps (re_now e) st
      in if \<not> present cookie then (say ''error'' ''An error occurred here'' [], st)
         else case verify e cookie of
                None \<Rightarrow> (Raised ''JsonWebTokenError'', st)
              | Some c \<Rightarrow>
                  if find_email_and_otp (oc_email c) (oc_otp c) (au_otps st) = None
                  then (say ''error'' ''An error occurred here'' [ClearCookie ''verified_otp_token''], st)
                  else (say ''success'' ''OTP is valid for 5 minutes'' [], st))"

definition register_post :: "request_env \<Rightarrow> string \<Rightarrow> string \<Rightarrow> string option \<Rightarrow> string \<Rightarrow> auth_state \<Rightarrow> http_result \<times> auth_state" where
  "register_post e email full_name address password st =
     (if find_by_email email (au_users st) \<noteq> None then (say ''error'' ''Email already exists in the system!'' [], st)
      else let st = delete_expired_otps (re_now e) st
           in if find_otp_by_email email (au_otps st) \<noteq> None
              then (say ''existedOTP'' ''OTP has been sent and is valid for 5 minutes!'' [], st)
              else let otp = generate_otp 6 (dw_digit (re_draws e))
                   in case create_otp (re_now e) email otp st of
                        Inl err \<Rightarrow> (Raised err, st)
                      | Inr st \<Rightarrow>
                          (say ''success'' ''Please enter the OTP''
                             [SetCookie ''verified_otp_token''
                                (sign e (no_claims\<lparr>oc_otp := Some otp, oc_email := Some email, oc_full_name := Some full_name,
                                   oc_address := address, oc_password := Some password\<rparr>)) (5 * 60 * 1000)],
                           send_mail email ''Registration OTP Confirmation'' (otp_mail otp) st))"

definition register_verify_post :: "request_env \<Rightarrow> string option \<Rightarrow> string \<Rightarrow> auth_state \<Rightarrow> http_result \<times> auth_state" where
  "register_verify_post e cookie otp st =
     (let st = delete_expired_otps (re_now e) st
      in if \<not> present cookie then (say ''error'' ''An error occurred here'' [], st)
         else case verify e cookie of
                None \<Rightarrow> (Raised ''JsonWebTokenError'', st)
              | Some c \<Rightarrow>
                  if find_email_and_otp (Some (text_of (oc_email c))) (Some otp) (au_otps st) = None
                  then (say ''otp error'' ''Invalid OTP!'' [], st)
                  else (case hash_password (re_lib e) (re_draws e) (oc_password c) of
                          Inl err \<Rightarrow> (Raised err, st)
                        | Inr password \<Rightarrow>
                            (case create_account \<lparr>na_full_name = oc_full_name c, na_email = oc_email c, na_password = Some password,
                                    na_address = oc_address c, na_username = oc_full_name c\<rparr> st of
                               Inl err \<Rightarrow> (Raised err, st)
                             | Inr st \<Rightarrow> (say ''success'' ''Congratulations, registered successfully''
                                 [ClearCookie ''verified_otp_token''], delete_otp (oc_email c) st))))"

section \<open>Login\<close>

definition login_post :: "request_env \<Rightarrow> bool \<Rightarrow> string \<Rightarrow> string \<Rightarrow> bool \<Rightarrow> auth_state \<Rightarrow> http_result \<times> auth_state" where
  "login_post e captcha email password long st =
     (if \<not> captcha then (say ''error'' ''Invalid Captcha'' [], st)
      else case find_by_email email (au_users st) of
             None \<Rightarrow> (say ''error'' ''Email does not exist in the system'' [], st)
           | Some account \<Rightarrow>
               if \<not> al_compare (re_lib e) password (coalesce (us_password account) '''') then (say ''error'' ''Incorrect password'' [], st)
               else if us_status account = ''inactive''
                    then (say ''error'' ''Your account is deactivated. Please contact the administrator.'' [], st)
               else (case issue_session e account long None st of
                       (cookies, st) \<Rightarrow> (say ''success'' ''Welcome to our website!'' cookies, st)))"

section \<open>Password recovery\<close>

definition forgot_password :: "request_env \<Rightarrow> string \<Rightarrow> auth_state \<Rightarrow> http_result \<times> auth_state" where
  "forgot_password e email st =
     (if find_by_email email (au_users st) = None then (say ''error'' ''Email does not exist'' [], st)
      else let st = delete_expired_otps (re_now e) st
           in if find_otp_by_email email (au_otps st) \<noteq> None
              then (say ''existedOTP'' ''OTP has been sent and is valid for 5 minutes!'' [], st)
              else let otp = generate_otp 6 (dw_digit (re_draws e))
                   in case create_otp (re_now e) email otp st of
                        Inl err \<Rightarrow> (Raised err, st)
                      | Inr st \<Rightarrow>
                          (say ''success'' ''Please enter the OTP''
                             [SetCookie ''verified_otp_token''
                                (sign e (no_claims\<lparr>oc_otp := Some otp, oc_email := Some email\<rparr>)) (5 * 60 * 1000)],
                           send_mail email ''OTP for password recovery'' (otp_mail otp) st))"

definition forgot_password_verify :: "request_env \<Rightarrow> string option \<Rightarrow> string \<Rightarrow> auth_state \<Rightarrow> http_result \<times> auth_state" where
  "forgot_password_verify e cookie otp st =
     (let st = delete_expired_otps (re_now e) st
      in if \<not> present cookie then (say ''error'' ''An error occurred here'' [], st)
         else case verify e cookie of
                None \<Rightarrow> (Raised ''JsonWebTokenError'', st)
              | Some c \<Rightarrow>
                  if find_email_and_otp (Some (text_of (oc_email c))) (Some otp) (au_otps st) = None
                  then (say ''otp error'' ''Invalid OTP!'' [], st)
                  else (say ''success'' ''Please enter your password again'' [], st))"

definition reset_password :: "request_env \<Rightarrow> string option \<Rightarrow> string \<Rightarrow> string \<Rightarrow> auth_state \<Rightarrow> http_result \<times> auth_state" where
  "reset_password e cookie email password st =
     (if \<not> present cookie then (say ''error'' ''Session expired or verification token missing.'' [], st)
      else case verify e cookie of
             None \<Rightarrow> (say ''error'' ''Session expired or invalid verification token.'' [], st)
           | Some c \<Rightarrow>
               if oc_email c \<noteq> Some email then (say ''error'' ''Email does not match the verified token.'' [], st)
               else if find_email_and_otp (oc_email c) (oc_otp c) (au_otps st) = None
                    then (say ''error'' ''Invalid or expired OTP session.'' [], st)
               else (case hash_password (re_lib e) (re_draws e) (Some password) of
                       Inl err \<Rightarrow> (Raised err, st)
                     | Inr hashed \<Rightarrow>
                         (case update_password (re_cf e) (re_reachable e) (re_now e) (Some email) hashed st of
                            Inl err \<Rightarrow> (Raised err, st)
                          | Inr st \<Rightarrow> (say ''success'' ''Password reset successfully'' [ClearCookie ''verified_otp_token''],
                              delete_otp (Some email) st))))"

section \<open>Logout and Google\<close>

text \<open>\<open>verify\<close> with the secret, issuer and audience of refresh tokens.\<close>

definition verify_refresh :: "request_env \<Rightarrow> string option \<Rightarrow> refresh_claims option" where
  "verify_refresh e cookie = al_verify_refresh (re_lib e) (re_now e) (text_of cookie)"

definition logout_post :: "request_env \<Rightarrow> string option \<Rightarrow> auth_state \<Rightarrow> http_result \<times> auth_state" where
  "logout_post e cookie st =
     (say ''success'' ''Logged out successfully'' clear_session_cookies,
      if \<not> present cookie then st
      else case verify_refresh e cookie of
             None \<Rightarrow> st
           | Some c \<Rightarrow> (case (rf_sid c, rf_jti c) of
                          (Some session, Some token) \<Rightarrow> revoke_refresh_session (re_now e) session (Some token) st
                        | _ \<Rightarrow> st))"

record google_payload =
  gp_email :: "string option"
  gp_verified :: bool
  gp_name :: "string option"

text \<open>\<open>ticket\<close>: what \<open>verifyIdToken\<close> gives for the credential; \<open>None\<close> when it throws, \<open>Some None\<close> without payload.\<close>

definition google_login_post :: "request_env \<Rightarrow> string option \<Rightarrow> string option \<Rightarrow> google_payload option option \<Rightarrow> bool
    \<Rightarrow> auth_state \<Rightarrow> http_result \<times> auth_state" where
  "google_login_post e credential client ticket long st =
     (if \<not> present credential \<or> \<not> present client then (deny 400 ''Google login is not configured correctly.'', st)
      else case ticket of
        None \<Rightarrow> (deny 401 ''Google sign-in could not be verified.'', st)
      | Some None \<Rightarrow> (deny 401 ''Google account email could not be verified.'', st)
      | Some (Some p) \<Rightarrow>
          if \<not> present (gp_email p) \<or> \<not> gp_verified p then (deny 401 ''Google account email could not be verified.'', st)
          else let email = text_of (gp_email p);
                   name = (if present (gp_name p) then text_of (gp_name p) else takeWhile (\<lambda>c. c \<noteq> CHR ''@'') email)
               in case find_by_email email (au_users st) of
                    Some account \<Rightarrow>
                      if present (us_password account)
                      then (say ''error'' ''Account registered with email/password. Please log in using that method.'' [], st)
                      else (case issue_session e account long None st of
                              (cookies, st) \<Rightarrow> (say ''success'' ''Welcome to our website!'' cookies, st))
                  | None \<Rightarrow>
                      (case create_account \<lparr>na_full_name = Some name, na_email = Some email, na_password = None,
                              na_address = None, na_username = Some name\<rparr> st of
                         Inl _ \<Rightarrow> (deny 401 ''Google sign-in could not be verified.'', st)
                       | Inr st \<Rightarrow>
                           (case find_by_email email (au_users st) of
                              None \<Rightarrow> (deny 500 ''Account could not be created.'', st)
                            | Some account \<Rightarrow> (case issue_session e account long None st of
                                (cookies, st) \<Rightarrow> (say ''success'' ''Welcome to our website!'' cookies, st)))))"

section \<open>Password change\<close>

definition change_password :: "request_env \<Rightarrow> principal option \<Rightarrow> string \<Rightarrow> string \<Rightarrow> auth_state \<Rightarrow> http_result \<times> auth_state" where
  "change_password e caller current_password new_password st =
     (case caller of
        None \<Rightarrow> (deny 401 ''User not authenticated'', st)
      | Some p \<Rightarrow>
          if pp_user p = 0 then (deny 401 ''User not authenticated'', st)
          else case find_by_id (pp_user p) (au_users st) of
            None \<Rightarrow> (say ''error'' ''Account does not exist'' [], st)
          | Some account \<Rightarrow>
              if \<not> al_compare (re_lib e) current_password (coalesce (us_password account) '''')
              then (say ''error'' ''Current password is incorrect'' [], st)
              else if al_compare (re_lib e) new_password (coalesce (us_password account) '''')
              then (say ''error'' ''New password must be different from current password'' [], st)
              else let st = delete_otp (Some (us_email account)) (delete_expired_otps (re_now e) st);
                       otp = generate_otp 6 (dw_digit (re_draws e))
                   in case create_otp (re_now e) (us_email account) otp st of
                        Inl _ \<Rightarrow> (say ''error'' ''An error occurred, please try again'' [ClearCookie ''change_password_token''], st)
                      | Inr st \<Rightarrow>
                          (say ''success'' ''OTP sent to your email''
                             [ClearCookie ''change_password_token'',
                              SetCookie ''change_password_token''
                                (sign e (no_claims\<lparr>oc_otp := Some otp, oc_email := Some (us_email account),
                                   oc_user := Some (pp_user p), oc_new_password := Some new_password\<rparr>)) (5 * 60 * 1000)],
                           send_mail (us_email account) ''Change Password OTP Confirmation'' (otp_mail otp) st))"

definition verify_change_password :: "request_env \<Rightarrow> string option \<Rightarrow> string \<Rightarrow> auth_state \<Rightarrow> http_result \<times> auth_state" where
  "verify_change_password e cookie otp st =
     (let st = delete_expired_otps (re_now e) st;
          failed = say ''error'' ''An error occurred, please try again'' []
      in if \<not> present cookie then (say ''error'' ''Session expired'' [], st)
         else case verify e cookie of
                None \<Rightarrow> (failed, st)
              | Some c \<Rightarrow>
                  if find_email_and_otp (oc_email c) (Some otp) (au_otps st) = None then (say ''otp error'' ''Invalid OTP!'' [], st)
                  else (case hash_password (re_lib e) (re_draws e) (oc_new_password c) of
                          Inl _ \<Rightarrow> (failed, st)
                        | Inr hashed \<Rightarrow>
                            (case update_password (re_cf e) (re_reachable e) (re_now e) (oc_email c) hashed st of
                               Inl _ \<Rightarrow> (failed, st)
                             | Inr st \<Rightarrow> (say ''success'' ''Password changed successfully'' [ClearCookie ''change_password_token''],
                                 delete_otp (oc_email c) st))))"

section \<open>Refresh\<close>

definition revoked_reply :: http_result where
  "revoked_reply = deny 401 ''Refresh token has been revoked or is invalid''"

text \<open>What the handler decides before it touches the session: the account, the session and token to consume and
  the kind of session.\<close>

definition refreshable :: "request_env \<Rightarrow> refresh_claims \<Rightarrow> auth_state \<Rightarrow> (user_row \<times> string \<times> string \<times> bool) option" where
  "refreshable e c st =
     (case (rf_user c, rf_version c, rf_sid c, rf_jti c) of
        (Some user, Some version, Some session, Some token) \<Rightarrow>
          (case find_by_id user (au_users st) of
             None \<Rightarrow> None
           | Some account \<Rightarrow>
               if us_status account = ''inactive'' \<or> us_version account \<noteq> version then None
               else Some (account, session, token, rf_section c = Some ''long''))
      | _ \<Rightarrow> None)"

definition refresh_session :: "request_env \<Rightarrow> string option \<Rightarrow> auth_state \<Rightarrow> http_result \<times> auth_state" where
  "refresh_session e cookie st =
     (if \<not> present cookie then (deny 401 ''Refresh token is missing'', st)
      else case verify_refresh e cookie of
        None \<Rightarrow> (deny 401 ''Invalid refresh token'', st)
      | Some c \<Rightarrow>
          (case refreshable e c st of
             None \<Rightarrow> (revoked_reply, st)
           | Some (account, session, token, long) \<Rightarrow>
               (case consume_refresh_session (re_now e) session token st of
                  (Active, st) \<Rightarrow>
                    (case issue_session e account long (Some session) st of
                       (cookies, st) \<Rightarrow> (say ''success'' ''Session refreshed successfully'' cookies, st))
                | (_, st) \<Rightarrow> (revoked_reply, st))))"

end
