(* ===== verification/User_Admin.thy ===== *)
theory User_Admin
  imports Account_Handlers
begin

text \<open>
  What administrators and users change of accounts besides passwords: user.use-case.ts, user.repository.ts,
  users.admin.controller.ts, users.client.controller.ts, and the editing of profiles. A transaction that throws
  leaves the state as it was. Lists, counts, ratings and the search columns are left out.
\<close>

section \<open>Roles, states and applications\<close>

definition outbox_event :: "topics \<Rightarrow> string \<Rightarrow> string \<Rightarrow> string \<Rightarrow> string \<Rightarrow> json \<Rightarrow> auth_state \<Rightarrow> (string, auth_state) result" where
  "outbox_event tp event_id topic event_type aggregate payload st =
     (if topic \<notin> relay_topics tp then throws (''Unsupported outbox topic: '' @ topic)
      else case insert_row outbox_clash \<lparr>ob_event_id = event_id, ob_event_type = event_type, ob_event_version = 1,
              ob_aggregate_id = aggregate, ob_payload = JsonPayload payload, ob_topic = topic\<rparr> (au_outbox st) of
             None \<Rightarrow> throws ''P2002''
           | Some rows \<Rightarrow> returns (st\<lparr>au_outbox := rows\<rparr>))"

definition write_audit :: "audit_row \<Rightarrow> auth_state \<Rightarrow> auth_state" where
  "write_audit row st = st\<lparr>au_audit := au_audit st @ [row]\<rparr>"

definition refresh_snapshot :: "request_env \<Rightarrow> int \<Rightarrow> auth_state \<Rightarrow> auth_state" where
  "refresh_snapshot e user st =
     (case find_auth_principal st user of
        None \<Rightarrow> st
      | Some p \<Rightarrow> invalidate_snapshot (re_cf e) (re_reachable e) (re_now e) p st)"

text \<open>The widths of the columns \<open>role\<close> and \<open>correlation_id\<close> (a UUID) are checked by the database.\<close>

record admin_act =
  aa_actor :: "int option"
  aa_correlation :: string
  aa_event_id :: string
  aa_topics :: topics

definition edit_user_role_and_status :: "request_env \<Rightarrow> admin_act \<Rightarrow> int \<Rightarrow> string \<Rightarrow> string \<Rightarrow> auth_state \<Rightarrow> (string, auth_state) result" where
  "edit_user_role_and_status e a user role status st =
     (if \<not> fits 10 (Some role) then throws ''P2000''
      else case update_user (\<lambda>u. us_id u = user)
             (\<lambda>u. u\<lparr>us_role := Some role, us_status := status, us_version := us_version u + 1\<rparr>) (au_users st) of
        None \<Rightarrow> throws ''P2025''
      | Some (_, rows) \<Rightarrow>
          bind_result (outbox_event (aa_topics a) (aa_event_id a) (tp_domain (aa_topics a)) ''user.access_changed.v1'' (show_int user)
            (JObject [(''userId'', JInt user), (''role'', JString role), (''status'', JString status)]) (st\<lparr>au_users := rows\<rparr>))
          (\<lambda>st. returns (refresh_snapshot e user (write_audit \<lparr>ad_actor = aa_actor a, ad_action = ''user.access.change'',
             ad_resource_type = ''user'', ad_resource_id = show_int user, ad_correlation = aa_correlation a\<rparr> st))))"

definition edit_role :: "request_env \<Rightarrow> admin_act \<Rightarrow> int \<Rightarrow> string \<Rightarrow> string \<Rightarrow> auth_state \<Rightarrow> http_result \<times> auth_state" where
  "edit_role e a user role status st =
     (if find_by_id user (au_users st) = None then (deny 404 ''User does not exist'', st)
      else case edit_user_role_and_status e a user role status st of
             Inl _ \<Rightarrow> (deny 500 ''Server error'', st)
           | Inr st \<Rightarrow> (say ''success'' ''Role updated successfully'' [], st))"

definition new_password :: string where
  "new_password = ''OnlineAuction123@''"

text \<open>\<open>Inr False\<close>: there is no such user. The mail goes out before the row is written.\<close>

definition reset_user_password :: "request_env \<Rightarrow> int \<Rightarrow> auth_state \<Rightarrow> (string, bool) result \<times> auth_state" where
  "reset_user_password e user st =
     (case find_by_id user (au_users st) of
        None \<Rightarrow> (returns False, st)
      | Some u \<Rightarrow>
          let st = send_mail (us_email u) ''Password reset request for your account''
                (''Your new password is: '' @ new_password @ ''. Please log in and change your password immediately.'') st;
              hashed = al_hash (re_lib e) (dw_salt (re_draws e)) new_password
          in if \<not> fits 100 (Some hashed) then (throws ''P2000'', st)
             else case update_user (\<lambda>x. us_id x = user)
                    (\<lambda>x. x\<lparr>us_password := Some hashed, us_version := us_version x + 1\<rparr>) (au_users st) of
                    None \<Rightarrow> (throws ''P2025'', st)
                  | Some (_, rows) \<Rightarrow> (returns True, refresh_snapshot e user (st\<lparr>au_users := rows\<rparr>)))"

definition admin_reset_password :: "request_env \<Rightarrow> int \<Rightarrow> auth_state \<Rightarrow> http_result \<times> auth_state" where
  "admin_reset_password e user st =
     (case reset_user_password e user st of
        (Inl _, st) \<Rightarrow> (deny 500 ''Server error'', st)
      | (Inr False, st) \<Rightarrow> (deny 404 ''User does not exist'', st)
      | (Inr True, st) \<Rightarrow> (say ''success'' ''Password reset successfully'' [], st))"

definition set_application_status :: "request_env \<Rightarrow> admin_act \<Rightarrow> int \<Rightarrow> string \<Rightarrow> auth_state \<Rightarrow> (string, auth_state) result" where
  "set_application_status e a application status st =
     (case find (\<lambda>r. ap_id r = application) (au_applications st) of
        None \<Rightarrow> throws ''P2025''
      | Some r \<Rightarrow>
          let st1 = st\<lparr>au_applications := map (\<lambda>x. if ap_id x = application then x\<lparr>ap_status := Some status\<rparr> else x) (au_applications st)\<rparr>;
              accepted = (status = ''accepted'')
          in bind_result (if \<not> accepted then returns st1
               else case update_user (\<lambda>u. us_id u = ap_user r)
                      (\<lambda>u. u\<lparr>us_role := Some ''seller'', us_version := us_version u + 1\<rparr>) (au_users st1) of
                 None \<Rightarrow> throws ''P2025''
               | Some (_, rows) \<Rightarrow> returns (st1\<lparr>au_users := rows\<rparr>))
             (\<lambda>st2. bind_result (outbox_event (aa_topics a) (aa_event_id a) (tp_domain (aa_topics a))
                (if accepted then ''seller.approved.v1'' else ''seller.rejected.v1'') (show_int application)
                (JObject [(''applicationId'', JInt application), (''userId'', JInt (ap_user r)), (''status'', JString status)]) st2)
             (\<lambda>st3. let st4 = write_audit \<lparr>ad_actor = aa_actor a,
                  ad_action = (if accepted then ''seller.approve'' else ''seller.reject''),
                  ad_resource_type = ''seller_application'', ad_resource_id = show_int application,
                  ad_correlation = aa_correlation a\<rparr> st3
                in returns (if accepted then refresh_snapshot e (ap_user r) st4 else st4))))"

definition set_status :: "request_env \<Rightarrow> admin_act \<Rightarrow> int \<Rightarrow> string \<Rightarrow> auth_state \<Rightarrow> http_result \<times> auth_state" where
  "set_status e a application status st =
     (case set_application_status e a application status st of
        Inl _ \<Rightarrow> (deny 500 ''Error confirming application'', st)
      | Inr st \<Rightarrow> (say ''success'' ''Application confirmed successfully'' [], st))"

definition check_register_seller_request :: "int \<Rightarrow> int \<Rightarrow> application_row list \<Rightarrow> bool" where
  "check_register_seller_request now user rows =
     list_ex (\<lambda>r. ap_user r = user \<and> (case ap_expiry r of None \<Rightarrow> False | Some t \<Rightarrow> now < t)) rows"

text \<open>\<open>application\<close> is the identifier the sequence of the table gives; the column \<open>user_id\<close> refers to a user.\<close>

definition register_seller_request :: "request_env \<Rightarrow> int \<Rightarrow> int \<Rightarrow> string option \<Rightarrow> auth_state \<Rightarrow> http_result \<times> auth_state" where
  "register_seller_request e application user reason st =
     (if check_register_seller_request (re_now e) user (au_applications st)
      then (deny 400 ''You have already submitted a seller upgrade request. Please wait for processing.'', st)
      else if find_by_id user (au_users st) = None then (Raised ''P2003'', st)
      else (say ''success'' ''Seller upgrade request submitted successfully.'' [],
            st\<lparr>au_applications := au_applications st @ [\<lparr>ap_id = application, ap_user = user, ap_reason = reason,
              ap_expiry = Some (re_now e + 7 * 24 * 60 * 60 * 1000), ap_status = Some ''pending''\<rparr>]\<rparr>))"

section \<open>Profiles\<close>

record profile_input =
  pi_username :: "string option"
  pi_email :: "string option"
  pi_full_name :: "string option"
  pi_address :: "string option"

definition chosen_text :: "string option \<Rightarrow> string \<Rightarrow> string" where
  "chosen_text x old = (if present x then text_of x else old)"

definition apply_profile :: "profile_input \<Rightarrow> user_row \<Rightarrow> user_row" where
  "apply_profile i u =
     u\<lparr>us_username := chosen_text (pi_username i) (us_username u), us_email := chosen_text (pi_email i) (us_email u),
       us_full_name := chosen_text (pi_full_name i) (us_full_name u),
       us_address := (if present (pi_address i) then pi_address i else us_address u)\<rparr>"

definition row_fits :: "user_row \<Rightarrow> bool" where
  "row_fits u = (fits 50 (Some (us_username u)) \<and> fits 50 (Some (us_email u)) \<and> fits 50 (Some (us_full_name u))
     \<and> fits 100 (us_address u))"

definition edit_user_profile :: "int \<Rightarrow> profile_input \<Rightarrow> auth_state \<Rightarrow> http_result \<times> auth_state" where
  "edit_user_profile user i st =
     (case update_user (\<lambda>u. us_id u = user) (apply_profile i) (au_users st) of
        None \<Rightarrow> (deny 500 ''Server error while updating user profile.'', st)
      | Some (u, rows) \<Rightarrow>
          if \<not> row_fits u \<or> list_ex (\<lambda>x. us_id x \<noteq> user \<and> us_email x = us_email u) (au_users st)
          then (deny 500 ''Server error while updating user profile.'', st)
          else (say ''success'' ''User profile updated successfully.'' [], st\<lparr>au_users := rows\<rparr>))"

text \<open>The row sent to whoever asks, and whether it is the caller's own.\<close>

definition get_user_profile_detail :: "string \<Rightarrow> int \<Rightarrow> principal option \<Rightarrow> auth_state \<Rightarrow> (user_row \<times> bool) option" where
  "get_user_profile_detail username user caller st =
     map_option (\<lambda>u. (u, map_option pp_user caller = Some user))
       (find (\<lambda>u. us_username u = username \<and> us_id u = user) (au_users st))"

end
