(* ===== verification/Account_Properties.thy ===== *)
theory Account_Properties
  imports User_Admin
begin

text \<open>
  The requests of the account and user routes as one step function, what every request keeps of the tables, and the
  properties of sessions and passwords.
\<close>

section \<open>Requests\<close>

datatype account_request =
    VerifyAccount "string option"
  | RegisterPost string string "string option" string
  | RegisterVerify "string option" string
  | LoginPost bool string string bool
  | ForgotPassword string
  | ForgotVerify "string option" string
  | ResetPassword "string option" string string
  | LogoutPost "string option"
  | GoogleLogin "string option" "string option" "google_payload option option" bool
  | ChangePassword "principal option" string string
  | VerifyChange "string option" string
  | RefreshSession "string option"
  | EditRole admin_act int string string
  | AdminReset int
  | SetStatus admin_act int string
  | RegisterSeller int int "string option"
  | EditProfile int profile_input

fun serve :: "request_env \<Rightarrow> account_request \<Rightarrow> auth_state \<Rightarrow> http_result \<times> auth_state" where
  "serve e (VerifyAccount cookie) st = verify_account e cookie st"
| "serve e (RegisterPost email full_name address password) st = register_post e email full_name address password st"
| "serve e (RegisterVerify cookie otp) st = register_verify_post e cookie otp st"
| "serve e (LoginPost captcha email password long) st = login_post e captcha email password long st"
| "serve e (ForgotPassword email) st = forgot_password e email st"
| "serve e (ForgotVerify cookie otp) st = forgot_password_verify e cookie otp st"
| "serve e (ResetPassword cookie email password) st = reset_password e cookie email password st"
| "serve e (LogoutPost cookie) st = logout_post e cookie st"
| "serve e (GoogleLogin credential client ticket long) st = google_login_post e credential client ticket long st"
| "serve e (ChangePassword caller old new) st = change_password e caller old new st"
| "serve e (VerifyChange cookie otp) st = verify_change_password e cookie otp st"
| "serve e (RefreshSession cookie) st = refresh_session e cookie st"
| "serve e (EditRole a user role status) st = edit_role e a user role status st"
| "serve e (AdminReset user) st = admin_reset_password e user st"
| "serve e (SetStatus a application status) st = set_status e a application status st"
| "serve e (RegisterSeller application user reason) st = register_seller_request e application user reason st"
| "serve e (EditProfile user i) st = edit_user_profile user i st"

definition serve_all :: "(request_env \<times> account_request) list \<Rightarrow> auth_state \<Rightarrow> auth_state" where
  "serve_all rs st = fold (\<lambda>(e, q) st. snd (serve e q st)) rs st"

section \<open>What the tables keep\<close>

definition user_ok :: "int \<Rightarrow> user_row \<Rightarrow> bool" where
  "user_ok n u = (us_id u < n \<and> 0 \<le> us_version u \<and> row_fits u \<and> fits 100 (us_password u))"

definition accounts_wf :: "auth_state \<Rightarrow> bool" where
  "accounts_wf st =
     (unique_rows user_clash (au_users st) \<and> list_all (user_ok (au_next_user st)) (au_users st)
      \<and> unique_rows otp_clash (au_otps st) \<and> list_all (\<lambda>r. fits 255 (Some (ot_email r)) \<and> fits 10 (Some (ot_otp r))) (au_otps st)
      \<and> unique_rows outbox_clash (au_outbox st)
      \<and> (\<forall>t s x. au_tokens st t = Some (s, x) \<longrightarrow> rs_token s = t))"

text \<open>What a principal may do depends on these.\<close>

definition same_credentials :: "user_row \<Rightarrow> user_row \<Rightarrow> bool" where
  "same_credentials u u' = (us_role u' = us_role u \<and> us_status u' = us_status u \<and> us_password u' = us_password u)"

text \<open>No user is lost, no version falls, and one that stays says the same about the user.\<close>

definition versions_grow :: "auth_state \<Rightarrow> auth_state \<Rightarrow> bool" where
  "versions_grow st st' =
     (\<forall>u \<in> set (au_users st). \<exists>u' \<in> set (au_users st'). us_id u' = us_id u \<and> us_version u \<le> us_version u'
        \<and> (us_version u' = us_version u \<longrightarrow> same_credentials u u'))"

definition keeps :: "auth_state \<Rightarrow> auth_state \<Rightarrow> bool" where
  "keeps st st' = (accounts_wf st \<longrightarrow> accounts_wf st' \<and> versions_grow st st')"

lemma versions_grow_trans: "versions_grow st st' \<Longrightarrow> versions_grow st' st'' \<Longrightarrow> versions_grow st st''"
  unfolding versions_grow_def
proof
  fix u
  assume 1: "\<forall>u\<in>set (au_users st). \<exists>u'\<in>set (au_users st'). us_id u' = us_id u \<and> us_version u \<le> us_version u'
      \<and> (us_version u' = us_version u \<longrightarrow> same_credentials u u')"
    and 2: "\<forall>u\<in>set (au_users st'). \<exists>u'\<in>set (au_users st''). us_id u' = us_id u \<and> us_version u \<le> us_version u'
      \<and> (us_version u' = us_version u \<longrightarrow> same_credentials u u')"
    and "u \<in> set (au_users st)"
  then obtain u' where u': "u' \<in> set (au_users st')" "us_id u' = us_id u" "us_version u \<le> us_version u'"
      "us_version u' = us_version u \<longrightarrow> same_credentials u u'" by blast
  from 2 u'(1) obtain u'' where "u'' \<in> set (au_users st'')" "us_id u'' = us_id u'" "us_version u' \<le> us_version u''"
      "us_version u'' = us_version u' \<longrightarrow> same_credentials u' u''" by blast
  with u' show "\<exists>u'\<in>set (au_users st''). us_id u' = us_id u \<and> us_version u \<le> us_version u'
      \<and> (us_version u' = us_version u \<longrightarrow> same_credentials u u')"
    by (intro bexI [of _ u'']) (auto simp: same_credentials_def)
qed

lemma keeps_refl [intro!, simp]: "keeps st st"
  by (auto simp: keeps_def versions_grow_def same_credentials_def)

lemma keeps_trans: "keeps st st' \<Longrightarrow> keeps st' st'' \<Longrightarrow> keeps st st''"
  unfolding keeps_def using versions_grow_trans by blast

lemma keepsI:
  assumes "au_users s' = au_users s" "au_next_user s' = au_next_user s"
    and "accounts_wf s \<Longrightarrow> unique_rows otp_clash (au_otps s')
      \<and> list_all (\<lambda>r. fits 255 (Some (ot_email r)) \<and> fits 10 (Some (ot_otp r))) (au_otps s')
      \<and> unique_rows outbox_clash (au_outbox s') \<and> (\<forall>t v x. au_tokens s' t = Some (v, x) \<longrightarrow> rs_token v = t)"
    and "keeps st s"
  shows "keeps st s'"
proof (rule keeps_trans [OF assms(4)])
  have "versions_grow s s'"
    unfolding versions_grow_def assms(1) by (rule ballI, rule bexI) (auto simp: same_credentials_def)
  then show "keeps s s'"
    using assms(3) unfolding keeps_def accounts_wf_def assms(1,2) by blast
qed

lemma unique_filter: "unique_rows clash rows \<Longrightarrow> unique_rows clash (filter P rows)"
  by (simp add: unique_rows_def sorted_wrt_filter)

lemma list_all_filtered: "list_all Q rows \<Longrightarrow> list_all Q (filter P rows)"
  by (simp add: list_all_iff)

lemma keeps_delete_expired: "keeps st s \<Longrightarrow> keeps st (delete_expired_otps now s)"
  by (rule keepsI [of _ s]) (auto simp: delete_expired_otps_def accounts_wf_def unique_filter list_all_filtered)

lemma keeps_delete_otp: "keeps st s \<Longrightarrow> keeps st (delete_otp email s)"
  by (rule keepsI [of _ s]) (auto simp: delete_otp_def accounts_wf_def unique_filter list_all_filtered)

lemma keeps_create_otp:
  assumes "create_otp now email otp s = Inr s'" "keeps st s"
  shows "keeps st s'"
proof -
  obtain rows where rows: "insert_row otp_clash \<lparr>ot_email = email, ot_otp = otp, ot_expiry = Some (now + 120000)\<rparr> (au_otps s) = Some rows"
      "s' = s\<lparr>au_otps := rows\<rparr>" "fits 10 (Some otp)" "fits 255 (Some email)"
    using assms(1) by (auto simp: create_otp_def split: if_splits option.splits)
  show ?thesis
    by (rule keepsI [of _ s, OF _ _ _ assms(2)])
      (use rows otps.insert_row_unique [OF rows(1)] otps.insert_row_iff in \<open>auto simp: accounts_wf_def\<close>)
qed

lemma keeps_send_mail: "keeps st s \<Longrightarrow> keeps st (send_mail a t c s)"
  by (rule keepsI [of _ s]) (auto simp: send_mail_def accounts_wf_def)

lemma keeps_invalidate: "keeps st s \<Longrightarrow> keeps st (invalidate_snapshot cf reachable now p s)"
  by (rule keepsI [of _ s]) (auto simp: invalidate_snapshot_def accounts_wf_def)

lemma keeps_audit: "keeps st s \<Longrightarrow> keeps st (write_audit row s)"
  by (rule keepsI [of _ s]) (auto simp: write_audit_def accounts_wf_def)

lemma keeps_outbox:
  assumes "outbox_event tp event_id topic event_type aggregate payload s = Inr s'" "keeps st s"
  shows "keeps st s'"
proof -
  obtain rows where rows: "insert_row outbox_clash \<lparr>ob_event_id = event_id, ob_event_type = event_type, ob_event_version = 1,
        ob_aggregate_id = aggregate, ob_payload = JsonPayload payload, ob_topic = topic\<rparr> (au_outbox s) = Some rows"
      "s' = s\<lparr>au_outbox := rows\<rparr>"
    using assms(1) by (auto simp: outbox_event_def split: if_splits option.splits)
  show ?thesis
    by (rule keepsI [of _ s, OF _ _ _ assms(2)]) (use rows outbox.insert_row_unique [OF rows(1)] in \<open>auto simp: accounts_wf_def\<close>)
qed

lemma keeps_revoke_family: "keeps st s \<Longrightarrow> keeps st (revoke_family session s)"
  by (rule keepsI [of _ s]) (auto simp: revoke_family_def accounts_wf_def)

lemma keeps_revoke: "keeps st s \<Longrightarrow> keeps st (revoke_refresh_session now session token s)"
  by (rule keepsI [of _ s])
    (auto simp: revoke_refresh_session_def revoke_family_def accounts_wf_def Let_def split: if_splits)

lemma keeps_consume:
  assumes "consume_refresh_session now session token s = (c, s')" "keeps st s"
  shows "keeps st s'"
  by (rule keepsI [of _ s, OF _ _ _ assms(2)])
    (use assms(1) in \<open>auto simp: consume_refresh_session_def revoke_family_def accounts_wf_def split: if_splits option.splits\<close>)

lemma keeps_issue:
  assumes "issue_session e account long session s = (cookies, s')" "keeps st s"
  shows "keeps st s'"
  by (rule keepsI [of _ s, OF _ _ _ assms(2)])
    (use assms(1) in \<open>auto simp: issue_session_def persist_refresh_session_def accounts_wf_def Let_def split: if_splits\<close>)

lemma keeps_users:
  assumes "keeps st s" "versions_grow s (s\<lparr>au_users := rows, au_next_user := n\<rparr>)"
    and "accounts_wf s \<Longrightarrow> unique_rows user_clash rows \<and> list_all (user_ok n) rows"
  shows "keeps st (s\<lparr>au_users := rows, au_next_user := n\<rparr>)"
  by (rule keeps_trans [OF assms(1)]) (use assms(2,3) in \<open>simp add: keeps_def accounts_wf_def\<close>)

lemma keeps_create_account:
  assumes "create_account a s = Inr s'" "keeps st s"
  shows "keeps st s'"
proof -
  obtain u rows where u: "insert_row user_clash u (au_users s) = Some rows" "s' = s\<lparr>au_users := rows, au_next_user := au_next_user s + 1\<rparr>"
      "us_id u = au_next_user s" "us_version u = 0" "row_fits u" "fits 100 (us_password u)"
    using assms(1) by (auto simp: create_account_def row_fits_def split: option.splits if_splits)
  have rows: "rows = au_users s @ [u]"
    using u(1) by (simp add: users.insert_row_iff)
  have "versions_grow s (s\<lparr>au_users := rows, au_next_user := au_next_user s + 1\<rparr>)"
    unfolding versions_grow_def rows by (rule ballI, rule bexI) (auto simp: same_credentials_def)
  moreover have "unique_rows user_clash rows \<and> list_all (user_ok (au_next_user s + 1)) rows" if "accounts_wf s"
    using that users.insert_row_unique [OF u(1)] u(3-6)
    by (auto simp: accounts_wf_def rows list_all_iff user_ok_def)
  ultimately show ?thesis
    unfolding u(2) using keeps_users [OF assms(2)] by blast
qed

lemma versions_grow_map:
  assumes "\<And>x. us_id (change x) = us_id x" "\<And>x. us_version x \<le> us_version (change x)"
    and "\<And>x. us_version (change x) = us_version x \<Longrightarrow> same_credentials x (change x)"
  shows "versions_grow s (s\<lparr>au_users := map (\<lambda>x. if chosen x then change x else x) (au_users s)\<rparr>)"
  unfolding versions_grow_def
proof
  fix x
  assume "x \<in> set (au_users s)"
  then show "\<exists>x' \<in> set (au_users (s\<lparr>au_users := map (\<lambda>x. if chosen x then change x else x) (au_users s)\<rparr>)).
      us_id x' = us_id x \<and> us_version x \<le> us_version x' \<and> (us_version x' = us_version x \<longrightarrow> same_credentials x x')"
    by (intro bexI [of _ "if chosen x then change x else x"]) (simp_all add: assms, simp add: same_credentials_def)
qed

lemma keeps_update_user:
  assumes "update_user chosen change (au_users s) = Some (u, rows)" "keeps st s"
    and "\<And>x. us_id (change x) = us_id x" "\<And>x. us_version x \<le> us_version (change x)"
    and credentials: "\<And>x. us_version (change x) = us_version x \<Longrightarrow> same_credentials x (change x)"
    and "\<And>n x. user_ok n x \<Longrightarrow> chosen x \<Longrightarrow> user_ok n (change x)"
    and "accounts_wf s \<Longrightarrow> unique_rows user_clash rows"
  shows "keeps st (s\<lparr>au_users := rows\<rparr>)"
proof -
  have rows: "rows = map (\<lambda>x. if chosen x then change x else x) (au_users s)"
    using assms(1) by (auto simp: update_user_def split: option.splits)
  have "versions_grow s (s\<lparr>au_users := rows\<rparr>)"
    unfolding rows by (rule versions_grow_map) (simp_all add: assms(3,4) credentials)
  moreover have "list_all (user_ok (au_next_user s)) rows" if "accounts_wf s"
    using that assms(6) by (auto simp: accounts_wf_def rows list_all_iff)
  ultimately show ?thesis
    using keeps_users [OF assms(2), where rows = rows and n = "au_next_user s"] assms(7) by simp
qed

lemma unique_updated:
  assumes "update_user chosen change rows = Some (u, rows')" "unique_rows user_clash rows"
    and "\<And>x. us_id (change x) = us_id x" "\<And>x. us_email (change x) = us_email x"
  shows "unique_rows user_clash rows'"
proof -
  have "rows' = map (\<lambda>x. if chosen x then change x else x) rows"
    using assms(1) by (auto simp: update_user_def split: option.splits)
  moreover have "user_clash (if chosen x then change x else x) (if chosen y then change y else y) = user_clash x y" for x y
    by (simp add: user_clash_def assms(3,4))
  ultimately show ?thesis
    using assms(2) by (simp add: unique_rows_def sorted_wrt_map)
qed

lemma keeps_update_password:
  assumes "update_password cf reachable now email password s = Inr s'" "keeps st s"
  shows "keeps st s'"
proof -
  let ?change = "\<lambda>u. u\<lparr>us_password := Some password, us_version := us_version u + 1\<rparr>"
  obtain em u rows where u: "update_user (\<lambda>u. us_email u = em) ?change (au_users s) = Some (u, rows)" "fits 100 (Some password)"
      "s' = invalidate_snapshot cf reachable now (principal_of u) (s\<lparr>au_users := rows\<rparr>)"
    using assms(1) by (auto simp: update_password_def split: option.splits if_splits)
  have "keeps st (s\<lparr>au_users := rows\<rparr>)"
    by (rule keeps_update_user [OF u(1) assms(2)])
      (use u(2) unique_updated [OF u(1)] in \<open>auto simp: user_ok_def row_fits_def accounts_wf_def\<close>)
  then show ?thesis
    unfolding u(3) by (rule keeps_invalidate)
qed

lemma keeps_refresh_snapshot: "keeps st s \<Longrightarrow> keeps st (refresh_snapshot e user s)"
  by (auto simp: refresh_snapshot_def intro: keeps_invalidate split: option.splits)

section \<open>What every request keeps\<close>

lemmas keeps_rules = keeps_create_otp keeps_create_account keeps_update_password keeps_outbox keeps_consume keeps_issue
lemmas keeps_parts = keeps_delete_expired keeps_delete_otp keeps_send_mail keeps_audit keeps_refresh_snapshot keeps_revoke

lemma keeps_dialogue:
  "keeps st (snd (verify_account e cookie st))"
  "keeps st (snd (register_post e email full_name address password st))"
  "keeps st (snd (forgot_password e email st))"
  "keeps st (snd (forgot_password_verify e cookie otp st))"
  "keeps st (snd (change_password e caller old new st))"
  unfolding verify_account_def register_post_def forgot_password_def forgot_password_verify_def change_password_def Let_def
  by (auto split: option.split sum.split intro!: keeps_parts intro: keeps_rules)

lemma keeps_register_verify: "keeps st (snd (register_verify_post e cookie otp st))"
  unfolding register_verify_post_def Let_def by (auto split: option.split sum.split intro!: keeps_parts intro: keeps_rules)

lemma keeps_password:
  "keeps st (snd (reset_password e cookie email password st))"
  "keeps st (snd (verify_change_password e cookie otp st))"
  unfolding reset_password_def verify_change_password_def Let_def by (auto split: option.split sum.split intro!: keeps_parts intro: keeps_rules)

lemma keeps_session:
  "keeps st (snd (login_post e captcha email password long st))"
  "keeps st (snd (logout_post e cookie st))"
  "keeps st (snd (refresh_session e cookie st))"
  unfolding login_post_def logout_post_def refresh_session_def
  by (auto split: option.split prod.split consume_result.split intro!: keeps_parts intro: keeps_rules)

lemma keeps_google: "keeps st (snd (google_login_post e credential client ticket long st))"
  unfolding google_login_post_def Let_def by (auto split: option.split prod.split sum.split intro!: keeps_parts intro: keeps_rules)

lemma keeps_edit_role: "keeps st (snd (edit_role e a user role status st))"
proof (cases "edit_user_role_and_status e a user role status st")
  case (Inr s)
  let ?change = "\<lambda>u. u\<lparr>us_role := Some role, us_status := status, us_version := us_version u + 1\<rparr>"
  obtain u rows s1 where u: "update_user (\<lambda>u. us_id u = user) ?change (au_users st) = Some (u, rows)"
      and s1: "outbox_event (aa_topics a) (aa_event_id a) (tp_domain (aa_topics a)) ''user.access_changed.v1'' (show_int user)
        (JObject [(''userId'', JInt user), (''role'', JString role), (''status'', JString status)]) (st\<lparr>au_users := rows\<rparr>) = Inr s1"
      and s: "s = refresh_snapshot e user (write_audit \<lparr>ad_actor = aa_actor a, ad_action = ''user.access.change'',
        ad_resource_type = ''user'', ad_resource_id = show_int user, ad_correlation = aa_correlation a\<rparr> s1)"
    using Inr by (auto simp: edit_user_role_and_status_def bind_result_Inr_iff split: option.splits if_splits)
  have "keeps st (st\<lparr>au_users := rows\<rparr>)"
    by (rule keeps_update_user [OF u keeps_refl])
      (use unique_updated [OF u] in \<open>auto simp: user_ok_def row_fits_def accounts_wf_def\<close>)
  then show ?thesis
    using Inr s1 by (auto simp: edit_role_def s intro!: keeps_parts intro: keeps_rules)
qed (auto simp: edit_role_def)

lemma keeps_admin_reset: "keeps st (snd (admin_reset_password e user st))"
proof -
  have "keeps st s" if "reset_user_password e user st = (r, s)" for r s
  proof -
    have updated: "keeps st (s1\<lparr>au_users := rows\<rparr>)"
      if "update_user (\<lambda>x. us_id x = user) (\<lambda>x. x\<lparr>us_password := Some h, us_version := us_version x + 1\<rparr>) (au_users s1) = Some (u, rows)"
        "fits 100 (Some h)" "keeps st s1" for h u rows s1
      by (rule keeps_update_user [OF that(1,3)])
        (use that(2) unique_updated [OF that(1)] in \<open>auto simp: user_ok_def row_fits_def accounts_wf_def\<close>)
    show ?thesis
      using that by (auto simp: reset_user_password_def Let_def split: option.splits if_splits intro!: keeps_parts intro: updated)
  qed
  then show ?thesis
    by (auto simp: admin_reset_password_def split: prod.split sum.split bool.split)
qed

lemma keeps_set_status: "keeps st (snd (set_status e a application status st))"
proof (cases "set_application_status e a application status st")
  case (Inr s)
  let ?change = "\<lambda>u. u\<lparr>us_role := Some ''seller'', us_version := us_version u + 1\<rparr>"
  have applications: "keeps st (st\<lparr>au_applications := rows\<rparr>)" for rows
    by (rule keepsI [of _ st]) (auto simp: accounts_wf_def)
  have updated: "keeps st (s1\<lparr>au_users := rows\<rparr>)"
    if "update_user (\<lambda>x. us_id x = user) ?change (au_users s1) = Some (u, rows)" "keeps st s1" for user u rows s1
    by (rule keeps_update_user [OF that])
      (use unique_updated [OF that(1)] in \<open>auto simp: user_ok_def row_fits_def accounts_wf_def\<close>)
  show ?thesis
    using Inr by (auto simp: set_status_def set_application_status_def bind_result_Inr_iff Let_def
      split: option.splits if_splits intro!: keeps_parts
      elim!: keeps_outbox intro: updated applications)
qed (auto simp: set_status_def)

lemma keeps_register_seller: "keeps st (snd (register_seller_request e application user reason st))"
proof -
  have "keeps st (st\<lparr>au_applications := rows\<rparr>)" for rows
    by (rule keepsI [of _ st]) (auto simp: accounts_wf_def)
  then show ?thesis
    by (auto simp: register_seller_request_def)
qed

lemma find_member: "find P xs = Some x \<Longrightarrow> x \<in> set xs \<and> P x"
  by (induction xs) (auto split: if_splits)

lemma unique_profile:
  assumes "update_user (\<lambda>u. us_id u = user) change rows = Some (u, rows')" "unique_rows user_clash rows"
    and "\<And>x. us_id (change x) = us_id x" "\<not> list_ex (\<lambda>x. us_id x \<noteq> user \<and> us_email x = us_email u) rows"
  shows "unique_rows user_clash rows'"
proof -
  obtain v where v: "find (\<lambda>u. us_id u = user) rows = Some v" "u = change v"
      and rows': "rows' = map (\<lambda>x. if us_id x = user then change x else x) rows"
    using assms(1) by (auto simp: update_user_def split: option.splits)
  have v_in: "v \<in> set rows" "us_id v = user"
    using find_member [OF v(1)] by simp_all
  have only: "x = v" if "x \<in> set rows" "us_id x = user" for x
    by (rule users.at_most_one [OF assms(2) that(1) v_in(1)]) (simp add: user_clash_def that(2) v_in(2))
  have kept: "\<not> user_clash (if us_id x = user then change x else x) (if us_id y = user then change y else y)"
    if "x \<in> set rows" "y \<in> set rows" "\<not> user_clash x y" for x y
  proof -
    have free: "us_email z \<noteq> us_email (change v)" if "z \<in> set rows" "us_id z \<noteq> user" for z
      using that assms(4) unfolding list_ex_iff v(2) by blast
    have ids: "us_id x \<noteq> us_id y" "us_email x \<noteq> us_email y"
      using that(3) by (simp_all add: user_clash_def)
    consider "us_id x = user" | "us_id y = user" | "us_id x \<noteq> user" "us_id y \<noteq> user"
      by blast
    then show ?thesis
    proof cases
      case 1
      then show ?thesis
        using ids free [OF that(2)] only [OF that(1) 1] by (simp add: user_clash_def assms(3))
    next
      case 2
      then show ?thesis
        using ids free [OF that(1)] only [OF that(2) 2] by (simp add: user_clash_def assms(3))
    next
      case 3
      then show ?thesis
        using ids by (simp add: user_clash_def)
    qed
  qed
  have "sorted_wrt (\<lambda>x y. \<not> user_clash (if us_id x = user then change x else x) (if us_id y = user then change y else y)) rows"
    by (rule sorted_wrt_mono_rel [OF kept assms(2) [unfolded unique_rows_def]])
  then show ?thesis
    by (simp add: unique_rows_def sorted_wrt_map rows')
qed

lemma profile_kept [simp]:
  "us_id (apply_profile i u) = us_id u" "us_version (apply_profile i u) = us_version u" "us_password (apply_profile i u) = us_password u"
  "same_credentials u (apply_profile i u)"
  by (simp_all add: apply_profile_def same_credentials_def)

lemma keeps_edit_profile: "keeps st (snd (edit_user_profile user i st))"
proof (cases "find (\<lambda>u. us_id u = user) (au_users st)")
  case None
  then show ?thesis
    by (simp add: edit_user_profile_def update_user_def)
next
  case (Some v)
  define rows where "rows = map (\<lambda>x. if us_id x = user then apply_profile i x else x) (au_users st)"
  define u where "u = apply_profile i v"
  have u: "update_user (\<lambda>u. us_id u = user) (apply_profile i) (au_users st) = Some (u, rows)"
    by (simp add: update_user_def Some u_def rows_def)
  have v: "v \<in> set (au_users st)" "us_id v = user"
    using find_member [OF Some] by simp_all
  have "keeps st (st\<lparr>au_users := rows\<rparr>)"
    if fits: "row_fits u" and free: "\<not> list_ex (\<lambda>x. us_id x \<noteq> user \<and> us_email x = us_email u) (au_users st)"
  proof (cases "accounts_wf st")
    case True
    then have unique: "unique_rows user_clash (au_users st)" and ok: "\<forall>x \<in> set (au_users st). user_ok (au_next_user st) x"
      by (auto simp: accounts_wf_def list_all_iff)
    have "x = v" if "x \<in> set (au_users st)" "us_id x = user" for x
      by (rule users.at_most_one [OF unique that(1) v(1)]) (simp add: user_clash_def that(2) v(2))
    then have "list_all (user_ok (au_next_user st)) rows"
      using ok fits by (auto simp: rows_def list_all_iff user_ok_def u_def split: if_splits)
    moreover have "versions_grow st (st\<lparr>au_users := rows\<rparr>)"
      unfolding rows_def by (rule versions_grow_map) simp_all
    ultimately show ?thesis
      using keeps_users [OF keeps_refl, where s = st and rows = rows and n = "au_next_user st"] unique_profile [OF u unique _ free] by simp
  qed (simp add: keeps_def)
  then show ?thesis
    using u by (auto simp: edit_user_profile_def)
qed

lemma serve_keeps: "keeps st (snd (serve e q st))"
  by (cases q) (simp_all add: keeps_dialogue keeps_register_verify keeps_password keeps_session keeps_google keeps_edit_role
    keeps_admin_reset keeps_set_status keeps_register_seller keeps_edit_profile)

lemma serve_all_keeps: "keeps st (serve_all rs st)"
proof (induction rs arbitrary: st)
  case (Cons r rs)
  then show ?case
    using keeps_trans [OF serve_keeps [of st "fst r" "snd r"]] by (simp add: serve_all_def split_beta)
qed (simp add: serve_all_def)

lemma find_by_id_unique:
  assumes "unique_rows user_clash rows" "u \<in> set rows"
  shows "find_by_id (us_id u) rows = Some u"
proof (cases "find_by_id (us_id u) rows")
  case None
  then show ?thesis
    using assms(2) by (auto simp: find_by_id_def find_None_iff)
next
  case (Some x)
  then have "x \<in> set rows" "us_id x = us_id u"
    using find_member [of "\<lambda>y. us_id y = us_id u" rows x] by (simp_all add: find_by_id_def)
  then show ?thesis
    using Some users.at_most_one [OF assms(1) _ assms(2), of x] by (simp add: user_clash_def)
qed

text \<open>C15: A version stands for one role, one status and one password. Take well-formed tables and a user in them. After any
  sequence of requests the user is still there, with a version that has not fallen; and while it is the same, so are role,
  status and password. So whenever a refresh token signed for that version opens a session again, the account has the
  role, the status and the password it had then: every request that changes one of them raises the version.
\<close>

theorem version_stands_for_credentials:
  assumes "accounts_wf st" "find_by_id user (au_users st) = Some u"
  shows "\<exists>u'. find_by_id user (au_users (serve_all rs st)) = Some u' \<and> us_version u \<le> us_version u'
    \<and> (us_version u' = us_version u \<longrightarrow> same_credentials u u')
    \<and> (\<forall>e c account rest. rf_user c = Some user \<and> rf_version c = Some (us_version u)
        \<and> refreshable e c (serve_all rs st) = Some (account, rest) \<longrightarrow> account = u' \<and> same_credentials u account)"
proof -
  have u: "u \<in> set (au_users st)" "us_id u = user"
    using find_member [OF assms(2) [unfolded find_by_id_def]] by simp_all
  have later: "accounts_wf (serve_all rs st)" "versions_grow st (serve_all rs st)"
    using serve_all_keeps [of st rs] assms(1) by (auto simp: keeps_def)
  then obtain u' where u': "u' \<in> set (au_users (serve_all rs st))" "us_id u' = user" "us_version u \<le> us_version u'"
      "us_version u' = us_version u \<longrightarrow> same_credentials u u'"
    using u unfolding versions_grow_def by blast
  have found: "find_by_id user (au_users (serve_all rs st)) = Some u'"
    using find_by_id_unique [OF _ u'(1)] later(1) u'(2) by (simp add: accounts_wf_def)
  then have "account = u' \<and> us_version u' = us_version u"
    if "rf_user c = Some user" "rf_version c = Some (us_version u)" "refreshable e c (serve_all rs st) = Some (account, rest)" for e c account rest
    using that by (auto simp: refreshable_def split: option.splits if_splits)
  with found u'(3,4) show ?thesis by blast
qed

section \<open>Sessions\<close>

fun resets :: "request_env \<Rightarrow> account_request \<Rightarrow> user_row \<Rightarrow> bool" where
  "resets e (ResetPassword _ email _) u = (email = us_email u)"
| "resets e (VerifyChange cookie _) u = (\<exists>c. verify e cookie = Some c \<and> oc_email c = Some (us_email u))"
| "resets e (AdminReset user) u = (user = us_id u)"
| "resets e _ u = False"

lemma updated_member:
  assumes "update_user chosen change rows = Some (u', rows')" "u \<in> set rows" "chosen u"
  shows "change u \<in> set rows'"
  using assms by (force simp: update_user_def split: option.splits)

lemma invalidate_users [simp]: "au_users (invalidate_snapshot cf reachable now p s) = au_users s"
  by (simp add: invalidate_snapshot_def)

lemma refresh_snapshot_users [simp]: "au_users (refresh_snapshot e user s) = au_users s"
  by (simp add: refresh_snapshot_def split: option.split)

lemma users_of_parts [simp]:
  "au_users (delete_otp email s) = au_users s" "au_users (delete_expired_otps now s) = au_users s"
  "au_users (send_mail a t c s) = au_users s"
  by (simp_all add: delete_otp_def delete_expired_otps_def send_mail_def)

lemma update_password_bumps:
  assumes "update_password cf reachable now (Some (us_email u)) password s = Inr s'" "u \<in> set (au_users s)"
  shows "\<exists>u' \<in> set (au_users s'). us_id u' = us_id u \<and> us_version u' = us_version u + 1"
proof -
  obtain v rows where v: "update_user (\<lambda>x. us_email x = us_email u)
        (\<lambda>x. x\<lparr>us_password := Some password, us_version := us_version x + 1\<rparr>) (au_users s) = Some (v, rows)"
      "au_users s' = rows"
    using assms(1) by (auto simp: update_password_def split: option.splits if_splits)
  show ?thesis
    using updated_member [OF v(1) assms(2)] unfolding v(2) by (intro bexI) simp_all
qed

lemma reset_bumps:
  assumes "serve e q st = (r, st')" "succeeded r" "resets e q u" "u \<in> set (au_users st)"
  shows "\<exists>u' \<in> set (au_users st'). us_id u' = us_id u \<and> us_version u' = us_version u + 1"
proof (cases q)
  case (ResetPassword cookie email password)
  then obtain s hashed where "update_password (re_cf e) (re_reachable e) (re_now e) (Some (us_email u)) hashed st = Inr s"
      "st' = delete_otp (Some email) s"
    using assms(1-3) by (auto simp: reset_password_def succeeded_def say_def split: if_splits option.splits sum.splits)
  then show ?thesis
    using update_password_bumps assms(4) by simp
next
  case (VerifyChange cookie otp)
  then obtain s hashed where "update_password (re_cf e) (re_reachable e) (re_now e) (Some (us_email u)) hashed
        (delete_expired_otps (re_now e) st) = Inr s" "st' = delete_otp (Some (us_email u)) s"
    using assms(1-3) by (auto simp: verify_change_password_def Let_def succeeded_def say_def split: if_splits option.splits sum.splits)
  then show ?thesis
    using update_password_bumps [of _ _ _ u _ "delete_expired_otps (re_now e) st"] assms(4) by simp
next
  case (AdminReset user)
  then obtain hashed rows v s1 where v: "update_user (\<lambda>x. us_id x = us_id u)
        (\<lambda>x. x\<lparr>us_password := Some hashed, us_version := us_version x + 1\<rparr>) (au_users st) = Some (v, rows)"
      "au_users st' = rows"
    using assms(1-3) by (auto simp: admin_reset_password_def reset_user_password_def Let_def succeeded_def say_def deny_def
      split: if_splits option.splits sum.splits prod.splits bool.splits)
  show ?thesis
    using updated_member [OF v(1) assms(4)] unfolding v(2) by (intro bexI) simp_all
qed (use assms(3) in simp_all)

text \<open>C14: A password change ends the sessions of the account. Once a recovery, a confirmed change or a reset by an
  administrator has succeeded for a user, a refresh token signed for the version the user had before, or an earlier
  one, never refreshes a session again, whatever requests are served in between.
\<close>

theorem password_change_ends_sessions:
  assumes "accounts_wf st" "u \<in> set (au_users st)"
    and "serve e q st = (r, st')" "succeeded r" "resets e q u"
    and "present cookie" "verify_refresh e' cookie = Some c" "rf_user c = Some (us_id u)" "rf_version c = Some v" "v \<le> us_version u"
  shows "refresh_session e' cookie (serve_all rs st') = (revoked_reply, serve_all rs st')"
proof -
  obtain u' where u': "u' \<in> set (au_users st')" "us_id u' = us_id u" "us_version u' = us_version u + 1"
    using reset_bumps [OF assms(3-5,2)] by blast
  have "accounts_wf st'"
    using serve_keeps [of st e q] assms(1,3) by (simp add: keeps_def)
  then have later: "accounts_wf (serve_all rs st')" "versions_grow st' (serve_all rs st')"
    using serve_all_keeps [of st' rs] by (auto simp: keeps_def)
  obtain u'' where u'': "u'' \<in> set (au_users (serve_all rs st'))" "us_id u'' = us_id u" "us_version u < us_version u''"
    using later(2) u' unfolding versions_grow_def by force
  have "find_by_id (us_id u) (au_users (serve_all rs st')) = Some u''"
    using find_by_id_unique [OF _ u''(1)] later(1) u''(2) by (simp add: accounts_wf_def)
  then have "refreshable e' c (serve_all rs st') = None"
    using u''(3) assms(8-10) by (simp add: refreshable_def split: option.split)
  then show ?thesis
    by (simp add: refresh_session_def assms(6,7))
qed

lemma tokens_of_parts [simp]:
  "au_tokens (delete_otp email s) = au_tokens s" "au_tokens (delete_expired_otps now s) = au_tokens s"
  "au_tokens (send_mail a t c s) = au_tokens s" "au_tokens (write_audit row s) = au_tokens s"
  "au_tokens (invalidate_snapshot cf reachable now p s) = au_tokens s" "au_tokens (refresh_snapshot e user s) = au_tokens s"
  "au_tokens (revoke_family session s) = au_tokens s"
  by (simp_all add: delete_otp_def delete_expired_otps_def send_mail_def write_audit_def invalidate_snapshot_def
    refresh_snapshot_def revoke_family_def split: option.split)

lemma tokens_of_steps:
  "create_otp now email otp s = Inr s' \<Longrightarrow> au_tokens s' = au_tokens s"
  "create_account a s = Inr s' \<Longrightarrow> au_tokens s' = au_tokens s"
  "update_password cf reachable now em password s = Inr s' \<Longrightarrow> au_tokens s' = au_tokens s"
  "outbox_event tp event_id topic event_type aggregate payload s = Inr s' \<Longrightarrow> au_tokens s' = au_tokens s"
  by (auto simp: create_otp_def create_account_def update_password_def outbox_event_def split: option.splits if_splits)

lemma spent_consume:
  "consume_refresh_session now session token s = (x, s') \<Longrightarrow> au_tokens s t = None \<Longrightarrow> au_tokens s' t = None"
  by (auto simp: consume_refresh_session_def split: if_splits option.splits)

lemma spent_revoke: "au_tokens s t = None \<Longrightarrow> au_tokens (revoke_refresh_session now session token s) t = None"
  by (auto simp: revoke_refresh_session_def Let_def)

lemma spent_issue:
  "issue_session e account long session s = (cookies, s') \<Longrightarrow> dw_token (re_draws e) \<noteq> t \<Longrightarrow> au_tokens s t = None \<Longrightarrow>
   au_tokens s' t = None"
  by (auto simp: issue_session_def persist_refresh_session_def create_refresh_session_def Let_def)

lemma spent_dialogue:
  assumes "au_tokens st t = None"
  shows "au_tokens (snd (verify_account e cookie st)) t = None"
    "au_tokens (snd (register_post e email full_name address password st)) t = None"
    "au_tokens (snd (register_verify_post e cookie otp st)) t = None"
    "au_tokens (snd (forgot_password e email st)) t = None"
    "au_tokens (snd (forgot_password_verify e cookie otp st)) t = None"
    "au_tokens (snd (reset_password e cookie email password st)) t = None"
    "au_tokens (snd (change_password e caller old new st)) t = None"
    "au_tokens (snd (verify_change_password e cookie otp st)) t = None"
  using assms unfolding verify_account_def register_post_def register_verify_post_def forgot_password_def
    forgot_password_verify_def reset_password_def change_password_def verify_change_password_def Let_def
  by (auto split: option.split sum.split dest!: tokens_of_steps)

lemma spent_session:
  assumes "au_tokens st t = None" "dw_token (re_draws e) \<noteq> t"
  shows "au_tokens (snd (login_post e captcha email password long st)) t = None"
    "au_tokens (snd (logout_post e cookie st)) t = None"
    "au_tokens (snd (refresh_session e cookie st)) t = None"
    "au_tokens (snd (google_login_post e credential client ticket long st)) t = None"
  using assms unfolding login_post_def logout_post_def refresh_session_def google_login_post_def Let_def
  by (auto split: option.split prod.split sum.split consume_result.split intro: spent_revoke
    dest!: tokens_of_steps dest: spent_consume spent_issue)

lemma spent_admin:
  assumes "au_tokens st t = None"
  shows "au_tokens (snd (edit_role e a user role status st)) t = None"
    "au_tokens (snd (admin_reset_password e user st)) t = None"
    "au_tokens (snd (set_status e a application status st)) t = None"
    "au_tokens (snd (register_seller_request e application user reason st)) t = None"
    "au_tokens (snd (edit_user_profile user i st)) t = None"
proof -
  show "au_tokens (snd (edit_role e a user role status st)) t = None"
    using assms by (auto simp: edit_role_def edit_user_role_and_status_def bind_result_Inr_iff
      split: option.split sum.split if_splits option.splits dest!: tokens_of_steps)
  show "au_tokens (snd (admin_reset_password e user st)) t = None"
    using assms by (auto simp: admin_reset_password_def reset_user_password_def Let_def
      split: option.split sum.split prod.split bool.split if_splits option.splits)
  show "au_tokens (snd (set_status e a application status st)) t = None"
    using assms by (auto simp: set_status_def set_application_status_def bind_result_Inr_iff Let_def
      split: option.split sum.split if_splits option.splits dest!: tokens_of_steps)
  show "au_tokens (snd (register_seller_request e application user reason st)) t = None"
    using assms by (simp add: register_seller_request_def)
  show "au_tokens (snd (edit_user_profile user i st)) t = None"
    using assms by (auto simp: edit_user_profile_def split: option.split)
qed

lemma spent_serve:
  "au_tokens st t = None \<Longrightarrow> dw_token (re_draws e) \<noteq> t \<Longrightarrow> au_tokens (snd (serve e q st)) t = None"
  by (cases q) (simp_all add: spent_dialogue spent_session spent_admin)

lemma spent_serve_all:
  "au_tokens st t = None \<Longrightarrow> \<forall>(e, q) \<in> set rs. dw_token (re_draws e) \<noteq> t \<Longrightarrow> au_tokens (serve_all rs st) t = None"
  by (induction rs arbitrary: st) (auto simp: serve_all_def split_beta spent_serve)

text \<open>A refresh token works once. After it has refreshed a session, no later refresh with a token of the same
  identifier succeeds, whatever is served in between, as long as no other session draws that identifier.
\<close>

theorem refresh_token_used_once:
  assumes "refresh_session e cookie st = (r, st')" "succeeded r" "verify_refresh e cookie = Some c" "rf_jti c = Some t"
    and "dw_token (re_draws e) \<noteq> t" "\<forall>(e, q) \<in> set rs. dw_token (re_draws e) \<noteq> t"
    and "verify_refresh e' cookie' = Some c'" "rf_jti c' = Some t"
  shows "\<not> succeeded (fst (refresh_session e' cookie' (serve_all rs st')))"
proof -
  obtain account session long s cookies where "consume_refresh_session (re_now e) session t st = (Active, s)"
      "issue_session e account long (Some session) s = (cookies, st')"
    using assms(1-4) by (auto simp: refresh_session_def refreshable_def revoked_reply_def deny_def succeeded_def
      split: if_splits option.splits prod.splits consume_result.splits)
  then have "au_tokens st' t = None"
    using spent_issue assms(5) by (auto simp: consume_refresh_session_def split: if_splits option.splits)
  then have "au_tokens (serve_all rs st') t = None"
    using spent_serve_all assms(6) by blast
  then show ?thesis
    using assms(7,8) by (auto simp: refresh_session_def refreshable_def revoked_reply_def deny_def succeeded_def
      consume_refresh_session_def live_value_def split: option.split prod.split)
qed

text \<open>The revocation that a replayed refresh token causes is undone by a refresh under way. When the token is replayed
  after it was consumed and before its successor is stored, the family is revoked, and storing the successor makes
  the family active again: the successor refreshes.
\<close>

theorem replay_revocation_undone:
  assumes "live_value now (au_sessions st session) = Some ''active''" "live_value now (au_tokens st token) \<noteq> None"
    and "dw_token dw \<noteq> token"
    and "consume_refresh_session now session token st = (first, st1)"
    and "consume_refresh_session now session token st1 = (second, st2)"
    and "persist_refresh_session now (create_refresh_session dw user version long (Some session)) st2 = st3"
  shows "first = Active \<and> second = Reused \<and> live_value now (au_sessions st2 session) = Some ''revoked''
    \<and> fst (consume_refresh_session now session (dw_token dw) st3) = Active"
proof -
  obtain expires where s: "au_sessions st session = Some (''active'', expires)" "now < expires"
    using assms(1) by (auto simp: live_value_def split: option.splits if_splits)
  have st1: "first = Active" "st1 = st\<lparr>au_tokens := (au_tokens st)(token := None)\<rparr>"
    using assms(1,2,4) by (auto simp: consume_refresh_session_def)
  have st2: "second = Reused" "st2 = revoke_family session st1"
    using assms(1,5) by (auto simp: consume_refresh_session_def st1(2) live_value_def)
  have "0 < ttl_for long"
    by (simp add: ttl_for_def)
  then show ?thesis
    using s assms(6) by (auto simp: st1 st2 revoke_family_def live_value_def consume_refresh_session_def
      persist_refresh_session_def create_refresh_session_def Let_def)
qed

lemma find_updated:
  "find P xs = Some u \<Longrightarrow> (\<And>x. P (f x) = P x) \<Longrightarrow> find P (map (\<lambda>x. if P x then f x else x) xs) = Some (f u)"
  by (induction xs) (auto split: if_splits)

lemma length_generate_otp: "(\<And>i. digit i < 10) \<Longrightarrow> length (generate_otp len digit) = len"
  by (induction len) (simp_all add: generate_otp_def show_nat_small)

text \<open>C13: The OTP of a password recovery proves nothing: it is part of the signed cookie the request for a recovery
  answers with, and the reset takes it from there. Whoever knows the address of an account without an open OTP gets
  the cookie and sets any password with it, without having read the mail.
\<close>

theorem password_reset_needs_no_otp:
  assumes "accounts_wf st" "find_by_email email (au_users st) = Some u"
    and "find_otp_by_email email (au_otps (delete_expired_otps (re_now e) st)) = None"
    and "\<And>i. dw_digit (re_draws e) i < 10"
    and "otp = generate_otp 6 (dw_digit (re_draws e))"
    and "token = al_sign (re_lib e) (re_now e) (no_claims\<lparr>oc_otp := Some otp, oc_email := Some email\<rparr>)" "token \<noteq> []"
    and "al_verify (re_lib e') (re_now e') token = Some (no_claims\<lparr>oc_otp := Some otp, oc_email := Some email\<rparr>)"
    and "hashed = al_hash (re_lib e') (dw_salt (re_draws e')) password" "length hashed \<le> 100"
  shows "\<exists>asked st1 answered st2. forgot_password e email st = (Replied asked, st1)
    \<and> SetCookie ''verified_otp_token'' token (5 * 60 * 1000) \<in> set (an_cookies asked)
    \<and> reset_password e' (Some token) email password st1 = (answered, st2) \<and> succeeded answered
    \<and> map_option us_password (find_by_email email (au_users st2)) = Some (Some hashed)"
proof -
  let ?row = "\<lparr>ot_email = email, ot_otp = otp, ot_expiry = Some (re_now e + 120000)\<rparr>"
  let ?s = "delete_expired_otps (re_now e) st"
  let ?st1 = "send_mail email ''OTP for password recovery'' (otp_mail otp) (?s\<lparr>au_otps := au_otps ?s @ [?row]\<rparr>)"
  let ?asked = "\<lparr>an_status = 200, an_code = ''success'', an_message = ''Please enter the OTP'',
    an_cookies = [SetCookie ''verified_otp_token'' token (5 * 60 * 1000)]\<rparr>"
  have "fits 255 (Some email)" "fits 10 (Some otp)"
    using find_member [OF assms(2) [unfolded find_by_email_def]] assms(1) length_generate_otp [OF assms(4), of 6]
    by (auto simp: accounts_wf_def list_all_iff user_ok_def row_fits_def fits_def assms(5) numeral_eq_Suc)
  moreover have "insert_row otp_clash ?row (au_otps ?s) = Some (au_otps ?s @ [?row])"
    using assms(3) by (auto simp: otps.insert_row_iff otp_clash_def find_otp_by_email_def find_None_iff)
  ultimately have asked: "forgot_password e email st = (Replied ?asked, ?st1)"
    using assms(2,3,5,6) by (simp add: forgot_password_def create_otp_def say_def sign_def Let_def)
  have "find_email_and_otp (Some email) (Some otp) (au_otps ?st1) \<noteq> None"
    by (auto simp: find_email_and_otp_def send_mail_def find_None_iff intro!: exI [of _ ?row])
  then obtain row where found: "find_email_and_otp (Some email) (Some otp) (au_otps ?st1) = Some row"
    by blast
  obtain st2 where st2: "update_password (re_cf e') (re_reachable e') (re_now e') (Some email) hashed ?st1 = Inr st2"
      "find_by_email email (au_users st2) = Some (u\<lparr>us_password := Some hashed, us_version := us_version u + 1\<rparr>)"
    using assms(2,10) by (simp add: update_password_def update_user_def fits_def find_by_email_def find_updated)
  have "reset_password e' (Some token) email password ?st1
      = (say ''success'' ''Password reset successfully'' [ClearCookie ''verified_otp_token''], delete_otp (Some email) st2)"
    using assms(7,8) found st2(1)
    by (simp add: reset_password_def present_def verify_def text_of_def hash_password_def assms(9))
  then show ?thesis
    using asked st2(2) by (simp add: succeeded_def say_def)
qed

section \<open>Witnesses\<close>

definition example_lib :: auth_lib where
  "example_lib = \<lparr>al_sign = (\<lambda>_ c. text_of (oc_email c) @ '' '' @ text_of (oc_otp c)),
     al_verify = (\<lambda>_ t. Some (no_claims\<lparr>oc_otp := Some (tl (dropWhile (\<lambda>c. c \<noteq> CHR '' '') t)),
       oc_email := Some (takeWhile (\<lambda>c. c \<noteq> CHR '' '') t)\<rparr>)),
     al_sign_access = (\<lambda>_ _. ''access''), al_sign_refresh = (\<lambda>_ _ c. text_of (rf_jti c)),
     al_verify_refresh = (\<lambda>_ t. Some \<lparr>rf_user = Some 1, rf_version = Some 0, rf_sid = Some ''s1'', rf_jti = Some t,
       rf_section = Some ''long''\<rparr>),
     al_hash = (\<lambda>salt p. salt @ p), al_compare = (\<lambda>p h. h = ''salt'' @ p)\<rparr>"

definition example_env :: "int \<Rightarrow> string \<Rightarrow> request_env" where
  "example_env now token = \<lparr>re_lib = example_lib, re_cf = \<lparr>sn_ttl = 30, sn_local_ttl = 2000\<rparr>, re_reachable = True, re_now = now,
     re_draws = \<lparr>dw_digit = (\<lambda>i. i mod 10), dw_salt = ''salt'', dw_session = ''s9'', dw_token = token\<rparr>\<rparr>"

definition example_user :: user_row where
  "example_user = \<lparr>us_id = 1, us_email = ''ann@shop'', us_full_name = ''Ann'', us_username = ''Ann'',
     us_password = Some ''saltold'', us_address = None, us_role = Some ''user'', us_status = ''active'', us_version = 0\<rparr>"

definition example_tables :: auth_state where
  "example_tables = \<lparr>au_users = [example_user], au_next_user = 2, au_otps = [], au_applications = [], au_outbox = [], au_audit = [],
     au_sessions = [''s1'' \<mapsto> (''active'', 9000)],
     au_tokens = [''t1'' \<mapsto> (\<lparr>rs_user = 1, rs_id = ''s1'', rs_token = ''t1'', rs_version = 0, rs_remember = True\<rparr>, 9000)],
     au_snapshots = Map.empty, au_local = Map.empty, au_mails = []\<rparr>"

lemma example_tables_wf: "accounts_wf example_tables"
  by (simp add: accounts_wf_def example_tables_def example_user_def unique_rows_def user_ok_def row_fits_def fits_def)

theorem version_stands_for_credentials_witness:
  "\<exists>u'. find_by_id 1 (au_users (serve_all [(example_env 5 ''t2'', ForgotPassword ''ann@shop''), (example_env 6 ''t2'', RefreshSession (Some ''t1'')),
      (example_env 7 ''t2'', AdminReset 1)] example_tables)) = Some u' \<and> us_password u' = Some ''saltOnlineAuction123@'' \<and> 0 < us_version u'"
proof -
  let ?rs = "[(example_env 5 ''t2'', ForgotPassword ''ann@shop''), (example_env 6 ''t2'', RefreshSession (Some ''t1'')),
      (example_env 7 ''t2'', AdminReset 1)]"
  have "map_option us_password (find_by_id 1 (au_users (serve_all ?rs example_tables))) = Some (Some ''saltOnlineAuction123@'')"
    by code_simp
  moreover have "find_by_id 1 (au_users example_tables) = Some example_user"
    by (simp add: example_tables_def example_user_def find_by_id_def)
  from version_stands_for_credentials [OF example_tables_wf this, of ?rs]
  obtain u' where "find_by_id 1 (au_users (serve_all ?rs example_tables)) = Some u'" "us_version example_user \<le> us_version u'"
    "us_version u' = us_version example_user \<longrightarrow> same_credentials example_user u'" by blast
  ultimately show ?thesis
    by (auto simp: same_credentials_def example_user_def order_le_less)
qed

theorem password_reset_needs_no_otp_witness:
  "\<exists>st1. succeeded (fst (reset_password (example_env 7 ''t2'') (Some ''ann@shop 012345'') ''ann@shop'' ''new'' st1))"
proof -
  have "\<exists>asked st1 answered st2. forgot_password (example_env 5 ''t2'') ''ann@shop'' example_tables = (Replied asked, st1)
    \<and> SetCookie ''verified_otp_token'' ''ann@shop 012345'' (5 * 60 * 1000) \<in> set (an_cookies asked)
    \<and> reset_password (example_env 7 ''t2'') (Some ''ann@shop 012345'') ''ann@shop'' ''new'' st1 = (answered, st2) \<and> succeeded answered
    \<and> map_option us_password (find_by_email ''ann@shop'' (au_users st2)) = Some (Some ''saltnew'')"
  proof (rule password_reset_needs_no_otp [OF example_tables_wf, where u = example_user and otp = "''012345''"])
    show "dw_digit (re_draws (example_env 5 ''t2'')) i < 10" for i
      by (simp add: example_env_def)
  qed (code_simp+)
  then show ?thesis
    by (metis fst_conv)
qed

definition example_claims :: refresh_claims where
  "example_claims = \<lparr>rf_user = Some 1, rf_version = Some 0, rf_sid = Some ''s1'', rf_jti = Some ''t1'', rf_section = Some ''long''\<rparr>"

lemma example_verify: "verify_refresh (example_env now token) (Some ''t1'') = Some example_claims"
  by (simp add: verify_refresh_def example_env_def example_lib_def text_of_def example_claims_def)

text \<open>The password of Ann was reset by an administrator; then she asked for a recovery.\<close>

theorem password_change_ends_sessions_witness:
  "\<exists>st. refresh_session (example_env 9 ''t2'') (Some ''t1'') st = (revoked_reply, st)"
proof -
  have "succeeded (fst (serve (example_env 7 ''t2'') (AdminReset 1) example_tables))"
    by code_simp
  from password_change_ends_sessions [OF example_tables_wf _ surjective_pairing this _ _ example_verify,
      where u = example_user and rs = "[(example_env 8 ''t2'', ForgotPassword ''ann@shop'')]"]
  show ?thesis
    by (auto simp: example_tables_def example_user_def present_def example_claims_def)
qed

theorem refresh_token_used_once_witness:
  "\<exists>st. \<not> succeeded (fst (refresh_session (example_env 9 ''t4'') (Some ''t1'') st))"
proof -
  have "succeeded (fst (refresh_session (example_env 7 ''t2'') (Some ''t1'') example_tables))"
    by code_simp
  from refresh_token_used_once [OF surjective_pairing this example_verify _ _ _ example_verify,
      where t = "''t1''" and rs = "[(example_env 8 ''t3'', LoginPost True ''ann@shop'' ''old'' False)]"]
  show ?thesis
    by (auto simp: example_claims_def example_env_def)
qed

theorem replay_revocation_undone_witness:
  "\<exists>st. fst (consume_refresh_session 5 ''s1'' ''t2'' st) = Active"
proof -
  have "live_value 5 (au_sessions example_tables ''s1'') = Some ''active''"
    "live_value 5 (au_tokens example_tables ''t1'') \<noteq> None" "dw_token (re_draws (example_env 5 ''t2'')) \<noteq> ''t1''"
    by (simp_all add: example_tables_def live_value_def example_env_def)
  from replay_revocation_undone [OF this surjective_pairing surjective_pairing refl]
  show ?thesis
    by (auto simp: example_env_def)
qed

end
