(* ===== verification/Orders.thy ===== *)
theory Orders
  imports Account_Handlers
begin

text \<open>
  Orders after an auction: order.use-case.ts, order.repository.ts, order.errors.ts and orders.controller.ts. The
  projector creates one pending order of the winner for a product; the winner completes it, and the seller rejects it
  or verifies its payment. A decision reads the order and then updates it under the condition that it is still
  pending; another request may commit in between, so the operation takes the state it has \<open>seen\<close> and the state it
  writes. Uploads are arguments: the link of the stored file, or an error.
\<close>

section \<open>Orders\<close>

text \<open>The columns of an order the projector leaves empty, and its identifier.\<close>

record shop_order = order_row +
  so_id :: int
  so_status :: string
  so_reason :: "string option"
  so_address :: "string option"
  so_phone :: "string option"
  so_proof :: "string option"
  so_label :: "string option"
  so_amount :: "int option"
  so_completed :: "int option"

record order_db =
  sd_orders :: "shop_order list"
  sd_products :: "int \<rightharpoonup> product_row"
  sd_outbox :: "outbox_row list"

record order_error =
  oe_message :: string
  oe_status :: int
  oe_code :: string

datatype order_failure = OrderDomainError order_error | OtherFailure string

definition order_error :: "string \<Rightarrow> int \<Rightarrow> string \<Rightarrow> order_failure" where
  "order_error message status code = OrderDomainError \<lparr>oe_message = message, oe_status = status, oe_code = code\<rparr>"

definition same_order :: "shop_order \<Rightarrow> shop_order \<Rightarrow> bool" where
  "same_order a b = (so_id a = so_id b \<or> od_public_id a = od_public_id b \<or> od_product a = od_product b)"

interpretation shop_orders: unique_table same_order
  by unfold_locales (auto simp: same_order_def)

text \<open>What the projector inserts: the other columns take their defaults.\<close>

definition pending_order :: "int \<Rightarrow> order_row \<Rightarrow> shop_order" where
  "pending_order order_id ord =
     \<lparr>od_public_id = od_public_id ord, od_product = od_product ord, od_user = od_user ord, od_sequence = od_sequence ord,
      so_id = order_id, so_status = ''pending'', so_reason = None, so_address = None, so_phone = None, so_proof = None,
      so_label = None, so_amount = None, so_completed = None\<rparr>"

section \<open>The winner\<close>

record checkout =
  ck_user :: int
  ck_public_id :: string
  ck_address :: "string option"
  ck_phone :: "string option"
  ck_proof :: "string option"

definition winner_pending :: "checkout \<Rightarrow> shop_order \<Rightarrow> bool" where
  "winner_pending d ord = (od_public_id ord = ck_public_id d \<and> od_user ord = ck_user d \<and> so_status ord = ''pending'')"

definition get_pending_winner_order :: "checkout \<Rightarrow> order_db \<Rightarrow> shop_order option" where
  "get_pending_winner_order d db = find (winner_pending d) (sd_orders db)"

text \<open>A field that is \<open>undefined\<close> leaves its column.\<close>

definition given :: "'a option \<Rightarrow> 'a option \<Rightarrow> 'a option" where
  "given x old = (case x of None \<Rightarrow> old | Some v \<Rightarrow> Some v)"

definition complete_checkout :: "checkout \<Rightarrow> shop_order \<Rightarrow> shop_order" where
  "complete_checkout d ord =
     ord\<lparr>so_address := given (ck_address d) (so_address ord), so_phone := given (ck_phone d) (so_phone ord),
       so_proof := given (ck_proof d) (so_proof ord)\<rparr>"

definition update_winner_order :: "checkout \<Rightarrow> order_db \<Rightarrow> (order_failure, order_db) result" where
  "update_winner_order d db =
     (if length (filter (winner_pending d) (sd_orders db)) \<noteq> 1
      then throws (OtherFailure ''Winner order was not found or is not pending'')
      else returns (db\<lparr>sd_orders := map (\<lambda>ord. if winner_pending d ord then complete_checkout d ord else ord) (sd_orders db)\<rparr>))"

definition create_order :: "checkout \<Rightarrow> (string, string) result option \<Rightarrow> order_db \<Rightarrow> order_db \<Rightarrow> (order_failure, order_db) result" where
  "create_order d file seen db =
     (if get_pending_winner_order d seen = None
      then throws (order_error ''Winner order was not found or is not pending'' 404 ''WINNER_ORDER_NOT_FOUND'')
      else case file of
             None \<Rightarrow> update_winner_order d db
           | Some (Inl err) \<Rightarrow> throws (OtherFailure err)
           | Some (Inr url) \<Rightarrow> update_winner_order (d\<lparr>ck_proof := Some url\<rparr>) db)"

section \<open>The seller\<close>

datatype decision = Rejected | PaymentVerified

definition status_of :: "decision \<Rightarrow> string" where
  "status_of d = (case d of Rejected \<Rightarrow> ''rejected'' | PaymentVerified \<Rightarrow> ''payment_verified'')"

definition order_event_type :: "decision \<Rightarrow> string" where
  "order_event_type d = (case d of Rejected \<Rightarrow> ''order.rejected.v1'' | PaymentVerified \<Rightarrow> ''order.payment_verified.v1'')"

definition decide_order :: "int \<Rightarrow> decision \<Rightarrow> int option \<Rightarrow> string option \<Rightarrow> string option \<Rightarrow> shop_order \<Rightarrow> shop_order" where
  "decide_order now d price label reason ord =
     ord\<lparr>so_status := status_of d,
       so_completed := (if d = PaymentVerified then Some now else so_completed ord),
       so_amount := (if d = PaymentVerified then price else so_amount ord),
       so_label := (if present label then label else so_label ord),
       so_reason := (if present reason then reason else so_reason ord)\<rparr>"

definition order_event :: "topics \<Rightarrow> string \<Rightarrow> decision \<Rightarrow> shop_order \<Rightarrow> outbox_row" where
  "order_event tp event_id d ord =
     \<lparr>ob_event_id = event_id, ob_event_type = order_event_type d, ob_event_version = 1, ob_aggregate_id = show_int (so_id ord),
      ob_payload = JsonPayload (JObject [(''orderId'', JString (show_int (so_id ord))), (''productId'', JString (show_int (od_product ord)))]),
      ob_topic = tp_domain tp\<rparr>"

definition transition_seller_order :: "topics \<Rightarrow> string \<Rightarrow> int \<Rightarrow> int \<Rightarrow> int \<Rightarrow> decision \<Rightarrow> string option \<Rightarrow> string option
    \<Rightarrow> order_db \<Rightarrow> order_db \<Rightarrow> (order_failure, order_db) result" where
  "transition_seller_order tp event_id now order_id seller d label reason seen db =
     (case find (\<lambda>ord. so_id ord = order_id) (sd_orders seen) of
        None \<Rightarrow> throws (order_error ''Order was not found for this seller'' 404 ''SELLER_ORDER_NOT_FOUND'')
      | Some ord \<Rightarrow>
        (case sd_products seen (od_product ord) of
           None \<Rightarrow> throws (order_error ''Order was not found for this seller'' 404 ''SELLER_ORDER_NOT_FOUND'')
         | Some p \<Rightarrow>
           if product_row.pr_seller p \<noteq> seller
           then throws (order_error ''Order was not found for this seller'' 404 ''SELLER_ORDER_NOT_FOUND'')
           else if so_status ord \<noteq> ''pending''
           then throws (order_error ''Only pending orders can change state'' 409 ''ORDER_TRANSITION_INVALID'')
           else if length (filter (\<lambda>x. so_id x = order_id \<and> so_status x = ''pending'') (sd_orders db)) \<noteq> 1
           then throws (order_error ''Order state changed concurrently'' 409 ''ORDER_TRANSITION_CONFLICT'')
           else case insert_row outbox_clash (order_event tp event_id d ord) (sd_outbox db) of
                  None \<Rightarrow> throws (OtherFailure ''P2002'')
                | Some outbox \<Rightarrow>
                    returns (db\<lparr>sd_orders := map (\<lambda>x. if so_id x = order_id \<and> so_status x = ''pending''
                          then decide_order now d (product_row.pr_current_price p) label reason x else x) (sd_orders db),
                        sd_outbox := outbox\<rparr>)))"

definition reject_order :: "topics \<Rightarrow> string \<Rightarrow> int \<Rightarrow> int \<Rightarrow> int \<Rightarrow> string \<Rightarrow> order_db \<Rightarrow> order_db \<Rightarrow> (order_failure, order_db) result" where
  "reject_order tp event_id now order_id seller reason seen db =
     transition_seller_order tp event_id now order_id seller Rejected None (Some reason) seen db"

definition approve_order :: "topics \<Rightarrow> string \<Rightarrow> int \<Rightarrow> int \<Rightarrow> int \<Rightarrow> (string, string) result option \<Rightarrow> order_db \<Rightarrow> order_db \<Rightarrow> (order_failure, order_db) result" where
  "approve_order tp event_id now order_id seller file seen db =
     (case file of
        Some (Inl err) \<Rightarrow> throws (OtherFailure err)
      | _ \<Rightarrow>
        (let label = (case file of Some (Inr url) \<Rightarrow> url | _ \<Rightarrow> '''')
         in if label = '''' then throws (order_error ''A shipping label is required to verify payment'' 400 ''SHIPPING_LABEL_REQUIRED'')
            else transition_seller_order tp event_id now order_id seller PaymentVerified (Some label) None seen db))"

section \<open>Handlers\<close>

definition order_answer :: "string \<Rightarrow> string \<Rightarrow> (order_failure, order_db) result \<Rightarrow> order_db \<Rightarrow> http_result \<times> order_db" where
  "order_answer done failed r db =
     (case r of
        Inr db' \<Rightarrow> (Replied \<lparr>an_status = 200, an_code = '''', an_message = done, an_cookies = []\<rparr>, db')
      | Inl (OrderDomainError x) \<Rightarrow>
          (Replied \<lparr>an_status = oe_status x, an_code = oe_code x, an_message = oe_message x, an_cookies = []\<rparr>, db)
      | Inl (OtherFailure _) \<Rightarrow> (Replied \<lparr>an_status = 500, an_code = ''INTERNAL_ERROR'', an_message = failed, an_cookies = []\<rparr>, db))"

definition seller_only :: "principal \<Rightarrow> (order_failure, order_db) result \<Rightarrow> (order_failure, order_db) result" where
  "seller_only actor r =
     (if pp_role actor \<noteq> ''seller'' then throws (order_error ''Seller access is required'' 403 ''SELLER_ACCESS_REQUIRED'') else r)"

datatype order_request =
    Checkout checkout "(string, string) result option"
  | Reject principal int string
  | Approve principal int "(string, string) result option"

text \<open>\<open>event_id\<close> and \<open>now\<close> are what the request draws and reads.\<close>

fun serve_order :: "topics \<Rightarrow> string \<Rightarrow> int \<Rightarrow> order_request \<Rightarrow> order_db \<Rightarrow> order_db \<Rightarrow> http_result \<times> order_db" where
  "serve_order tp event_id now (Checkout d file) seen db =
     order_answer ''Invoice created successfully'' ''Error updating winner order'' (create_order d file seen db) db"
| "serve_order tp event_id now (Reject actor order_id reason) seen db =
     order_answer ''Order rejected successfully'' ''Error rejecting order''
       (seller_only actor (reject_order tp event_id now order_id (pp_user actor) reason seen db)) db"
| "serve_order tp event_id now (Approve actor order_id file) seen db =
     order_answer ''Order approved successfully'' ''Error approving order''
       (seller_only actor (approve_order tp event_id now order_id (pp_user actor) file seen db)) db"

end
