(* ===== verification/Order_Properties.thy ===== *)
theory Order_Properties
  imports Orders
begin

text \<open>
  Histories of the orders: requests whose reads may be older than the state they write, new orders of the projector
  and changing products. The properties: the shape of an order in each status, and that a decision is made once.
\<close>

section \<open>Histories\<close>

text \<open>The states of a history, the current one first.\<close>

inductive order_history :: "topics \<Rightarrow> order_db list \<Rightarrow> bool" for tp where
  empty: "order_history tp [\<lparr>sd_orders = [], sd_products = products, sd_outbox = []\<rparr>]"
| request: "order_history tp (db # dbs) \<Longrightarrow> seen \<in> set (db # dbs) \<Longrightarrow>
    order_history tp (snd (serve_order tp event_id now q seen db) # db # dbs)"
| won: "order_history tp (db # dbs) \<Longrightarrow> insert_row same_order (pending_order order_id r) (sd_orders db) = Some rows \<Longrightarrow>
    order_history tp (db\<lparr>sd_orders := rows\<rparr> # db # dbs)"
| product: "order_history tp (db # dbs) \<Longrightarrow> order_history tp (db\<lparr>sd_products := products\<rparr> # db # dbs)"

text \<open>The columns of an order by its status.\<close>

definition order_ok :: "shop_order \<Rightarrow> bool" where
  "order_ok ord =
     (so_status ord \<in> {''pending'', ''rejected'', ''payment_verified''}
      \<and> (so_completed ord \<noteq> None \<longleftrightarrow> so_status ord = ''payment_verified'')
      \<and> (so_amount ord \<noteq> None \<longrightarrow> so_status ord = ''payment_verified'')
      \<and> (present (so_label ord) \<longleftrightarrow> so_status ord = ''payment_verified'')
      \<and> (so_reason ord \<noteq> None \<longrightarrow> so_status ord = ''rejected''))"

definition event_of_order :: "shop_order \<Rightarrow> outbox_row \<Rightarrow> bool" where
  "event_of_order ord e = (ob_aggregate_id e = show_int (so_id ord))"

definition announced :: "shop_order \<Rightarrow> outbox_row \<Rightarrow> bool" where
  "announced ord e = (event_of_order ord e \<and> (\<exists>d. so_status ord = status_of d \<and> ob_event_type e = order_event_type d))"

definition orders_ok :: "order_db \<Rightarrow> bool" where
  "orders_ok db =
     (unique_rows same_order (sd_orders db) \<and> (\<forall>ord \<in> set (sd_orders db). order_ok ord)
      \<and> distinct (map ob_aggregate_id (sd_outbox db))
      \<and> (\<forall>e \<in> set (sd_outbox db). \<exists>ord \<in> set (sd_orders db). announced ord e)
      \<and> (\<forall>ord \<in> set (sd_orders db). so_status ord \<noteq> ''pending'' \<longrightarrow> (\<exists>e \<in> set (sd_outbox db). announced ord e)))"

text \<open>What a request does to the orders: nothing, a completed checkout, or one decision.\<close>

definition checkout_step :: "checkout \<Rightarrow> order_db \<Rightarrow> order_db" where
  "checkout_step d db = db\<lparr>sd_orders := map (\<lambda>ord. if winner_pending d ord then complete_checkout d ord else ord) (sd_orders db)\<rparr>"

definition decision_step :: "int \<Rightarrow> (shop_order \<Rightarrow> shop_order) \<Rightarrow> outbox_row \<Rightarrow> order_db \<Rightarrow> order_db" where
  "decision_step order_id change e db =
     db\<lparr>sd_orders := map (\<lambda>x. if so_id x = order_id \<and> so_status x = ''pending'' then change x else x) (sd_orders db),
        sd_outbox := sd_outbox db @ [e]\<rparr>"

definition decides :: "int \<Rightarrow> (shop_order \<Rightarrow> shop_order) \<Rightarrow> outbox_row \<Rightarrow> order_db \<Rightarrow> bool" where
  "decides order_id change e db =
     (\<exists>d now price label reason. change = decide_order now d price label reason \<and> ob_event_type e = order_event_type d
        \<and> (d = Rejected \<longrightarrow> label = None) \<and> (d = PaymentVerified \<longrightarrow> present label \<and> reason = None)
        \<and> ob_aggregate_id e = show_int order_id
        \<and> (\<exists>x \<in> set (sd_orders db). so_id x = order_id \<and> so_status x = ''pending''))"

lemma answered_state: "snd (order_answer done failed r db) = (case r of Inr db' \<Rightarrow> db' | Inl _ \<Rightarrow> db)"
  by (simp add: order_answer_def split: sum.split order_failure.split)

lemma update_winner_order_step: "update_winner_order d db = Inr db' \<Longrightarrow> db' = checkout_step d db"
  by (auto simp: update_winner_order_def checkout_step_def split: if_splits)

lemma transition_step:
  assumes "transition_seller_order tp event_id now order_id seller d label reason seen db = Inr db'"
    and "d = Rejected \<longrightarrow> label = None" "d = PaymentVerified \<longrightarrow> present label \<and> reason = None"
  shows "\<exists>change e. decides order_id change e db \<and> db' = decision_step order_id change e db"
proof -
  obtain r where r: "find (\<lambda>x. so_id x = order_id) (sd_orders seen) = Some r"
    using assms(1) by (cases "find (\<lambda>x. so_id x = order_id) (sd_orders seen)") (auto simp: transition_seller_order_def)
  obtain p where p: "sd_products seen (od_product r) = Some p"
    using assms(1) r by (cases "sd_products seen (od_product r)") (auto simp: transition_seller_order_def)
  let ?change = "decide_order now d (product_row.pr_current_price p) label reason"
  have "length (filter (\<lambda>x. so_id x = order_id \<and> so_status x = ''pending'') (sd_orders db)) = 1
      \<and> db' = decision_step order_id ?change (order_event tp event_id d r) db"
    using assms(1) r p by (auto simp: transition_seller_order_def decision_step_def outbox.insert_row_iff split: option.splits if_splits)
  then have n: "length (filter (\<lambda>x. so_id x = order_id \<and> so_status x = ''pending'') (sd_orders db)) = 1"
      and e: "db' = decision_step order_id ?change (order_event tp event_id d r) db"
    by blast+
  have "so_id r = order_id"
    using r by (auto simp: find_Some_iff)
  moreover have "\<exists>x \<in> set (sd_orders db). so_id x = order_id \<and> so_status x = ''pending''"
  proof -
    have "filter (\<lambda>x. so_id x = order_id \<and> so_status x = ''pending'') (sd_orders db) \<noteq> []"
      using n by auto
    then show ?thesis
      by (auto simp: filter_empty_conv)
  qed
  ultimately have "decides order_id ?change (order_event tp event_id d r) db"
    unfolding decides_def using assms(2,3)
    by (intro exI [of _ d] exI [of _ now] exI [of _ "product_row.pr_current_price p"] exI [of _ label] exI [of _ reason])
      (simp add: order_event_def)
  then show ?thesis
    using e by blast
qed

lemma approved_upload:
  "approve_order tp event_id now order_id seller upload seen db = Inr db' \<Longrightarrow>
   \<exists>url. url \<noteq> [] \<and> transition_seller_order tp event_id now order_id seller PaymentVerified (Some url) None seen db = Inr db'"
  by (auto simp: approve_order_def Let_def split: option.splits sum.splits if_splits)

lemma serve_order_step:
  "snd (serve_order tp event_id now q seen db) = db
   \<or> (\<exists>d. snd (serve_order tp event_id now q seen db) = checkout_step d db)
   \<or> (\<exists>order_id change e. decides order_id change e db \<and> snd (serve_order tp event_id now q seen db) = decision_step order_id change e db)"
proof (cases q)
  case (Checkout d upload)
  then show ?thesis
    by (auto simp: answered_state create_order_def split: sum.splits option.splits if_splits dest: update_winner_order_step)
next
  case (Reject actor order_id reason)
  then show ?thesis
    using transition_step [of tp event_id now order_id "pp_user actor" Rejected None "Some reason" seen db]
    by (auto simp: answered_state seller_only_def reject_order_def split: sum.splits if_splits)
next
  case (Approve actor order_id upload)
  have step: "\<exists>change e. decides order_id change e db \<and> db' = decision_step order_id change e db"
    if approved: "approve_order tp event_id now order_id (pp_user actor) upload seen db = Inr db'" for db'
  proof -
    obtain url where "transition_seller_order tp event_id now order_id (pp_user actor) PaymentVerified (Some url) None seen db = Inr db'"
        "url \<noteq> []"
      using approved_upload [OF approved] by blast
    then show ?thesis
      using transition_step [of tp event_id now order_id "pp_user actor" PaymentVerified "Some url" None seen db db']
      by (simp add: present_def)
  qed
  show ?thesis
    using step by (auto simp: Approve answered_state seller_only_def split: sum.splits if_splits)
qed

section \<open>What a history keeps\<close>

lemma show_int_inj [simp]: "show_int a = show_int b \<longleftrightarrow> a = b"
  by (metis big_int_show_int option.inject)

lemma complete_checkout_kept [simp]:
  "so_id (complete_checkout d ord) = so_id ord" "od_public_id (complete_checkout d ord) = od_public_id ord"
  "od_product (complete_checkout d ord) = od_product ord" "so_status (complete_checkout d ord) = so_status ord"
  "so_completed (complete_checkout d ord) = so_completed ord" "so_amount (complete_checkout d ord) = so_amount ord"
  "so_label (complete_checkout d ord) = so_label ord" "so_reason (complete_checkout d ord) = so_reason ord"
  by (simp_all add: complete_checkout_def)

lemma decide_order_kept [simp]:
  "so_id (decide_order now d price label reason ord) = so_id ord"
  "od_public_id (decide_order now d price label reason ord) = od_public_id ord"
  "od_product (decide_order now d price label reason ord) = od_product ord"
  "so_status (decide_order now d price label reason ord) = status_of d"
  by (simp_all add: decide_order_def)

lemma unique_changed:
  assumes "unique_rows same_order rows" "\<And>x. so_id (f x) = so_id x" "\<And>x. od_public_id (f x) = od_public_id x"
    "\<And>x. od_product (f x) = od_product x"
  shows "unique_rows same_order (map f rows)"
  using assms(1) by (simp add: unique_rows_def sorted_wrt_map same_order_def assms(2-4))

lemma status_of_simps [simp]: "status_of d \<noteq> ''pending''" "''pending'' \<noteq> status_of d"
  by (cases d; simp add: status_of_def)+

lemma mapped_orders_ok:
  assumes "unique_rows same_order (map f rows)" "\<forall>ord \<in> set rows. order_ok (f ord)" "distinct (map ob_aggregate_id outbox)"
    and "\<forall>e \<in> set outbox. \<exists>ord \<in> set rows. announced (f ord) e"
    and "\<forall>ord \<in> set rows. so_status (f ord) \<noteq> ''pending'' \<longrightarrow> (\<exists>e \<in> set outbox. announced (f ord) e)"
  shows "orders_ok (db\<lparr>sd_orders := map f rows, sd_outbox := outbox\<rparr>)"
  using assms by (simp add: orders_ok_def)

lemma checkout_ok:
  assumes "orders_ok db"
  shows "orders_ok (checkout_step d db)"
proof -
  let ?f = "\<lambda>ord. if winner_pending d ord then complete_checkout d ord else ord"
  have "unique_rows same_order (map ?f (sd_orders db))"
    using assms by (intro unique_changed) (auto simp: orders_ok_def)
  moreover have "announced (?f ord) e = announced ord e" "order_ok (?f ord) = order_ok ord" "so_status (?f ord) = so_status ord" for ord e
    by (auto simp: announced_def event_of_order_def order_ok_def)
  ultimately have "orders_ok (db\<lparr>sd_orders := map ?f (sd_orders db), sd_outbox := sd_outbox db\<rparr>)"
    using assms by (intro mapped_orders_ok, simp_all only: orders_ok_def) blast+
  then show ?thesis
    by (simp add: checkout_step_def)
qed

lemma decision_ok:
  assumes "orders_ok db" "decides order_id change e db"
  shows "orders_ok (decision_step order_id change e db)"
proof -
  let ?hit = "\<lambda>x. so_id x = order_id \<and> so_status x = ''pending''"
  let ?f = "\<lambda>x. if ?hit x then change x else x"
  obtain d now price label reason x where c: "change = decide_order now d price label reason" "ob_event_type e = order_event_type d"
      "d = Rejected \<longrightarrow> label = None" "d = PaymentVerified \<longrightarrow> present label \<and> reason = None" "ob_aggregate_id e = show_int order_id"
      and x: "x \<in> set (sd_orders db)" "?hit x"
    using assms(2) unfolding decides_def by blast
  have unique: "unique_rows same_order (sd_orders db)" and ok: "\<forall>ord \<in> set (sd_orders db). order_ok ord"
    and old: "\<forall>e \<in> set (sd_outbox db). \<exists>ord \<in> set (sd_orders db). announced ord e"
    and told: "\<forall>ord \<in> set (sd_orders db). so_status ord \<noteq> ''pending'' \<longrightarrow> (\<exists>e \<in> set (sd_outbox db). announced ord e)"
    and dist: "distinct (map ob_aggregate_id (sd_outbox db))"
    using assms(1) unfolding orders_ok_def by blast+
  have only: "y = x" if "y \<in> set (sd_orders db)" "so_id y = order_id" for y
    by (rule shop_orders.at_most_one [OF unique that(1) x(1)]) (simp add: same_order_def that(2) x(2))
  have pending: "\<not> announced ord e'" if "?hit ord" for ord e'
    using that by (auto simp: announced_def)
  have new: "ob_aggregate_id e' \<noteq> show_int order_id" if "e' \<in> set (sd_outbox db)" for e'
    using that old only x(2) pending by (metis announced_def event_of_order_def show_int_inj)
  have rows: "unique_rows same_order (map ?f (sd_orders db))"
    by (rule unique_changed [OF unique]) (simp_all add: c(1))
  have shape: "order_ok (?f ord)" if "ord \<in> set (sd_orders db)" for ord
    using ok that c(3,4) by (cases d) (auto simp: order_ok_def c(1) decide_order_def status_of_def present_def)
  have fresh: "announced (change x) e"
    using x(2) c(2,5) by (auto simp: announced_def event_of_order_def c(1))
  have kept: "announced (?f ord) e' = announced ord e'" if "ord \<in> set (sd_orders db)" "e' \<in> set (sd_outbox db)" for ord e'
    using new [OF that(2)] pending by (auto simp: announced_def event_of_order_def c(1))
  show ?thesis
    unfolding decision_step_def
  proof (rule mapped_orders_ok [OF rows], goal_cases)
    case 1
    then show ?case
      using shape by blast
  next
    case 2
    have "show_int order_id \<notin> ob_aggregate_id ` set (sd_outbox db)"
    proof
      assume "show_int order_id \<in> ob_aggregate_id ` set (sd_outbox db)"
      then obtain e' where "show_int order_id = ob_aggregate_id e'" "e' \<in> set (sd_outbox db)"
        by (rule imageE)
      then show False
        using new [of e'] by simp
    qed
    then show ?case
      using dist c(5) by simp
  next
    case 3
    have "\<exists>ord \<in> set (sd_orders db). announced (?f ord) e'" if "e' \<in> set (sd_outbox db)" for e'
      using old kept that by blast
    moreover have "announced (?f x) e"
      using fresh x(2) by simp
    ultimately show ?case
      using x(1) by (simp only: set_append list.set Un_iff insert_iff empty_iff) blast
  next
    case 4
    have "\<exists>e' \<in> set (sd_outbox db @ [e]). announced (?f ord) e'"
      if member: "ord \<in> set (sd_orders db)" and decided: "so_status (?f ord) \<noteq> ''pending''" for ord
    proof (cases "?hit ord")
      case True
      then have "ord = x"
        using only member by blast
      then show ?thesis
        using fresh x(2) by simp
    next
      case False
      then obtain e' where "e' \<in> set (sd_outbox db)" "announced ord e'"
        using told member decided by auto
      then show ?thesis
        using kept [OF member] by auto
    qed
    then show ?case
      by blast
  qed
qed

lemma insert_ok:
  assumes "orders_ok db" "insert_row same_order (pending_order order_id r) (sd_orders db) = Some rows"
  shows "orders_ok (db\<lparr>sd_orders := rows\<rparr>)"
proof -
  have rows: "rows = sd_orders db @ [pending_order order_id r]"
    using assms(2) by (simp add: shop_orders.insert_row_iff)
  moreover have "order_ok (pending_order order_id r)" "so_status (pending_order order_id r) = ''pending''"
    by (simp_all add: order_ok_def pending_order_def present_def)
  ultimately show ?thesis
    using assms(1) shop_orders.insert_row_unique [OF assms(2)] by (auto simp: orders_ok_def)
qed

lemma history_ok: "order_history tp dbs \<Longrightarrow> orders_ok (hd dbs)"
proof (induction rule: order_history.induct)
  case (empty products)
  then show ?case
    by (simp add: orders_ok_def unique_rows_def)
next
  case (request db dbs seen event_id now q)
  then show ?case
    using serve_order_step [of tp event_id now q seen db] checkout_ok decision_ok by fastforce
next
  case (won db dbs order_id r rows)
  then show ?case
    using insert_ok by simp
next
  case (product db dbs products)
  then show ?case
    by (simp add: orders_ok_def)
qed

lemma history_suffix: "order_history tp dbs \<Longrightarrow> db \<in> set dbs \<Longrightarrow> orders_ok db"
proof (induction rule: order_history.induct)
  case (empty products)
  then show ?case
    using history_ok [OF order_history.empty] by fastforce
next
  case (request db' dbs seen event_id now q)
  then show ?case
    using history_ok [OF order_history.request [OF request(1,2)]] by (metis list.sel(1) set_ConsD)
next
  case (won db' dbs order_id r rows)
  then show ?case
    using history_ok [OF order_history.won [OF won(1,2)]] by (metis list.sel(1) set_ConsD)
next
  case (product db' dbs products)
  then show ?case
    using history_ok [OF order_history.product [OF product(1)]] by (metis list.sel(1) set_ConsD)
qed

text \<open>Every order a history of requests reaches is well-formed: its status is pending, rejected or verified; it has a
  completion time and a shipping label exactly when its payment is verified, an amount only then, and a reason only
  when it is rejected; a product has one order.
\<close>

theorem orders_well_formed:
  assumes "order_history tp dbs" "db \<in> set dbs"
  shows "unique_rows same_order (sd_orders db) \<and> list_all order_ok (sd_orders db)"
  using history_suffix [OF assms] by (simp add: orders_ok_def list_all_iff)

text \<open>Decided orders, and their events, stay.\<close>

lemma checkout_keeps_decided:
  "so_status ord \<noteq> ''pending'' \<Longrightarrow> ord \<in> set (sd_orders db) \<Longrightarrow> ord \<in> set (sd_orders (checkout_step d db))"
  by (force simp: checkout_step_def winner_pending_def)

lemma decision_keeps_decided:
  "so_status ord \<noteq> ''pending'' \<Longrightarrow> ord \<in> set (sd_orders db) \<Longrightarrow> ord \<in> set (sd_orders (decision_step order_id change e db))"
  by (force simp: decision_step_def)

lemma decided_stays:
  "order_history tp dbs \<Longrightarrow> db \<in> set dbs \<Longrightarrow> ord \<in> set (sd_orders db) \<Longrightarrow> so_status ord \<noteq> ''pending'' \<Longrightarrow>
   ord \<in> set (sd_orders (hd dbs))"
proof (induction rule: order_history.induct)
  case (empty products)
  then show ?case
    by simp
next
  case (request db' dbs seen event_id now q)
  have "ord \<in> set (sd_orders db')" if "db \<in> set (db' # dbs)"
    using request.IH that request.prems(2,3) by simp
  then have "ord \<in> set (sd_orders (snd (serve_order tp event_id now q seen db')))" if "db \<in> set (db' # dbs)"
    using serve_order_step [of tp event_id now q seen db'] that request.prems(3)
      checkout_keeps_decided decision_keeps_decided by metis
  then show ?case
    using request.prems by auto
next
  case (won db' dbs order_id r rows)
  then show ?case
    by (auto simp: shop_orders.insert_row_iff)
next
  case (product db' dbs products)
  then show ?case
    by auto
qed

lemma one_event: "distinct (map ob_aggregate_id rows) \<Longrightarrow> length (filter (event_of_order ord) rows) \<le> 1"
proof (induction rows)
  case (Cons e rows)
  show ?case
  proof (cases "event_of_order ord e")
    case True
    then have "\<forall>e' \<in> set rows. \<not> event_of_order ord e'"
      using Cons.prems by (auto simp: event_of_order_def image_iff)
    then show ?thesis
      by simp
  next
    case False
    then show ?thesis
      using Cons by simp
  qed
qed simp

text \<open>C30: The seller decides an order once. However the requests are interleaved, an order that is not pending in some
  state of a history is the same row in every later one, and exactly one event about it is in the outbox, of the
  type of the decision.
\<close>

theorem order_decided_once:
  assumes "order_history tp dbs" "db \<in> set dbs" "ord \<in> set (sd_orders db)" "so_status ord \<noteq> ''pending''"
  shows "ord \<in> set (sd_orders (hd dbs))
    \<and> length (filter (event_of_order ord) (sd_outbox (hd dbs))) = 1
    \<and> list_ex (announced ord) (sd_outbox (hd dbs))"
proof -
  have stays: "ord \<in> set (sd_orders (hd dbs))"
    by (rule decided_stays [OF assms])
  then obtain e where e: "e \<in> set (sd_outbox (hd dbs))" "announced ord e"
    and dist: "distinct (map ob_aggregate_id (sd_outbox (hd dbs)))"
    using history_ok [OF assms(1)] assms(4) unfolding orders_ok_def by blast
  have "length (filter (event_of_order ord) (sd_outbox (hd dbs))) \<le> 1"
    by (rule one_event [OF dist])
  moreover have "filter (event_of_order ord) (sd_outbox (hd dbs)) \<noteq> []"
    using e by (auto simp: filter_empty_conv announced_def)
  ultimately show ?thesis
    using stays e by (auto simp: list_ex_iff le_Suc_eq)
qed

section \<open>Witnesses\<close>

definition example_shop :: order_db where
  "example_shop = \<lparr>sd_orders = [], sd_products = [7 \<mapsto> \<lparr>pr_seller = 3, pr_start_price = Some 100, pr_step_price = Some 10,
     pr_current_price = Some 250, pr_buy_now_price = None, pr_owner = Some 5, pr_turns = Some 4, pr_start_time = None,
     pr_end_time = None, pr_removed = None, pr_auto_extended = None, pr_status = ''ENDED'', pr_version = 4, pr_sequence = 5\<rparr>],
     sd_outbox = []\<rparr>"

definition example_order :: shop_order where
  "example_order = pending_order 1 \<lparr>od_public_id = ''p1'', od_product = 7, od_user = 5, od_sequence = Some 5\<rparr>"

definition example_topics_of_orders :: topics where
  "example_topics_of_orders = kafka_topics None None None None None"

definition example_won :: order_db where
  "example_won = example_shop\<lparr>sd_orders := [example_order]\<rparr>"

definition example_seller :: principal where
  "example_seller = \<lparr>pp_user = 3, pp_role = ''seller'', pp_status = ''active'', pp_version = 0\<rparr>"

definition example_approved :: order_db where
  "example_approved = snd (serve_order example_topics_of_orders ''e1'' 900 (Approve example_seller 1 (Some (Inr ''label.png'')))
     example_won example_won)"

lemma example_history: "order_history example_topics_of_orders [example_approved, example_won, example_shop]"
proof -
  have "order_history example_topics_of_orders [example_shop]"
    unfolding example_shop_def by (rule order_history.empty)
  moreover have "insert_row same_order example_order (sd_orders example_shop) = Some [example_order]"
    by (simp add: insert_row_def clashes_def example_shop_def)
  ultimately have "order_history example_topics_of_orders [example_won, example_shop]"
    unfolding example_won_def example_order_def by (rule order_history.won)
  then show ?thesis
    unfolding example_approved_def by (rule order_history.request) simp
qed

theorem orders_well_formed_witness: "list_all order_ok (sd_orders example_approved)"
  using orders_well_formed [OF example_history, of example_approved] by simp

theorem order_decided_once_witness:
  "\<exists>ord \<in> set (sd_orders example_approved). so_amount ord = Some 250 \<and> length (filter (event_of_order ord) (sd_outbox example_approved)) = 1"
proof -
  have "map (\<lambda>ord. (so_status ord, so_amount ord)) (sd_orders example_approved) = [(''payment_verified'', Some 250)]"
    by code_simp
  then obtain ord where "sd_orders example_approved = [ord]" "so_status ord = ''payment_verified''" "so_amount ord = Some 250"
    by auto
  then show ?thesis
    using order_decided_once [OF example_history, of example_approved ord] by simp
qed

end
