(* ===== verification/Agent_Store.thy ===== *)
theory Agent_Store
  imports Notifications
begin

text \<open>
  The runs of the agent service and what may be done to them: shared/types.ts, storage/agent.repository.ts and
  api/agentRun.service.ts. A table is a list of rows in the order of their insertion; identifiers of steps and
  artifacts are positions, times are left out. \<open>updateRunWorkflow\<close> reads a run and then writes all its columns, so
  it takes the row it has read. Patches and processes are arguments.
\<close>

section \<open>Rows\<close>

datatype run_status = Queued | ContextIndexing | Planning | Implementing | Testing | Reviewing | WaitingApproval
  | Succeeded | Failed | Cancelled | TimedOut

datatype step_name = ContextStep | PlanningStep | ImplementingStep | TestingStep | ReviewingStep | ApprovalStep

datatype step_status = StepQueued | StepRunning | StepSucceeded | StepFailed | StepCancelled | StepTimedOut

datatype agent_id = Planner | Coder | Tester | Reviewer | Orchestrator

datatype message_type = Instruction | AgentResult | Feedback | Decision

datatype agent_event_type = StatusEvent | StdoutEvent | StderrEvent | MessageEvent | ArtifactEvent | DecisionEvent | ErrorEvent

datatype artifact_type = ContextPack | Plan | Patch | TestReport | ReviewReport | HandoffSummary | CommandStdout | CommandStderr

datatype agent_error_code = ValidationError | RunNotFound | InvalidState | ProviderUnavailable | CommandFailed | SandboxViolation
  | AgentTimeout | InternalError

record agent_error =
  ae_status :: int
  ae_code :: agent_error_code
  ae_message :: string

definition not_found :: "string \<Rightarrow> agent_error" where
  "not_found message = \<lparr>ae_status = 404, ae_code = RunNotFound, ae_message = message\<rparr>"

definition invalid_state :: "string \<Rightarrow> agent_error" where
  "invalid_state message = \<lparr>ae_status = 409, ae_code = InvalidState, ae_message = message\<rparr>"

record provider_mapping =
  pm_planner :: string
  pm_coder :: string
  pm_tester :: string
  pm_reviewer :: string

record token_budgets =
  tb_planner :: int
  tb_coder :: int
  tb_tester :: int
  tb_reviewer :: int

record 'a partial_agents =
  pt_planner :: "'a option"
  pt_coder :: "'a option"
  pt_implementer :: "'a option"
  pt_tester :: "'a option"
  pt_reviewer :: "'a option"

record project_config =
  pc_repo_root :: string
  pc_max_iterations :: int
  pc_max_changed_files :: "int option"

record agent_run =
  rn_id :: string
  rn_task :: string
  rn_status :: run_status
  rn_step :: "step_name option"
  rn_providers :: provider_mapping
  rn_budgets :: token_budgets
  rn_config :: "project_config option"
  rn_workflow_state :: "string option"
  rn_iteration :: int
  rn_workspace :: "string option"
  rn_active_pid :: "int option"
  rn_error_code :: "agent_error_code option"
  rn_error_message :: "string option"

record agent_step =
  sp_run :: string
  sp_name :: step_name
  sp_status :: step_status
  sp_error_code :: "agent_error_code option"
  sp_error_message :: "string option"

record artifact =
  af_run :: string
  af_step :: "nat option"
  af_type :: artifact_type
  af_name :: string
  af_content :: string

record agent_message =
  mg_run :: string
  mg_iteration :: int
  mg_from :: agent_id
  mg_to :: "agent_id option"
  mg_type :: message_type
  mg_content :: string

record agent_event =
  ge_run :: string
  ge_type :: agent_event_type
  ge_channel :: string
  ge_agent :: "agent_id option"
  ge_step :: "nat option"
  ge_content :: string

record approval =
  av_run :: string
  av_reviewer :: string
  av_note :: "string option"

record command_audit =
  ca_run :: string
  ca_step :: nat
  ca_exit :: "int option"
  ca_stdout :: "nat option"
  ca_stderr :: "nat option"

record agent_db =
  ag_runs :: "agent_run list"
  ag_steps :: "agent_step list"
  ag_artifacts :: "artifact list"
  ag_messages :: "agent_message list"
  ag_events :: "agent_event list"
  ag_approvals :: "approval list"
  ag_audits :: "command_audit list"

section \<open>The repository\<close>

definition normalize_provider_mapping :: "string partial_agents \<Rightarrow> provider_mapping" where
  "normalize_provider_mapping i =
     \<lparr>pm_planner = coalesce (pt_planner i) ''antigravity'',
      pm_coder = coalesce (pt_coder i) (coalesce (pt_implementer i) ''codex''),
      pm_tester = coalesce (pt_tester i) ''codex'', pm_reviewer = coalesce (pt_reviewer i) ''codex''\<rparr>"

definition normalize_token_budgets :: "int partial_agents \<Rightarrow> token_budgets" where
  "normalize_token_budgets i =
     \<lparr>tb_planner = coalesce (pt_planner i) 6000, tb_coder = coalesce (pt_coder i) (coalesce (pt_implementer i) 10000),
      tb_tester = coalesce (pt_tester i) 5000, tb_reviewer = coalesce (pt_reviewer i) 5000\<rparr>"

text \<open>\<open>run_id\<close> is the identifier the table draws; the other columns take their defaults.\<close>

definition insert_run :: "string \<Rightarrow> string \<Rightarrow> string partial_agents \<Rightarrow> int partial_agents \<Rightarrow> agent_db \<Rightarrow> agent_db" where
  "insert_run run_id task providers budgets db =
     db\<lparr>ag_runs := ag_runs db @ [\<lparr>rn_id = run_id, rn_task = task, rn_status = Queued, rn_step = None,
       rn_providers = normalize_provider_mapping providers, rn_budgets = normalize_token_budgets budgets, rn_config = None,
       rn_workflow_state = Some ''queued'', rn_iteration = 0, rn_workspace = None, rn_active_pid = None,
       rn_error_code = None, rn_error_message = None\<rparr>]\<rparr>"

definition get_run :: "string \<Rightarrow> agent_db \<Rightarrow> agent_run option" where
  "get_run run_id db = find (\<lambda>r. rn_id r = run_id) (ag_runs db)"

definition change_run :: "string \<Rightarrow> (agent_run \<Rightarrow> agent_run) \<Rightarrow> agent_db \<Rightarrow> agent_db" where
  "change_run run_id f db = db\<lparr>ag_runs := map (\<lambda>r. if rn_id r = run_id then f r else r) (ag_runs db)\<rparr>"

definition start_run :: "agent_run \<Rightarrow> agent_run" where
  "start_run r = r\<lparr>rn_status := ContextIndexing, rn_step := Some ContextStep\<rparr>"

text \<open>\<open>locked\<close> are the runs other workers hold (SKIP LOCKED).\<close>

definition claim_next_run :: "string set \<Rightarrow> agent_db \<Rightarrow> agent_run option \<times> agent_db" where
  "claim_next_run locked db =
     (case find (\<lambda>r. rn_status r = Queued \<and> rn_id r \<notin> locked) (ag_runs db) of
        None \<Rightarrow> (None, db)
      | Some r \<Rightarrow> (Some (start_run r), change_run (rn_id r) start_run db))"

definition update_run_status :: "string \<Rightarrow> run_status \<Rightarrow> step_name option \<Rightarrow> agent_error_code option \<Rightarrow> string option \<Rightarrow> agent_db \<Rightarrow> agent_db" where
  "update_run_status run_id status step code message db =
     change_run run_id (\<lambda>r. r\<lparr>rn_status := status, rn_step := step, rn_error_code := code, rn_error_message := message\<rparr>) db"

text \<open>An update of \<open>updateRunWorkflow\<close>: what it sets of the columns it has read.\<close>

record run_patch =
  up_status :: "run_status option"
  up_step :: "step_name option option"
  up_workflow_state :: "string option option"
  up_iteration :: "int option"
  up_workspace :: "string option option"
  up_config :: "project_config option option"
  up_active_pid :: "int option option"

definition no_patch :: run_patch where
  "no_patch = \<lparr>up_status = None, up_step = None, up_workflow_state = None, up_iteration = None, up_workspace = None,
     up_config = None, up_active_pid = None\<rparr>"

definition patched :: "run_patch \<Rightarrow> agent_run \<Rightarrow> agent_run" where
  "patched u r =
     r\<lparr>rn_status := coalesce (up_status u) (rn_status r), rn_step := coalesce (up_step u) (rn_step r),
       rn_workflow_state := coalesce (up_workflow_state u) (rn_workflow_state r),
       rn_iteration := coalesce (up_iteration u) (rn_iteration r), rn_workspace := coalesce (up_workspace u) (rn_workspace r),
       rn_config := coalesce (up_config u) (rn_config r), rn_active_pid := coalesce (up_active_pid u) (rn_active_pid r)\<rparr>"

definition write_patched :: "agent_run \<Rightarrow> run_patch \<Rightarrow> agent_db \<Rightarrow> agent_db" where
  "write_patched seen u db =
     change_run (rn_id seen) (\<lambda>r. (patched u seen)\<lparr>rn_task := rn_task r, rn_providers := rn_providers r, rn_budgets := rn_budgets r\<rparr>) db"

definition update_run_workflow :: "string \<Rightarrow> run_patch \<Rightarrow> agent_db \<Rightarrow> agent_db" where
  "update_run_workflow run_id u db = (case get_run run_id db of None \<Rightarrow> db | Some seen \<Rightarrow> write_patched seen u db)"

definition create_step :: "string \<Rightarrow> step_name \<Rightarrow> agent_db \<Rightarrow> nat \<times> agent_db" where
  "create_step run_id name db =
     (length (ag_steps db), db\<lparr>ag_steps := ag_steps db @
        [\<lparr>sp_run = run_id, sp_name = name, sp_status = StepRunning, sp_error_code = None, sp_error_message = None\<rparr>]\<rparr>)"

definition finish_step :: "nat \<Rightarrow> step_status \<Rightarrow> agent_error_code option \<Rightarrow> string option \<Rightarrow> agent_db \<Rightarrow> agent_db" where
  "finish_step step status code message db =
     (if step < length (ag_steps db)
      then db\<lparr>ag_steps := (ag_steps db)[step := (ag_steps db ! step)\<lparr>sp_status := status, sp_error_code := code, sp_error_message := message\<rparr>]\<rparr>
      else db)"

definition add_artifact :: "string \<Rightarrow> nat option \<Rightarrow> artifact_type \<Rightarrow> string \<Rightarrow> string \<Rightarrow> agent_db \<Rightarrow> agent_db" where
  "add_artifact run_id step kind name content db =
     db\<lparr>ag_artifacts := ag_artifacts db @ [\<lparr>af_run = run_id, af_step = step, af_type = kind, af_name = name, af_content = content\<rparr>]\<rparr>"

definition add_message :: "string \<Rightarrow> int \<Rightarrow> agent_id \<Rightarrow> agent_id option \<Rightarrow> message_type \<Rightarrow> string \<Rightarrow> agent_db \<Rightarrow> agent_db" where
  "add_message run_id iteration from to kind content db =
     db\<lparr>ag_messages := ag_messages db @ [\<lparr>mg_run = run_id, mg_iteration = iteration, mg_from = from, mg_to = to,
       mg_type = kind, mg_content = content\<rparr>]\<rparr>"

definition add_event :: "string \<Rightarrow> agent_event_type \<Rightarrow> string \<Rightarrow> agent_id option \<Rightarrow> nat option \<Rightarrow> string \<Rightarrow> agent_db \<Rightarrow> agent_db" where
  "add_event run_id kind channel agent step content db =
     db\<lparr>ag_events := ag_events db @ [\<lparr>ge_run = run_id, ge_type = kind, ge_channel = channel, ge_agent = agent,
       ge_step = step, ge_content = content\<rparr>]\<rparr>"

definition record_approval :: "string \<Rightarrow> string \<Rightarrow> string option \<Rightarrow> agent_db \<Rightarrow> agent_db" where
  "record_approval run_id reviewer note db =
     db\<lparr>ag_approvals := ag_approvals db @ [\<lparr>av_run = run_id, av_reviewer = reviewer, av_note = note\<rparr>]\<rparr>"

text \<open>An artifact is audited by its position; executable, arguments, directory and duration are left out.\<close>

definition record_command_audit :: "string \<Rightarrow> nat \<Rightarrow> int option \<Rightarrow> nat option \<Rightarrow> nat option \<Rightarrow> agent_db \<Rightarrow> agent_db" where
  "record_command_audit run_id step code out err db =
     db\<lparr>ag_audits := ag_audits db @ [\<lparr>ca_run = run_id, ca_step = step, ca_exit = code, ca_stdout = out, ca_stderr = err\<rparr>]\<rparr>"

definition cancellable :: "run_status \<Rightarrow> bool" where
  "cancellable s = (s \<in> {Queued, ContextIndexing, Planning, Implementing, Testing, Reviewing})"

definition mark_cancelled :: "string \<Rightarrow> agent_db \<Rightarrow> agent_run option \<times> agent_db" where
  "mark_cancelled run_id db =
     (let db' = change_run run_id (\<lambda>r. if cancellable (rn_status r) then r\<lparr>rn_status := Cancelled\<rparr> else r) db
      in case get_run run_id db of
           None \<Rightarrow> (None, db)
         | Some r \<Rightarrow> if cancellable (rn_status r) then (get_run run_id db', db') else (None, db))"

definition clear_active_process :: "string \<Rightarrow> int \<Rightarrow> agent_db \<Rightarrow> agent_db" where
  "clear_active_process run_id pid db =
     change_run run_id (\<lambda>r. if rn_active_pid r = Some pid then r\<lparr>rn_active_pid := None\<rparr> else r) db"

section \<open>The service\<close>

text \<open>\<open>config\<close>: the project configuration that was loaded.\<close>

definition create_run :: "string \<Rightarrow> project_config \<Rightarrow> string \<Rightarrow> string partial_agents \<Rightarrow> int partial_agents \<Rightarrow> agent_db \<Rightarrow> agent_db" where
  "create_run run_id config task providers budgets db =
     add_event run_id StatusEvent ''orchestrator'' (Some Orchestrator) None ''queued''
       (update_run_workflow run_id (no_patch\<lparr>up_config := Some (Some config), up_workflow_state := Some (Some ''queued'')\<rparr>)
         (insert_run run_id task providers budgets db))"

text \<open>\<open>changed\<close>: the files in which workspace and repository differ; \<open>diff\<close> and \<open>applied\<close>: the results of git.\<close>

definition workspace_patch :: "int \<Rightarrow> int \<Rightarrow> (string, string) result \<Rightarrow> agent_run \<Rightarrow> (agent_error, string) result" where
  "workspace_patch default_limit changed diff r =
     (if rn_workspace r = None \<or> rn_workspace r = Some '''' then throws (invalid_state ''Run has no workspace path to approve'')
      else let limit = coalesce (case rn_config r of None \<Rightarrow> None | Some c \<Rightarrow> pc_max_changed_files c) default_limit
           in if changed > limit then throws (invalid_state (''Workspace diff changes '' @ show_int changed @
                '' files, exceeding maxChangedFiles '' @ show_int limit))
              else if changed = 0 then throws (invalid_state ''Workspace diff is empty'')
              else case diff of Inl err \<Rightarrow> throws (invalid_state err) | Inr text \<Rightarrow> returns text)"

definition approve_run :: "int \<Rightarrow> int \<Rightarrow> (string, string) result \<Rightarrow> (string, unit) result \<Rightarrow> string \<Rightarrow> string \<Rightarrow> string option \<Rightarrow> agent_db
    \<Rightarrow> (agent_error, agent_run) result \<times> agent_db" where
  "approve_run default_limit changed diff applied run_id reviewer note db =
     (case get_run run_id db of
        None \<Rightarrow> (throws (not_found ''Agent run not found''), db)
      | Some r \<Rightarrow>
          if rn_status r \<noteq> WaitingApproval then (throws (invalid_state ''Only runs waiting for approval can be approved''), db)
          else case workspace_patch default_limit changed diff r of
                 Inl err \<Rightarrow> (throws err, db)
               | Inr text \<Rightarrow>
                   let db1 = add_artifact run_id None Patch ''workspace.patch'' text db
                   in case applied of
                        Inl err \<Rightarrow> (throws (invalid_state err), db1)
                      | Inr _ \<Rightarrow>
                          let db2 = update_run_status run_id Succeeded None None None
                                (add_event run_id ArtifactEvent ''orchestrator'' (Some Orchestrator) None ''patch applied''
                                  (record_approval run_id reviewer note db1))
                          in case get_run run_id db2 of
                               None \<Rightarrow> (throws (not_found ''Agent run not found''), db2)
                             | Some updated \<Rightarrow> (returns updated, db2))"

definition cancel_run :: "string \<Rightarrow> agent_db \<Rightarrow> (agent_error, agent_run) result \<times> agent_db" where
  "cancel_run run_id db =
     (case get_run run_id db of
        None \<Rightarrow> (throws (not_found ''Agent run not found''), db)
      | Some r \<Rightarrow>
          let db1 = (case rn_active_pid r of None \<Rightarrow> db | Some pid \<Rightarrow> if pid = 0 then db else clear_active_process run_id pid db)
          in case mark_cancelled run_id db1 of
               (None, db2) \<Rightarrow> (throws (invalid_state ''Only queued or active runs can be cancelled''), db2)
             | (Some cancelled, db2) \<Rightarrow> (returns cancelled, db2))"

end
