(* ===== verification/Text_Patterns.thy ===== *)
theory Text_Patterns
  imports Prelude
begin

text \<open>
  What the patterns and templates of the source need of strings: the flag \<open>i\<close> and the word boundary of a regular
  expression, literal prefixes, and the joining of parts. Strings are lists of characters; code units above them are
  not distinguished.
\<close>

definition lower_char :: "char \<Rightarrow> char" where
  "lower_char c = (let n = (of_char c :: nat) in if 65 \<le> n \<and> n \<le> 90 then char_of (n + 32) else c)"

definition strip_keyword :: "string \<Rightarrow> string \<Rightarrow> string option" where
  "strip_keyword key s = (if map lower_char (take (length key) s) = key then Some (drop (length key) s) else None)"

definition newline :: string where
  "newline = [CHR 0x0A]"

fun join_text :: "string \<Rightarrow> string list \<Rightarrow> string" where
  "join_text separator [] = ''''"
| "join_text separator [t] = t"
| "join_text separator (t # ts) = t @ separator @ join_text separator ts"

text \<open>\<open>\w\<close> of a pattern.\<close>

definition is_word :: "char \<Rightarrow> bool" where
  "is_word c = (let n = (of_char c :: nat) in 65 \<le> n \<and> n \<le> 90 \<or> 97 \<le> n \<and> n \<le> 122 \<or> 48 \<le> n \<and> n \<le> 57 \<or> n = 95)"

lemma strip_keyword_length: "strip_keyword key s = Some rest \<Longrightarrow> length rest \<le> length s"
  by (auto simp: strip_keyword_def split: if_splits)

text \<open>A literal without the character \<open>c\<close> takes none away.\<close>

lemma strip_keyword_count:
  assumes "strip_keyword key s = Some rest" "lower_char c = c" "c \<notin> set key"
  shows "count_list rest c = count_list s c"
proof -
  have "map lower_char (take (length key) s) = key" "rest = drop (length key) s"
    using assms(1) by (auto simp: strip_keyword_def split: if_splits)
  moreover have "c \<notin> set (take (length key) s)"
    using calculation(1) assms(2,3) by (metis image_eqI list.set_map)
  ultimately show ?thesis
    by (metis add_0 append_take_drop_id count_list_append count_notin)
qed

lemma count_join: "c \<notin> set separator \<Longrightarrow> count_list (join_text separator ts) c = sum_list (map (\<lambda>t. count_list t c) ts)"
  by (induction separator ts rule: join_text.induct) simp_all

end
