(* ===== verification/Agent_Workflow.thy ===== *)
theory Agent_Workflow
  imports Agent_Store Text_Patterns
begin

text \<open>
  The workflow of a run: workflow/langGraphWorkflow.ts, workflow/prompts.ts and the loop of worker.ts. The graph of
  nodes is run over the answers of the commands: an answer says whether the provider is available, what it printed,
  and whether somebody cancels the run while the command runs. LangGraph runs the node a router names until
  the end; its checkpoints and its own limit on steps are left out. The prompts that carry the context pack take its
  JSON text as given.
\<close>

section \<open>Decisions\<close>

text \<open>The first match of \<open>/KEY:\s*(a|b|c)/i\<close>, in lower case.\<close>

fun keyword_value :: "string \<Rightarrow> string list \<Rightarrow> string \<Rightarrow> string option" where
  "keyword_value key options [] = None"
| "keyword_value key options (c # cs) =
     (case (case strip_keyword key (c # cs) of
              None \<Rightarrow> None
            | Some rest \<Rightarrow> find (\<lambda>v. strip_keyword v (dropWhile is_space rest) \<noteq> None) options) of
        Some v \<Rightarrow> Some v
      | None \<Rightarrow> keyword_value key options cs)"

datatype verdict = Pass | Fail | NeedsChanges

definition parse_agent_decision :: "string \<Rightarrow> verdict \<times> string option" where
  "parse_agent_decision text =
     (case keyword_value ''agent_decision:'' [''pass'', ''fail'', ''needs_changes''] text of
        Some v \<Rightarrow> if v = ''fail'' then Fail else if v = ''needs_changes'' then NeedsChanges else Pass
      | None \<Rightarrow> Pass,
      keyword_value ''agent_target:'' [''coder'', ''planner'', ''human''] text)"

section \<open>Prompts\<close>

definition paragraphs :: "string list \<Rightarrow> string" where
  "paragraphs ts = join_text (newline @ newline) ts"

text \<open>The context pack: \<open>cx_json\<close> is its JSON, \<open>cx_scripts\<close> the JSON of the package scripts.\<close>

record context_pack =
  cx_summary :: string
  cx_files :: "(string \<times> int) list"
  cx_scripts :: string
  cx_json :: string

definition planning_prompt :: "string \<Rightarrow> context_pack \<Rightarrow> int \<Rightarrow> string" where
  "planning_prompt task context budget = paragraphs
     [''You are the planner in a multi-agent code-change workflow.'',
      ''Token budget: '' @ show_int budget @ ''.'',
      ''Produce a concise implementation plan with target files, test commands, risks, and handoff notes.'',
      ''IMPORTANT: Do NOT execute or run tests, start dev servers, or run long-running NPM/package installations during this planning phase. Simply analyze the static codebase context and produce the plan.'',
      ''Task:'' @ newline @ task,
      ''Context summary:'' @ newline @ cx_summary context,
      ''Package scripts:'' @ newline @ cx_scripts context,
      ''File manifest:'' @ newline @ join_text newline (map (\<lambda>(path, bytes). path @ '' ('' @ show_int bytes @ '' bytes)'') (cx_files context))]"

definition implementation_prompt :: "string \<Rightarrow> string \<Rightarrow> int \<Rightarrow> string" where
  "implementation_prompt task plan budget = paragraphs
     [''You are the implementer in a multi-agent code-change workflow.'',
      ''Token budget: '' @ show_int budget @ ''.'',
      ''Apply the requested code changes inside this workspace. Keep changes scoped to the approved plan.'',
      ''IMPORTANT: Do NOT ask for approval, confirmation, or wait for the user to proceed. You are already running inside the automated execution sandbox, so proceed directly with implementing all required file and code modifications now.'',
      ''Task:'' @ newline @ task,
      ''Approved plan:'' @ newline @ plan,
      ''When finished, print a short implementation summary.'',
      ''End with AGENT_DECISION: pass and AGENT_TARGET: tester.'']"

definition testing_prompt :: "string \<Rightarrow> string \<Rightarrow> int \<Rightarrow> string" where
  "testing_prompt task plan budget = paragraphs
     [''You are the tester in a multi-agent code-change workflow.'',
      ''Token budget: '' @ show_int budget @ ''.'',
      ''Run focused verification, starting with npm run build for the affected package when available.'',
      ''Task:'' @ newline @ task,
      ''Plan:'' @ newline @ plan,
      ''Return commands, pass/fail status, and relevant failure excerpts only.'',
      ''End with AGENT_DECISION: pass or AGENT_DECISION: fail. If failed, also include AGENT_TARGET: coder.'']"

definition review_prompt :: "string \<Rightarrow> string \<Rightarrow> string \<Rightarrow> int \<Rightarrow> string" where
  "review_prompt task plan test_report budget = paragraphs
     [''You are the reviewer in a multi-agent code-change workflow.'',
      ''Token budget: '' @ show_int budget @ ''.'',
      ''Review the final diff, plan adherence, risks, and test evidence. Lead with blocking findings.'',
      ''Task:'' @ newline @ task,
      ''Plan:'' @ newline @ plan,
      ''Test report:'' @ newline @ test_report,
      ''End with AGENT_DECISION: pass or AGENT_DECISION: needs_changes. If changes are needed, include AGENT_TARGET: coder.'']"

section \<open>Nodes\<close>

record graph_state =
  gs_run :: string
  gs_task :: string
  gs_workspace :: string
  gs_plan :: string
  gs_summary :: string
  gs_test_report :: string
  gs_review_report :: string
  gs_iteration :: int
  gs_max_iterations :: int
  gs_tester_passed :: bool
  gs_reviewer_passed :: bool

datatype graph_node = ContextNode | PlanningNode | ImplementingNode | TestingNode | ReviewingNode | EndNode

text \<open>What a node meets: the workspace and context that are built, whether the CLI answers, whether a command is run,
  its process (0 when it could not be started) and exit code, the chunks of its output, its collected output, the text
  or error the provider makes of it, and whether the run is cancelled while it runs.\<close>

record node_answer =
  no_workspace :: "(string, string) result"
  no_context :: "(string, context_pack) result"
  no_available :: "(string, unit) result"
  no_started :: bool
  no_pid :: int
  no_exit :: "int option"
  no_chunks :: "(agent_event_type \<times> string) list"
  no_stdout :: string
  no_stderr :: string
  no_text :: "(string, string) result"
  no_cancelled :: bool

definition known_providers :: "string list" where
  "known_providers = [''antigravity'', ''codex'']"

definition display_channel :: "string \<Rightarrow> string" where
  "display_channel provider = (if provider = ''antigravity'' then ''Antigravity'' else ''Codex'')"

fun agent_name :: "agent_id \<Rightarrow> string" where
  "agent_name Planner = ''planner''"
| "agent_name Coder = ''coder''"
| "agent_name Tester = ''tester''"
| "agent_name Reviewer = ''reviewer''"
| "agent_name Orchestrator = ''orchestrator''"

definition add_output :: "string \<Rightarrow> nat \<Rightarrow> artifact_type \<Rightarrow> string \<Rightarrow> string \<Rightarrow> agent_db \<Rightarrow> nat option \<times> agent_db" where
  "add_output run_id step kind name output db =
     (if output = [] then (None, db)
      else (Some (length (ag_artifacts db)), add_artifact run_id (Some step) kind name output db))"

definition audit_command :: "string \<Rightarrow> agent_id \<Rightarrow> nat \<Rightarrow> node_answer \<Rightarrow> agent_db \<Rightarrow> agent_db" where
  "audit_command run_id agent step a db =
     (case add_output run_id step CommandStdout (agent_name agent @ ''-stdout.txt'') (no_stdout a) db of (out, db) \<Rightarrow>
      case add_output run_id step CommandStderr (agent_name agent @ ''-stderr.txt'') (no_stderr a) db of (err, db) \<Rightarrow>
        record_command_audit run_id step (no_exit a) out err db)"

text \<open>\<open>provider.run\<close> with the hooks of the worker: the process is stored, the output is stored as events, the run may
  be cancelled, the process is cleared, its end is an event, and the command is audited.\<close>

definition run_command :: "string \<Rightarrow> string \<Rightarrow> agent_id \<Rightarrow> nat \<Rightarrow> node_answer \<Rightarrow> agent_db \<Rightarrow> (string, string) result \<times> agent_db" where
  "run_command run_id channel agent step a db =
     (let db1 = (if no_started a \<and> no_pid a > 0
                 then update_run_workflow run_id (no_patch\<lparr>up_active_pid := Some (Some (no_pid a))\<rparr>) db else db);
          db2 = (if no_started a then fold (\<lambda>(kind, chunk). add_event run_id kind channel (Some agent) (Some step) chunk) (no_chunks a) db1
                 else db1);
          db3 = (if no_cancelled a then snd (cancel_run run_id db2) else db2);
          db4 = (if no_started a \<and> no_pid a \<noteq> 0 then clear_active_process run_id (no_pid a) db3 else db3);
          db5 = (if no_started a
                 then audit_command run_id agent step a
                   (add_event run_id (if no_exit a = Some 0 then StatusEvent else ErrorEvent) channel (Some agent) (Some step)
                      (''command exited with '' @ (case no_exit a of None \<Rightarrow> ''unknown'' | Some n \<Rightarrow> show_int n)) db4)
                 else db4)
      in (no_text a, db5))"

text \<open>The turn of an agent: the instruction, the provider, its start event and its command.\<close>

definition agent_turn :: "string \<Rightarrow> int \<Rightarrow> agent_id \<Rightarrow> string \<Rightarrow> string \<Rightarrow> string \<Rightarrow> nat \<Rightarrow> node_answer \<Rightarrow> agent_db
    \<Rightarrow> (string, string) result \<times> agent_db" where
  "agent_turn run_id iteration agent provider prompt starting step a db =
     (let db1 = add_message run_id iteration Orchestrator (Some agent) Instruction prompt db
      in if provider \<notin> set known_providers then (throws (''Unknown provider: '' @ provider), db1)
         else case no_available a of
                Inl err \<Rightarrow> (throws err, db1)
              | Inr _ \<Rightarrow> run_command run_id (display_channel provider) agent step a
                  (add_event run_id StatusEvent (display_channel provider) (Some agent) (Some step) (provider @ starting) db1))"

definition close_step :: "nat \<Rightarrow> (string, 'a) result \<Rightarrow> agent_db \<Rightarrow> (string, 'a) result \<times> agent_db" where
  "close_step step r db =
     (case r of
        Inl err \<Rightarrow> (Inl err, finish_step step StepFailed (Some InternalError) (Some err) db)
      | Inr x \<Rightarrow> (Inr x, finish_step step StepSucceeded None None db))"

text \<open>Entering a node: the run must exist, its row is written and a step is opened.\<close>

definition enter_node :: "string \<Rightarrow> run_patch \<Rightarrow> step_name \<Rightarrow> agent_db \<Rightarrow> (string, agent_run \<times> nat) result \<times> agent_db" where
  "enter_node run_id u name db =
     (case get_run run_id db of
        None \<Rightarrow> (throws ''Run not found'', db)
      | Some r \<Rightarrow> (case create_step run_id name (update_run_workflow run_id u db) of (step, db') \<Rightarrow> (returns (r, step), db')))"

definition context_node :: "node_answer \<Rightarrow> graph_state \<Rightarrow> agent_db \<Rightarrow> (string, graph_state) result \<times> agent_db" where
  "context_node a s db =
     (case get_run (gs_run s) db of
        None \<Rightarrow> (throws ''Run not found'', db)
      | Some r \<Rightarrow>
        (case (case rn_workspace r of Some w \<Rightarrow> returns w | None \<Rightarrow> no_workspace a) of
           Inl err \<Rightarrow> (throws err, db)
         | Inr workspace \<Rightarrow>
           (case enter_node (rn_id r) (no_patch\<lparr>up_workspace := Some (Some workspace), up_workflow_state := Some (Some ''context_indexing''),
                   up_status := Some ContextIndexing, up_step := Some (Some ContextStep)\<rparr>) ContextStep db of
              (Inl err, db) \<Rightarrow> (throws err, db)
            | (Inr (_, step), db) \<Rightarrow>
              (case no_context a of
                 Inl err \<Rightarrow> close_step step (throws err) db
               | Inr context \<Rightarrow>
                 close_step step (returns (s\<lparr>gs_workspace := workspace\<rparr>))
                   (add_message (rn_id r) 0 Orchestrator (Some Planner) Instruction ''Context indexed and ready for planning.''
                     (add_artifact (rn_id r) (Some step) HandoffSummary ''context-summary.md'' (cx_summary context)
                       (add_artifact (rn_id r) (Some step) ContextPack ''context-pack.json'' (cx_json context) db)))))))"

definition planning_node :: "node_answer \<Rightarrow> graph_state \<Rightarrow> agent_db \<Rightarrow> (string, graph_state) result \<times> agent_db" where
  "planning_node a s db =
     (case enter_node (gs_run s) (no_patch\<lparr>up_status := Some Planning, up_step := Some (Some PlanningStep)\<rparr>) PlanningStep db of
        (Inl err, db) \<Rightarrow> (throws err, db)
      | (Inr (r, step), db) \<Rightarrow>
        (case no_context a of
           Inl err \<Rightarrow> close_step step (throws err) db
         | Inr context \<Rightarrow>
           (let provider = pm_planner (rn_providers r)
            in case agent_turn (gs_run s) 0 Planner provider (planning_prompt (gs_task s) context (tb_planner (rn_budgets r)))
                 '' (planner) starting analysis'' step a db of
              (Inl err, db) \<Rightarrow> close_step step (throws err) db
            | (Inr text, db) \<Rightarrow>
              close_step step (returns (s\<lparr>gs_plan := text\<rparr>))
                (add_event (gs_run s) StatusEvent (display_channel provider) (Some Planner) (Some step) (provider @ '' (planner) completed plan creation'')
                  (add_message (gs_run s) 0 Planner (Some Coder) AgentResult text
                    (add_artifact (gs_run s) (Some step) Plan ''implementation-plan.md'' text db))))))"

definition implementing_node :: "node_answer \<Rightarrow> graph_state \<Rightarrow> agent_db \<Rightarrow> (string, graph_state) result \<times> agent_db" where
  "implementing_node a s db =
     (case enter_node (gs_run s) (no_patch\<lparr>up_status := Some Implementing, up_step := Some (Some ImplementingStep),
             up_iteration := Some (gs_iteration s)\<rparr>) ImplementingStep db of
        (Inl err, db) \<Rightarrow> (throws err, db)
      | (Inr (r, step), db) \<Rightarrow>
        (case agent_turn (gs_run s) (gs_iteration s) Coder (pm_coder (rn_providers r))
                (implementation_prompt (gs_task s) (gs_plan s) (tb_coder (rn_budgets r))) '' (coder) starting code implementation'' step a db of
           (Inl err, db) \<Rightarrow> close_step step (throws err) db
         | (Inr text, db) \<Rightarrow>
           close_step step (returns (s\<lparr>gs_summary := text\<rparr>))
             (add_message (gs_run s) (gs_iteration s) Coder (Some Tester) AgentResult text
               (add_artifact (gs_run s) (Some step) HandoffSummary
                 (''implementation-summary-'' @ show_int (gs_iteration s) @ ''.md'') text db))))"

definition testing_node :: "node_answer \<Rightarrow> graph_state \<Rightarrow> agent_db \<Rightarrow> (string, graph_state) result \<times> agent_db" where
  "testing_node a s db =
     (case enter_node (gs_run s) (no_patch\<lparr>up_status := Some Testing, up_step := Some (Some TestingStep)\<rparr>) TestingStep db of
        (Inl err, db) \<Rightarrow> (throws err, db)
      | (Inr (r, step), db) \<Rightarrow>
        (case agent_turn (gs_run s) (gs_iteration s) Tester (pm_tester (rn_providers r))
                (testing_prompt (gs_task s) (gs_plan s @ newline @ newline @ gs_summary s) (tb_tester (rn_budgets r)))
                '' (tester) executing build and verification tests'' step a db of
           (Inl err, db) \<Rightarrow> close_step step (throws err) db
         | (Inr text, db) \<Rightarrow>
           (let passed = (fst (parse_agent_decision text) = Pass)
            in close_step step (returns (s\<lparr>gs_test_report := text, gs_tester_passed := passed,
                   gs_iteration := (if passed then gs_iteration s else gs_iteration s + 1)\<rparr>))
                 (add_message (gs_run s) (gs_iteration s) Tester (Some (if passed then Reviewer else Coder)) AgentResult text
                   (add_artifact (gs_run s) (Some step) TestReport (''test-report-'' @ show_int (gs_iteration s) @ ''.md'') text db)))))"

definition reviewing_node :: "node_answer \<Rightarrow> graph_state \<Rightarrow> agent_db \<Rightarrow> (string, graph_state) result \<times> agent_db" where
  "reviewing_node a s db =
     (case enter_node (gs_run s) (no_patch\<lparr>up_status := Some Reviewing, up_step := Some (Some ReviewingStep)\<rparr>) ReviewingStep db of
        (Inl err, db) \<Rightarrow> (throws err, db)
      | (Inr (r, step), db) \<Rightarrow>
        (case agent_turn (gs_run s) (gs_iteration s) Reviewer (pm_reviewer (rn_providers r))
                (review_prompt (gs_task s) (gs_plan s) (gs_test_report s) (tb_reviewer (rn_budgets r)))
                '' (reviewer) performing code review'' step a db of
           (Inl err, db) \<Rightarrow> close_step step (throws err) db
         | (Inr text, db) \<Rightarrow>
           (let passed = (fst (parse_agent_decision text) = Pass)
            in close_step step (returns (s\<lparr>gs_review_report := text, gs_reviewer_passed := passed,
                   gs_iteration := (if passed then gs_iteration s else gs_iteration s + 1)\<rparr>))
                 (add_message (gs_run s) (gs_iteration s) Reviewer (Some (if passed then Orchestrator else Coder)) AgentResult text
                   (add_artifact (gs_run s) (Some step) ReviewReport (''review-report-'' @ show_int (gs_iteration s) @ ''.md'') text db)))))"

section \<open>The graph and the worker\<close>

definition route_tester :: "graph_state \<Rightarrow> graph_node" where
  "route_tester s =
     (if gs_tester_passed s then ReviewingNode
      else if gs_iteration s \<ge> gs_max_iterations s then ReviewingNode else ImplementingNode)"

definition route_reviewer :: "graph_state \<Rightarrow> graph_node" where
  "route_reviewer s =
     (if gs_reviewer_passed s then EndNode
      else if gs_iteration s \<ge> gs_max_iterations s then EndNode else ImplementingNode)"

fun next_node :: "graph_node \<Rightarrow> graph_state \<Rightarrow> graph_node" where
  "next_node ContextNode s = PlanningNode"
| "next_node PlanningNode s = ImplementingNode"
| "next_node ImplementingNode s = TestingNode"
| "next_node TestingNode s = route_tester s"
| "next_node ReviewingNode s = route_reviewer s"
| "next_node EndNode s = EndNode"

fun run_node :: "graph_node \<Rightarrow> node_answer \<Rightarrow> graph_state \<Rightarrow> agent_db \<Rightarrow> (string, graph_state) result \<times> agent_db" where
  "run_node ContextNode a s db = context_node a s db"
| "run_node PlanningNode a s db = planning_node a s db"
| "run_node ImplementingNode a s db = implementing_node a s db"
| "run_node TestingNode a s db = testing_node a s db"
| "run_node ReviewingNode a s db = reviewing_node a s db"
| "run_node EndNode a s db = (returns s, db)"

text \<open>\<open>invoke\<close> over the answers of the nodes so far: how it stands, and the tables.\<close>

datatype graph_result = Ended graph_state | Threw string | Waiting graph_node graph_state

fun invoke :: "node_answer list \<Rightarrow> graph_node \<Rightarrow> graph_state \<Rightarrow> agent_db \<Rightarrow> graph_result \<times> agent_db" where
  "invoke as EndNode s db = (Ended s, db)"
| "invoke [] n s db = (Waiting n s, db)"
| "invoke (a # as) n s db =
     (case run_node n a s db of
        (Inl err, db') \<Rightarrow> (Threw err, db')
      | (Inr s', db') \<Rightarrow> invoke as (next_node n s') s' db')"

definition initial_state :: "agent_run \<Rightarrow> graph_state" where
  "initial_state r =
     \<lparr>gs_run = rn_id r, gs_task = rn_task r, gs_workspace = coalesce (rn_workspace r) '''', gs_plan = '''', gs_summary = '''',
      gs_test_report = '''', gs_review_report = '''', gs_iteration = 1,
      gs_max_iterations = (case rn_config r of None \<Rightarrow> 3 | Some c \<Rightarrow> pc_max_iterations c),
      gs_tester_passed = True, gs_reviewer_passed = True\<rparr>"

text \<open>After the graph has ended.\<close>

definition settle_run :: "string \<Rightarrow> agent_db \<Rightarrow> agent_db" where
  "settle_run run_id db =
     (case get_run run_id db of
        None \<Rightarrow> db
      | Some r \<Rightarrow>
          if rn_status r = Reviewing \<or> rn_status r = Implementing
          then add_event run_id StatusEvent ''orchestrator'' (Some Orchestrator) None ''review passed; waiting for human approval''
                 (update_run_workflow run_id (no_patch\<lparr>up_status := Some WaitingApproval, up_step := Some (Some ApprovalStep)\<rparr>) db)
          else db)"

text \<open>One turn of the poll loop: an exception of the graph is only logged.\<close>

definition poll_turn :: "string set \<Rightarrow> node_answer list \<Rightarrow> agent_db \<Rightarrow> agent_db" where
  "poll_turn locked as db =
     (case claim_next_run locked db of
        (None, db) \<Rightarrow> db
      | (Some r, db) \<Rightarrow>
          (case invoke as ContextNode (initial_state r) db of
             (Ended _, db') \<Rightarrow> settle_run (rn_id r) db'
           | (_, db') \<Rightarrow> db'))"

end
