(* ===== verification/Agent_Properties.thy ===== *)
theory Agent_Properties
  imports Agent_Workflow
begin

text \<open>
  What the workflow of the agent service does to a run: the graph stops, a completed graph asks for approval whatever
  its agents decided, and a graph that throws leaves its run where it was.
\<close>

section \<open>What the operations leave\<close>

lemma runs_of_inserts [simp]:
  "ag_runs (add_message run_id i f t k c db) = ag_runs db"
  "ag_runs (add_artifact run_id st ak n c db) = ag_runs db"
  "ag_runs (add_event run_id ek ch ag st c db) = ag_runs db"
  "ag_runs (finish_step step ss code m db) = ag_runs db"
  "ag_runs (snd (create_step run_id name db)) = ag_runs db"
  by (simp_all add: add_message_def add_artifact_def add_event_def finish_step_def create_step_def)

lemma runs_of_output [simp]: "ag_runs (fold (\<lambda>(kind, chunk). add_event i kind ch ag st chunk) chunks db) = ag_runs db"
  by (induction chunks arbitrary: db) auto

lemma runs_of_audit [simp]: "ag_runs (audit_command run_id ag step a db) = ag_runs db"
  by (auto simp: audit_command_def add_output_def record_command_audit_def split: prod.split)

lemma get_run_cong: "ag_runs db = ag_runs db' \<Longrightarrow> get_run i db = get_run i db'"
  by (simp add: get_run_def)

lemma get_run_inserts [simp]:
  "get_run i (add_message run_id it f t k c db) = get_run i db"
  "get_run i (add_artifact run_id st ak n c db) = get_run i db"
  "get_run i (add_event run_id ek ch ag st c db) = get_run i db"
  "get_run i (finish_step step ss code m db) = get_run i db"
  by (rule get_run_cong; simp)+

lemma get_run_change:
  assumes "\<And>r. rn_id (f r) = rn_id r"
  shows "get_run i (change_run run_id f db) = map_option (\<lambda>r. if rn_id r = run_id then f r else r) (get_run i db)"
proof -
  have "find (\<lambda>r. rn_id r = i) (map (\<lambda>r. if rn_id r = run_id then f r else r) rs)
      = map_option (\<lambda>r. if rn_id r = run_id then f r else r) (find (\<lambda>r. rn_id r = i) rs)" for rs
    by (induction rs) (auto simp: assms)
  then show ?thesis
    by (simp add: get_run_def change_run_def)
qed

lemma get_run_id: "get_run i db = Some r \<Longrightarrow> rn_id r = i"
  by (auto simp: get_run_def find_Some_iff)

lemma ids_of_change: "(\<And>r. rn_id (f r) = rn_id r) \<Longrightarrow> map rn_id (ag_runs (change_run run_id f db)) = map rn_id (ag_runs db)"
  by (simp add: change_run_def)

lemma patched_id [simp]: "rn_id (patched u r) = rn_id r"
  by (simp add: patched_def)

lemma get_run_update:
  "get_run i (update_run_workflow run_id u db) = map_option (\<lambda>r. if i = run_id then patched u r else r) (get_run i db)"
proof (cases "get_run run_id db")
  case None
  then show ?thesis
    by (cases "get_run i db") (auto simp: update_run_workflow_def)
next
  case (Some seen)
  let ?f = "\<lambda>r. (patched u seen)\<lparr>rn_task := rn_task r, rn_providers := rn_providers r, rn_budgets := rn_budgets r, rn_id := rn_id r\<rparr>"
  have "rn_id seen = run_id"
    by (rule get_run_id [OF Some])
  then have "change_run run_id (\<lambda>r. (patched u seen)\<lparr>rn_task := rn_task r, rn_providers := rn_providers r, rn_budgets := rn_budgets r\<rparr>) db
      = change_run run_id ?f db"
    by (simp add: change_run_def)
  then have "get_run i (update_run_workflow run_id u db) = map_option (\<lambda>r. if rn_id r = run_id then ?f r else r) (get_run i db)"
    using get_run_change [of ?f i run_id db] \<open>rn_id seen = run_id\<close> Some by (simp add: update_run_workflow_def write_patched_def)
  moreover have "?f seen = patched u seen"
    by (simp add: patched_def)
  ultimately show ?thesis
    using Some \<open>rn_id seen = run_id\<close> by (cases "get_run i db") (auto dest: get_run_id)
qed

lemma get_run_clear:
  "get_run i (clear_active_process run_id pid db) =
   map_option (\<lambda>r. if i = run_id \<and> rn_active_pid r = Some pid then r\<lparr>rn_active_pid := None\<rparr> else r) (get_run i db)"
  unfolding clear_active_process_def
  by (subst get_run_change) (auto simp: get_run_id split: option.split, (cases "get_run i db"; auto dest: get_run_id)+)

lemma get_run_mark:
  "get_run i (snd (mark_cancelled run_id db)) =
   map_option (\<lambda>r. if i = run_id \<and> cancellable (rn_status r) then r\<lparr>rn_status := Cancelled\<rparr> else r) (get_run i db)"
proof -
  let ?f = "\<lambda>r. if cancellable (rn_status r) then r\<lparr>rn_status := Cancelled\<rparr> else r"
  have "get_run i (change_run run_id ?f db) = map_option (\<lambda>r. if rn_id r = run_id then ?f r else r) (get_run i db)"
    by (rule get_run_change) simp
  then show ?thesis
    by (cases "get_run i db"; cases "get_run run_id db") (auto simp: mark_cancelled_def Let_def dest: get_run_id)
qed

text \<open>After a cancellation the run has the status \<open>cancelled\<close>, or one that cannot be cancelled.\<close>

definition cancelled_status :: "run_status \<Rightarrow> run_status" where
  "cancelled_status s = (if cancellable s then Cancelled else s)"

lemma status_cancel:
  "map_option rn_status (get_run i (snd (cancel_run run_id db))) =
   map_option (\<lambda>r. if i = run_id then cancelled_status (rn_status r) else rn_status r) (get_run i db)"
proof (cases "get_run run_id db")
  case None
  then show ?thesis
    by (cases "get_run i db") (auto simp: cancel_run_def)
next
  case (Some r)
  define db1 where "db1 = (case rn_active_pid r of None \<Rightarrow> db | Some pid \<Rightarrow> if pid = 0 then db else clear_active_process run_id pid db)"
  have "snd (cancel_run run_id db) = snd (mark_cancelled run_id db1)"
    by (simp add: cancel_run_def Some db1_def [symmetric] Let_def split: prod.split option.split)
  moreover have "map_option rn_status (get_run i db1) = map_option rn_status (get_run i db)"
    by (cases "get_run i db") (auto simp: db1_def get_run_clear split: option.split)
  ultimately show ?thesis
    by (cases "get_run i db"; cases "get_run i db1") (auto simp: get_run_mark cancelled_status_def)
qed

lemma other_cancel: "i \<noteq> run_id \<Longrightarrow> get_run i (snd (cancel_run run_id db)) = get_run i db"
  by (auto simp: cancel_run_def get_run_mark get_run_clear Let_def option.map_ident split: option.split prod.split
    dest!: arg_cong [where f = snd])

definition run_ids :: "agent_db \<Rightarrow> string list" where
  "run_ids db = map rn_id (ag_runs db)"

lemma run_ids_inserts [simp]:
  "run_ids (add_message run_id it f t k c db) = run_ids db" "run_ids (add_artifact run_id st ak n c db) = run_ids db"
  "run_ids (add_event run_id ek ch ag st c db) = run_ids db" "run_ids (finish_step step ss code m db) = run_ids db"
  by (simp_all add: run_ids_def)

lemma run_ids_change [simp]: "(\<And>r. rn_id (f r) = rn_id r) \<Longrightarrow> run_ids (change_run run_id f db) = run_ids db"
  by (simp add: run_ids_def ids_of_change)

lemma run_ids_update [simp]: "run_ids (update_run_workflow run_id u db) = run_ids db"
proof (cases "get_run run_id db")
  case (Some seen)
  then have "rn_id seen = run_id"
    by (rule get_run_id)
  then show ?thesis
    by (auto simp: update_run_workflow_def Some write_patched_def run_ids_def change_run_def)
qed (simp add: update_run_workflow_def)

lemma run_ids_clear [simp]: "run_ids (clear_active_process run_id pid db) = run_ids db"
  by (simp add: clear_active_process_def)

lemma run_ids_mark [simp]: "run_ids (snd (mark_cancelled run_id db)) = run_ids db"
  by (simp add: mark_cancelled_def Let_def split: option.split)

lemma run_ids_cancel [simp]: "run_ids (snd (cancel_run run_id db)) = run_ids db"
proof (cases "get_run run_id db")
  case (Some r)
  then have "snd (cancel_run run_id db) = snd (mark_cancelled run_id
      (case rn_active_pid r of None \<Rightarrow> db | Some pid \<Rightarrow> if pid = 0 then db else clear_active_process run_id pid db))"
    by (simp add: cancel_run_def Let_def split: prod.split option.split)
  then show ?thesis
    by (simp split: option.split)
qed (simp add: cancel_run_def)

text \<open>\<open>touched\<close>: only the run \<open>i\<close> may differ, and its status only by a cancellation.\<close>

definition touched :: "string \<Rightarrow> bool \<Rightarrow> agent_db \<Rightarrow> agent_db \<Rightarrow> bool" where
  "touched i c db db' =
     ((\<forall>j. j \<noteq> i \<longrightarrow> get_run j db' = get_run j db) \<and> run_ids db' = run_ids db
      \<and> (map_option rn_status (get_run i db') = map_option rn_status (get_run i db)
         \<or> c \<and> map_option rn_status (get_run i db') = map_option (\<lambda>r. cancelled_status (rn_status r)) (get_run i db)))"

lemma touched_refl: "touched i c db db"
  by (simp add: touched_def)

lemma touched_cong: "touched i c db db1 \<Longrightarrow> ag_runs db2 = ag_runs db1 \<Longrightarrow> touched i c db db2"
  using get_run_cong [of db2 db1] by (simp add: touched_def run_ids_def)

lemma run_command_touched:
  assumes "run_command i channel agent step a db = (x, db')"
  shows "touched i (no_cancelled a) db db'"
proof -
  define db0 where "db0 = (if no_started a \<and> no_pid a > 0
    then update_run_workflow i (no_patch\<lparr>up_active_pid := Some (Some (no_pid a))\<rparr>) db else db)"
  define db1 where "db1 = (if no_started a
    then fold (\<lambda>(kind, chunk). add_event i kind channel (Some agent) (Some step) chunk) (no_chunks a) db0 else db0)"
  define db2 where "db2 = (if no_cancelled a then snd (cancel_run i db1) else db1)"
  define db3 where "db3 = (if no_started a \<and> no_pid a \<noteq> 0 then clear_active_process i (no_pid a) db2 else db2)"
  have 0: "ag_runs db1 = ag_runs db0"
    by (simp add: db1_def)
  have 10: "get_run j db1 = get_run j db0" for j
    by (rule get_run_cong [OF 0])
  have ids: "run_ids db1 = run_ids db"
    by (simp add: run_ids_def 0) (simp add: run_ids_def [symmetric] db0_def)
  have 1: "get_run j db1 = get_run j db" if "j \<noteq> i" for j
    using that by (simp add: 10 db0_def get_run_update option.map_ident)
  have 2: "map_option rn_status (get_run i db1) = map_option rn_status (get_run i db)"
    by (cases "get_run i db") (simp_all add: 10 db0_def get_run_update patched_def no_patch_def)
  have 3: "map_option rn_status (get_run i db2) =
      (if no_cancelled a then map_option (\<lambda>r. cancelled_status (rn_status r)) (get_run i db) else map_option rn_status (get_run i db))"
    using 2 by (cases "get_run i db"; cases "get_run i db1") (auto simp: db2_def status_cancel)
  have 4: "map_option rn_status (get_run i db3) = map_option rn_status (get_run i db2)"
    by (cases "get_run i db2") (auto simp: db3_def get_run_clear)
  have 5: "get_run j db3 = get_run j db" if "j \<noteq> i" for j
    using that 1 by (simp add: db3_def db2_def get_run_clear other_cancel option.map_ident)
  have "run_ids db3 = run_ids db"
    by (simp add: db3_def db2_def ids)
  then have "touched i (no_cancelled a) db db3"
    using 3 4 5 by (auto simp: touched_def)
  moreover have "ag_runs db' = ag_runs db3"
    using assms by (auto simp: run_command_def Let_def db0_def db1_def db2_def db3_def)
  ultimately show ?thesis
    by (rule touched_cong)
qed

lemma agent_turn_touched:
  assumes "agent_turn i iteration agent provider prompt starting step a db = (x, db')"
  shows "touched i (no_cancelled a) db db'"
proof -
  have "touched i (no_cancelled a) (add_event i StatusEvent ch (Some agent) (Some step) t (add_message i iteration Orchestrator (Some agent) Instruction prompt db)) db''
      \<Longrightarrow> touched i (no_cancelled a) db db''" for ch t db''
    by (simp add: touched_def)
  then show ?thesis
    using assms by (auto simp: agent_turn_def Let_def dest!: run_command_touched split: if_splits sum.splits
      intro: touched_cong [OF touched_refl])
qed

section \<open>The effect of a node\<close>

fun node_status :: "graph_node \<Rightarrow> run_status" where
  "node_status ContextNode = ContextIndexing"
| "node_status PlanningNode = Planning"
| "node_status ImplementingNode = Implementing"
| "node_status TestingNode = Testing"
| "node_status ReviewingNode = Reviewing"
| "node_status EndNode = WaitingApproval"

text \<open>The run exists and ends with the status of the node, or cancelled if somebody did so.\<close>

definition node_effect :: "string \<Rightarrow> run_status \<Rightarrow> bool \<Rightarrow> agent_db \<Rightarrow> agent_db \<Rightarrow> bool" where
  "node_effect i st c db db' =
     ((\<forall>j. j \<noteq> i \<longrightarrow> get_run j db' = get_run j db) \<and> run_ids db' = run_ids db \<and> get_run i db \<noteq> None
      \<and> (map_option rn_status (get_run i db') = Some st \<or> c \<and> map_option rn_status (get_run i db') = Some Cancelled))"

lemma entered:
  assumes "enter_node i u name db = (Inr (r, step), db1)" "up_status u = Some st"
  shows "get_run i db = Some r" "\<forall>j. j \<noteq> i \<longrightarrow> get_run j db1 = get_run j db" "run_ids db1 = run_ids db"
    "map_option rn_status (get_run i db1) = Some st"
proof -
  show r: "get_run i db = Some r"
    using assms(1) by (auto simp: enter_node_def create_step_def split: option.splits)
  have "ag_runs db1 = ag_runs (update_run_workflow i u db)"
    using assms(1) by (auto simp: enter_node_def create_step_def split: option.splits)
  then have g: "get_run j db1 = get_run j (update_run_workflow i u db)" and ids: "run_ids db1 = run_ids (update_run_workflow i u db)" for j
    by (rule get_run_cong) (simp add: run_ids_def \<open>ag_runs db1 = _\<close>)
  show "\<forall>j. j \<noteq> i \<longrightarrow> get_run j db1 = get_run j db"
    by (simp add: g get_run_update option.map_ident)
  show "run_ids db1 = run_ids db"
    by (simp add: ids)
  show "map_option rn_status (get_run i db1) = Some st"
    by (simp add: g get_run_update r patched_def assms(2) coalesce_def)
qed

lemma entered_effect:
  assumes "enter_node i u name db = (Inr (r, step), db1)" "up_status u = Some st" "cancellable st" "touched i c db1 db2"
  shows "node_effect i st c db db2"
proof -
  note e = entered [OF assms(1,2)]
  obtain r1 where "get_run i db1 = Some r1" "rn_status r1 = st"
    using e(4) by auto
  then show ?thesis
    using assms(3,4) e by (auto simp: node_effect_def touched_def cancelled_status_def)
qed

lemma node_effect_cong: "ag_runs db1 = ag_runs db2 \<Longrightarrow> node_effect i st c db db1 = node_effect i st c db db2"
  using get_run_cong [of db1 db2] by (simp add: node_effect_def run_ids_def)

lemma node_effect_inserts [simp]:
  "node_effect i st c db (add_message run_id it f t k co db') = node_effect i st c db db'"
  "node_effect i st c db (add_artifact run_id sp ak n co db') = node_effect i st c db db'"
  "node_effect i st c db (add_event run_id ek ch ag sp co db') = node_effect i st c db db'"
  "node_effect i st c db (finish_step step ss code m db') = node_effect i st c db db'"
  by (rule node_effect_cong; simp)+

lemma enter_fails: "enter_node i u name db = (Inl err, db1) \<Longrightarrow> db1 = db"
  by (auto simp: enter_node_def split: option.splits prod.splits)

text \<open>What a node may do: fail before its row is written, or have its effect; a normal end keeps the run and the
  limit and raises the iteration by at most one.\<close>

definition node_done :: "graph_node \<Rightarrow> bool \<Rightarrow> graph_state \<Rightarrow> agent_db \<Rightarrow> (string, graph_state) result \<times> agent_db \<Rightarrow> bool" where
  "node_done n c s db out =
     ((case fst out of Inl _ \<Rightarrow> snd out = db \<or> node_effect (gs_run s) (node_status n) c db (snd out)
       | Inr s' \<Rightarrow> node_effect (gs_run s) (node_status n) c db (snd out) \<and> gs_run s' = gs_run s
           \<and> gs_max_iterations s' = gs_max_iterations s
           \<and> gs_iteration s' = (if n = TestingNode \<and> \<not> gs_tester_passed s' \<or> n = ReviewingNode \<and> \<not> gs_reviewer_passed s'
               then gs_iteration s + 1 else gs_iteration s)))"

lemma node_done_closed:
  assumes "node_effect (gs_run s) (node_status n) c db db1"
    and "case x of Inl _ \<Rightarrow> True | Inr s' \<Rightarrow> gs_run s' = gs_run s \<and> gs_max_iterations s' = gs_max_iterations s
           \<and> gs_iteration s' = (if n = TestingNode \<and> \<not> gs_tester_passed s' \<or> n = ReviewingNode \<and> \<not> gs_reviewer_passed s'
               then gs_iteration s + 1 else gs_iteration s)"
  shows "node_done n c s db (close_step step x db1)"
proof (cases x)
  case (Inl err)
  then show ?thesis
    using assms(1) by (simp add: node_done_def close_step_def)
next
  case (Inr s')
  show ?thesis
    using assms(1,2) by (simp add: node_done_def close_step_def Inr)
qed

text \<open>A node that is entered and then turns one agent.\<close>

lemma turn_effect:
  assumes "enter_node i u name db = (Inr (r, step), db1)" "up_status u = Some st" "cancellable st"
    and "agent_turn i iteration agent provider prompt starting step a db1 = (x, db2)"
  shows "node_effect i st (no_cancelled a) db db2"
  using assms(1-3) agent_turn_touched [OF assms(4)] by (rule entered_effect)

lemma node_done_failed: "enter_node i u name db = (Inl err, db1) \<Longrightarrow> node_done n c s db (Inl err', db1)"
  by (auto simp: node_done_def dest: enter_fails)

lemma context_node_done: "node_done ContextNode (no_cancelled a) s db (context_node a s db)"
proof (cases "get_run (gs_run s) db")
  case None
  then show ?thesis
    by (simp add: context_node_def node_done_def)
next
  case (Some r)
  then have r: "rn_id r = gs_run s"
    by (rule get_run_id)
  show ?thesis
  proof (cases "case rn_workspace r of Some w \<Rightarrow> returns w | None \<Rightarrow> no_workspace a")
    case (Inl err)
    then show ?thesis
      using Some by (simp add: context_node_def node_done_def)
  next
    case (Inr w)
    let ?u = "no_patch\<lparr>up_workspace := Some (Some w), up_workflow_state := Some (Some ''context_indexing''),
      up_status := Some ContextIndexing, up_step := Some (Some ContextStep)\<rparr>"
    obtain x db1 where e: "enter_node (gs_run s) ?u ContextStep db = (x, db1)"
      by (cases "enter_node (gs_run s) ?u ContextStep db")
    obtain r' step where x: "x = Inr (r', step)"
      using e Some by (auto simp: enter_node_def create_step_def)
    have "node_effect (gs_run s) ContextIndexing (no_cancelled a) db db1"
      by (rule entered_effect [OF e [unfolded x] _ _ touched_refl]) (auto simp: cancellable_def)
    then show ?thesis
      using Some Inr e x r by (auto simp: context_node_def intro!: node_done_closed split: sum.split)
  qed
qed

lemma planning_node_done: "node_done PlanningNode (no_cancelled a) s db (planning_node a s db)"
  unfolding planning_node_def
  apply (simp split: prod.split sum.split add: Let_def node_done_failed)
  apply (intro allI impI conjI node_done_closed)
  apply (simp_all add: no_patch_def)
  apply (erule turn_effect entered_effect [OF _ _ _ touched_refl]; (assumption | simp add: cancellable_def))+
  done

lemma implementing_node_done: "node_done ImplementingNode (no_cancelled a) s db (implementing_node a s db)"
  unfolding implementing_node_def
  apply (simp split: prod.split sum.split add: Let_def node_done_failed)
  apply (intro allI impI conjI node_done_closed)
  apply (simp_all add: no_patch_def)
  apply (erule turn_effect entered_effect [OF _ _ _ touched_refl]; (assumption | simp add: cancellable_def))+
  done

lemma testing_node_done: "node_done TestingNode (no_cancelled a) s db (testing_node a s db)"
  unfolding testing_node_def
  apply (simp split: prod.split sum.split add: Let_def node_done_failed)
  apply (intro allI impI conjI node_done_closed)
  apply (simp_all add: no_patch_def)
  apply (erule turn_effect entered_effect [OF _ _ _ touched_refl]; (assumption | simp add: cancellable_def))+
  done

lemma reviewing_node_done: "node_done ReviewingNode (no_cancelled a) s db (reviewing_node a s db)"
  unfolding reviewing_node_def
  apply (simp split: prod.split sum.split add: Let_def node_done_failed)
  apply (intro allI impI conjI node_done_closed)
  apply (simp_all add: no_patch_def)
  apply (erule turn_effect entered_effect [OF _ _ _ touched_refl]; (assumption | simp add: cancellable_def))+
  done

lemma run_node_done: "n \<noteq> EndNode \<Longrightarrow> node_done n (no_cancelled a) s db (run_node n a s db)"
  by (cases n) (simp_all add: context_node_done planning_node_done implementing_node_done
      testing_node_done reviewing_node_done)

lemma run_node_returned:
  assumes "run_node n a s db = (Inr s', db')" "n \<noteq> EndNode"
  shows "node_effect (gs_run s) (node_status n) (no_cancelled a) db db'" "gs_run s' = gs_run s"
    "gs_max_iterations s' = gs_max_iterations s"
    "gs_iteration s' = (if n = TestingNode \<and> \<not> gs_tester_passed s' \<or> n = ReviewingNode \<and> \<not> gs_reviewer_passed s'
       then gs_iteration s + 1 else gs_iteration s)"
  using run_node_done [OF assms(2), of a s db] by (simp_all only: assms(1) node_done_def fst_conv snd_conv sum.case)

lemma run_node_threw:
  assumes "run_node n a s db = (Inl err, db')" "n \<noteq> EndNode"
  shows "db' = db \<or> node_effect (gs_run s) (node_status n) (no_cancelled a) db db'"
  using run_node_done [OF assms(2), of a s db] by (simp only: assms(1) node_done_def fst_conv snd_conv sum.case)

section \<open>The graph stops\<close>

text \<open>How many answers the graph can still take: the retries left are \<open>maxIterations - 1\<close> less the iteration.\<close>

definition retries :: "graph_state \<Rightarrow> nat" where
  "retries s = nat (gs_max_iterations s - 1 - gs_iteration s)"

fun node_cost :: "graph_node \<Rightarrow> graph_state \<Rightarrow> nat" where
  "node_cost ContextNode s = 5 + 3 * retries s"
| "node_cost PlanningNode s = 4 + 3 * retries s"
| "node_cost ImplementingNode s = 3 + 3 * retries s"
| "node_cost TestingNode s = 2 + 3 * retries s"
| "node_cost ReviewingNode s = 1 + 3 * retries s"
| "node_cost EndNode s = 0"

lemma node_cost_decreases:
  assumes "run_node n a s db = (Inr s', db')" "n \<noteq> EndNode"
  shows "node_cost (next_node n s') s' < node_cost n s"
  using run_node_returned(3,4) [OF assms] assms(2)
  by (cases n) (auto simp: retries_def route_tester_def route_reviewer_def split: if_splits)

lemma invoke_step:
  "n \<noteq> EndNode \<Longrightarrow> invoke (a # as) n s db =
     (case run_node n a s db of (Inl err, db') \<Rightarrow> (Threw err, db') | (Inr s', db') \<Rightarrow> invoke as (next_node n s') s' db')"
  by (cases n; hypsubst; simp)

lemma invoke_within_cost: "node_cost n s \<le> length as \<Longrightarrow> fst (invoke as n s db) \<noteq> Waiting m s1"
proof (induction as arbitrary: n s db)
  case Nil
  then show ?case
    by (cases n) simp_all
next
  case (Cons a as)
  show ?case
  proof (cases "n = EndNode")
    case False
    obtain x db' where x: "run_node n a s db = (x, db')"
      by (cases "run_node n a s db")
    show ?thesis
    proof (cases x)
      case (Inr s')
      then have "node_cost (next_node n s') s' \<le> length as"
        using node_cost_decreases [OF x [unfolded Inr] False] Cons.prems by simp
      then have "fst (invoke as (next_node n s') s' db') \<noteq> Waiting m s1"
        by (rule Cons.IH)
      then show ?thesis
        using x Inr False by (simp add: invoke_step)
    qed (use x False in \<open>simp add: invoke_step\<close>)
  qed simp
qed

section \<open>What a graph leaves\<close>

text \<open>The runs a worker has begun and no human has yet to decide.\<close>

definition begun :: "run_status \<Rightarrow> bool" where
  "begun st = (st \<in> {ContextIndexing, Planning, Implementing, Testing, Reviewing, Cancelled})"

definition begun_run :: "string \<Rightarrow> agent_db \<Rightarrow> bool" where
  "begun_run i db = (case get_run i db of None \<Rightarrow> True | Some r \<Rightarrow> begun (rn_status r))"

definition others_kept :: "string \<Rightarrow> agent_db \<Rightarrow> agent_db \<Rightarrow> bool" where
  "others_kept i db db' = ((\<forall>j. j \<noteq> i \<longrightarrow> get_run j db' = get_run j db) \<and> run_ids db' = run_ids db)"

lemma node_begun:
  assumes "run_node n a s db = (x, db')" "n \<noteq> EndNode" "begun_run (gs_run s) db"
  shows "begun_run (gs_run s) db' \<and> others_kept (gs_run s) db db'"
proof -
  have "begun (node_status n)" "begun Cancelled"
    using assms(2) by (cases n; simp add: begun_def) (simp add: begun_def)
  then have *: "begun_run (gs_run s) db' \<and> others_kept (gs_run s) db db'"
    if "node_effect (gs_run s) (node_status n) (no_cancelled a) db db'"
    using that by (auto simp: node_effect_def begun_run_def others_kept_def split: option.split)
  show ?thesis
  proof (cases x)
    case (Inl err)
    then show ?thesis
      using run_node_threw [OF assms(1) [unfolded Inl] assms(2)] * assms(3) by (auto simp: others_kept_def)
  next
    case (Inr s')
    then show ?thesis
      using run_node_returned(1) [OF assms(1) [unfolded Inr] assms(2)] * by blast
  qed
qed

lemma others_kept_trans: "others_kept i db db1 \<Longrightarrow> others_kept i db1 db2 \<Longrightarrow> others_kept i db db2"
  by (simp add: others_kept_def)

fun result_state :: "graph_result \<Rightarrow> graph_state option" where
  "result_state (Ended s) = Some s"
| "result_state (Waiting n s) = Some s"
| "result_state (Threw err) = None"

lemma invoke_begun:
  assumes "begun_run (gs_run s) db"
  shows "begun_run (gs_run s) (snd (invoke as n s db)) \<and> others_kept (gs_run s) db (snd (invoke as n s db))
    \<and> (\<forall>s'. result_state (fst (invoke as n s db)) = Some s' \<longrightarrow> gs_run s' = gs_run s)"
  using assms
proof (induction as arbitrary: n s db)
  case Nil
  then show ?case
    by (cases n) (simp_all add: others_kept_def)
next
  case (Cons a as)
  show ?case
  proof (cases "n = EndNode")
    case True
    then show ?thesis
      using Cons.prems by (simp add: others_kept_def)
  next
    case False
    obtain x db' where x: "run_node n a s db = (x, db')"
      by (cases "run_node n a s db")
    note b = node_begun [OF x False Cons.prems]
    show ?thesis
    proof (cases x)
      case (Inl err)
      then show ?thesis
        using b x False by (simp add: invoke_step)
    next
      case (Inr s')
      have s': "gs_run s' = gs_run s"
        using run_node_returned(2) [OF x [unfolded Inr] False] .
      note ih = Cons.IH [of s' db' "next_node n s'", unfolded s', OF b [THEN conjunct1]]
      have eq: "invoke (a # as) n s db = invoke as (next_node n s') s' db'"
        using x Inr False by (simp add: invoke_step)
      have "others_kept (gs_run s) db (snd (invoke as (next_node n s') s' db'))"
        by (rule others_kept_trans [OF b [THEN conjunct2] ih [THEN conjunct2, THEN conjunct1]])
      then show ?thesis
        unfolding eq by (intro conjI ih [THEN conjunct1] ih [THEN conjunct2, THEN conjunct2])
    qed
  qed
qed

lemma invoke_append:
  "invoke (as @ bs) n s db =
     (case invoke as n s db of (Waiting m s1, db1) \<Rightarrow> invoke bs m s1 db1 | (out, db1) \<Rightarrow> (out, db1))"
proof (induction as arbitrary: n s db)
  case Nil
  then show ?case
    by (cases n) simp_all
next
  case (Cons a as)
  show ?case
  proof (cases "n = EndNode")
    case False
    then show ?thesis
      using Cons.IH by (simp add: invoke_step split: prod.split sum.split)
  qed simp
qed

lemma find_by_key: "x \<in> set xs \<Longrightarrow> distinct (map f xs) \<Longrightarrow> find (\<lambda>y. f y = f x) xs = Some x"
  by (induction xs) auto

lemma claimed_run:
  assumes "claim_next_run locked db0 = (Some r, db)" "distinct (run_ids db0)"
  obtains r0 where "get_run (rn_id r) db0 = Some r0" "rn_status r0 = Queued" "r = start_run r0"
    "get_run (rn_id r) db = Some r" "others_kept (rn_id r) db0 db"
proof -
  obtain r0 where r0: "find (\<lambda>r. rn_status r = Queued \<and> rn_id r \<notin> locked) (ag_runs db0) = Some r0"
    "r = start_run r0" "db = change_run (rn_id r0) start_run db0"
    using assms(1) by (auto simp: claim_next_run_def split: option.splits)
  have id: "rn_id r = rn_id r0" and start: "rn_id (start_run q) = rn_id q" for q
    by (simp_all add: r0(2) start_run_def)
  have "r0 \<in> set (ag_runs db0)" "rn_status r0 = Queued"
    using r0(1) by (auto simp: find_Some_iff)
  moreover from this have g: "get_run (rn_id r) db0 = Some r0"
    using assms(2) by (simp add: get_run_def run_ids_def id find_by_key)
  moreover have "get_run (rn_id r) db = Some r"
    using g by (simp add: r0(3) get_run_change start id r0(2) [symmetric])
  moreover have "get_run j db = get_run j db0" if "j \<noteq> rn_id r" for j
    using that by (cases "get_run j db0") (auto simp: r0(3) get_run_change start id dest: get_run_id)
  then have "others_kept (rn_id r) db0 db"
    by (simp add: others_kept_def r0(3) start)
  ultimately show ?thesis
    using that r0(2) by blast
qed

lemma claimed_begun:
  assumes "claim_next_run locked db0 = (Some r, db)" "distinct (run_ids db0)"
  shows "begun_run (gs_run (initial_state r)) db"
proof -
  obtain r0 where "r = start_run r0" "get_run (rn_id r) db = Some r"
    using assms by (rule claimed_run)
  moreover from this(1) have "begun (rn_status r)"
    by (simp add: start_run_def begun_def)
  ultimately show ?thesis
    by (simp add: initial_state_def begun_run_def del: start_run_def)
qed

lemma settle_others: "others_kept i db (settle_run i db)"
  by (auto simp: settle_run_def others_kept_def get_run_update option.map_ident split: option.split)

lemma poll_turn_others:
  assumes "get_run i db = Some q" "rn_status q \<noteq> Queued" "distinct (run_ids db)"
  shows "get_run i (poll_turn locked as db) = Some q \<and> run_ids (poll_turn locked as db) = run_ids db"
proof (cases "fst (claim_next_run locked db)")
  case None
  then show ?thesis
    using assms(1) by (auto simp: poll_turn_def claim_next_run_def split: option.splits)
next
  case (Some r)
  then obtain db1 where c: "claim_next_run locked db = (Some r, db1)"
    by (cases "claim_next_run locked db") simp
  then obtain r0 where r0: "get_run (rn_id r) db = Some r0" "rn_status r0 = Queued" "r = start_run r0"
      "get_run (rn_id r) db1 = Some r" "others_kept (rn_id r) db db1"
    using assms(3) by (rule claimed_run)
  then have i: "i \<noteq> rn_id r"
    using assms(1,2) by auto
  have g: "gs_run (initial_state r) = rn_id r"
    by (simp add: initial_state_def)
  have o1: "others_kept (rn_id r) db1 (snd (invoke as ContextNode (initial_state r) db1))"
    using invoke_begun [OF claimed_begun [OF c assms(3)], of as ContextNode] by (simp add: g)
  obtain out db2 where v: "invoke as ContextNode (initial_state r) db1 = (out, db2)"
    by (cases "invoke as ContextNode (initial_state r) db1")
  have "others_kept (rn_id r) db (poll_turn locked as db)"
    using others_kept_trans [OF r0(5) o1] settle_others [of "rn_id r" db2]
    by (cases out) (auto simp: poll_turn_def c v intro: others_kept_trans)
  then show ?thesis
    using assms(1) i by (simp add: others_kept_def)
qed

lemma get_run_in_ids: "get_run i db = Some r \<Longrightarrow> i \<in> set (run_ids db)"
  by (auto simp: get_run_def run_ids_def find_Some_iff)

lemma run_of_id:
  assumes "i \<in> set (run_ids db)"
  obtains q where "get_run i db = Some q"
  using assms by (cases "get_run i db") (auto simp: get_run_def run_ids_def find_None_iff)

lemma poll_turns_others:
  assumes "get_run i db = Some q" "rn_status q \<noteq> Queued" "distinct (run_ids db)"
  shows "get_run i (fold (\<lambda>(locked, as) db. poll_turn locked as db) turns db) = Some q"
  using assms
proof (induction turns arbitrary: db)
  case (Cons t turns)
  obtain locked as where t: "t = (locked, as)"
    by (cases t)
  show ?case
    using Cons.IH [of "poll_turn locked as db"] poll_turn_others [OF Cons.prems, of locked as] Cons.prems
    by (simp add: t)
qed simp

lemma review_status:
  assumes "invoke [a] ReviewingNode s db1 = (Ended s', db2)" "\<not> no_cancelled a"
  shows "map_option rn_status (get_run (gs_run s) db2) = Some Reviewing"
proof -
  obtain x db' where x: "run_node ReviewingNode a s db1 = (x, db')"
    by (cases "run_node ReviewingNode a s db1")
  have out: "invoke [a] ReviewingNode s db1 =
      (case x of Inl err \<Rightarrow> (Threw err, db') | Inr s1 \<Rightarrow> invoke [] (next_node ReviewingNode s1) s1 db')"
    by (subst invoke_step) (simp_all add: x del: run_node.simps)
  obtain s1 where s1: "x = Inr s1"
    using assms(1) out by (cases x) simp_all
  have "db' = db2"
    using assms(1) out s1 by (cases "next_node ReviewingNode s1") simp_all
  then show ?thesis
    using run_node_returned(1) [OF x [unfolded s1]] assms(2) by (simp add: node_effect_def)
qed

lemma last_event: "ge_content (last (ag_events (add_event run_id ek ch ag st t db))) = t"
  by (simp add: add_event_def)

section \<open>The properties\<close>

fun waits_at :: "graph_node \<Rightarrow> graph_result \<Rightarrow> bool" where
  "waits_at n (Waiting m s) = (m = n)"
| "waits_at n out = False"

fun has_ended :: "graph_result \<Rightarrow> bool" where
  "has_ended (Ended s) = True"
| "has_ended out = False"

fun is_waiting :: "graph_result \<Rightarrow> bool" where
  "is_waiting (Waiting m s) = True"
| "is_waiting out = False"

text \<open>C35: The graph of a run stops: once the nodes have met \<open>5 + 3 * (maxIterations - 2)\<close> answers (5 when
  maxIterations is at most 2) the graph has ended or thrown, whatever the agents decide and whatever fails. The coder
  is therefore asked at most \<open>maxIterations - 1\<close> times, once at least.\<close>

theorem agent_graph_ends:
  assumes "5 + 3 * nat (gs_max_iterations (initial_state r) - 2) \<le> length as"
  shows "\<not> is_waiting (fst (invoke as ContextNode (initial_state r) db))"
proof -
  have "node_cost ContextNode (initial_state r) \<le> length as"
    using assms by (simp add: retries_def initial_state_def)
  note never = invoke_within_cost [OF this]
  show ?thesis
    using never by (cases "fst (invoke as ContextNode (initial_state r) db)") auto
qed

text \<open>C33: A graph that completes asks for approval, whatever was decided: when the last answer is the reviewer's, and
  the run is not cancelled while the reviewer works, the turn of the worker leaves the run waiting for approval with
  the event "review passed" last. The verdicts of tester and reviewer do not matter, nor a cancellation at an earlier
  node.\<close>

theorem completed_run_awaits_approval:
  assumes "claim_next_run locked db0 = (Some r, db)" "distinct (run_ids db0)"
    and "waits_at ReviewingNode (fst (invoke as ContextNode (initial_state r) db))"
    and "has_ended (fst (invoke (as @ [a]) ContextNode (initial_state r) db))" "\<not> no_cancelled a"
  shows "map_option rn_status (get_run (rn_id r) (poll_turn locked (as @ [a]) db0)) = Some WaitingApproval
    \<and> ge_content (last (ag_events (poll_turn locked (as @ [a]) db0))) = ''review passed; waiting for human approval''"
proof -
  obtain s db1 where v: "invoke as ContextNode (initial_state r) db = (Waiting ReviewingNode s, db1)"
    using assms(3) by (cases "invoke as ContextNode (initial_state r) db"; cases "fst (invoke as ContextNode (initial_state r) db)") auto
  obtain s' db2 where w: "invoke (as @ [a]) ContextNode (initial_state r) db = (Ended s', db2)"
    using assms(4) by (cases "invoke (as @ [a]) ContextNode (initial_state r) db"; cases "fst (invoke (as @ [a]) ContextNode (initial_state r) db)") auto
  have last: "invoke [a] ReviewingNode s db1 = (Ended s', db2)"
    using w by (simp only: invoke_append v prod.case graph_result.case)
  have "gs_run s = rn_id r"
    using invoke_begun [OF claimed_begun [OF assms(1,2)], of as ContextNode] v by (simp add: initial_state_def)
  then obtain q where q: "get_run (rn_id r) db2 = Some q" "rn_status q = Reviewing"
    using review_status [OF last assms(5)] by auto
  have "poll_turn locked (as @ [a]) db0 = settle_run (rn_id r) db2"
    by (simp only: poll_turn_def assms(1) w prod.case option.case graph_result.case)
  then show ?thesis
    using q by (simp add: settle_run_def get_run_update patched_def coalesce_def last_event)
qed

text \<open>C34: A run whose graph throws is stranded: the turn that claimed it changes nothing further, so the run keeps a
  status between context indexing and reviewing, or cancelled, it is never marked failed, and no later turn of any
  worker claims or changes it.\<close>

theorem failed_run_is_stranded:
  assumes "claim_next_run locked db0 = (Some r, db)" "distinct (run_ids db0)"
    and "invoke as ContextNode (initial_state r) db = (Threw err, db')"
  shows "poll_turn locked as db0 = db' \<and> (\<exists>q. get_run (rn_id r) db' = Some q \<and> begun (rn_status q)
    \<and> get_run (rn_id r) (fold (\<lambda>(locked, as) db. poll_turn locked as db) turns db') = Some q)"
proof -
  have g: "gs_run (initial_state r) = rn_id r"
    by (simp add: initial_state_def)
  obtain r0 where r0: "r = start_run r0" "get_run (rn_id r) db = Some r" "others_kept (rn_id r) db0 db"
    using assms(1,2) by (rule claimed_run)
  note b = invoke_begun [OF claimed_begun [OF assms(1,2)], of as ContextNode, unfolded g assms(3) snd_conv]
  have d: "distinct (run_ids db')"
    using b r0(3) assms(2) by (simp add: others_kept_def)
  have "rn_id r \<in> set (run_ids db')"
    using b get_run_in_ids [OF r0(2)] by (simp add: others_kept_def)
  then obtain q where q: "get_run (rn_id r) db' = Some q"
    by (rule run_of_id)
  then have "begun (rn_status q)" "rn_status q \<noteq> Queued"
    using b by (auto simp: begun_run_def begun_def)
  moreover have "poll_turn locked as db0 = db'"
    by (simp only: poll_turn_def assms(1,3) prod.case option.case graph_result.case)
  ultimately show ?thesis
    using q poll_turns_others [OF q _ d] by blast
qed

section \<open>Concrete runs\<close>

definition no_agents :: "'a partial_agents" where
  "no_agents = \<lparr>pt_planner = None, pt_coder = None, pt_implementer = None, pt_tester = None, pt_reviewer = None\<rparr>"

definition example_runs :: agent_db where
  "example_runs = create_run ''r1'' \<lparr>pc_repo_root = ''/repo'', pc_max_iterations = 2, pc_max_changed_files = None\<rparr>
     ''fix the bug'' no_agents no_agents
     \<lparr>ag_runs = [], ag_steps = [], ag_artifacts = [], ag_messages = [], ag_events = [], ag_approvals = [], ag_audits = []\<rparr>"

definition example_answer :: "(string, string) result \<Rightarrow> bool \<Rightarrow> node_answer" where
  "example_answer out cancelled =
     \<lparr>no_workspace = returns ''/w'', no_context = returns \<lparr>cx_summary = ''s'', cx_files = [], cx_scripts = ''{}'', cx_json = ''{}''\<rparr>,
      no_available = returns (), no_started = False, no_pid = 0, no_exit = None, no_chunks = [], no_stdout = [], no_stderr = [], no_text = out, no_cancelled = cancelled\<rparr>"

text \<open>The coder is cancelled, the tester fails and the reviewer asks for changes.\<close>

definition unhappy_answers :: "node_answer list" where
  "unhappy_answers =
     [example_answer (returns []) False, example_answer (returns ''plan'') False, example_answer (returns ''done'') True,
      example_answer (returns ''AGENT_DECISION: fail'') False]"

definition example_claimed :: agent_run where
  "example_claimed = (case fst (claim_next_run {} example_runs) of Some r \<Rightarrow> r | None \<Rightarrow> undefined)"

lemma example_claim: "claim_next_run {} example_runs = (Some example_claimed, snd (claim_next_run {} example_runs))"
proof -
  have "\<not> Option.is_none (fst (claim_next_run {} example_runs))"
    by code_simp
  then have "fst (claim_next_run {} example_runs) = Some example_claimed"
    by (auto simp: example_claimed_def Option.is_none_def split: option.split)
  then show ?thesis
    by (metis prod.collapse)
qed

lemma agent_graph_ends_witness:
  "\<not> is_waiting (fst (invoke (unhappy_answers @ [example_answer (returns ''ok'') False]) ContextNode
     (initial_state example_claimed) (snd (claim_next_run {} example_runs))))"
  by (rule agent_graph_ends) code_simp

lemmas turn_defs = enter_node_def agent_turn_def run_command_def close_step_def create_step_def finish_step_def
  add_artifact_def add_message_def add_event_def update_run_workflow_def write_patched_def patched_def no_patch_def change_run_def
  get_run_def cancel_run_def mark_cancelled_def clear_active_process_def cancellable_def coalesce_def known_providers_def

lemmas parse_defs = parse_agent_decision_def strip_keyword_def lower_char_def is_space_def

lemma unhappy_reviewer:
  "waits_at ReviewingNode (fst (invoke unhappy_answers ContextNode (initial_state example_claimed) (snd (claim_next_run {} example_runs))))"
  "has_ended (fst (invoke (unhappy_answers @ [example_answer (returns ''AGENT_DECISION: needs_changes'') False]) ContextNode
      (initial_state example_claimed) (snd (claim_next_run {} example_runs))))"
proof -
  have db: "snd (claim_next_run {} example_runs) = example_runs\<lparr>ag_runs := [example_claimed]\<rparr>"
    by code_simp
  have r: "example_claimed = example_claimed\<lparr>rn_id := ''r1'', rn_workspace := None, rn_active_pid := None,
      rn_providers := \<lparr>pm_planner = ''antigravity'', pm_coder = ''codex'', pm_tester = ''codex'', pm_reviewer = ''codex''\<rparr>\<rparr>"
    by code_simp
  have s: "initial_state example_claimed = (initial_state example_claimed)\<lparr>gs_run := ''r1'', gs_iteration := 1, gs_max_iterations := 2\<rparr>"
    by code_simp
  show "waits_at ReviewingNode (fst (invoke unhappy_answers ContextNode (initial_state example_claimed) (snd (claim_next_run {} example_runs))))"
    unfolding db unhappy_answers_def example_answer_def
    apply (subst s, subst (2) r)
    apply (simp add: context_node_def turn_defs Let_def)
    apply (simp add: planning_node_def turn_defs Let_def)
    apply (simp add: implementing_node_def turn_defs Let_def)
    apply (simp add: testing_node_def turn_defs Let_def parse_defs route_tester_def)
    done
  show "has_ended (fst (invoke (unhappy_answers @ [example_answer (returns ''AGENT_DECISION: needs_changes'') False]) ContextNode
      (initial_state example_claimed) (snd (claim_next_run {} example_runs))))"
    unfolding db unhappy_answers_def example_answer_def
    apply (subst s, subst (2) r)
    apply (simp add: context_node_def turn_defs Let_def)
    apply (simp add: planning_node_def turn_defs Let_def)
    apply (simp add: implementing_node_def turn_defs Let_def)
    apply (simp add: testing_node_def turn_defs Let_def parse_defs route_tester_def)
    apply (simp add: reviewing_node_def turn_defs Let_def parse_defs route_reviewer_def)
    done
qed

lemma completed_run_awaits_approval_witness:
  "map_option rn_status (get_run (rn_id example_claimed) (poll_turn {} (unhappy_answers @ [example_answer (returns ''AGENT_DECISION: needs_changes'') False]) example_runs)) = Some WaitingApproval
   \<and> ge_content (last (ag_events (poll_turn {} (unhappy_answers @ [example_answer (returns ''AGENT_DECISION: needs_changes'') False]) example_runs))) = ''review passed; waiting for human approval''"
  by (rule completed_run_awaits_approval [OF example_claim _ unhappy_reviewer]) (code_simp, simp add: example_answer_def)

definition no_disk :: node_answer where
  "no_disk = (example_answer (returns []) False)\<lparr>no_workspace := throws ''disk full''\<rparr>"

lemma failed_run_is_stranded_witness:
  "\<exists>q. get_run (rn_id example_claimed) (poll_turn {} [no_disk] example_runs) = Some q
     \<and> begun (rn_status q)"
proof -
  let ?out = "invoke [no_disk] ContextNode
    (initial_state example_claimed) (snd (claim_next_run {} example_runs))"
  have "fst ?out = Threw ''disk full''"
    by code_simp
  then have *: "?out = (Threw ''disk full'', snd ?out)"
    by (metis prod.collapse)
  have "distinct (run_ids example_runs)"
    by code_simp
  from failed_run_is_stranded [OF example_claim this *, of "[]"] show ?thesis
    by auto
qed

end
