(* ===== verification/Categories.thy ===== *)
theory Categories
  imports Notifications
begin

text \<open>
  The categories of the catalog: modules/categories (repository, use cases and the handlers that change a category)
  and helpers/category.helper.ts. A table is the list of its rows in the order \<open>findMany\<close> gives them; columns no
  operation reads (description, creators, dates) are left out. The two recursions over the rows may not end, so they
  run on a stack of a given number of frames. A statement of the database fails with the code of Prisma; the use cases
  send their statements outside a transaction, so a failure keeps what was done before. Of the products there is what a
  deletion of their category does to them.
\<close>

section \<open>Rows\<close>

record category_row =
  ct_id :: int
  ct_name :: string
  ct_parent :: "int option"
  ct_status :: string
  ct_deleted :: bool
  ct_slug :: "string option"
  ct_image :: "string option"

text \<open>A product with the number of its orders and bans, whose foreign keys keep it from being deleted; its history, its
  watchers and its questions go with it.\<close>

record category_product =
  pd_id :: int
  pd_category :: "int option"
  pd_orders :: nat
  pd_bans :: nat

type_synonym shelf = "category_row list \<times> category_product list"

datatype category_node =
  CategoryNode (nd_id: int) (nd_image: string) (nd_name: string) (nd_slug: "string option") (nd_children: "category_node list")

section \<open>Recursions over the rows\<close>

text \<open>\<open>buildTree\<close> of the helper: None when the stack is used up.\<close>

primrec build_tree :: "nat \<Rightarrow> category_row list \<Rightarrow> int option \<Rightarrow> category_node list option" where
  "build_tree 0 rows parent = None"
| "build_tree (Suc frames) rows parent =
     those (map (\<lambda>r. map_option (CategoryNode (ct_id r) (coalesce (ct_image r) []) (ct_name r) (ct_slug r))
                       (build_tree frames rows (Some (ct_id r))))
                (filter (\<lambda>r. ct_parent r = parent) rows))"

text \<open>\<open>findDescendants\<close>: a row is pushed before the rows below it.\<close>

primrec find_descendants :: "nat \<Rightarrow> category_row list \<Rightarrow> int \<Rightarrow> int list option" where
  "find_descendants 0 rows parent = None"
| "find_descendants (Suc frames) rows parent =
     map_option concat (those (map (\<lambda>r. map_option (Cons (ct_id r)) (find_descendants frames rows (ct_id r)))
                                   (filter (\<lambda>r. ct_parent r = Some parent) rows)))"

definition get_all_categories :: "category_row list \<Rightarrow> category_row list" where
  "get_all_categories rows = filter (\<lambda>r. ct_status r = ''active'' \<and> \<not> ct_deleted r) rows"

definition get_all_categories_tree :: "nat \<Rightarrow> category_row list \<Rightarrow> category_node list option" where
  "get_all_categories_tree frames rows = build_tree frames (get_all_categories rows) None"

definition build_category_tree_admin :: "nat \<Rightarrow> category_row list \<Rightarrow> category_node list option" where
  "build_category_tree_admin frames rows = build_tree frames (filter (\<lambda>r. \<not> ct_deleted r) rows) None"

definition get_all_categories_lv1 :: "category_row list \<Rightarrow> category_row list" where
  "get_all_categories_lv1 rows = filter (\<lambda>r. ct_parent r = None) rows"

definition get_all_categories_lv2 :: "(string \<Rightarrow> string) \<Rightarrow> int \<Rightarrow> string \<Rightarrow> category_row list \<Rightarrow> (category_row list \<times> string) option" where
  "get_all_categories_lv2 slugify category slug rows =
     (case find (\<lambda>r. ct_id r = category) rows of
        None \<Rightarrow> None
      | Some parent \<Rightarrow> if slugify (ct_name parent) \<noteq> slug then None
                       else Some (filter (\<lambda>r. ct_parent r = Some category) rows, ct_name parent))"

section \<open>Statements\<close>

text \<open>The foreign key: a parent exists. The unique column: a slug belongs to one row.\<close>

definition parents_exist :: "category_row list \<Rightarrow> bool" where
  "parents_exist rows = list_all (\<lambda>r. case ct_parent r of None \<Rightarrow> True | Some p \<Rightarrow> p \<in> set (map ct_id rows)) rows"

definition slugs_differ :: "category_row list \<Rightarrow> bool" where
  "slugs_differ rows = distinct (map ct_slug (filter (\<lambda>r. ct_slug r \<noteq> None) rows))"

definition category_fits :: "category_row \<Rightarrow> bool" where
  "category_fits r = (length (ct_name r) \<le> 50 \<and> length (ct_status r) \<le> 10
     \<and> (case ct_slug r of None \<Rightarrow> True | Some s \<Rightarrow> length s \<le> 100))"

text \<open>A statement that would leave the table in breach of a constraint fails and changes nothing.\<close>

definition commit_rows :: "category_row list \<Rightarrow> category_row list \<Rightarrow> (string, unit) result \<times> category_row list" where
  "commit_rows rows rows' =
     (if \<not> distinct (map ct_id rows') \<or> \<not> slugs_differ rows' then (throws ''P2002'', rows)
      else if \<not> list_all category_fits rows' then (throws ''P2000'', rows)
      else if \<not> parents_exist rows' then (throws ''P2003'', rows)
      else (returns (), rows'))"

definition insert_category :: "category_row \<Rightarrow> category_row list \<Rightarrow> (string, unit) result \<times> category_row list" where
  "insert_category r rows = commit_rows rows (rows @ [r])"

text \<open>What a body sets of the columns; the identifier is left as it is.\<close>

record category_patch =
  cp_name :: "string option"
  cp_parent :: "int option option"
  cp_status :: "string option"
  cp_slug :: "string option option"
  cp_image :: "string option option"

definition patch_category :: "category_patch \<Rightarrow> category_row \<Rightarrow> category_row" where
  "patch_category p r =
     r\<lparr>ct_name := coalesce (cp_name p) (ct_name r), ct_parent := coalesce (cp_parent p) (ct_parent r),
       ct_status := coalesce (cp_status p) (ct_status r), ct_slug := coalesce (cp_slug p) (ct_slug r),
       ct_image := coalesce (cp_image p) (ct_image r)\<rparr>"

definition update_category_with_id :: "int \<Rightarrow> category_patch \<Rightarrow> category_row list \<Rightarrow> (string, unit) result \<times> category_row list" where
  "update_category_with_id category p rows =
     commit_rows rows (map (\<lambda>r. if ct_id r = category \<and> \<not> ct_deleted r then patch_category p r else r) rows)"

definition set_deleted :: "bool \<Rightarrow> int \<Rightarrow> category_row list \<Rightarrow> (string, unit) result \<times> category_row list" where
  "set_deleted d category rows =
     (if category \<notin> set (map ct_id rows) then (throws ''P2025'', rows)
      else (returns (), map (\<lambda>r. if ct_id r = category then r\<lparr>ct_deleted := d\<rparr> else r) rows))"

definition delete_category_with_id :: "int \<Rightarrow> category_row list \<Rightarrow> (string, unit) result \<times> category_row list" where
  "delete_category_with_id = set_deleted True"

definition restore_category_with_id :: "int \<Rightarrow> category_row list \<Rightarrow> (string, unit) result \<times> category_row list" where
  "restore_category_with_id = set_deleted False"

text \<open>The products of a deleted category are deleted with it (\<open>ON DELETE CASCADE\<close>), unless an order or a ban refers to one.\<close>

definition deletable_product :: "category_product \<Rightarrow> bool" where
  "deletable_product p = (pd_orders p = 0 \<and> pd_bans p = 0)"

definition destroy_category_with_id :: "int \<Rightarrow> shelf \<Rightarrow> (string, unit) result \<times> shelf" where
  "destroy_category_with_id category s =
     (case s of (rows, products) \<Rightarrow>
        if category \<notin> set (map ct_id rows) then (throws ''P2025'', s)
        else let rows' = filter (\<lambda>r. ct_id r \<noteq> category) rows; gone = filter (\<lambda>p. pd_category p = Some category) products
             in if parents_exist rows' \<and> list_all deletable_product gone
                then (returns (), (rows', filter (\<lambda>p. pd_category p \<noteq> Some category) products))
                else (throws ''P2003'', s))"

section \<open>Use cases\<close>

text \<open>One statement after the other, until one fails.\<close>

fun for_each :: "(int \<Rightarrow> 's \<Rightarrow> (string, unit) result \<times> 's) \<Rightarrow> int list \<Rightarrow> 's \<Rightarrow> (string, unit) result \<times> 's" where
  "for_each f [] s = (returns (), s)"
| "for_each f (i # is) s = (case f i s of (Inl err, s') \<Rightarrow> (throws err, s') | (Inr _, s') \<Rightarrow> for_each f is s')"

definition get_all_descendant_ids :: "nat \<Rightarrow> int \<Rightarrow> category_row list \<Rightarrow> (string, int list) result" where
  "get_all_descendant_ids frames category rows =
     (case find_descendants frames rows category of
        None \<Rightarrow> throws ''Maximum call stack size exceeded'' | Some ds \<Rightarrow> returns ds)"

definition count_products_by_categories :: "int list \<Rightarrow> category_product list \<Rightarrow> nat" where
  "count_products_by_categories categories products = length (filter (\<lambda>p. pd_category p \<in> Some ` set categories) products)"

definition delete_category :: "nat \<Rightarrow> category_product list \<Rightarrow> int \<Rightarrow> category_row list \<Rightarrow> (string, bool) result \<times> category_row list" where
  "delete_category frames products category rows =
     (case get_all_descendant_ids frames category rows of
        Inl err \<Rightarrow> (throws err, rows)
      | Inr ds \<Rightarrow>
          if count_products_by_categories (category # ds) products > 0 then (returns False, rows)
          else case for_each delete_category_with_id (category # ds) rows of
                 (Inl err, rows) \<Rightarrow> (throws err, rows) | (Inr _, rows) \<Rightarrow> (returns True, rows))"

definition destroy_category :: "nat \<Rightarrow> int \<Rightarrow> shelf \<Rightarrow> (string, unit) result \<times> shelf" where
  "destroy_category frames category s =
     (case get_all_descendant_ids frames category (fst s) of
        Inl err \<Rightarrow> (throws err, s)
      | Inr ds \<Rightarrow> for_each destroy_category_with_id (ds @ [category]) s)"

section \<open>Handlers\<close>

record category_answer =
  cg_code :: string
  cg_message :: string

definition category_error :: "string \<Rightarrow> category_answer" where
  "category_error message = \<lparr>cg_code = ''error'', cg_message = message\<rparr>"

definition category_success :: "string \<Rightarrow> category_answer" where
  "category_success message = \<lparr>cg_code = ''success'', cg_message = message\<rparr>"

definition answer_of :: "(string, 'a) result \<Rightarrow> string \<Rightarrow> string \<Rightarrow> category_answer" where
  "answer_of out message failure = (case out of Inl _ \<Rightarrow> category_error failure | Inr _ \<Rightarrow> category_success message)"

datatype category_request = CreatePost category_row | EditPatch int category_patch | DeleteCategory int | RestoreCategory int
  | DestroyCategory int

fun serve_category :: "nat \<Rightarrow> category_request \<Rightarrow> shelf \<Rightarrow> category_answer \<times> shelf" where
  "serve_category frames (CreatePost r) (rows, products) =
     (case insert_category r rows of (out, rows) \<Rightarrow> (answer_of out ''Created new category successfully'' ''An error occurred'', (rows, products)))"
| "serve_category frames (EditPatch i p) (rows, products) =
     (case update_category_with_id i p rows of (out, rows) \<Rightarrow> (answer_of out ''Updated successfully'' ''An error occurred here'', (rows, products)))"
| "serve_category frames (DeleteCategory i) (rows, products) =
     (case delete_category frames products i rows of
        (Inl _, rows) \<Rightarrow> (category_error ''An error occurred'', (rows, products))
      | (Inr False, rows) \<Rightarrow> (category_error ''Cannot delete category'', (rows, products))
      | (Inr True, rows) \<Rightarrow> (category_success ''Deleted category successfully'', (rows, products)))"
| "serve_category frames (RestoreCategory i) (rows, products) =
     (case restore_category_with_id i rows of
        (out, rows) \<Rightarrow> (answer_of out ''Restored category successfully'' ''An error occurred'', (rows, products)))"
| "serve_category frames (DestroyCategory i) s =
     (case destroy_category frames i s of
        (out, s) \<Rightarrow> (answer_of out ''Permanently deleted category successfully'' ''An error occurred'', s))"

end
