(* ===== verification/Category_Properties.thy ===== *)
theory Category_Properties
  imports Categories
begin

text \<open>
  The recursions over the categories end exactly where no category is its own ancestor, and find every category below
  once; the destruction of a category works on two levels only, because parents are deleted before their children.
\<close>

section \<open>Children\<close>

definition child_of :: "category_row list \<Rightarrow> (int \<times> int) set" where
  "child_of rows = {(ct_id r, p) | r p. r \<in> set rows \<and> ct_parent r = Some p}"

definition below :: "category_row list \<Rightarrow> int \<Rightarrow> int set" where
  "below rows c = {d. (d, c) \<in> (child_of rows)\<^sup>+}"

lemma finite_child_of: "finite (child_of rows)"
proof (rule finite_subset)
  show "child_of rows \<subseteq> (\<lambda>r. (ct_id r, the (ct_parent r))) ` set rows"
    by (force simp: child_of_def)
qed simp

lemma below_ids: "below rows c \<subseteq> ct_id ` set rows"
  by (auto simp: below_def child_of_def dest: tranclD elim: converse_tranclE)

lemma finite_below: "finite (below rows c)"
  using below_ids by (rule finite_subset) simp

lemma card_below: "card (below rows c) \<le> length rows"
  using card_mono [OF _ below_ids] card_image_le [of "set rows" ct_id] card_length [of rows]
  by (meson List.finite_set finite_imageI le_trans)

lemma below_children: "below rows c = (\<Union>r\<in>{r \<in> set rows. ct_parent r = Some c}. insert (ct_id r) (below rows (ct_id r)))"
proof -
  have "(d, c) \<in> (child_of rows)\<^sup>+ \<longleftrightarrow> (\<exists>e. (e, c) \<in> child_of rows \<and> (d = e \<or> (d, e) \<in> (child_of rows)\<^sup>+))" for d
    by (subst trancl_unfold_right) (auto simp: rtrancl_eq_or_trancl)
  then show ?thesis
    by (auto simp: below_def child_of_def)
qed

section \<open>What the recursion finds\<close>

lemma those_Some: "those xs = Some ys \<longleftrightarrow> xs = map Some ys"
  by (induction xs arbitrary: ys) (auto split: option.splits)

lemma descend_Suc:
  "find_descendants (Suc frames) rows c = Some ds \<longleftrightarrow>
   (\<exists>dss. map (\<lambda>r. map_option (Cons (ct_id r)) (find_descendants frames rows (ct_id r)))
            (filter (\<lambda>r. ct_parent r = Some c) rows) = map Some dss \<and> ds = concat dss)"
  by (auto simp: those_Some)

lemma descend_blocks:
  assumes "find_descendants (Suc frames) rows c = Some ds"
  shows "\<exists>sub. (\<forall>r\<in>set rows. ct_parent r = Some c \<longrightarrow> find_descendants frames rows (ct_id r) = Some (sub r))
    \<and> ds = concat (map (\<lambda>r. ct_id r # sub r) (filter (\<lambda>r. ct_parent r = Some c) rows))"
proof -
  let ?f = "\<lambda>r. find_descendants frames rows (ct_id r)"
  let ?rs = "filter (\<lambda>r. ct_parent r = Some c) rows"
  obtain dss where dss: "map (\<lambda>r. map_option (Cons (ct_id r)) (?f r)) ?rs = map Some dss" "ds = concat dss"
    using assms unfolding descend_Suc by blast
  have some: "?f r = Some (the (?f r))" if "r \<in> set ?rs" for r
  proof -
    have "map_option (Cons (ct_id r)) (?f r) \<in> set (map Some dss)"
      using that unfolding dss(1) [symmetric] by simp
    then show ?thesis
      by (cases "?f r") auto
  qed
  have "map Some dss = map (\<lambda>r. Some (ct_id r # the (?f r))) ?rs"
    unfolding dss(1) [symmetric]
  proof (rule map_cong [OF refl])
    fix r assume "r \<in> set ?rs"
    from some [OF this] show "map_option (Cons (ct_id r)) (?f r) = Some (ct_id r # the (?f r))"
      by (metis option.map(2))
  qed
  then have "map Some dss = map Some (map (\<lambda>r. ct_id r # the (?f r)) ?rs)"
    by simp
  then have "dss = map (\<lambda>r. ct_id r # the (?f r)) ?rs"
    by (simp add: inj_map_eq_map del: map_map)
  with dss(2) show ?thesis
    using some by (intro exI [of _ "\<lambda>r. the (?f r)"]) simp
qed

lemma descendants_below: "find_descendants frames rows c = Some ds \<Longrightarrow> set ds = below rows c"
proof (induction frames arbitrary: c ds)
  case (Suc frames)
  obtain sub where
    sub: "\<forall>r\<in>set rows. ct_parent r = Some c \<longrightarrow> find_descendants frames rows (ct_id r) = Some (sub r)"
    and ds: "ds = concat (map (\<lambda>r. ct_id r # sub r) (filter (\<lambda>r. ct_parent r = Some c) rows))"
    using descend_blocks [OF Suc.prems] by blast
  have "set (sub r) = below rows (ct_id r)" if "r \<in> set rows" "ct_parent r = Some c" for r
    using Suc.IH sub that by blast
  then show ?case
    by (subst below_children) (auto simp: ds)
qed simp

lemma descendants_return:
  assumes "\<forall>d\<in>insert c (below rows c). d \<notin> below rows d" "card (below rows c) < frames"
  shows "\<exists>ds. find_descendants frames rows c = Some ds"
  using assms
proof (induction frames arbitrary: c)
  case (Suc frames)
  have "\<exists>ds. find_descendants frames rows (ct_id r) = Some ds" if r: "r \<in> set rows" "ct_parent r = Some c" for r
  proof (rule Suc.IH)
    have sub: "insert (ct_id r) (below rows (ct_id r)) \<subseteq> below rows c"
      using r below_children [of rows c] by auto
    then show "\<forall>d\<in>insert (ct_id r) (below rows (ct_id r)). d \<notin> below rows d"
      using Suc.prems(1) by auto
    have "below rows (ct_id r) \<subset> below rows c"
      using sub Suc.prems(1) by auto
    then have "card (below rows (ct_id r)) < card (below rows c)"
      by (rule psubset_card_mono [OF finite_below])
    then show "card (below rows (ct_id r)) < frames"
      using Suc.prems(2) by simp
  qed
  then obtain sub where "find_descendants frames rows (ct_id r) = Some (sub r)" if "r \<in> set rows" "ct_parent r = Some c" for r
    by metis
  then have "map (\<lambda>r. map_option (Cons (ct_id r)) (find_descendants frames rows (ct_id r))) (filter (\<lambda>r. ct_parent r = Some c) rows)
      = map Some (map (\<lambda>r. ct_id r # sub r) (filter (\<lambda>r. ct_parent r = Some c) rows))"
    by simp
  then show ?case
    unfolding descend_Suc by blast
qed simp

section \<open>Order and multiplicity\<close>

lemma child_row: "(d, p) \<in> child_of rows \<Longrightarrow> \<exists>r\<in>set rows. ct_id r = d \<and> ct_parent r = Some p"
  by (auto simp: child_of_def)

lemma one_parent:
  assumes "distinct (map ct_id rows)" "(d, p) \<in> child_of rows" "(d, q) \<in> child_of rows"
  shows "p = q"
proof -
  from child_row [OF assms(2)] obtain r where r: "r \<in> set rows" "ct_id r = d" "ct_parent r = Some p"
    by (elim bexE conjE)
  from child_row [OF assms(3)] obtain q' where q': "q' \<in> set rows" "ct_id q' = d" "ct_parent q' = Some q"
    by (elim bexE conjE)
  have "inj_on ct_id (set rows)"
    using assms(1) by (simp add: distinct_map)
  then have "r = q'"
    using r(1,2) q'(1,2) by (simp add: inj_on_eq_iff [symmetric])
  then show ?thesis
    using r(3) q'(3) by simp
qed

lemma single_valued_child: "distinct (map ct_id rows) \<Longrightarrow> single_valued (child_of rows)"
  by (rule single_valuedI) (rule one_parent)

text \<open>Two children of a category have nothing below them in common.\<close>

lemma siblings_apart:
  assumes "distinct (map ct_id rows)" "acyclic (child_of rows)"
    and "(a, c) \<in> child_of rows" "(b, c) \<in> child_of rows" "a \<noteq> b"
    and "d = a \<or> d \<in> below rows a"
  shows "\<not> (d = b \<or> d \<in> below rows b)"
proof
  let ?R = "child_of rows"
  assume "d = b \<or> d \<in> below rows b"
  then have "(d, a) \<in> ?R\<^sup>*" "(d, b) \<in> ?R\<^sup>*"
    using assms(6) by (auto simp: below_def)
  then have "(a, b) \<in> ?R\<^sup>* \<or> (b, a) \<in> ?R\<^sup>*"
    using single_valued_confluent [OF single_valued_child [OF assms(1)]] by blast
  moreover have False if xy: "(x, y) \<in> ?R\<^sup>*" "x \<noteq> y" "(x, c) \<in> ?R" "(y, c) \<in> ?R" for x y
  proof -
    obtain z where "(x, z) \<in> ?R" "(z, y) \<in> ?R\<^sup>*"
      using xy(1,2) by (metis converse_rtranclE)
    then have "(c, y) \<in> ?R\<^sup>*"
      using one_parent [OF assms(1)] xy(3) by blast
    then have "(c, c) \<in> ?R\<^sup>+"
      using xy(4) by (rule rtrancl_into_trancl1)
    then show False
      using assms(2) by (simp add: acyclic_def)
  qed
  ultimately show False
    using assms(3-5) by blast
qed

text \<open>A list of rows before which none of their children stand.\<close>

definition parents_first :: "category_row list \<Rightarrow> int list \<Rightarrow> bool" where
  "parents_first rows ds = (distinct ds \<and> sorted_wrt (\<lambda>x y. (x, y) \<notin> child_of rows) ds)"

lemma parents_first_append:
  "parents_first rows (xs @ ys) \<longleftrightarrow> parents_first rows xs \<and> parents_first rows ys \<and> set xs \<inter> set ys = {}
     \<and> (\<forall>x\<in>set xs. \<forall>y\<in>set ys. (x, y) \<notin> child_of rows)"
  by (auto simp: parents_first_def sorted_wrt_append)

lemma parents_first_blocks:
  assumes "distinct (map ct_id rows)" "acyclic (child_of rows)"
    and "\<forall>r\<in>set rs. r \<in> set rows \<and> ct_parent r = Some c \<and> set (sub r) = below rows (ct_id r) \<and> parents_first rows (sub r)"
    and "distinct (map ct_id rs)"
  shows "parents_first rows (concat (map (\<lambda>r. ct_id r # sub r) rs))"
  using assms(3,4)
proof (induction rs)
  case Nil
  then show ?case
    by (simp add: parents_first_def)
next
  case (Cons r rs)
  have r: "(ct_id r, c) \<in> child_of rows" "set (sub r) = below rows (ct_id r)" "parents_first rows (sub r)"
    using Cons.prems(1) by (auto simp: child_of_def)
  have cyc: "(x, x) \<notin> (child_of rows)\<^sup>+" for x
    using assms(2) by (simp add: acyclic_def)
  have block: "parents_first rows (ct_id r # sub r)"
    using r cyc unfolding parents_first_def
    by (auto simp: below_def intro: trancl_into_trancl2 dest: trancl_into_trancl2)
  have apart: "\<not> (d = ct_id q \<or> d \<in> below rows (ct_id q))"
    if "q \<in> set rs" "d = ct_id r \<or> d \<in> below rows (ct_id r)" for q d
    using siblings_apart [OF assms(1,2) r(1) _ _ that(2), of "ct_id q"] that(1) Cons.prems by (auto simp: child_of_def)
  have rest: "set (concat (map (\<lambda>q. ct_id q # sub q) rs)) = (\<Union>q\<in>set rs. insert (ct_id q) (below rows (ct_id q)))"
    using Cons.prems(1) by auto
  have "parents_first rows (concat (map (\<lambda>q. ct_id q # sub q) rs))"
    using Cons by simp
  moreover have "set (ct_id r # sub r) \<inter> set (concat (map (\<lambda>q. ct_id q # sub q) rs)) = {}"
    unfolding rest using apart r(2) by auto
  moreover have "(x, y) \<notin> child_of rows"
    if x: "x \<in> set (ct_id r # sub r)" and y: "y \<in> set (concat (map (\<lambda>q. ct_id q # sub q) rs))" for x y
  proof
    assume xy: "(x, y) \<in> child_of rows"
    obtain q where "q \<in> set rs" "y = ct_id q \<or> y \<in> below rows (ct_id q)"
      using y unfolding rest by blast
    then have "x \<in> below rows (ct_id q)"
      using xy by (auto simp: below_def intro: trancl_into_trancl2)
    then show False
      using apart [OF \<open>q \<in> set rs\<close>, of x] x r(2) by auto
  qed
  ultimately show ?case
    using block parents_first_append [of rows "ct_id r # sub r"] by simp
qed

lemma descendants_parents_first:
  assumes "distinct (map ct_id rows)" "acyclic (child_of rows)" "find_descendants frames rows c = Some ds"
  shows "parents_first rows ds"
  using assms(3)
proof (induction frames arbitrary: c ds)
  case (Suc frames)
  obtain sub where
    sub: "\<forall>r\<in>set rows. ct_parent r = Some c \<longrightarrow> find_descendants frames rows (ct_id r) = Some (sub r)"
    and ds: "ds = concat (map (\<lambda>r. ct_id r # sub r) (filter (\<lambda>r. ct_parent r = Some c) rows))"
    using descend_blocks [OF Suc.prems] by blast
  show ?case
    unfolding ds
    by (rule parents_first_blocks [OF assms(1,2), where c = c])
      (use sub Suc.IH descendants_below assms(1) in \<open>auto simp: distinct_map_filter\<close>)
qed simp

lemma descend_deeper:
  assumes "find_descendants frames rows c = Some ds" "(d, c) \<in> (child_of rows)\<^sup>+"
  shows "\<exists>m<frames. find_descendants m rows d \<noteq> None"
  using assms(2,1)
proof (induction arbitrary: frames ds rule: trancl_induct)
  case (base c)
  obtain n where n: "frames = Suc n"
    using base.prems by (cases frames) simp_all
  obtain r where "r \<in> set rows" "ct_id r = d" "ct_parent r = Some c"
    using child_row [OF base.hyps] by (elim bexE conjE)
  then show ?case
    using descend_blocks [OF base.prems [unfolded n]] n by auto
next
  case (step b c)
  obtain n where n: "frames = Suc n"
    using step.prems by (cases frames) simp_all
  obtain r where "r \<in> set rows" "ct_id r = b" "ct_parent r = Some c"
    using child_row [OF step.hyps(2)] by (elim bexE conjE)
  then obtain ds' where "find_descendants n rows b = Some ds'"
    using descend_blocks [OF step.prems [unfolded n]] by auto
  from step.IH [OF this] show ?case
    using n less_SucI by blast
qed

text \<open>On a cycle every stack is used up.\<close>

lemma cycle_overflows: "c \<in> below rows c \<Longrightarrow> find_descendants frames rows c = None"
proof (induction frames rule: less_induct)
  case (less frames)
  then show ?case
    using descend_deeper [of frames rows c _ c] by (cases "find_descendants frames rows c") (auto simp: below_def)
qed

lemma recursion_ends:
  assumes "length rows < frames"
  shows "find_descendants frames rows c \<noteq> None \<longleftrightarrow> (\<forall>d\<in>insert c (below rows c). d \<notin> below rows d)"
proof
  assume "find_descendants frames rows c \<noteq> None"
  then obtain ds where ds: "find_descendants frames rows c = Some ds"
    by blast
  show "\<forall>d\<in>insert c (below rows c). d \<notin> below rows d"
  proof (intro ballI notI)
    fix d assume d: "d \<in> insert c (below rows c)" and cyc: "d \<in> below rows d"
    from d show False
    proof
      assume "d = c"
      then show False
        using ds cycle_overflows [OF cyc] by simp
    next
      assume "d \<in> below rows c"
      then obtain m where "find_descendants m rows d \<noteq> None"
        using descend_deeper [OF ds, of d] by (auto simp: below_def)
      then show False
        by (simp add: cycle_overflows [OF cyc])
    qed
  qed
next
  assume "\<forall>d\<in>insert c (below rows c). d \<notin> below rows d"
  then show "find_descendants frames rows c \<noteq> None"
    using descendants_return [of c rows frames] card_below [of rows c] assms by auto
qed

section \<open>The tree\<close>

fun node_ids :: "category_node \<Rightarrow> int list" where
  "node_ids (CategoryNode i picture name slug children) = i # concat (map node_ids children)"

lemma those_nodes:
  "map_option (\<lambda>ns. concat (map node_ids ns)) (those (map (\<lambda>r. map_option (CategoryNode (ct_id r) (im r) (nm r) (sl r)) (g r)) rs))
   = map_option concat (those (map (\<lambda>r. map_option (Cons (ct_id r)) (map_option (\<lambda>ns. concat (map node_ids ns)) (g r))) rs))"
proof (induction rs)
  case (Cons r rs)
  show ?case
  proof (cases "g r")
    case (Some ns)
    let ?t = "those (map (\<lambda>r. map_option (CategoryNode (ct_id r) (im r) (nm r) (sl r)) (g r)) rs)"
    let ?u = "those (map (\<lambda>r. map_option (Cons (ct_id r)) (map_option (\<lambda>ns. concat (map node_ids ns)) (g r))) rs)"
    from Cons Some show ?thesis
      by (cases ?t; cases ?u) (simp_all add: option.map_comp)
  qed simp
qed simp

text \<open>The tree below a category holds, in preorder, what \<open>findDescendants\<close> finds.\<close>

lemma tree_descendants:
  "map_option (\<lambda>ns. concat (map node_ids ns)) (build_tree frames rows (Some c)) = find_descendants frames rows c"
proof (induction frames arbitrary: c)
  case (Suc frames)
  show ?case
    by (simp add: those_nodes Suc.IH)
qed simp

section \<open>Destruction\<close>

lemma for_each_append:
  "for_each f (is @ js) s = (case for_each f is s of (Inl err, s') \<Rightarrow> (throws err, s') | (Inr _, s') \<Rightarrow> for_each f js s')"
  by (induction "is" arbitrary: s) (auto split: prod.split sum.split)

lemma ids_without: "ct_id ` {r \<in> set rows. ct_id r \<noteq> i} = ct_id ` set rows - {i}"
  by auto

text \<open>A product of the category that cannot be deleted.\<close>

definition held_in :: "category_product list \<Rightarrow> int \<Rightarrow> bool" where
  "held_in products i = (\<exists>p\<in>set products. pd_category p = Some i \<and> \<not> deletable_product p)"

lemma destroy_one:
  assumes "parents_exist rows" "i \<in> ct_id ` set rows"
  shows "destroy_category_with_id i (rows, products) =
     (if (\<exists>r\<in>set rows. ct_parent r = Some i \<and> ct_id r \<noteq> i) \<or> held_in products i then (throws ''P2003'', (rows, products))
      else (returns (), (filter (\<lambda>r. ct_id r \<noteq> i) rows, filter (\<lambda>p. pd_category p \<noteq> Some i) products)))"
proof -
  have "parents_exist (filter (\<lambda>r. ct_id r \<noteq> i) rows) \<longleftrightarrow> \<not> (\<exists>r\<in>set rows. ct_parent r = Some i \<and> ct_id r \<noteq> i)"
    using assms(1) by (auto simp: parents_exist_def list_all_iff ids_without split: option.splits)
  moreover have "list_all deletable_product (filter (\<lambda>p. pd_category p = Some i) products) \<longleftrightarrow> \<not> held_in products i"
    by (auto simp: held_in_def list_all_iff)
  ultimately show ?thesis
    using assms(2) by (simp add: destroy_category_with_id_def Let_def)
qed

definition outside :: "int list \<Rightarrow> category_product list \<Rightarrow> category_product list" where
  "outside is products = filter (\<lambda>p. pd_category p \<notin> Some ` set is) products"

lemma held_outside: "i \<notin> set is \<Longrightarrow> held_in (outside is products) i \<longleftrightarrow> held_in products i"
  by (auto simp: held_in_def outside_def)

lemma destroy_leaves:
  assumes "distinct is" "set is \<subseteq> ct_id ` set rows" "parents_exist rows" "\<forall>r\<in>set rows. \<forall>i\<in>set is. ct_parent r \<noteq> Some i"
    and "\<forall>i\<in>set is. \<not> held_in products i"
  shows "for_each destroy_category_with_id is (rows, products) = (returns (), (filter (\<lambda>r. ct_id r \<notin> set is) rows, outside is products))
    \<and> parents_exist (filter (\<lambda>r. ct_id r \<notin> set is) rows)"
  using assms
proof (induction "is" arbitrary: rows products)
  case Nil
  then show ?case by (simp add: outside_def filter_id_conv)
next
  case (Cons i "is")
  let ?rows = "filter (\<lambda>r. ct_id r \<noteq> i) rows" and ?products = "filter (\<lambda>p. pd_category p \<noteq> Some i) products"
  have d: "destroy_category_with_id i (rows, products) = (returns (), (?rows, ?products))"
    using destroy_one [of rows i products] Cons.prems by auto
  have p: "parents_exist ?rows"
    using Cons.prems(3,4) by (auto simp: parents_exist_def list_all_iff ids_without split: option.splits)
  have h: "\<forall>j\<in>set is. \<not> held_in ?products j"
    using Cons.prems(5) by (auto simp: held_in_def)
  have "for_each destroy_category_with_id is (?rows, ?products) = (returns (), (filter (\<lambda>r. ct_id r \<notin> set is) ?rows, outside is ?products))
      \<and> parents_exist (filter (\<lambda>r. ct_id r \<notin> set is) ?rows)"
    by (rule Cons.IH [OF _ _ p _ h]) (use Cons.prems in \<open>auto simp: ids_without\<close>)
  moreover have "filter (\<lambda>r. ct_id r \<notin> set is) ?rows = filter (\<lambda>r. ct_id r \<notin> set (i # is)) rows"
    by (simp add: conj_commute)
  moreover have "outside is ?products = outside (i # is) products"
    by (simp add: outside_def conj_commute)
  ultimately show ?case
    by (simp add: d)
qed

lemma child_iff: "(d, c) \<in> child_of rows \<longleftrightarrow> (\<exists>r\<in>set rows. ct_id r = d \<and> ct_parent r = Some c)"
  by (auto simp: child_of_def)

lemma below_empty: "below rows d = {} \<longleftrightarrow> (\<forall>r\<in>set rows. ct_parent r \<noteq> Some d)"
  by (subst below_children) auto

lemma destroy_run:
  assumes "find_descendants frames rows c = Some ds"
  shows "destroy_category frames c (rows, products) = for_each destroy_category_with_id (ds @ [c]) (rows, products)"
  by (simp add: destroy_category_def get_all_descendant_ids_def assms)

lemma childless: "(\<forall>d\<in>set is. below rows d = {}) \<Longrightarrow> \<forall>r\<in>set rows. \<forall>i\<in>set is. ct_parent r \<noteq> Some i"
  by (auto simp: below_empty)

lemma destroy_flat:
  assumes "find_descendants frames rows c = Some ds" "distinct ds" "parents_exist rows" "c \<in> ct_id ` set rows" "c \<notin> below rows c"
    and "\<forall>d\<in>below rows c. below rows d = {}" "\<forall>d\<in>insert c (below rows c). \<not> held_in products d"
  shows "destroy_category frames c (rows, products) =
    (returns (), (filter (\<lambda>r. ct_id r \<notin> insert c (below rows c)) rows,
       filter (\<lambda>p. pd_category p \<notin> Some ` insert c (below rows c)) products))"
proof -
  note ds = descendants_below [OF assms(1)]
  let ?rows = "filter (\<lambda>r. ct_id r \<notin> below rows c) rows"
  have free: "\<forall>d\<in>set ds. \<not> held_in products d" using assms(7) by (simp add: ds)
  have leaves: "for_each destroy_category_with_id ds (rows, products) = (returns (), (?rows, outside ds products)) \<and> parents_exist ?rows"
    using destroy_leaves [OF assms(2) _ assms(3) childless free, unfolded ds, OF below_ids assms(6)] .
  have "c \<in> ct_id ` set ?rows"
    using assms(4,5) by auto
  moreover have "\<not> (\<exists>r\<in>set ?rows. ct_parent r = Some c \<and> ct_id r \<noteq> c)"
    using below_children [of rows c] by auto
  moreover have "\<not> held_in (outside ds products) c"
    using assms(5,7) by (simp add: held_outside ds)
  ultimately have "destroy_category_with_id c (?rows, outside ds products) =
      (returns (), (filter (\<lambda>r. ct_id r \<noteq> c) ?rows, filter (\<lambda>p. pd_category p \<noteq> Some c) (outside ds products)))"
    using destroy_one [of ?rows c] leaves by simp
  moreover have "filter (\<lambda>r. ct_id r \<noteq> c) ?rows = filter (\<lambda>r. ct_id r \<notin> insert c (below rows c)) rows"
    by (simp add: conj_commute)
  moreover have "filter (\<lambda>p. pd_category p \<noteq> Some c) (outside ds products)
      = filter (\<lambda>p. pd_category p \<notin> Some ` insert c (below rows c)) products"
    by (auto simp: outside_def ds intro!: filter_cong)
  ultimately show ?thesis
    using leaves by (simp add: destroy_run [OF assms(1)] for_each_append)
qed

lemma destroy_stops:
  assumes "find_descendants frames rows c = Some ds" "parents_first rows ds" "parents_exist rows" "c \<in> ct_id ` set rows"
    "\<forall>d\<in>insert c (below rows c). d \<notin> below rows d"
    and "(\<exists>d\<in>below rows c. below rows d \<noteq> {}) \<or> (\<exists>d\<in>insert c (below rows c). held_in products d)"
  shows "\<exists>pre. destroy_category frames c (rows, products) =
      (throws ''P2003'', (filter (\<lambda>r. ct_id r \<notin> set pre) rows, outside pre products))
    \<and> set pre \<subseteq> below rows c \<and> (\<forall>d\<in>set pre. \<not> held_in products d)"
proof -
  note ds = descendants_below [OF assms(1)]
  let ?bad = "\<lambda>x. (x \<noteq> c \<and> below rows x \<noteq> {}) \<or> held_in products x"
  have c: "c \<notin> set ds" using assms(5) ds by auto
  have "\<exists>x\<in>set (ds @ [c]). ?bad x" using assms(6) c ds by auto
  from split_list_first_prop [OF this] obtain pre e post
    where split: "ds @ [c] = pre @ e # post" "?bad e" "\<forall>x\<in>set pre. \<not> ?bad x" by blast
  have sub: "set pre \<subseteq> set ds \<and> e \<notin> set pre \<and> distinct pre" and e: "e = c \<or> e \<in> set ds"
    using split(1) c assms(2) by (cases post rule: rev_cases; force simp: parents_first_def)+
  have free: "\<forall>d\<in>set pre. \<not> held_in products d" and flat: "\<forall>d\<in>set pre. below rows d = {}"
    using split(3) sub c by auto
  let ?rows = "filter (\<lambda>r. ct_id r \<notin> set pre) rows"
  have ids: "set pre \<subseteq> ct_id ` set rows" "e \<in> ct_id ` set rows"
    using sub e below_ids [of rows c] assms(4) ds by auto
  have leaves: "for_each destroy_category_with_id pre (rows, products) = (returns (), (?rows, outside pre products)) \<and> parents_exist ?rows"
    using destroy_leaves [OF _ ids(1) assms(3) childless free] sub flat by blast
  have "(\<exists>r\<in>set ?rows. ct_parent r = Some e \<and> ct_id r \<noteq> e) \<or> held_in (outside pre products) e"
  proof (cases "held_in products e")
    case False
    then have "e \<noteq> c" "below rows e \<noteq> {}" using split(2) by auto
    then obtain q where q: "q \<in> set rows" "ct_parent q = Some e" and "e \<in> below rows c"
      using e ds by (auto simp: below_empty)
    moreover have "ct_id q \<notin> set pre"
    proof
      assume in_pre: "ct_id q \<in> set pre"
      have "\<exists>mid. ds = pre @ e # mid" using split(1) \<open>e \<noteq> c\<close> by (cases post rule: rev_cases) auto
      with assms(2) q in_pre show False by (auto simp: parents_first_def sorted_wrt_append child_iff)
    qed
    moreover have "ct_id q \<noteq> e" using q \<open>e \<in> below rows c\<close> assms(5) below_children [of rows e] by auto
    ultimately show ?thesis by auto
  qed (use sub in \<open>simp add: held_outside\<close>)
  then have "destroy_category_with_id e (?rows, outside pre products) = (throws ''P2003'', (?rows, outside pre products))"
    using destroy_one [of ?rows e "outside pre products"] leaves sub ids(2) by auto
  then have "destroy_category frames c (rows, products) = (throws ''P2003'', (?rows, outside pre products))"
    using leaves by (simp add: destroy_run [OF assms(1)] split(1) for_each_append)
  with sub free ds show ?thesis by blast
qed

lemma acyclic_below: "acyclic (child_of rows) \<Longrightarrow> \<forall>d\<in>insert c (below rows c). d \<notin> below rows d"
  by (simp add: acyclic_def below_def)


section \<open>Concrete categories\<close>

definition example_category :: "int \<Rightarrow> int option \<Rightarrow> category_row" where
  "example_category i parent =
     \<lparr>ct_id = i, ct_name = ''c'', ct_parent = parent, ct_status = ''active'', ct_deleted = False, ct_slug = None, ct_image = None\<rparr>"

definition example_categories :: "category_row list" where
  "example_categories = [example_category 1 None, example_category 2 (Some 1), example_category 3 (Some 2)]"

lemma acyclic_older:
  assumes "\<forall>r\<in>set rows. \<forall>p. ct_parent r = Some p \<longrightarrow> p < ct_id r"
  shows "acyclic (child_of rows)"
proof -
  have "child_of rows \<subseteq> {(x, y). y < x}"
    using assms by (auto simp: child_of_def)
  moreover have "acyclic {(x :: int, y). y < x}"
    by (rule acyclicI_order [of _ "\<lambda>x. x"]) simp
  ultimately show ?thesis
    by (rule acyclic_subset [rotated])
qed

definition example_products :: "category_product list" where
  "example_products = [\<lparr>pd_id = 7, pd_category = Some 3, pd_orders = 0, pd_bans = 0\<rparr>, \<lparr>pd_id = 8, pd_category = None, pd_orders = 1, pd_bans = 0\<rparr>]"

definition sold_products :: "category_product list" where
  "sold_products = [\<lparr>pd_id = 7, pd_category = Some 3, pd_orders = 1, pd_bans = 0\<rparr>]"


text \<open>An edit may close a cycle, after which the tables of the administration overflow the stack.\<close>

lemma edit_closes_cycle:
  "\<exists>rows. fst (snd (serve_category 9 (EditPatch 1 \<lparr>cp_name = None, cp_parent = Some (Some 3), cp_status = None, cp_slug = None, cp_image = None\<rparr>)
       (example_categories, []))) = rows \<and> (\<forall>frames. find_descendants frames rows 1 = None)"
proof -
  define rows where "rows = [example_category 1 (Some 3), example_category 2 (Some 1), example_category 3 (Some 2)]"
  have "fst (snd (serve_category 9 (EditPatch 1 \<lparr>cp_name = None, cp_parent = Some (Some 3), cp_status = None, cp_slug = None, cp_image = None\<rparr>)
      (example_categories, []))) = rows"
    unfolding rows_def by code_simp
  moreover have "(1, 3) \<in> child_of rows" "(3, 2) \<in> child_of rows" "(2, 1) \<in> child_of rows"
    by (simp_all add: child_iff rows_def example_category_def)
  then have "1 \<in> below rows 1"
    unfolding below_def by (auto intro: trancl_into_trancl2)
  ultimately show ?thesis
    using cycle_overflows by blast
qed

end
