(* ===== verification/Catalog.thy ===== *)
theory Catalog
  imports Text_Patterns Notifications
begin

text \<open>
  The statement behind the list of products: \<open>raw\<close> and \<open>getProductsCatalogList\<close> of
  modules/products/infrastructure/product.repository.ts, with the paging of application/product.use-case.ts and the
  options of api/products.client.controller.ts. The statement is text with the placeholder \<open>?\<close>; the database that
  runs it is not modelled. The type \<open>'n\<close> stands for the numbers of a price.
\<close>

section \<open>The text of a statement\<close>

definition product_cols :: string where
  "product_cols = ''product_id, created_at, product_name, seller_id, step_price, start_price, current_price, buy_now_price, price_owner_id, bid_turns, start_time, end_time, cat2_id, is_removed, description, product_images, auto_extended, edited_at, auction_end_email_sent, fts::text as fts''"

definition p_cols :: string where
  "p_cols = ''p.product_id, p.created_at, p.product_name, p.seller_id, p.step_price, p.start_price, p.current_price, p.buy_now_price, p.price_owner_id, p.bid_turns, p.start_time, p.end_time, p.cat2_id, p.is_removed, p.description, p.product_images, p.auto_extended, p.edited_at, p.auction_end_email_sent, p.fts::text as fts''"

definition u_cols :: string where
  "u_cols = ''u.user_id, u.username, u.full_name, u.email, u.password, u.address, u.role, u.date_of_birth, u.rating, u.rating_count, u.created_at, u.avatar, u.status, u.auth_version, u.fts::text as fts''"

text \<open>\<open>replace(/\ba\.\*/gi, columns)\<close>; \<open>after\<close>: the character before is one of a word.\<close>

fun expand_stars :: "char \<Rightarrow> string \<Rightarrow> bool \<Rightarrow> string \<Rightarrow> string" where
  "expand_stars a columns after (c # d # e # cs) =
     (if \<not> after \<and> lower_char c = a \<and> d = CHR ''.'' \<and> e = CHR ''*'' then columns @ expand_stars a columns False cs
      else c # expand_stars a columns (is_word c) (d # e # cs))"
| "expand_stars a columns after cs = cs"

text \<open>\<open>\s+\<close>.\<close>

definition strip_spaces :: "string \<Rightarrow> string option" where
  "strip_spaces s = (if s \<noteq> [] \<and> is_space (hd s) then Some (dropWhile is_space s) else None)"

text \<open>\<open>select\s+\*\s+from\s+products\b\<close> at the front.\<close>

definition strip_select :: "string \<Rightarrow> string option" where
  "strip_select s =
     Option.bind (strip_keyword ''select'' s) (\<lambda>s. Option.bind (strip_spaces s) (\<lambda>s.
     Option.bind (strip_keyword ''*'' s) (\<lambda>s. Option.bind (strip_spaces s) (\<lambda>s.
     Option.bind (strip_keyword ''from'' s) (\<lambda>s. Option.bind (strip_spaces s) (\<lambda>s.
     Option.bind (strip_keyword ''products'' s) (\<lambda>s. if s \<noteq> [] \<and> is_word (hd s) then None else Some s)))))))"

function expand_select :: "bool \<Rightarrow> string \<Rightarrow> string" where
  "expand_select after [] = []"
| "expand_select after (c # cs) =
     (case (if after then None else strip_select (c # cs)) of
        Some rest \<Rightarrow> (if length rest < length (c # cs) then ''select '' @ product_cols @ '' from products'' @ expand_select True rest else [])
      | None \<Rightarrow> c # expand_select (is_word c) cs)"
  by pat_completeness auto
termination
  by (relation "measure (\<lambda>(after, s). length s)") auto

fun number_placeholders :: "nat \<Rightarrow> string \<Rightarrow> string \<times> nat" where
  "number_placeholders n [] = ([], n)"
| "number_placeholders n (c # cs) =
     (if c = CHR ''?'' then (case number_placeholders (Suc n) cs of (s, m) \<Rightarrow> (CHR ''$'' # show_int (int (Suc n)) @ s, m))
      else (case number_placeholders n cs of (s, m) \<Rightarrow> (c # s, m)))"

text \<open>The statement \<open>raw\<close> sends, and the number of its last placeholder.\<close>

definition raw_statement :: "string \<Rightarrow> string \<times> nat" where
  "raw_statement sql =
     number_placeholders 0 (expand_select False (expand_stars CHR ''p'' p_cols False (expand_stars CHR ''u'' u_cols False sql)))"

section \<open>The options of the list\<close>

record 'n catalog_options =
  co_cat1 :: "int option"
  co_cat2 :: "int option"
  co_search :: "string option"
  co_min_price :: "'n option"
  co_max_price :: "'n option"
  co_status :: "string option"
  co_sort_by :: "string option"
  co_legacy_price :: "string option"
  co_legacy_time :: "string option"

datatype 'n bound_value = BoundInt int | BoundPrice 'n | BoundText string

text \<open>\<open>whereClauses\<close> and \<open>bindings\<close>.\<close>

type_synonym 'n clauses = "string list \<times> 'n bound_value list"

definition push_clause :: "string \<Rightarrow> 'n bound_value list \<Rightarrow> 'n clauses \<Rightarrow> 'n clauses" where
  "push_clause text bs q = (fst q @ [text], snd q @ bs)"

definition quote1 :: string where
  "quote1 = [CHR 0x27]"

definition quote2 :: string where
  "quote2 = quote1 @ quote1"

definition normalized_name :: string where
  "normalized_name = ''remove_accents(COALESCE(p.product_name, '' @ quote2 @ ''))''"

definition truthy_id :: "int option \<Rightarrow> int option" where
  "truthy_id x = (case x of Some n \<Rightarrow> if n = 0 then None else Some n | None \<Rightarrow> None)"

definition category_clause :: "'n catalog_options \<Rightarrow> 'n clauses \<Rightarrow> 'n clauses" where
  "category_clause opts q =
     (case truthy_id (co_cat2 opts) of
        Some n \<Rightarrow> push_clause ''p.cat2_id = ?'' [BoundInt n] q
      | None \<Rightarrow> (case truthy_id (co_cat1 opts) of
                   Some n \<Rightarrow> push_clause ''p.cat2_id IN (SELECT id FROM categories WHERE parent_id = ?)'' [BoundInt n] q
                 | None \<Rightarrow> q))"

definition price_clauses :: "'n catalog_options \<Rightarrow> 'n clauses \<Rightarrow> 'n clauses" where
  "price_clauses opts q =
     (let q1 = (case co_min_price opts of Some x \<Rightarrow> push_clause ''p.current_price >= ?'' [BoundPrice x] q | None \<Rightarrow> q)
      in case co_max_price opts of Some x \<Rightarrow> push_clause ''p.current_price <= ?'' [BoundPrice x] q1 | None \<Rightarrow> q1)"

definition status_clause :: "'n catalog_options \<Rightarrow> 'n clauses \<Rightarrow> 'n clauses" where
  "status_clause opts q =
     (if co_status opts = Some ''active'' then push_clause ''p.end_time > NOW()'' [] q
      else if co_status opts = Some ''buy_now''
        then push_clause ''p.buy_now_price IS NOT NULL AND p.buy_now_price > 0 AND p.end_time > NOW()'' [] q
      else if co_status opts = Some ''ended'' then push_clause ''p.end_time <= NOW()'' [] q else q)"

definition search_term :: "'n catalog_options \<Rightarrow> string option" where
  "search_term opts =
     (case co_search opts of
        None \<Rightarrow> None
      | Some s \<Rightarrow> if trim_spaces s = [] then None else Some (trim_spaces s))"

definition search_clause :: "'n catalog_options \<Rightarrow> 'n clauses \<Rightarrow> 'n clauses" where
  "search_clause opts q =
     (case search_term opts of
        None \<Rightarrow> q
      | Some term \<Rightarrow>
          (let fuzzy = length term \<ge> 3;
               parts = [''p.fts @@ websearch_to_tsquery('simple', remove_accents(?))'',
                        normalized_name @ '' ILIKE '%' || remove_accents(?) || '%'' @ quote1]
                       @ (if fuzzy then [''remove_accents(?) <% '' @ normalized_name] else [])
           in push_clause (''('' @ join_text '' OR '' parts @ '')'')
                ([BoundText term, BoundText term] @ (if fuzzy then [BoundText term] else [])) q))"

section \<open>The order\<close>

definition line_break :: "nat \<Rightarrow> string" where
  "line_break indent = newline @ replicate indent CHR 0x20"

definition relevance_order :: "string \<Rightarrow> string" where
  "relevance_order term =
     ''('' @ line_break 6 @ ''CASE WHEN '' @ normalized_name @ '' = remove_accents(?) THEN 10 ELSE 0 END''
     @ line_break 6 @ ''+ CASE WHEN '' @ normalized_name @ '' ILIKE remove_accents(?) || '%' THEN 5 ELSE 0 END''
     @ line_break 6 @ ''+ CASE WHEN '' @ normalized_name @ '' ILIKE '%' || remove_accents(?) || '%' THEN 2 ELSE 0 END''
     @ line_break 6 @ ''+ (4 * ts_rank_cd(p.fts, websearch_to_tsquery('simple', remove_accents(?)), 32))''
     @ line_break 6 @ (if length term \<ge> 3 then '' + word_similarity(remove_accents(?), '' @ normalized_name @ '')'' else [])
     @ line_break 4 @ '') DESC, p.end_time ASC''"

definition catalog_order :: "'n catalog_options \<Rightarrow> string \<times> 'n bound_value list" where
  "catalog_order opts =
     (case (if co_sort_by opts = Some ''relevance'' then search_term opts else None) of
        Some term \<Rightarrow> (relevance_order term, replicate 4 (BoundText term) @ (if length term \<ge> 3 then [BoundText term] else []))
      | None \<Rightarrow>
          (if co_sort_by opts = Some ''price_asc'' \<or> co_legacy_price opts = Some ''asc'' then ''p.current_price ASC''
           else if co_sort_by opts = Some ''price_desc'' \<or> co_legacy_price opts = Some ''desc'' then ''p.current_price DESC''
           else if co_sort_by opts = Some ''time_asc'' \<or> co_legacy_time opts = Some ''asc'' then ''p.end_time ASC''
           else if co_sort_by opts = Some ''time_desc'' \<or> co_legacy_time opts = Some ''desc'' then ''p.end_time DESC''
           else if co_sort_by opts = Some ''created_desc'' then ''p.created_at DESC''
           else if co_sort_by opts = Some ''bids_desc'' then ''COALESCE(p.bid_turns, 0) DESC''
           else ''p.end_time ASC'', []))"

section \<open>The statement\<close>

definition catalog_clauses :: "'n catalog_options \<Rightarrow> 'n clauses" where
  "catalog_clauses opts =
     search_clause opts (status_clause opts (price_clauses opts (category_clause opts ([''p.is_removed = false''], []))))"

text \<open>The statement, its values, and whether the similarity threshold is set for it first.\<close>

record 'n catalog_statement =
  cs_sql :: string
  cs_bindings :: "'n bound_value list"
  cs_threshold :: bool

definition catalog_statement_of :: "'n catalog_options \<Rightarrow> int \<Rightarrow> int \<Rightarrow> 'n catalog_statement" where
  "catalog_statement_of opts limit offset =
     (let q = catalog_clauses opts;
          order = catalog_order opts
      in \<lparr>cs_sql =
            ''SELECT p.*, u.username AS price_owner_username, count(*) OVER() AS total_count''
            @ line_break 4 @ ''FROM products p''
            @ line_break 4 @ ''LEFT JOIN users u ON p.price_owner_id = u.user_id''
            @ line_break 4 @ ''WHERE '' @ join_text '' AND '' (fst q)
            @ line_break 4 @ ''ORDER BY '' @ fst order
            @ line_break 4 @ ''LIMIT ? OFFSET ?'',
          cs_bindings = snd q @ snd order @ [BoundInt limit, BoundInt offset],
          cs_threshold = (case search_term opts of None \<Rightarrow> False | Some term \<Rightarrow> length term \<ge> 3)\<rparr>)"

section \<open>Paging\<close>

definition items_per_page :: int where
  "items_per_page = 6"

text \<open>\<open>limit || ITEMS_PER_PAGE\<close> and the offset of a page.\<close>

definition page_limit :: "int \<Rightarrow> int" where
  "page_limit limit = (if limit = 0 then items_per_page else limit)"

definition page_offset :: "int \<Rightarrow> int \<Rightarrow> int" where
  "page_offset page limit = (page - 1) * page_limit limit"

definition ceil_div :: "int \<Rightarrow> int \<Rightarrow> int" where
  "ceil_div x y = - ((- x) div y)"

text \<open>\<open>rows\<close>: what the database answers; every row carries the count of all matching rows.\<close>

record 'r page_list =
  pl_data :: "'r list"
  pl_pages :: int
  pl_quantity :: int

definition page_of_rows :: "('r \<Rightarrow> int) \<Rightarrow> int \<Rightarrow> 'r list \<Rightarrow> 'r page_list" where
  "page_of_rows total_count limit rows =
     (let total = (case rows of [] \<Rightarrow> 0 | r # _ \<Rightarrow> total_count r)
      in \<lparr>pl_data = rows, pl_pages = (if total > 0 then ceil_div total limit else 0), pl_quantity = total\<rparr>)"

definition get_products_page_list :: "('r \<Rightarrow> int) \<Rightarrow> ('n catalog_statement \<Rightarrow> 'r list) \<Rightarrow> 'n catalog_options \<Rightarrow> int \<Rightarrow> int \<Rightarrow> 'r page_list" where
  "get_products_page_list total_count query opts page limit =
     page_of_rows total_count (page_limit limit)
       (query (catalog_statement_of opts (page_limit limit) (page_offset page limit)))"

section \<open>The handler\<close>

text \<open>The query string after its validation: numbers are numbers, the status has its default.\<close>

record 'n list_query =
  lq_cat1 :: "int option"
  lq_cat2 :: "int option"
  lq_search :: "string option"
  lq_query :: "string option"
  lq_min_price :: "'n option"
  lq_max_price :: "'n option"
  lq_status :: "string option"
  lq_sort_by :: "string option"
  lq_page :: "int option"
  lq_limit :: "int option"
  lq_price :: "string option"
  lq_time :: "string option"

definition truthy_text :: "string option \<Rightarrow> string option" where
  "truthy_text x = (case x of Some s \<Rightarrow> if s = [] then None else Some s | None \<Rightarrow> None)"

definition query_search :: "'n list_query \<Rightarrow> string" where
  "query_search r = coalesce (truthy_text (lq_search r)) (coalesce (truthy_text (lq_query r)) [])"

definition options_of_query :: "'n list_query \<Rightarrow> 'n catalog_options" where
  "options_of_query r =
     \<lparr>co_cat1 = truthy_id (lq_cat1 r), co_cat2 = truthy_id (lq_cat2 r), co_search = Some (query_search r),
      co_min_price = lq_min_price r, co_max_price = lq_max_price r,
      co_status = Some (coalesce (truthy_text (lq_status r)) ''active''),
      co_sort_by = Some (coalesce (truthy_text (lq_sort_by r)) (if query_search r \<noteq> [] then ''relevance'' else ''time_asc'')),
      co_legacy_price = truthy_text (lq_price r), co_legacy_time = truthy_text (lq_time r)\<rparr>"

definition list_products :: "('r \<Rightarrow> int) \<Rightarrow> ('n catalog_statement \<Rightarrow> 'r list) \<Rightarrow> 'n list_query \<Rightarrow> 'r page_list" where
  "list_products total_count query r =
     get_products_page_list total_count query (options_of_query r)
       (coalesce (truthy_id (lq_page r)) 1) (coalesce (truthy_id (lq_limit r)) 6)"

end
