(* ===== verification/Catalog_Properties.thy ===== *)
theory Catalog_Properties
  imports Catalog
begin

text \<open>
  The statement of the catalog holds no text of its caller, and every placeholder of it has its value.
\<close>

section \<open>Placeholders\<close>

abbreviation placeholders :: "string \<Rightarrow> nat" where
  "placeholders s \<equiv> count_list s CHR ''?''"

lemma number_counts: "snd (number_placeholders n s) = n + placeholders s"
  by (induction n s rule: number_placeholders.induct) (auto split: prod.splits)

lemma expand_stars_placeholders:
  "placeholders columns = 0 \<Longrightarrow> a \<noteq> CHR ''?'' \<Longrightarrow> placeholders (expand_stars a columns after s) = placeholders s"
  by (induction a columns after s rule: expand_stars.induct) (auto simp: lower_char_def)

lemma drop_spaces_placeholders: "placeholders (dropWhile is_space s) = placeholders s"
proof (induction s)
  case (Cons c s)
  have "\<not> is_space CHR ''?''"
    by (simp add: is_space_def)
  then show ?case
    using Cons by auto
qed simp

lemma strip_spaces_placeholders: "strip_spaces s = Some rest \<Longrightarrow> placeholders rest = placeholders s"
  by (auto simp: strip_spaces_def drop_spaces_placeholders split: if_splits)

lemma strip_word_placeholders:
  assumes "strip_keyword key s = Some rest" "CHR ''?'' \<notin> set key"
  shows "placeholders rest = placeholders s"
  using strip_keyword_count [OF assms(1) _ assms(2)] by (simp add: lower_char_def)

lemma strip_select_placeholders: "strip_select s = Some rest \<Longrightarrow> placeholders rest = placeholders s"
  unfolding strip_select_def
  by (auto simp: bind_eq_Some_conv split: if_splits dest!: strip_spaces_placeholders strip_word_placeholders)

lemma strip_select_length: "strip_select s = Some rest \<Longrightarrow> length rest < length s"
proof -
  have spaces: "length r < length t" if "strip_spaces t = Some r" for t r
    using that length_dropWhile_le [of is_space "tl t"] by (cases t) (auto simp: strip_spaces_def split: if_splits)
  show "strip_select s = Some rest \<Longrightarrow> length rest < length s"
    unfolding strip_select_def
    by (auto simp: bind_eq_Some_conv split: if_splits dest!: spaces strip_keyword_length)
qed

lemma cols_placeholders: "placeholders product_cols = 0" "placeholders p_cols = 0" "placeholders u_cols = 0"
  by (simp_all add: product_cols_def p_cols_def u_cols_def)

lemma expand_select_placeholders: "placeholders (expand_select after s) = placeholders s"
proof (induction after s rule: expand_select.induct)
  case (2 after c cs)
  show ?case
  proof (cases "if after then None else strip_select (c # cs)")
    case None
    then have "expand_select after (c # cs) = c # expand_select (is_word c) cs"
      by (simp only: expand_select.simps option.case)
    then show ?thesis
      using "2.IH"(1) [OF None] by (simp only: count_list.simps)
  next
    case (Some rest)
    then have "strip_select (c # cs) = Some rest"
      by (simp split: if_splits)
    from strip_select_placeholders [OF this] strip_select_length [OF this] show ?thesis
      using "2.IH"(2) [OF Some] Some by (simp add: cols_placeholders)
  qed
qed simp

lemma raw_placeholders: "snd (raw_statement sql) = placeholders sql"
  by (simp add: raw_statement_def number_counts expand_select_placeholders expand_stars_placeholders cols_placeholders)

section \<open>Clauses\<close>

definition clauses_bound :: "'n clauses \<Rightarrow> bool" where
  "clauses_bound q = (sum_list (map placeholders (fst q)) = length (snd q))"

lemma push_bound: "clauses_bound q \<Longrightarrow> placeholders t = length bs \<Longrightarrow> clauses_bound (push_clause t bs q)"
  by (simp add: clauses_bound_def push_clause_def)

lemma name_placeholders: "placeholders normalized_name = 0"
  by (simp add: normalized_name_def quote2_def quote1_def)

lemma category_bound: "clauses_bound q \<Longrightarrow> clauses_bound (category_clause opts q)"
  unfolding category_clause_def by (auto split: option.split intro!: push_bound)

lemma price_bound: "clauses_bound q \<Longrightarrow> clauses_bound (price_clauses opts q)"
  unfolding price_clauses_def Let_def by (auto split: option.split intro!: push_bound)

lemma status_bound: "clauses_bound q \<Longrightarrow> clauses_bound (status_clause opts q)"
  unfolding status_clause_def by (auto intro!: push_bound)

lemma search_bound: "clauses_bound q \<Longrightarrow> clauses_bound (search_clause opts q)"
  unfolding search_clause_def Let_def
  by (auto split: option.split intro!: push_bound simp: count_join name_placeholders quote1_def)

lemma catalog_clauses_bound: "clauses_bound (catalog_clauses opts)"
  unfolding catalog_clauses_def
  by (intro search_bound status_bound price_bound category_bound) (simp add: clauses_bound_def)

lemma break_placeholders: "placeholders (line_break n) = 0"
  by (induction n) (simp_all add: line_break_def newline_def)

lemma relevance_placeholders: "placeholders (relevance_order term) = (if length term \<ge> 3 then 5 else 4)"
  by (simp add: relevance_order_def break_placeholders name_placeholders)

lemma order_bound: "placeholders (fst (catalog_order opts)) = length (snd (catalog_order opts))"
proof (cases "if co_sort_by opts = Some ''relevance'' then search_term opts else None")
  case None
  then show ?thesis
    by (simp add: catalog_order_def)
next
  case (Some t)
  then show ?thesis
    by (simp add: catalog_order_def relevance_placeholders)
qed

lemma statement_placeholders:
  "placeholders (cs_sql (catalog_statement_of opts limit offset)) = length (cs_bindings (catalog_statement_of opts limit offset))"
proof -
  have conditions: "placeholders (join_text '' AND '' (fst (catalog_clauses opts))) = length (snd (catalog_clauses opts))"
    using catalog_clauses_bound [of opts] by (simp add: count_join clauses_bound_def)
  show ?thesis
    by (simp add: catalog_statement_of_def Let_def break_placeholders conditions order_bound)
qed

section \<open>No text of the caller\<close>

text \<open>The options with every value of the caller that is not compared replaced by a fixed one.\<close>

definition masked :: "'n \<Rightarrow> 'n catalog_options \<Rightarrow> 'n catalog_options" where
  "masked price opts =
     opts\<lparr>co_cat1 := map_option (\<lambda>n. 1) (truthy_id (co_cat1 opts)), co_cat2 := map_option (\<lambda>n. 1) (truthy_id (co_cat2 opts)),
       co_min_price := map_option (\<lambda>x. price) (co_min_price opts), co_max_price := map_option (\<lambda>x. price) (co_max_price opts),
       co_search := map_option (\<lambda>t. if length t \<ge> 3 then ''xyz'' else ''x'') (search_term opts)\<rparr>"

lemma masked_search: "search_term (masked price opts) = map_option (\<lambda>t. if length t \<ge> 3 then ''xyz'' else ''x'') (search_term opts)"
proof -
  have "trim_spaces ''xyz'' = ''xyz''" "trim_spaces ''x'' = ''x''"
    by (simp_all add: trim_spaces_def is_space_def)
  moreover have "co_search (masked price opts) = map_option (\<lambda>t. if length t \<ge> 3 then ''xyz'' else ''x'') (search_term opts)"
    by (simp add: masked_def)
  ultimately show ?thesis
    by (cases "search_term opts") (simp_all add: search_term_def [of "masked price opts"])
qed

lemma fst_push: "fst (push_clause t bs q) = fst q @ [t]"
  by (simp add: push_clause_def)

lemma masked_category: "fst q = fst q' \<Longrightarrow> fst (category_clause (masked price opts) q) = fst (category_clause opts q')"
  by (cases "truthy_id (co_cat2 opts)"; cases "truthy_id (co_cat1 opts)")
    (simp_all add: category_clause_def masked_def fst_push truthy_id_def [of "Some 1"] truthy_id_def [of None])

lemma masked_price: "fst q = fst q' \<Longrightarrow> fst (price_clauses (masked price opts) q) = fst (price_clauses opts q')"
  by (cases "co_min_price opts"; cases "co_max_price opts") (simp_all add: price_clauses_def masked_def fst_push)

lemma masked_status: "fst q = fst q' \<Longrightarrow> fst (status_clause (masked price opts) q) = fst (status_clause opts q')"
  by (simp add: status_clause_def masked_def fst_push)

lemma masked_search_clause: "fst q = fst q' \<Longrightarrow> fst (search_clause (masked price opts) q) = fst (search_clause opts q')"
  by (cases "search_term opts") (simp_all add: search_clause_def masked_search Let_def fst_push)

lemma masked_clauses: "fst (catalog_clauses (masked price opts)) = fst (catalog_clauses opts)"
  unfolding catalog_clauses_def by (intro masked_search_clause masked_status masked_price masked_category) simp

lemma masked_order: "fst (catalog_order (masked price opts)) = fst (catalog_order opts)"
proof -
  have other: "co_sort_by (masked price opts) = co_sort_by opts" "co_legacy_price (masked price opts) = co_legacy_price opts"
    "co_legacy_time (masked price opts) = co_legacy_time opts"
    by (simp_all add: masked_def)
  show ?thesis
  proof (cases "if co_sort_by opts = Some ''relevance'' then search_term opts else None")
    case None
    then show ?thesis
      by (cases "co_sort_by opts = Some ''relevance''") (simp_all add: catalog_order_def other masked_search)
  next
    case (Some t)
    then have "co_sort_by opts = Some ''relevance''" "search_term opts = Some t"
      by (simp_all split: if_splits)
    then show ?thesis
      by (simp add: catalog_order_def other masked_search relevance_order_def)
  qed
qed

text \<open>C38: The statement of the catalog is safe to send: the numbers \<open>raw\<close> gives its placeholders end at the number of
  its values, and its text is the one of the same filters with every identifier, price and search text of the caller,
  the limit and the offset replaced by fixed ones, so no such text ever enters the statement.\<close>

theorem catalog_statement_bound:
  "snd (raw_statement (cs_sql (catalog_statement_of opts limit offset))) = length (cs_bindings (catalog_statement_of opts limit offset))
   \<and> cs_sql (catalog_statement_of opts limit offset) = cs_sql (catalog_statement_of (masked price opts) 1 0)"
proof
  show "snd (raw_statement (cs_sql (catalog_statement_of opts limit offset))) = length (cs_bindings (catalog_statement_of opts limit offset))"
    by (simp only: raw_placeholders statement_placeholders)
  show "cs_sql (catalog_statement_of opts limit offset) = cs_sql (catalog_statement_of (masked price opts) 1 0)"
    by (simp add: catalog_statement_of_def Let_def masked_clauses masked_order)
qed

section \<open>Pages\<close>

text \<open>The pages cover the rows that match, and the last one is not empty.\<close>

lemma pages_cover:
  assumes "0 < limit" "rows \<noteq> []" "0 < total_count (hd rows)"
  shows "pl_quantity (page_of_rows total_count limit rows) \<le> pl_pages (page_of_rows total_count limit rows) * limit
    \<and> (pl_pages (page_of_rows total_count limit rows) - 1) * limit < pl_quantity (page_of_rows total_count limit rows)"
proof -
  let ?t = "total_count (hd rows)"
  have q: "pl_quantity (page_of_rows total_count limit rows) = ?t" "pl_pages (page_of_rows total_count limit rows) = ceil_div ?t limit"
    using assms(2,3) by (cases rows; simp add: page_of_rows_def Let_def)+
  have eq: "- ?t = (- ?t div limit) * limit + - ?t mod limit"
    by (rule div_mult_mod_eq [symmetric])
  have m: "0 \<le> - ?t mod limit" "- ?t mod limit < limit"
    using assms(1) by (rule pos_mod_sign, rule pos_mod_bound)
  have "(- (- ?t div limit) - 1) * limit = - ((- ?t div limit) * limit) - limit" "- (- ?t div limit) * limit = - ((- ?t div limit) * limit)"
    by (simp_all only: left_diff_distrib mult_minus_left mult_1_left)
  then show ?thesis
    unfolding q ceil_div_def using eq m by linarith
qed

text \<open>A page behind the last one has no rows, so it answers that nothing matches at all.\<close>

lemma page_behind_the_end: "page_of_rows total_count limit [] = \<lparr>pl_data = [], pl_pages = 0, pl_quantity = 0\<rparr>"
  by (simp add: page_of_rows_def)

end
