(* ===== verification/Products.thy ===== *)
theory Products
  imports Accounts Catalog
begin

text \<open>
  Products outside their auctions: modules/products (application/product.use-case.ts, the statements of
  infrastructure/product.repository.ts behind it, and the handlers of both controllers). Listing a product, questions
  and answers, favourites, descriptions, the lists of a member, and moderation. A request runs its transaction on the
  state it finds; only a favourite is set on a state older than the one it reads. The uploads, the slug and the load
  of a new auction into Redis are arguments; names of columns that only carry text through are left out.
\<close>

section \<open>Rows\<close>

record listing = product_row +
  ls_id :: int
  ls_name :: "string option"
  ls_description :: "string option"
  ls_created :: int
  ls_edited :: "int option"
  ls_category :: "int option"
  ls_images :: "string list"

record question =
  qs_id :: int
  qs_product :: int
  qs_user :: int
  qs_content :: string
  qs_parent :: "int option"

text \<open>\<open>pd_bound\<close>: the products whose orders or bans forbid to delete them. A favourite is a pair of member and product.\<close>

record product_db =
  pd_users :: "(int \<times> string) list"
  pd_listings :: "listing list"
  pd_bound :: "int set"
  pd_loves :: "(int \<times> int) list"
  pd_questions :: "question list"
  pd_outbox :: "outbox_row list"
  pd_audit :: "audit_row list"

definition find_listing :: "int \<Rightarrow> product_db \<Rightarrow> listing option" where
  "find_listing product db = find (\<lambda>l. ls_id l = product) (pd_listings db)"

definition change_listing :: "int \<Rightarrow> (listing \<Rightarrow> listing) \<Rightarrow> product_db \<Rightarrow> product_db" where
  "change_listing product f db = db\<lparr>pd_listings := map (\<lambda>l. if ls_id l = product then f l else l) (pd_listings db)\<rparr>"

definition is_user :: "int \<Rightarrow> product_db \<Rightarrow> bool" where
  "is_user user db = (user \<in> fst ` set (pd_users db))"

text \<open>An event of the domain about a product.\<close>

definition product_event :: "topics \<Rightarrow> string \<Rightarrow> string \<Rightarrow> int \<Rightarrow> json \<Rightarrow> product_db \<Rightarrow> (string, product_db) result" where
  "product_event tp event_id event_type product payload db =
     (case insert_row outbox_clash \<lparr>ob_event_id = event_id, ob_event_type = event_type, ob_event_version = 1,
             ob_aggregate_id = show_int product, ob_payload = JsonPayload payload, ob_topic = tp_domain tp\<rparr> (pd_outbox db) of
        None \<Rightarrow> throws ''P2002''
      | Some rows \<Rightarrow> returns (db\<lparr>pd_outbox := rows\<rparr>))"

section \<open>Listing a product\<close>

text \<open>The body of the form: \<open>nr_category\<close> is what \<open>BigInt\<close> makes of its field.\<close>

record new_product_request =
  nr_name :: string
  nr_step :: string
  nr_start :: string
  nr_buy_now :: string
  nr_category :: "(string, int) result"
  nr_start_time :: int
  nr_end_time :: int
  nr_description :: "string option"
  nr_auto_extended :: bool

definition money_of :: "string \<Rightarrow> string \<Rightarrow> (string, int) result" where
  "money_of value field = (case parse_money_vnd value field of Inl err \<Rightarrow> throws ''INVALID_MONEY'' | Inr n \<Rightarrow> returns n)"

fun upload_all :: "(string, string) result list \<Rightarrow> (string, string list) result" where
  "upload_all [] = returns []"
| "upload_all (f # fs) = bind_result f (\<lambda>url. bind_result (upload_all fs) (\<lambda>urls. returns (url # urls)))"

definition new_listing :: "new_product_request \<Rightarrow> string list \<Rightarrow> int \<Rightarrow> int \<Rightarrow> int \<Rightarrow> (string, listing) result" where
  "new_listing r urls seller product now =
     bind_result (money_of (nr_step r) ''step_price'') (\<lambda>step.
     bind_result (money_of (nr_start r) ''start_price'') (\<lambda>start.
     bind_result (money_of (nr_buy_now r) ''buy_now_price'') (\<lambda>buy.
     bind_result (nr_category r) (\<lambda>category.
       returns \<lparr>pr_seller = seller, pr_start_price = Some start, pr_step_price = Some step, pr_current_price = Some start,
         pr_buy_now_price = Some buy, pr_owner = None, pr_turns = Some 0, pr_start_time = Some (nr_start_time r),
         pr_end_time = Some (nr_end_time r), pr_removed = Some False, pr_auto_extended = Some (nr_auto_extended r),
         pr_status = (if nr_start_time r \<le> now then ''ACTIVE'' else ''PENDING''), pr_version = 0, pr_sequence = 0,
         ls_id = product, ls_name = Some (nr_name r), ls_description = nr_description r, ls_created = now, ls_edited = None,
         ls_category = Some category, ls_images = urls\<rparr>))))"

text \<open>The row stays when the load of the auction fails.\<close>

definition post_new_product :: "bool \<Rightarrow> (string, unit) result \<Rightarrow> new_product_request \<Rightarrow> (string, string) result list \<Rightarrow> int \<Rightarrow> int \<Rightarrow> int
    \<Rightarrow> product_db \<Rightarrow> (string, unit) result \<times> product_db" where
  "post_new_product redis bootstrap r files seller product now db =
     (case bind_result (upload_all files) (\<lambda>urls. new_listing r urls seller product now) of
        Inl err \<Rightarrow> (throws err, db)
      | Inr l \<Rightarrow>
          let db' = db\<lparr>pd_listings := pd_listings db @ [l]\<rparr>
          in (if redis then bootstrap else returns (), db'))"

section \<open>Favourites\<close>

definition check_product_is_loved :: "int \<Rightarrow> int \<Rightarrow> product_db \<Rightarrow> bool" where
  "check_product_is_loved user product db = ((user, product) \<in> set (pd_loves db))"

definition love_product :: "int \<Rightarrow> int \<Rightarrow> product_db \<Rightarrow> (string, product_db) result" where
  "love_product user product db =
     (if is_user user db \<and> find_listing product db \<noteq> None then returns (db\<lparr>pd_loves := pd_loves db @ [(user, product)]\<rparr>)
      else throws ''P2003'')"

definition unlove_product :: "int \<Rightarrow> int \<Rightarrow> product_db \<Rightarrow> product_db" where
  "unlove_product user product db = db\<lparr>pd_loves := filter (\<lambda>l. l \<noteq> (user, product)) (pd_loves db)\<rparr>"

definition update_love_status :: "int \<Rightarrow> int \<Rightarrow> bool \<Rightarrow> product_db \<Rightarrow> product_db \<Rightarrow> (string, product_db) result" where
  "update_love_status user product wanted seen db =
     (let current = check_product_is_loved user product seen
      in if wanted \<and> \<not> current then love_product user product db
         else if \<not> wanted \<and> current then returns (unlove_product user product db)
         else returns db)"

definition get_love_status :: "int option \<Rightarrow> int \<Rightarrow> product_db \<Rightarrow> bool \<times> nat" where
  "get_love_status user product db =
     (case user of None \<Rightarrow> False | Some u \<Rightarrow> check_product_is_loved u product db,
      length (filter (\<lambda>l. snd l = product) (pd_loves db)))"

section \<open>Questions\<close>

definition truthy_parent :: "int option \<Rightarrow> int option" where
  "truthy_parent p = (case p of Some n \<Rightarrow> if n = 0 then None else Some n | None \<Rightarrow> None)"

definition is_seller_answer :: "listing \<Rightarrow> int \<Rightarrow> question option \<Rightarrow> bool" where
  "is_seller_answer l user parent =
     (case parent of None \<Rightarrow> False | Some q \<Rightarrow> product_row.pr_seller l = user \<and> qs_user q \<noteq> user)"

definition post_product_question :: "topics \<Rightarrow> string \<Rightarrow> int \<Rightarrow> int \<Rightarrow> int \<Rightarrow> string \<Rightarrow> int option \<Rightarrow> product_db
    \<Rightarrow> (string, question \<times> string option \<times> product_db) result" where
  "post_product_question tp event_id question_id product user content parent_id db =
     (case find_listing product db of
        None \<Rightarrow> throws ''Product not found''
      | Some l \<Rightarrow>
          let parent = (case truthy_parent parent_id of None \<Rightarrow> None | Some n \<Rightarrow> find (\<lambda>q. qs_id q = n) (pd_questions db));
              q = \<lparr>qs_id = question_id, qs_product = product, qs_user = user, qs_content = content, qs_parent = truthy_parent parent_id\<rparr>
          in if \<not> is_user user db \<or> truthy_parent parent_id \<noteq> None \<and> parent = None then throws ''P2003''
             else bind_result (product_event tp event_id
                 (if is_seller_answer l user parent then ''product.question_answered.v1'' else ''product.question_created.v1'') product
                 (JObject [(''productId'', JString (show_int product)), (''questionId'', JString (show_int question_id)),
                    (''actorId'', JString (show_int user)),
                    (''parentQuestionId'', case parent_id of None \<Rightarrow> JNull | Some n \<Rightarrow> JString (show_int n))])
                 (db\<lparr>pd_questions := pd_questions db @ [q]\<rparr>))
               (\<lambda>db'. returns (q, map_of (pd_users db) user, db')))"

section \<open>Descriptions\<close>

definition update_product_description :: "topics \<Rightarrow> string \<Rightarrow> int \<Rightarrow> int \<Rightarrow> int \<Rightarrow> string \<Rightarrow> product_db \<Rightarrow> (string, bool \<times> product_db) result" where
  "update_product_description tp event_id now product seller text db =
     (case find (\<lambda>l. ls_id l = product \<and> product_row.pr_seller l = seller) (pd_listings db) of
        None \<Rightarrow> returns (False, db)
      | Some l \<Rightarrow>
          bind_result (product_event tp event_id ''product.description_changed.v1'' product
              (JObject [(''productId'', JString (show_int product)), (''sellerId'', JString (show_int seller)),
                 (''leaderId'', case product_row.pr_owner l of None \<Rightarrow> JNull | Some n \<Rightarrow> JString (show_int n))])
              (change_listing product (\<lambda>l. l\<lparr>ls_description := Some text, ls_edited := Some now\<rparr>) db))
            (\<lambda>db'. returns (True, db')))"

section \<open>Moderation\<close>

datatype moderation = Remove | Restore | Destroy

definition moderation_name :: "moderation \<Rightarrow> string" where
  "moderation_name a = (case a of Remove \<Rightarrow> ''remove'' | Restore \<Rightarrow> ''restore'' | Destroy \<Rightarrow> ''destroy'')"

text \<open>A deletion takes the favourites and questions of the product along; orders, bans and answers elsewhere forbid it.\<close>

definition destroy_listing :: "int \<Rightarrow> product_db \<Rightarrow> (string, product_db) result" where
  "destroy_listing product db =
     (let questions = filter (\<lambda>q. qs_product q \<noteq> product) (pd_questions db)
      in if product \<in> pd_bound db
            \<or> \<not> list_all (\<lambda>q. case qs_parent q of None \<Rightarrow> True | Some n \<Rightarrow> n \<in> set (map qs_id questions)) questions
         then throws ''P2003''
         else returns (db\<lparr>pd_listings := filter (\<lambda>l. ls_id l \<noteq> product) (pd_listings db),
                pd_loves := filter (\<lambda>l. snd l \<noteq> product) (pd_loves db), pd_questions := questions\<rparr>))"

definition moderate_product :: "topics \<Rightarrow> string \<Rightarrow> int option \<Rightarrow> string \<Rightarrow> moderation \<Rightarrow> int \<Rightarrow> product_db \<Rightarrow> (string, product_db) result" where
  "moderate_product tp event_id actor correlation action product db =
     (if find_listing product db = None then throws ''P2025''
      else bind_result
        (if action = Destroy then destroy_listing product db
         else returns (change_listing product (\<lambda>l. l\<lparr>pr_removed := Some (action = Remove)\<rparr>) db))
        (\<lambda>db1. bind_result (product_event tp event_id (''product.'' @ moderation_name action @ ''d.v1'') product
             (JObject [(''productId'', JInt product), (''action'', JString (moderation_name action))]) db1)
        (\<lambda>db2. returns (db2\<lparr>pd_audit := pd_audit db2 @ [\<lparr>ad_actor = actor, ad_action = ''product.'' @ moderation_name action,
             ad_resource_type = ''product'', ad_resource_id = show_int product, ad_correlation = correlation\<rparr>]\<rparr>))))"

section \<open>The lists of a member\<close>

definition ends_after :: "int \<Rightarrow> listing \<Rightarrow> bool" where
  "ends_after now l = (case product_row.pr_end_time l of None \<Rightarrow> False | Some e \<Rightarrow> e > now)"

definition ends_before :: "int \<Rightarrow> listing \<Rightarrow> bool" where
  "ends_before now l = (case product_row.pr_end_time l of None \<Rightarrow> False | Some e \<Rightarrow> e < now)"

definition my_selling :: "int \<Rightarrow> int \<Rightarrow> product_db \<Rightarrow> listing list" where
  "my_selling user now db = filter (\<lambda>l. product_row.pr_seller l = user \<and> ends_after now l) (pd_listings db)"

definition my_sold :: "int \<Rightarrow> int \<Rightarrow> product_db \<Rightarrow> listing list" where
  "my_sold user now db =
     filter (\<lambda>l. product_row.pr_seller l = user \<and> ends_before now l \<and> product_row.pr_owner l \<noteq> None) (pd_listings db)"

definition my_inventory :: "int \<Rightarrow> int \<Rightarrow> product_db \<Rightarrow> listing list" where
  "my_inventory user now db =
     filter (\<lambda>l. product_row.pr_seller l = user \<and> ends_before now l \<and> product_row.pr_owner l = None) (pd_listings db)"

definition my_won :: "int \<Rightarrow> int \<Rightarrow> product_db \<Rightarrow> listing list" where
  "my_won user now db = filter (\<lambda>l. product_row.pr_owner l = Some user \<and> ends_before now l) (pd_listings db)"

text \<open>A join: a product loved twice is listed twice.\<close>

definition my_favorites :: "int \<Rightarrow> product_db \<Rightarrow> listing list" where
  "my_favorites user db = concat (map (\<lambda>l. map (\<lambda>v. l) (filter (\<lambda>v. v = (user, ls_id l)) (pd_loves db))) (pd_listings db))"

text \<open>\<open>bids\<close>: member and product of every bid.\<close>

definition my_bidding :: "(int \<times> int) list \<Rightarrow> int \<Rightarrow> int \<Rightarrow> product_db \<Rightarrow> listing list" where
  "my_bidding bids user now db =
     filter (\<lambda>l. ends_after now l \<and> (user, ls_id l) \<in> set bids \<and> user \<noteq> product_row.pr_seller l) (pd_listings db)"

definition my_products :: "(int \<times> int) list \<Rightarrow> int \<Rightarrow> string \<Rightarrow> int \<Rightarrow> product_db \<Rightarrow> listing list option" where
  "my_products bids user kind now db =
     (if kind = ''my-favorites'' then Some (my_favorites user db)
      else if kind = ''my-selling'' then Some (my_selling user now db)
      else if kind = ''my-sold'' then Some (my_sold user now db)
      else if kind = ''my-won'' then Some (my_won user now db)
      else if kind = ''my-bidding'' then Some (my_bidding bids user now db)
      else if kind = ''my-inventory'' then Some (my_inventory user now db)
      else None)"

definition dashboard_items_per_page :: int where
  "dashboard_items_per_page = 4"

text \<open>The newest first; a negative offset is an error of the database.\<close>

definition get_my_products_list :: "(int \<times> int) list \<Rightarrow> int \<Rightarrow> string \<Rightarrow> int \<Rightarrow> int \<Rightarrow> product_db \<Rightarrow> (string, listing page_list option) result" where
  "get_my_products_list bids user kind page now db =
     (case my_products bids user kind now db of
        None \<Rightarrow> returns None
      | Some rows \<Rightarrow>
          if page < 1 then throws ''OFFSET must not be negative''
          else returns (Some (page_of_rows (\<lambda>r. int (length rows)) dashboard_items_per_page
                 (take 4 (drop (nat ((page - 1) * dashboard_items_per_page)) (sort_key (\<lambda>l. - ls_created l) rows))))))"

definition is_product_in_bidding_time :: "int \<Rightarrow> int \<Rightarrow> product_db \<Rightarrow> bool" where
  "is_product_in_bidding_time product now db =
     (case find_listing product db of
        None \<Rightarrow> False
      | Some l \<Rightarrow> (case product_row.pr_start_time l of None \<Rightarrow> False | Some t \<Rightarrow> t \<le> now)
                 \<and> (case product_row.pr_end_time l of None \<Rightarrow> False | Some t \<Rightarrow> t \<ge> now))"

text \<open>\<open>setting\<close>: the minutes of extension and of the threshold; no code of the repository calls it.\<close>

definition extend_bidding_time_if_needed :: "(int \<times> int) option \<Rightarrow> int \<Rightarrow> int \<Rightarrow> product_db \<Rightarrow> product_db" where
  "extend_bidding_time_if_needed setting product now db =
     (case find (\<lambda>l. product_row.pr_auto_extended l = Some True \<and> ls_id l = product) (pd_listings db) of
        None \<Rightarrow> db
      | Some l \<Rightarrow>
          (case setting of
             None \<Rightarrow> db
           | Some (minutes, threshold) \<Rightarrow>
               (case product_row.pr_end_time l of
                  None \<Rightarrow> db
                | Some e \<Rightarrow> if e - now \<le> threshold * 60000
                            then change_listing product (\<lambda>l. l\<lparr>pr_end_time := Some (e + minutes * 60000)\<rparr>) db else db)))"

definition get_product_detail_by_slug_id :: "(string \<Rightarrow> string) \<Rightarrow> int \<Rightarrow> string \<Rightarrow> product_db \<Rightarrow> listing option" where
  "get_product_detail_by_slug_id slugify product slug db =
     (case find_listing product db of
        None \<Rightarrow> None
      | Some l \<Rightarrow>
          (case truthy_text (ls_name l) of
             None \<Rightarrow> None
           | Some name \<Rightarrow> if slug \<noteq> [] \<and> slugify name \<noteq> slug then None else Some l))"

definition get_product_detail_for_winner :: "int \<Rightarrow> int \<Rightarrow> int \<Rightarrow> product_db \<Rightarrow> listing option" where
  "get_product_detail_for_winner product winner now db =
     find (\<lambda>l. ls_id l = product \<and> product_row.pr_owner l = Some winner \<and> ends_before now l) (pd_listings db)"

section \<open>Handlers\<close>

text \<open>The status and message of an answer, or the exception that leaves the handler.\<close>

datatype product_answer = Answered int string | Escaped string

record product_env =
  pe_topics :: topics
  pe_user :: int
  pe_now :: int
  pe_event_id :: string
  pe_correlation :: string
  pe_draw :: int
  pe_redis :: bool
  pe_bootstrap :: "(string, unit) result"
  pe_cancel :: "(string, unit) result"
  pe_key :: "string option"

datatype product_call = PostNewProduct new_product_request "(string, string) result list" | UpdateLoveStatus int bool
  | PostProductQuestion int string "int option" | UpdateDescription int string | DeleteProduct int | RestoreProduct int
  | DestroyProduct int

definition moderate_handler :: "product_env \<Rightarrow> moderation \<Rightarrow> string \<Rightarrow> string \<Rightarrow> int \<Rightarrow> product_db \<Rightarrow> product_answer \<times> product_db" where
  "moderate_handler e action message failure product db =
     (case moderate_product (pe_topics e) (pe_event_id e) (Some (pe_user e)) (pe_correlation e) action product db of
        Inl _ \<Rightarrow> (Answered 200 failure, db) | Inr db' \<Rightarrow> (Answered 200 message, db'))"

text \<open>With the Redis engine the auction is cancelled, and the projection of that sets the row.\<close>

definition delete_product :: "product_env \<Rightarrow> int \<Rightarrow> product_db \<Rightarrow> product_answer \<times> product_db" where
  "delete_product e product db =
     (if pe_redis e
      then if coalesce (map_option trim_spaces (pe_key e)) [] = [] then (Answered 400 ''Idempotency-Key is required'', db)
           else (case pe_cancel e of
                   Inl _ \<Rightarrow> (Answered 200 ''An error occurred while deleting product'', db)
                 | Inr _ \<Rightarrow> (Answered 200 ''Deleted product successfully'', db))
      else moderate_handler e Remove ''Deleted product successfully'' ''An error occurred while deleting product'' product db)"

fun serve_product :: "product_env \<Rightarrow> product_call \<Rightarrow> product_db \<Rightarrow> product_answer \<times> product_db" where
  "serve_product e (PostNewProduct r files) db =
     (case post_new_product (pe_redis e) (pe_bootstrap e) r files (pe_user e) (pe_draw e) (pe_now e) db of
        (Inl _, db') \<Rightarrow> (Answered 500 ''Server error'', db') | (Inr _, db') \<Rightarrow> (Answered 201 ''Product posted successfully'', db'))"
| "serve_product e (UpdateLoveStatus product wanted) db =
     (case update_love_status (pe_user e) product wanted db db of
        Inl _ \<Rightarrow> (Answered 500 ''Server error'', db) | Inr db' \<Rightarrow> (Answered 200 ''Successfully updated love status'', db'))"
| "serve_product e (PostProductQuestion product content parent) db =
     (if content = [] then (Answered 400 ''product_id and content are required'', db)
      else case post_product_question (pe_topics e) (pe_event_id e) (pe_draw e) product (pe_user e) content parent db of
             Inl err \<Rightarrow> (Escaped err, db) | Inr (_, _, db') \<Rightarrow> (Answered 201 ''Question posted successfully'', db'))"
| "serve_product e (UpdateDescription product text) db =
     (case update_product_description (pe_topics e) (pe_event_id e) (pe_now e) product (pe_user e) text db of
        Inl _ \<Rightarrow> (Answered 500 ''Server error'', db)
      | Inr (False, db') \<Rightarrow> (Answered 403 ''You are not authorized to update this product.'', db')
      | Inr (True, db') \<Rightarrow> (Answered 200 ''Successfully updated product description'', db'))"
| "serve_product e (DeleteProduct product) db = delete_product e product db"
| "serve_product e (RestoreProduct product) db =
     moderate_handler e Restore ''Restored product successfully'' ''An error occurred while restoring product'' product db"
| "serve_product e (DestroyProduct product) db =
     moderate_handler e Destroy ''Permanently deleted product successfully'' ''An error occurred while permanently deleting product'' product db"

end
