(* ===== verification/Product_Properties.thy ===== *)
theory Product_Properties
  imports Products
begin

text \<open>
  Requests about products leave the auctions alone, only the seller changes a description, and the lists of a seller
  are apart.
\<close>

section \<open>What a request leaves\<close>

text \<open>The columns of the auction are the same but for the removal, and the description but for its seller.\<close>

definition listing_kept :: "int \<Rightarrow> listing \<Rightarrow> listing \<Rightarrow> bool" where
  "listing_kept user l l' =
     (product_row.truncate (l'\<lparr>pr_removed := product_row.pr_removed l\<rparr>) = product_row.truncate l
      \<and> (ls_description l' \<noteq> ls_description l \<longrightarrow> product_row.pr_seller l = user))"

definition db_kept :: "int \<Rightarrow> product_db \<Rightarrow> product_db \<Rightarrow> bool" where
  "db_kept user db db' =
     (\<forall>i l l'. find_listing i db = Some l \<longrightarrow> find_listing i db' = Some l' \<longrightarrow> listing_kept user l l')"

lemma listing_kept_refl [simp]: "listing_kept user l l"
  by (simp add: listing_kept_def)

lemma db_kept_same: "pd_listings db' = pd_listings db \<Longrightarrow> db_kept user db db'"
  by (simp add: db_kept_def find_listing_def)

lemma find_change:
  assumes "\<And>l. ls_id (f l) = ls_id l"
  shows "find_listing i (change_listing product f db) = map_option (\<lambda>l. if i = product then f l else l) (find_listing i db)"
proof -
  have "find (\<lambda>l. ls_id l = i) (map (\<lambda>l. if ls_id l = product then f l else l) ls)
      = map_option (\<lambda>l. if i = product then f l else l) (find (\<lambda>l. ls_id l = i) ls)" for ls
    by (induction ls) (auto simp: assms)
  then show ?thesis
    by (simp add: find_listing_def change_listing_def)
qed

lemma event_listings: "product_event tp event_id ty product payload db = Inr db' \<Longrightarrow> pd_listings db' = pd_listings db"
  by (auto simp: product_event_def split: option.splits)

lemma kept_listings: "db_kept user db db1 \<Longrightarrow> pd_listings db2 = pd_listings db1 \<Longrightarrow> db_kept user db db2"
  by (simp add: db_kept_def find_listing_def)

lemma removal_kept: "db_kept user db (change_listing product (\<lambda>l. l\<lparr>pr_removed := x\<rparr>) db)"
  by (auto simp: db_kept_def find_change listing_kept_def product_row.truncate_def)

lemma describe_kept:
  assumes "find_listing product db = Some l" "product_row.pr_seller l = user"
  shows "db_kept user db (change_listing product (\<lambda>l. l\<lparr>ls_description := x, ls_edited := y\<rparr>) db)"
  using assms by (auto simp: db_kept_def find_change listing_kept_def product_row.truncate_def)

lemma find_remaining:
  "find (\<lambda>l. ls_id l = i) (filter (\<lambda>l. ls_id l \<noteq> product) ls) = (if i = product then None else find (\<lambda>l. ls_id l = i) ls)"
  by (induction ls) auto

lemma moderate_kept:
  assumes "moderate_product tp event_id actor correlation action product db = Inr db'"
  shows "db_kept user db db'"
proof -
  obtain db1 db2 where 1: "(if action = Destroy then destroy_listing product db
        else returns (change_listing product (\<lambda>l. l\<lparr>pr_removed := Some (action = Remove)\<rparr>) db)) = Inr db1"
    and 2: "product_event tp event_id (''product.'' @ moderation_name action @ ''d.v1'') product
        (JObject [(''productId'', JInt product), (''action'', JString (moderation_name action))]) db1 = Inr db2"
    and 3: "pd_listings db' = pd_listings db2"
    using assms by (auto simp: moderate_product_def bind_result_Inr_iff split: if_split_asm)
  have "db_kept user db db1"
  proof (cases "action = Destroy")
    case True
    then have l: "pd_listings db1 = filter (\<lambda>l. ls_id l \<noteq> product) (pd_listings db)"
      using 1 by (auto simp: destroy_listing_def Let_def split: if_split_asm)
    show ?thesis
      unfolding db_kept_def find_listing_def l find_remaining by (auto split: if_split_asm)
  next
    case False
    then show ?thesis
      using 1 removal_kept by auto
  qed
  then show ?thesis
    using 3 event_listings [OF 2] by (auto intro: kept_listings)
qed

lemma find_appended: "find P (xs @ ys) = (case find P xs of None \<Rightarrow> find P ys | Some x \<Rightarrow> Some x)"
  by (induction xs) auto

lemma post_kept:
  assumes "post_new_product redis bootstrap r files seller product now db = (x, db')"
  shows "db_kept user db db'"
proof -
  have "pd_listings db' = pd_listings db \<or> (\<exists>l. pd_listings db' = pd_listings db @ [l])"
    using assms by (auto simp: post_new_product_def Let_def split: sum.splits)
  then show ?thesis
    by (auto simp: db_kept_def find_listing_def find_appended)
qed

lemma find_own:
  assumes "find (\<lambda>l. ls_id l = product \<and> Q l) ls = Some l" "distinct (map ls_id ls)"
  shows "find (\<lambda>l. ls_id l = product) ls = Some l \<and> Q l"
  using assms by (induction ls) (auto simp: find_Some_iff split: if_split_asm)

lemma description_kept:
  assumes "update_product_description tp event_id now product user text db = Inr (done', db')" "distinct (map ls_id (pd_listings db))"
  shows "db_kept user db db'"
proof (cases "find (\<lambda>l. ls_id l = product \<and> product_row.pr_seller l = user) (pd_listings db)")
  case None
  then show ?thesis
    using assms(1) by (simp add: update_product_description_def db_kept_same)
next
  case (Some l)
  let ?db = "change_listing product (\<lambda>l. l\<lparr>ls_description := Some text, ls_edited := Some now\<rparr>) db"
  obtain payload where "product_event tp event_id ''product.description_changed.v1'' product payload ?db = Inr db'"
    using assms(1) Some by (auto simp: update_product_description_def bind_result_Inr_iff)
  from event_listings [OF this] have "pd_listings db' = pd_listings ?db" .
  moreover have "db_kept user db ?db"
    using find_own [OF Some assms(2)] by (intro describe_kept) (auto simp: find_listing_def)
  ultimately show ?thesis
    by (auto intro: kept_listings)
qed

lemma serve_kept:
  assumes "distinct (map ls_id (pd_listings db))"
  shows "db_kept (pe_user e) db (snd (serve_product e call db))"
proof (cases call)
  case (PostNewProduct r files)
  then show ?thesis
    by (auto split: prod.split sum.split intro: post_kept)
next
  case (UpdateLoveStatus product wanted)
  then show ?thesis
    by (auto intro!: db_kept_same split: sum.split if_split_asm
        simp: update_love_status_def Let_def love_product_def unlove_product_def)
next
  case (PostProductQuestion product content parent)
  then show ?thesis
    by (auto intro!: db_kept_same split: sum.split if_split_asm option.splits dest!: event_listings
        simp: post_product_question_def Let_def bind_result_Inr_iff)
next
  case (UpdateDescription product body)
  show ?thesis
  proof (cases "update_product_description (pe_topics e) (pe_event_id e) (pe_now e) product (pe_user e) body db")
    case (Inl err)
    then show ?thesis
      by (simp add: UpdateDescription db_kept_same)
  next
    case (Inr out)
    obtain done' db' where out: "out = (done', db')"
      by (cases out)
    have "db_kept (pe_user e) db db'"
      using description_kept Inr [unfolded out] assms by blast
    then show ?thesis
      by (cases done') (simp_all add: UpdateDescription Inr out)
  qed
next
  case (DeleteProduct product)
  then show ?thesis
    by (auto simp: delete_product_def moderate_handler_def db_kept_same split: sum.split intro: moderate_kept)
next
  case (RestoreProduct product)
  then show ?thesis
    by (auto simp: moderate_handler_def db_kept_same split: sum.split intro: moderate_kept)
next
  case (DestroyProduct product)
  then show ?thesis
    by (auto simp: moderate_handler_def db_kept_same split: sum.split intro: moderate_kept)
qed

section \<open>The lists of a seller\<close>

text \<open>A product of the seller stands in exactly one list, unless its end is unknown or now: then it is in none.\<close>

lemma seller_lists:
  assumes "l \<in> set (pd_listings db)" "product_row.pr_seller l = user"
  shows "(l \<in> set (my_selling user now db) \<longleftrightarrow> ends_after now l)
    \<and> (l \<in> set (my_sold user now db) \<longleftrightarrow> ends_before now l \<and> product_row.pr_owner l \<noteq> None)
    \<and> (l \<in> set (my_inventory user now db) \<longleftrightarrow> ends_before now l \<and> product_row.pr_owner l = None)
    \<and> (\<not> ends_after now l \<and> \<not> ends_before now l \<longleftrightarrow> product_row.pr_end_time l \<in> {None, Some now})"
  using assms by (auto simp: my_selling_def my_sold_def my_inventory_def ends_after_def ends_before_def split: option.splits)

text \<open>Two requests that both saw no favourite leave two, and the count and the list of the member show both.\<close>

lemma loved_twice:
  assumes "is_user user db" "find_listing product db \<noteq> None" "\<not> check_product_is_loved user product db"
  shows "\<exists>db1 db2. update_love_status user product True db db = Inr db1 \<and> update_love_status user product True db db1 = Inr db2
    \<and> snd (get_love_status None product db2) = snd (get_love_status None product db) + 2"
  using assms by (simp add: update_love_status_def love_product_def get_love_status_def is_user_def find_listing_def)

text \<open>The event of a destruction is misspelt.\<close>

lemma destroyed_event: "''product.'' @ moderation_name Destroy @ ''d.v1'' = ''product.destroyd.v1''"
  by (simp add: moderation_name_def)

end
