(* ===== verification/Dashboard.thy ===== *)
theory Dashboard
  imports Outbox_Relay Notifications Text_Patterns
begin

text \<open>
  The dashboard behind the event stream: dashboard.worker.ts and dashboard-summary.use-case.ts with the handlers of
  dashboard.controller.ts that change something or compute. Every event is receipted, a batch ends with one refresh of
  the stored snapshot and the commit of its offset; operators list and retry what failed. The aggregating SQL is the
  argument of a refresh: the JSON value it gives, or its error. \<open>processMessage\<close> is only called without a refresh
  of its own. Identifiers drawn at random are new; the database fails only where a try says so.
\<close>

section \<open>Tables\<close>

record stats_row =
  st_value :: json
  st_updated_at :: int
  st_version :: int
  st_duration :: int
  st_source_events :: int
  st_reason :: string

record log_row =
  lg_id :: nat
  lg_actor :: "int option"
  lg_action :: string
  lg_resource_type :: string
  lg_resource_id :: "string option"
  lg_result :: string
  lg_error_code :: "string option"
  lg_correlation :: string
  lg_metadata :: json
  lg_created_at :: int

record dash_db =
  dd_stats :: "stats_row option"
  dd_receipts :: "(string \<times> event_receipt) list"
  dd_notified :: "(string \<times> event_receipt) list"
  dd_outbox :: "relay_row list"
  dd_logs :: "log_row list"

text \<open>What a statement row_draws: the clock and the identifiers.\<close>

record row_draws =
  dw_event_id :: string
  dw_correlation :: string
  dw_now :: int

text \<open>An upsert on the key.\<close>

fun put_row :: "'k \<Rightarrow> 'v \<Rightarrow> ('k \<times> 'v) list \<Rightarrow> ('k \<times> 'v) list" where
  "put_row k v [] = [(k, v)]"
| "put_row k v ((k', v') # rows) = (if k' = k then (k, v) # rows else (k', v') # put_row k v rows)"

lemma put_row_lookup [simp, store_simps]: "map_of (put_row k v rows) j = (if j = k then Some v else map_of rows j)"
  by (induction rows) auto

definition next_row_id :: "relay_row list \<Rightarrow> nat" where
  "next_row_id rows = Suc (fold (\<lambda>r. max (ry_id r)) rows 0)"

definition add_relay_row ::
    "topics \<Rightarrow> row_draws \<Rightarrow> string \<Rightarrow> string \<Rightarrow> string \<Rightarrow> string option \<Rightarrow> string option \<Rightarrow> json \<Rightarrow> relay_row list
     \<Rightarrow> (string, relay_row) result" where
  "add_relay_row tp dw topic event_type aggregate correlation causation body rows =
     (if topic \<notin> relay_topics tp then throws (''Unsupported outbox topic: '' @ topic)
      else returns
        \<lparr>ry_id = next_row_id rows, ry_event_id = dw_event_id dw, ry_event_type = event_type, ry_event_version = 1,
         ry_aggregate_id = aggregate, ry_payload = Some body, ry_topic = topic,
         ry_correlation_id = coalesce correlation (dw_correlation dw), ry_causation_id = causation,
         ry_occurred_at = dw_now dw, ry_attempts = 0, ry_available_at = dw_now dw, ry_delivered_at = None,
         ry_terminal_at = None, ry_last_error = None\<rparr>)"

section \<open>Numbers of the environment\<close>

text \<open>\<open>parsed\<close> is \<open>Number(value)\<close> rounded down, \<open>None\<close> when it is not finite.\<close>

definition non_negative_integer_env :: "(string \<Rightarrow> int option) \<Rightarrow> string option \<Rightarrow> int \<Rightarrow> int" where
  "non_negative_integer_env parsed v fallback =
     (case v of None \<Rightarrow> fallback
      | Some s \<Rightarrow> if trim_spaces s = '''' then fallback
          else (case parsed s of Some n \<Rightarrow> if 0 \<le> n then n else fallback | None \<Rightarrow> fallback))"

definition calculate_retry_delay_ms :: "int \<Rightarrow> int" where
  "calculate_retry_delay_ms attempt = min 30000 (max 1000 (1000 * 2 ^ nat (max 0 (attempt - 1))))"

section \<open>Receipts\<close>

record dash_config =
  dc_topics :: topics
  dc_group :: string
  dc_retry_limit :: int
  dc_topic :: string
  dc_partition :: int
  dc_sha256 :: "string \<Rightarrow> string"

definition place_of :: "dash_config \<Rightarrow> kafka_message \<Rightarrow> origin" where
  "place_of c m = \<lparr>og_topic = dc_topic c, og_partition = Some (dc_partition c), og_offset = Some (show_nat (km_offset m))\<rparr>"

definition receipt_attempts :: "envelope \<Rightarrow> origin \<Rightarrow> dash_db \<Rightarrow> int \<times> dash_db" where
  "receipt_attempts ev og db =
     (let r = (case map_of (dd_receipts db) (ev_event_id ev) of
          None \<Rightarrow> new_receipt ev og ''retrying''
        | Some r \<Rightarrow> r\<lparr>er_attempts := er_attempts r + 1, er_partition := og_partition og, er_offset := og_offset og,
                      er_status := ''retrying''\<rparr>)
      in (er_attempts r, db\<lparr>dd_receipts := put_row (ev_event_id ev) r (dd_receipts db)\<rparr>))"

definition complete_dashboard_receipt :: "envelope \<Rightarrow> origin \<Rightarrow> int \<Rightarrow> int \<Rightarrow> dash_db \<Rightarrow> dash_db" where
  "complete_dashboard_receipt ev og attempts now db =
     (let r = coalesce (map_of (dd_receipts db) (ev_event_id ev)) (new_receipt ev og ''processed'')
      in db\<lparr>dd_receipts := put_row (ev_event_id ev)
              (r\<lparr>er_status := ''processed'', er_attempts := attempts, er_partition := og_partition og,
                 er_offset := og_offset og, er_processed_at := Some now, er_error := None\<rparr>) (dd_receipts db)\<rparr>)"

definition note_error :: "string \<Rightarrow> string \<Rightarrow> dash_db \<Rightarrow> dash_db" where
  "note_error event_id message db =
     (case map_of (dd_receipts db) event_id of
        None \<Rightarrow> db
      | Some r \<Rightarrow> db\<lparr>dd_receipts := put_row event_id (r\<lparr>er_error := Some (take 2000 message)\<rparr>) (dd_receipts db)\<rparr>)"

definition is_dlq_row_of :: "dash_config \<Rightarrow> string \<Rightarrow> relay_row \<Rightarrow> bool" where
  "is_dlq_row_of c event_id r =
     (ry_topic r = tp_async_dlq (dc_topics c) \<and> ry_causation_id r = Some event_id
      \<and> ry_event_type r = ''async.consumer_terminal.v1'')"

definition terminal_payload :: "dash_config \<Rightarrow> origin \<Rightarrow> envelope \<Rightarrow> int \<Rightarrow> string \<Rightarrow> json" where
  "terminal_payload c og ev attempts message = JObject
     [(''consumer'', JString (dc_group c)),
      (''source'', JObject [(''topic'', JString (og_topic og)), (''partition'', JInt (coalesce (og_partition og) 0)),
        (''offset'', JString (coalesce (og_offset og) ''''))]),
      (''envelope'', envelope_json ev), (''attempt'', JInt attempts),
      (''error'', JObject [(''message'', JString message)])]"

definition record_dashboard_terminal ::
    "dash_config \<Rightarrow> row_draws \<Rightarrow> envelope \<Rightarrow> origin \<Rightarrow> int \<Rightarrow> string \<Rightarrow> dash_db \<Rightarrow> (string, unit) result \<times> dash_db" where
  "record_dashboard_terminal c dw ev og attempts message db =
     (let e = take 2000 message;
          r = coalesce (map_of (dd_receipts db) (ev_event_id ev)) (new_receipt ev og ''terminal'');
          db' = db\<lparr>dd_receipts := put_row (ev_event_id ev)
             (r\<lparr>er_status := ''terminal'', er_attempts := attempts, er_error := Some e,
                er_terminal_at := Some (dw_now dw)\<rparr>) (dd_receipts db)\<rparr>
      in if list_ex (is_dlq_row_of c (ev_event_id ev)) (dd_outbox db) then (returns (), db')
         else case add_relay_row (dc_topics c) dw (tp_async_dlq (dc_topics c)) ''async.consumer_terminal.v1''
                (ev_aggregate_id ev) (Some (ev_correlation_id ev)) (Some (ev_event_id ev))
                (terminal_payload c og ev attempts e) (dd_outbox db) of
            Inl err \<Rightarrow> (throws err, db)
          | Inr row \<Rightarrow> (returns (), db'\<lparr>dd_outbox := dd_outbox db @ [row]\<rparr>))"

section \<open>One message\<close>

definition dashboard_event_id :: "dash_config \<Rightarrow> nat \<Rightarrow> string" where
  "dashboard_event_id c offset =
     (let h = dc_sha256 c (dc_topic c @ '':'' @ show_int (dc_partition c) @ '':'' @ show_nat offset)
      in hex_slice 0 8 h @ ''-'' @ hex_slice 8 12 h @ ''-4'' @ hex_slice 13 16 h @ ''-a'' @ hex_slice 17 20 h @ ''-'' @ hex_slice 20 32 h)"

text \<open>\<open>raw\<close> is the text of the message.\<close>

definition invalid_dashboard_event :: "string \<Rightarrow> int \<Rightarrow> string \<Rightarrow> envelope" where
  "invalid_dashboard_event event_id now raw =
     \<lparr>ev_event_id = event_id, ev_event_type = ''dashboard.invalid_event.v1'', ev_event_version = 1, ev_aggregate_id = ''invalid'',
      ev_occurred_at = iso_string now, ev_correlation_id = event_id, ev_causation_id = None,
      ev_payload = JObject [(''raw'', JString (take 4000 raw))]\<rparr>"

text \<open>One turn of the loop: whether the worker is stopping, the error of the database when the receipt is
  completed, and what the turn row_draws. \<open>None\<close>: the list of turns is over.\<close>

record turn =
  tn_stopping :: bool
  tn_error :: "string option"
  tn_draws :: row_draws

fun try_message :: "dash_config \<Rightarrow> envelope \<Rightarrow> origin \<Rightarrow> turn list \<Rightarrow> int \<Rightarrow> dash_db \<Rightarrow> ((string, unit) result \<times> dash_db) option" where
  "try_message c ev og [] attempts db = None"
| "try_message c ev og (t # ts) attempts db =
     (if tn_stopping t then Some (throws ''Dashboard worker is stopping'', db)
      else case tn_error t of
        None \<Rightarrow> Some (returns (), complete_dashboard_receipt ev og attempts (dw_now (tn_draws t)) db)
      | Some e \<Rightarrow>
          let db1 = note_error (ev_event_id ev) e db
          in if dc_retry_limit c \<le> attempts
             then Some (record_dashboard_terminal c (tn_draws t) ev og attempts e db1)
             else let (attempts', db2) = receipt_attempts ev og db1 in try_message c ev og ts attempts' db2)"

definition receipted :: "dash_db \<Rightarrow> string \<Rightarrow> bool" where
  "receipted db event_id =
     (case map_of (dd_receipts db) event_id of None \<Rightarrow> False | Some r \<Rightarrow> er_status r = ''processed'' \<or> er_status r = ''terminal'')"

record arrival =
  ar_message :: kafka_message
  ar_raw :: string
  ar_skipped :: bool
  ar_draws :: row_draws
  ar_turns :: "turn list"

definition process_message :: "dash_config \<Rightarrow> arrival \<Rightarrow> dash_db \<Rightarrow> ((string, unit) result \<times> dash_db) option" where
  "process_message c a db =
     (let m = ar_message a in
      case km_value m of
        None \<Rightarrow> Some (throws ''Kafka event has no value'', db)
      | Some parsed \<Rightarrow>
          (case parse_event_envelope parsed of
             Inl e \<Rightarrow> Some (record_dashboard_terminal c (ar_draws a)
                 (invalid_dashboard_event (dashboard_event_id c (km_offset m)) (dw_now (ar_draws a)) (ar_raw a))
                 (place_of c m) (dc_retry_limit c) e db)
           | Inr ev \<Rightarrow>
               if receipted db (ev_event_id ev) then Some (returns (), db)
               else let (attempts, db1) = receipt_attempts ev (place_of c m) db
                    in try_message c ev (place_of c m) (ar_turns a) attempts db1))"

section \<open>The snapshot\<close>

record refresh_input =
  ri_reason :: string
  ri_source_events :: "int option"
  ri_duration :: int
  ri_now :: int

text \<open>The statement that writes the snapshot: version and time it returns.\<close>

definition write_snapshot :: "refresh_input \<Rightarrow> json \<Rightarrow> dash_db \<Rightarrow> (int \<times> int) \<times> dash_db" where
  "write_snapshot i v db =
     (let version = (case dd_stats db of None \<Rightarrow> 1 | Some s \<Rightarrow> st_version s + 1)
      in ((version, ri_now i),
          db\<lparr>dd_stats := Some \<lparr>st_value = v, st_updated_at = ri_now i, st_version = version, st_duration = ri_duration i,
               st_source_events = coalesce (ri_source_events i) 0, st_reason = ri_reason i\<rparr>\<rparr>))"

definition refresh_dashboard_snapshot ::
    "(string, json) result \<Rightarrow> refresh_input \<Rightarrow> dash_db \<Rightarrow> (string, int \<times> int) result \<times> dash_db" where
  "refresh_dashboard_snapshot computed i db =
     (case computed of
        Inl e \<Rightarrow> (throws e, db)
      | Inr v \<Rightarrow> let (res, db') = write_snapshot i v db in (returns res, db'))"

text \<open>\<open>singleFlightRefresh\<close>: a call while a refresh runs shares it. \<open>fl_data\<close> is what the aggregates are computed from,
  \<open>fl_reading\<close> what the refresh in the air has read.\<close>

record 'd flight =
  fl_data :: 'd
  fl_reading :: "'d option"
  fl_shown :: "'d option"
  fl_version :: nat
  fl_waiting :: nat
  fl_answered :: nat

datatype 'd flight_event = Change 'd | Call | Land | Crash

fun fly :: "'d flight_event \<Rightarrow> 'd flight \<Rightarrow> 'd flight" where
  "fly (Change d) s = s\<lparr>fl_data := d\<rparr>"
| "fly Call s =
     (case fl_reading s of
        None \<Rightarrow> s\<lparr>fl_reading := Some (fl_data s), fl_waiting := 1\<rparr>
      | Some _ \<Rightarrow> s\<lparr>fl_waiting := fl_waiting s + 1\<rparr>)"
| "fly Land s =
     (case fl_reading s of
        None \<Rightarrow> s
      | Some d \<Rightarrow> s\<lparr>fl_reading := None, fl_shown := Some d, fl_version := fl_version s + 1,
                    fl_answered := fl_answered s + fl_waiting s, fl_waiting := 0\<rparr>)"
| "fly Crash s = (case fl_reading s of None \<Rightarrow> s | Some _ \<Rightarrow> s\<lparr>fl_reading := None, fl_waiting := 0\<rparr>)"

section \<open>One batch\<close>

text \<open>The messages as they are handled, each until it is done; a message that throws does not keep the other workers
  from theirs. The offset that is committed, or the error of the batch.\<close>

definition handle_arrival :: "dash_config \<Rightarrow> arrival \<Rightarrow> string option \<times> dash_db \<Rightarrow> string option \<times> dash_db" where
  "handle_arrival c a s =
     (if ar_skipped a then s
      else case process_message c a (snd s) of
        Some (Inr _, db) \<Rightarrow> (fst s, db)
      | Some (Inl e, db) \<Rightarrow> (Some (coalesce (fst s) e), db)
      | None \<Rightarrow> (Some (coalesce (fst s) ''still waiting''), snd s))"

text \<open>What the batch finds at its end: nothing, or a refresh in the air with what it computed and the input of the caller who
  started it, which then answers the batch as well.\<close>

type_synonym in_the_air = "((string, json) result \<times> refresh_input) option"

definition single_flight_refresh ::
    "in_the_air \<Rightarrow> (string, json) result \<Rightarrow> refresh_input \<Rightarrow> dash_db \<Rightarrow> (string, int \<times> int) result \<times> dash_db" where
  "single_flight_refresh air computed i db =
     (case air of
        None \<Rightarrow> refresh_dashboard_snapshot computed i db
      | Some (other, j) \<Rightarrow> refresh_dashboard_snapshot other j db)"

definition batch_input :: "kafka_message list \<Rightarrow> int \<Rightarrow> int \<Rightarrow> refresh_input" where
  "batch_input messages duration now =
     \<lparr>ri_reason = ''kafka_batch'', ri_source_events = Some (int (length messages)), ri_duration = duration, ri_now = now\<rparr>"

definition dashboard_batch ::
    "dash_config \<Rightarrow> bool \<Rightarrow> kafka_message list \<Rightarrow> arrival list \<Rightarrow> in_the_air \<Rightarrow> (string, json) result \<Rightarrow> int \<Rightarrow> int \<Rightarrow> dash_db
     \<Rightarrow> (string, nat option) result \<times> dash_db" where
  "dashboard_batch c skipped messages order air computed duration now db =
     (if skipped then (returns None, db)
      else let (failed, db1) = fold (handle_arrival c) order (None, db)
           in case failed of
             Some e \<Rightarrow> (throws e, db1)
           | None \<Rightarrow>
               (case single_flight_refresh air computed (batch_input messages duration now) db1 of
                  (Inl e, db2) \<Rightarrow> (throws e, db2)
                | (Inr _, db2) \<Rightarrow>
                    (returns (if messages = [] then None else Some (km_offset (last messages) + 1)), db2)))"

section \<open>Reading the snapshot\<close>

definition dashboard_ranges :: "string list" where
  "dashboard_ranges = [''7d'', ''30d'', ''3m'', ''6m'', ''1y'']"

datatype freshness = Fresh | Stale

record summary =
  sm_range :: string
  sm_figures :: "json option"
  sm_activity :: "json option"
  sm_version :: int
  sm_updated_at :: int
  sm_freshness :: int
  sm_state :: freshness
  sm_duration :: int
  sm_source_events :: int
  sm_reason :: string

definition current_shape :: "json \<Rightarrow> bool" where
  "current_shape v = (is_object v \<and> field_of ''ranges'' v \<noteq> None)"

definition summary_of :: "int \<Rightarrow> int \<Rightarrow> string \<Rightarrow> stats_row \<Rightarrow> summary" where
  "summary_of stale_threshold now period s =
     (let age = max 0 (now - st_updated_at s)
      in \<lparr>sm_range = period,
          sm_figures = (case field_of ''ranges'' (st_value s) of Some r \<Rightarrow> field_of period r | None \<Rightarrow> None),
          sm_activity = field_of ''recentActivity'' (st_value s),
          sm_version = st_version s, sm_updated_at = st_updated_at s, sm_freshness = age,
          sm_state = (if age \<le> stale_threshold then Fresh else Stale),
          sm_duration = st_duration s, sm_source_events = st_source_events s, sm_reason = st_reason s\<rparr>)"

definition get_dashboard_summary ::
    "int \<Rightarrow> (string, json) result \<Rightarrow> int \<Rightarrow> int \<Rightarrow> string \<Rightarrow> dash_db \<Rightarrow> (string, summary) result \<times> dash_db" where
  "get_dashboard_summary stale_threshold computed duration now period db =
     (case dd_stats db of
        Some s \<Rightarrow>
          if current_shape (st_value s) then (returns (summary_of stale_threshold now period s), db)
          else (case refresh_dashboard_snapshot computed
                  \<lparr>ri_reason = ''live_fallback'', ri_source_events = None, ri_duration = duration, ri_now = now\<rparr> db of
                (Inl e, db') \<Rightarrow> (throws e, db')
              | (Inr _, db') \<Rightarrow> (returns (summary_of stale_threshold now period (the (dd_stats db'))), db'))
      | None \<Rightarrow>
          (case refresh_dashboard_snapshot computed
                  \<lparr>ri_reason = ''live_fallback'', ri_source_events = None, ri_duration = duration, ri_now = now\<rparr> db of
                (Inl e, db') \<Rightarrow> (throws e, db')
              | (Inr _, db') \<Rightarrow> (returns (summary_of stale_threshold now period (the (dd_stats db'))), db')))"

record recalculation =
  rq_event_id :: string
  rq_baseline :: int
  rq_requested_at :: int

definition request_dashboard_recalculation ::
    "topics \<Rightarrow> row_draws \<Rightarrow> string option \<Rightarrow> dash_db \<Rightarrow> (string, recalculation) result \<times> dash_db" where
  "request_dashboard_recalculation tp dw correlation db =
     (case add_relay_row tp dw (tp_dashboard tp) ''dashboard.refresh_requested.v1'' ''dashboard'' correlation None
         (JObject [(''requestedAt'', JString (iso_string (dw_now dw)))]) (dd_outbox db) of
        Inl e \<Rightarrow> (throws e, db)
      | Inr row \<Rightarrow>
          (returns \<lparr>rq_event_id = ry_event_id row,
             rq_baseline = (case dd_stats db of None \<Rightarrow> 0 | Some s \<Rightarrow> st_version s), rq_requested_at = ry_occurred_at row\<rparr>,
           db\<lparr>dd_outbox := dd_outbox db @ [row]\<rparr>))"

text \<open>The handler \<open>syncCache\<close>: the refresh, then the request for another one.\<close>

definition sync_cache ::
    "topics \<Rightarrow> row_draws \<Rightarrow> (string, json) result \<Rightarrow> int \<Rightarrow> string \<Rightarrow> dash_db
     \<Rightarrow> (string, recalculation \<times> int \<times> int) result \<times> dash_db" where
  "sync_cache tp dw computed duration request_id db =
     (case refresh_dashboard_snapshot computed
         \<lparr>ri_reason = ''manual_admin_sync'', ri_source_events = None, ri_duration = duration, ri_now = dw_now dw\<rparr> db of
        (Inl e, db1) \<Rightarrow> (throws e, db1)
      | (Inr written, db1) \<Rightarrow>
          (case request_dashboard_recalculation tp dw (Some request_id) db1 of
             (Inl e, db2) \<Rightarrow> (throws e, db2)
           | (Inr r, db2) \<Rightarrow> (returns (r, written), db2)))"

section \<open>Operations\<close>

text \<open>\<open>timestamp\<close> is \<open>Date.parse\<close> of the key, \<open>None\<close> when the key is missing or no date.\<close>

definition heartbeat_of :: "int \<Rightarrow> int option \<Rightarrow> bool \<times> int option" where
  "heartbeat_of now timestamp =
     (let age = (case timestamp of None \<Rightarrow> None | Some t \<Rightarrow> Some (max 0 (now - t)))
      in ((case age of None \<Rightarrow> False | Some a \<Rightarrow> a < 90000), age))"

text \<open>Offsets are per partition: the high one of the topic, and the committed ones of the group.\<close>

definition consumer_lag :: "(nat \<times> int) list \<Rightarrow> (nat \<times> int) list \<Rightarrow> int" where
  "consumer_lag high acked =
     fold (\<lambda>(p, h) total. total + max 0 (h - coalesce (map_of acked p) 0)) high 0"

record operations =
  op_outbox_pending :: nat
  op_outbox_retrying :: nat
  op_outbox_terminal :: nat
  op_email_pending :: nat
  op_email_retrying :: nat
  op_email_terminal :: nat
  op_dlq :: nat
  op_refresh_age :: "int option"

definition get_operations :: "int \<Rightarrow> delivery list \<Rightarrow> dash_db \<Rightarrow> operations" where
  "get_operations now mails db =
     (let terminal_of = (\<lambda>rows. length (filter (\<lambda>(_, r). er_status r = ''terminal'') rows));
          waiting = (\<lambda>d. dv_status d = ''pending'' \<or> dv_status d = ''leased'');
          outbox_terminal = length (filter (\<lambda>r. ry_terminal_at r \<noteq> None) (dd_outbox db));
          email_terminal = length (filter (\<lambda>d. dv_status d = ''terminal'') mails)
      in \<lparr>op_outbox_pending = length (filter undecided (dd_outbox db)),
          op_outbox_retrying = length (filter (\<lambda>r. undecided r \<and> 0 < ry_attempts r) (dd_outbox db)),
          op_outbox_terminal = outbox_terminal,
          op_email_pending = length (filter waiting mails),
          op_email_retrying = length (filter (\<lambda>d. waiting d \<and> 0 < dv_attempts d) mails),
          op_email_terminal = email_terminal,
          op_dlq = terminal_of (dd_receipts db) + terminal_of (dd_notified db) + outbox_terminal + email_terminal,
          op_refresh_age = (case dd_stats db of None \<Rightarrow> None | Some s \<Rightarrow> Some (max 0 (now - st_updated_at s)))\<rparr>)"

section \<open>Dead letters\<close>

datatype dlq_kind = DashboardDlq | NotificationDlq | OutboxDlq

definition dlq_kind_name :: "dlq_kind \<Rightarrow> string" where
  "dlq_kind_name k = (case k of DashboardDlq \<Rightarrow> ''dashboard'' | NotificationDlq \<Rightarrow> ''notification'' | OutboxDlq \<Rightarrow> ''outbox'')"

record dlq_item =
  di_kind :: dlq_kind
  di_event_id :: string
  di_event_type :: string
  di_attempts :: int
  di_error :: "string option"
  di_correlation :: string
  di_terminal_at :: "int option"

definition receipt_item :: "dlq_kind \<Rightarrow> string \<times> event_receipt \<Rightarrow> dlq_item" where
  "receipt_item k row =
     \<lparr>di_kind = k, di_event_id = fst row, di_event_type = er_type (snd row), di_attempts = er_attempts (snd row),
      di_error = er_error (snd row), di_correlation = er_correlation (snd row), di_terminal_at = er_terminal_at (snd row)\<rparr>"

definition outbox_item :: "relay_row \<Rightarrow> dlq_item" where
  "outbox_item r =
     \<lparr>di_kind = OutboxDlq, di_event_id = ry_event_id r, di_event_type = ry_event_type r, di_attempts = ry_attempts r,
      di_error = ry_last_error r, di_correlation = ry_correlation_id r, di_terminal_at = ry_terminal_at r\<rparr>"

text \<open>ISO dates sort like their times; a missing one is the empty text, the smallest.\<close>

definition newest_first :: "dlq_item list \<Rightarrow> dlq_item list" where
  "newest_first items =
     (let dated = filter (\<lambda>i. di_terminal_at i \<noteq> None) items
      in sort_key (\<lambda>i. - the (di_terminal_at i)) dated @ filter (\<lambda>i. di_terminal_at i = None) items)"

definition page_of :: "nat \<Rightarrow> nat \<Rightarrow> 'a list \<Rightarrow> 'a list" where
  "page_of page limit xs = take limit (drop ((page - 1) * limit) xs)"

definition dead_letters :: "dlq_kind option \<Rightarrow> dash_db \<Rightarrow> dlq_item list" where
  "dead_letters kind db =
     (let selected = (\<lambda>k. kind = None \<or> kind = Some k);
          terminal_of = (\<lambda>k rows. if selected k then map (receipt_item k) (filter (\<lambda>(_, r). er_status r = ''terminal'') rows) else [])
      in newest_first (terminal_of DashboardDlq (dd_receipts db) @ terminal_of NotificationDlq (dd_notified db)
           @ (if selected OutboxDlq then map outbox_item (filter (\<lambda>r. ry_terminal_at r \<noteq> None) (dd_outbox db)) else [])))"

definition get_dlq :: "nat \<Rightarrow> nat \<Rightarrow> dlq_kind option \<Rightarrow> dash_db \<Rightarrow> dlq_item list \<times> nat" where
  "get_dlq page limit kind db = (let rows = dead_letters kind db in (page_of page limit rows, length rows))"

definition revive_row :: "int \<Rightarrow> relay_row \<Rightarrow> relay_row" where
  "revive_row now r = r\<lparr>ry_terminal_at := None, ry_attempts := 0, ry_available_at := now, ry_last_error := None\<rparr>"

definition log_retry :: "dlq_kind \<Rightarrow> string \<Rightarrow> int \<Rightarrow> string \<Rightarrow> string \<Rightarrow> int \<Rightarrow> dash_db \<Rightarrow> dash_db" where
  "log_retry kind event_id actor correlation retried now db =
     db\<lparr>dd_logs := dd_logs db @
          [\<lparr>lg_id = Suc (length (dd_logs db)), lg_actor = Some actor, lg_action = dlq_kind_name kind @ ''.dlq.retry'',
            lg_resource_type = dlq_kind_name kind @ ''_event'', lg_resource_id = Some event_id, lg_result = ''success'', lg_error_code = None,
            lg_correlation = correlation, lg_metadata = JObject [(''retryEventId'', JString retried)], lg_created_at = now\<rparr>]\<rparr>"

definition terminal_receipt_of :: "string \<Rightarrow> (string \<times> event_receipt) list \<Rightarrow> event_receipt option" where
  "terminal_receipt_of event_id rows =
     (case map_of rows event_id of None \<Rightarrow> None | Some r \<Rightarrow> if er_status r = ''terminal'' then Some r else None)"

definition retry_dlq ::
    "topics \<Rightarrow> row_draws \<Rightarrow> dlq_kind \<Rightarrow> string \<Rightarrow> int \<Rightarrow> string \<Rightarrow> dash_db \<Rightarrow> (string, string \<times> int) result \<times> dash_db" where
  "retry_dlq tp dw kind event_id actor correlation db =
     (case kind of
        OutboxDlq \<Rightarrow>
          (case find (\<lambda>r. ry_event_id r = event_id) (dd_outbox db) of
             Some r \<Rightarrow>
               if ry_terminal_at r = None then (throws ''DLQ event was not found'', db)
               else (returns (ry_event_id r, ry_occurred_at r),
                     log_retry kind event_id actor correlation (ry_event_id r) (dw_now dw)
                       (db\<lparr>dd_outbox := map (\<lambda>r. if ry_event_id r = event_id then revive_row (dw_now dw) r else r) (dd_outbox db)\<rparr>))
           | None \<Rightarrow> (throws ''DLQ event was not found'', db))
      | NotificationDlq \<Rightarrow>
          (case terminal_receipt_of event_id (dd_notified db) of
             None \<Rightarrow> (throws ''DLQ event was not found'', db)
           | Some r \<Rightarrow>
               (case add_relay_row tp dw (er_topic r) (er_type r) (er_aggregate r) (Some correlation) (Some event_id)
                    (er_payload r) (dd_outbox db) of
                  Inl e \<Rightarrow> (throws e, db)
                | Inr row \<Rightarrow>
                    (returns (ry_event_id row, ry_occurred_at row),
                     log_retry kind event_id actor correlation (ry_event_id row) (dw_now dw)
                       (db\<lparr>dd_outbox := dd_outbox db @ [row],
                           dd_notified := put_row event_id
                             (r\<lparr>er_status := ''retrying'', er_terminal_at := None, er_error := None\<rparr>) (dd_notified db)\<rparr>))))
      | DashboardDlq \<Rightarrow>
          (case terminal_receipt_of event_id (dd_receipts db) of
             None \<Rightarrow> (throws ''DLQ event was not found'', db)
           | Some r \<Rightarrow>
               (case add_relay_row tp dw (tp_dashboard tp) ''dashboard.dlq_retry_requested.v1'' ''dashboard'' (Some correlation)
                    (Some event_id) (JObject [(''failedEventId'', JString event_id)]) (dd_outbox db) of
                  Inl e \<Rightarrow> (throws e, db)
                | Inr row \<Rightarrow>
                    (returns (ry_event_id row, ry_occurred_at row),
                     log_retry kind event_id actor correlation (ry_event_id row) (dw_now dw)
                       (db\<lparr>dd_outbox := dd_outbox db @ [row]\<rparr>)))))"

section \<open>Audit logs\<close>

text \<open>A filter that is absent, zero or empty does not restrict.\<close>

record audit_filters =
  af_page :: nat
  af_limit :: nat
  af_actor :: "int option"
  af_action :: "string option"
  af_resource_type :: "string option"
  af_result :: "string option"
  af_from :: "int option"
  af_to :: "int option"

definition allows_text :: "string option \<Rightarrow> string \<Rightarrow> bool" where
  "allows_text f s = (case f of None \<Rightarrow> True | Some x \<Rightarrow> x = '''' \<or> x = s)"

definition audit_where :: "audit_filters \<Rightarrow> log_row \<Rightarrow> bool" where
  "audit_where f r =
     ((case af_actor f of None \<Rightarrow> True | Some a \<Rightarrow> a = 0 \<or> lg_actor r = Some a)
      \<and> allows_text (af_action f) (lg_action r) \<and> allows_text (af_resource_type f) (lg_resource_type r)
      \<and> allows_text (af_result f) (lg_result r)
      \<and> (case af_from f of None \<Rightarrow> True | Some t \<Rightarrow> t \<le> lg_created_at r)
      \<and> (case af_to f of None \<Rightarrow> True | Some t \<Rightarrow> lg_created_at r \<le> t))"

definition get_audit_logs :: "audit_filters \<Rightarrow> dash_db \<Rightarrow> log_row list \<times> nat" where
  "get_audit_logs f db =
     (let found = filter (audit_where f) (dd_logs db)
      in (page_of (af_page f) (af_limit f)
            (sort_key (\<lambda>r. - lg_created_at r) (sort_key (\<lambda>r. - int (lg_id r)) found)), length found))"

section \<open>Export\<close>

definition starts_formula :: "string \<Rightarrow> bool" where
  "starts_formula s = (case s of [] \<Rightarrow> False | c # _ \<Rightarrow> c \<in> {CHR ''='', CHR ''+'', CHR ''-'', CHR ''@''})"

definition guarded_text :: "string option \<Rightarrow> string" where
  "guarded_text v = (let s = coalesce v '''' in if starts_formula s then CHR 0x27 # s else s)"

fun double_quotes :: "string \<Rightarrow> string" where
  "double_quotes [] = []"
| "double_quotes (c # cs) = (if c = CHR 0x22 then [c, c] @ double_quotes cs else c # double_quotes cs)"

definition escape_csv_cell :: "string option \<Rightarrow> string" where
  "escape_csv_cell v = CHR 0x22 # double_quotes (guarded_text v) @ [CHR 0x22]"

text \<open>The rows behind the byte order mark.\<close>

definition csv_row :: "string option list \<Rightarrow> string" where
  "csv_row cells = join_text '','' (map escape_csv_cell cells)"

definition csv_text :: "string option list list \<Rightarrow> string" where
  "csv_text rows = join_text [CHR 0x0D, CHR 0x0A] (map csv_row rows)"

definition audit_csv :: "dash_db \<Rightarrow> audit_filters \<Rightarrow> string" where
  "audit_csv db f =
     csv_text (map (map Some) [[''id'', ''actor_id'', ''action'', ''resource_type'', ''resource_id'', ''result'', ''error_code'',
           ''correlation_id'', ''created_at'']]
       @ map (\<lambda>r. [Some (show_nat (lg_id r)), map_option show_int (lg_actor r), Some (lg_action r), Some (lg_resource_type r),
                   lg_resource_id r, Some (lg_result r), lg_error_code r, Some (lg_correlation r), Some (iso_string (lg_created_at r))])
           (fst (get_audit_logs (f\<lparr>af_page := 1, af_limit := 10000\<rparr>) db)))"

end
