(* ===== verification/Dashboard_Properties.thy ===== *)
theory Dashboard_Properties
  imports Dashboard
begin

text \<open>
  What the dashboard keeps of its events: a committed batch has receipted every event it did not skip, a message without
  a value is never passed, a dead letter of the dashboard stays one however often it is retried, and an exported table
  reads back as its cells.
\<close>

section \<open>Receipts only grow\<close>

lemma receipted_put:
  "receipted (db\<lparr>dd_receipts := put_row i r rows\<rparr>) j =
     (if j = i then er_status r = ''processed'' \<or> er_status r = ''terminal''
      else receipted (db\<lparr>dd_receipts := rows\<rparr>) j)"
  by (simp add: receipted_def)

lemma receipted_rows: "receipted (db\<lparr>dd_receipts := dd_receipts db\<rparr>) i = receipted db i"
  by (simp add: receipted_def)

lemma receipted_attempts:
  "receipted (snd (receipt_attempts ev og db)) i = (if i = ev_event_id ev then False else receipted db i)"
  by (simp add: receipt_attempts_def receipted_def Let_def new_receipt_def split: option.split)

lemma receipted_complete:
  "receipted (complete_dashboard_receipt ev og n now db) i = (i = ev_event_id ev \<or> receipted db i)"
  by (simp add: complete_dashboard_receipt_def receipted_def)

lemma receipted_note: "receipted (note_error e message db) i = receipted db i"
  by (auto simp: note_error_def receipted_def split: option.split)

text \<open>The topic of dead letters is always one the relay accepts.\<close>

lemma terminal_returns: "fst (record_dashboard_terminal c dw ev og n message db) = Inr ()"
  by (simp add: record_dashboard_terminal_def add_relay_row_def relay_topics_def Let_def)

lemma receipted_terminal:
  "receipted (snd (record_dashboard_terminal c dw ev og n message db)) i = (i = ev_event_id ev \<or> receipted db i)"
  by (simp add: record_dashboard_terminal_def add_relay_row_def relay_topics_def Let_def receipted_def)

lemma terminal_outcome:
  assumes "record_dashboard_terminal c dw ev og n message db = (r, db')"
  shows "r = Inr ()" "receipted db' i = (i = ev_event_id ev \<or> receipted db i)"
  using terminal_returns [of c dw ev og n message db] receipted_terminal [of c dw ev og n message db i] assms by simp_all

definition arrival_id :: "dash_config \<Rightarrow> arrival \<Rightarrow> string" where
  "arrival_id c a =
     (case message_event (ar_message a) of
        Inl _ \<Rightarrow> dashboard_event_id c (km_offset (ar_message a)) | Inr ev \<Rightarrow> ev_event_id ev)"

lemma try_receipts:
  assumes "try_message c ev og ts n db = Some (r, db')"
  shows "(is_ok r \<longrightarrow> receipted db' (ev_event_id ev)) \<and> (\<forall>i. i \<noteq> ev_event_id ev \<longrightarrow> receipted db' i = receipted db i)"
  using assms
proof (induction c ev og ts n db rule: try_message.induct)
  case (2 c ev og t ts n db)
  show ?case
  proof (cases "tn_stopping t \<or> tn_error t = None \<or> dc_retry_limit c \<le> n")
    case True
    with "2.prems" show ?thesis
      by (auto simp: receipted_complete receipted_note terminal_outcome(2) Let_def split: if_splits option.splits)
  next
    case False
    then obtain e where e: "\<not> tn_stopping t" "tn_error t = Some e" "\<not> dc_retry_limit c \<le> n" by auto
    obtain n' db2 where a: "receipt_attempts ev og (note_error (ev_event_id ev) e db) = (n', db2)" by force
    have "try_message c ev og ts n' db2 = Some (r, db')" using "2.prems" e a by simp
    note ih = "2.IH" [OF e(1,2) refl e(3) a [symmetric] refl this]
    have "receipted db2 i = receipted db i" if "i \<noteq> ev_event_id ev" for i
      using receipted_attempts [of ev og "note_error (ev_event_id ev) e db" i] a that by (simp add: receipted_note)
    with ih show ?thesis by simp
  qed
qed simp

lemma process_receipts:
  assumes "process_message c a db = Some (r, db')"
  shows "(is_ok r \<longrightarrow> receipted db' (arrival_id c a)) \<and> (\<forall>i. receipted db i \<longrightarrow> receipted db' i)"
proof (cases "message_event (ar_message a)")
  case (Inl e)
  show ?thesis
  proof (cases "km_value (ar_message a)")
    case None
    with assms show ?thesis by (auto simp: process_message_def Let_def)
  next
    case (Some parsed)
    with Inl have "parse_event_envelope parsed = Inl e" by (simp add: message_event_def)
    with Some assms have "record_dashboard_terminal c (ar_draws a)
        (invalid_dashboard_event (dashboard_event_id c (km_offset (ar_message a))) (dw_now (ar_draws a)) (ar_raw a))
        (place_of c (ar_message a)) (dc_retry_limit c) e db = (r, db')" by (simp add: process_message_def Let_def)
    from terminal_outcome(2) [OF this] Inl show ?thesis by (simp add: arrival_id_def invalid_dashboard_event_def)
  qed
next
  case (Inr ev)
  then obtain parsed where v: "km_value (ar_message a) = Some parsed" "parse_event_envelope parsed = Inr ev"
    by (auto simp: message_event_def split: option.splits)
  show ?thesis
  proof (cases "receipted db (ev_event_id ev)")
    case True
    with assms Inr v show ?thesis by (simp add: process_message_def Let_def arrival_id_def)
  next
    case False
    obtain n db1 where n: "receipt_attempts ev (place_of c (ar_message a)) db = (n, db1)" by force
    then have t: "try_message c ev (place_of c (ar_message a)) (ar_turns a) n db1 = Some (r, db')"
      using assms v False by (simp add: process_message_def Let_def)
    have "receipted db1 i = receipted db i" if "i \<noteq> ev_event_id ev" for i
      using receipted_attempts [of ev "place_of c (ar_message a)" db i] n that by simp
    moreover have "receipted db i \<Longrightarrow> i \<noteq> ev_event_id ev" for i using False by auto
    ultimately have "receipted db i \<Longrightarrow> receipted db' i" for i using try_receipts [OF t] by metis
    with try_receipts [OF t] Inr show ?thesis by (simp add: arrival_id_def)
  qed
qed

section \<open>Batches\<close>

lemma handle_receipts:
  assumes "handle_arrival c a (failed, db) = (failed', db')"
  shows "(failed' = None \<longrightarrow> failed = None \<and> (\<not> ar_skipped a \<longrightarrow> receipted db' (arrival_id c a)))
    \<and> (\<forall>i. receipted db i \<longrightarrow> receipted db' i)"
  using assms process_receipts [of c a db]
  by (auto simp: handle_arrival_def split: if_splits option.splits sum.splits prod.splits)

lemma batch_receipts:
  assumes "fold (handle_arrival c) order (failed, db) = (None, db')"
  shows "failed = None \<and> (\<forall>a \<in> set order. \<not> ar_skipped a \<longrightarrow> receipted db' (arrival_id c a))
    \<and> (\<forall>i. receipted db i \<longrightarrow> receipted db' i)"
  using assms
proof (induction order arbitrary: failed db)
  case (Cons a order)
  obtain f1 db1 where one: "handle_arrival c a (failed, db) = (f1, db1)" by force
  with Cons.prems have "fold (handle_arrival c) order (f1, db1) = (None, db')" by simp
  from Cons.IH [OF this] handle_receipts [OF one] show ?case by auto
qed simp

lemma receipted_snapshot: "receipted (db\<lparr>dd_stats := x\<rparr>) i = receipted db i"
  by (simp add: receipted_def)

lemma refresh_outcome:
  assumes "refresh_dashboard_snapshot computed i db = (Inr w, db')"
  obtains v where "computed = Inr v" "db' = snd (write_snapshot i v db)" "w = fst (write_snapshot i v db)"
  using assms by (auto simp: refresh_dashboard_snapshot_def split: sum.splits prod.splits)

text \<open>The snapshot of one refresh stands under the version after the one before it.\<close>

definition snapshot_written :: "(string, json) result \<Rightarrow> refresh_input \<Rightarrow> stats_row option \<Rightarrow> stats_row option \<Rightarrow> bool" where
  "snapshot_written computed i before after =
     (\<exists>v s. computed = Inr v \<and> after = Some s \<and> st_value s = v \<and> st_updated_at s = ri_now i
        \<and> st_source_events s = coalesce (ri_source_events i) 0 \<and> st_reason s = ri_reason i
        \<and> st_version s = (case before of None \<Rightarrow> 1 | Some s0 \<Rightarrow> st_version s0 + 1))"

lemma flight_outcome:
  assumes "single_flight_refresh air computed i db = (Inr w, db')"
  shows "(\<forall>e. receipted db' e = receipted db e)
    \<and> (case air of
        None \<Rightarrow> snapshot_written computed i (dd_stats db) (dd_stats db')
      | Some (other, j) \<Rightarrow> snapshot_written other j (dd_stats db) (dd_stats db'))"
proof -
  have own: "(\<forall>e. receipted d' e = receipted d e) \<and> snapshot_written c k (dd_stats d) (dd_stats d')"
    if "refresh_dashboard_snapshot c k d = (Inr w, d')" for c k d d'
    using that by (rule refresh_outcome) (simp add: snapshot_written_def write_snapshot_def Let_def receipted_snapshot)
  show ?thesis using assms by (auto simp: single_flight_refresh_def own split: option.splits prod.splits)
qed

text \<open>C39: A batch that commits an offset has handled every message it did not skip to a processed or terminal receipt, and commits
  the offset behind its last message; receipts that were there before stay. At its end one refresh has succeeded: when none
  was in the air its own, which wrote what it computed under the next version with the number of its messages and the reason
  kafka_batch; otherwise the one of another caller, with that caller's figures, count and reason.\<close>

theorem committed_batch_settles:
  assumes "dashboard_batch c skipped messages order air computed duration now db = (Inr (Some n), db')"
  shows "messages \<noteq> [] \<and> n = km_offset (last messages) + 1
    \<and> (\<forall>a \<in> set order. \<not> ar_skipped a \<longrightarrow> receipted db' (arrival_id c a))
    \<and> (\<forall>i. receipted db i \<longrightarrow> receipted db' i)
    \<and> (case air of
        None \<Rightarrow> snapshot_written computed (batch_input messages duration now)
                  (dd_stats (snd (fold (handle_arrival c) order (None, db)))) (dd_stats db')
      | Some (other, j) \<Rightarrow> snapshot_written other j (dd_stats (snd (fold (handle_arrival c) order (None, db)))) (dd_stats db'))"
proof -
  obtain failed db1 where f: "fold (handle_arrival c) order (None, db) = (failed, db1)" by force
  from assms f have ok: "failed = None" and m: "messages \<noteq> []" "n = km_offset (last messages) + 1"
    and "\<exists>w. single_flight_refresh air computed (batch_input messages duration now) db1 = (Inr w, db')"
    by (auto simp: dashboard_batch_def split: if_splits option.splits sum.splits prod.splits)
  then obtain w where "single_flight_refresh air computed (batch_input messages duration now) db1 = (Inr w, db')" by blast
  note out = flight_outcome [OF this]
  from batch_receipts [of c order None db db1] f ok have "\<forall>a \<in> set order. \<not> ar_skipped a \<longrightarrow> receipted db1 (arrival_id c a)"
    "\<forall>i. receipted db i \<longrightarrow> receipted db1 i" by simp_all
  with m out show ?thesis by (cases air) (auto simp: f)
qed

text \<open>A message without a value stops its partition: every batch that handles one throws, so its offset is never
  committed, however often the batch comes back.\<close>

theorem empty_message_blocks_partition:
  assumes "a \<in> set order" "\<not> ar_skipped a" "km_value (ar_message a) = None"
  shows "\<exists>e db'. dashboard_batch c False messages order air computed duration now db = (Inl e, db')"
proof -
  obtain failed db1 where f: "fold (handle_arrival c) order (None, db) = (failed, db1)" by force
  have stays: "fst (fold (handle_arrival c) rest (Some e, d)) \<noteq> None" for rest e d
    using batch_receipts [of c rest "Some e" d] by (cases "fold (handle_arrival c) rest (Some e, d)") (metis fst_conv option.distinct(1))
  obtain before behind where o: "order = before @ a # behind" using assms(1) by (auto dest: split_list)
  obtain f0 d0 where "fold (handle_arrival c) before (None, db) = (f0, d0)" by force
  moreover have "\<exists>e. handle_arrival c a (f0, d0) = (Some e, d0)"
    using assms(2,3) by (simp add: handle_arrival_def process_message_def)
  ultimately obtain e where "fold (handle_arrival c) behind (Some e, d0) = (failed, db1)" using f o by auto
  then have "failed \<noteq> None" using stays [of behind e d0] by simp
  with f show ?thesis by (auto simp: dashboard_batch_def)
qed

text \<open>While the worker stops, messages are skipped and yet the offset behind them is committed.\<close>

lemma stopping_dashboard_batch:
  assumes "\<forall>a \<in> set order. ar_skipped a" "messages \<noteq> []"
  shows "dashboard_batch c False messages order None (Inr v) duration now db =
    (Inr (Some (km_offset (last messages) + 1)), snd (write_snapshot (batch_input messages duration now) v db))"
proof -
  have "fold (handle_arrival c) order (None, db) = (None, db)"
    using assms(1) by (intro fold_unchanged) (simp add: handle_arrival_def)
  with assms(2) show ?thesis by (simp add: dashboard_batch_def single_flight_refresh_def refresh_dashboard_snapshot_def split: prod.split)
qed

section \<open>One message until its end\<close>

text \<open>What keeps failing ends after the retry limit, with one row for the topic of dead letters.\<close>

lemma terminal_once:
  "length (filter (is_dlq_row_of c (ev_event_id ev)) (dd_outbox (snd (record_dashboard_terminal c dw ev og n message db)))) =
     max 1 (length (filter (is_dlq_row_of c (ev_event_id ev)) (dd_outbox db)))"
proof (cases "list_ex (is_dlq_row_of c (ev_event_id ev)) (dd_outbox db)")
  case True
  then have "filter (is_dlq_row_of c (ev_event_id ev)) (dd_outbox db) \<noteq> []"
    by (auto simp: list_ex_iff filter_empty_conv)
  then have "1 \<le> length (filter (is_dlq_row_of c (ev_event_id ev)) (dd_outbox db))" by (simp add: Suc_leI)
  with True show ?thesis by (simp add: record_dashboard_terminal_def Let_def)
next
  case False
  then have "filter (is_dlq_row_of c (ev_event_id ev)) (dd_outbox db) = []"
    by (auto simp: list_ex_iff filter_empty_conv)
  with False show ?thesis
    by (simp add: record_dashboard_terminal_def add_relay_row_def relay_topics_def Let_def is_dlq_row_of_def)
qed

lemma failing_message_ends:
  assumes "\<forall>t \<in> set ts. \<not> tn_stopping t \<and> tn_error t \<noteq> None" "dc_retry_limit c - n < int (length ts)" "1 \<le> length ts"
    and "\<exists>r. map_of (dd_receipts db) (ev_event_id ev) = Some r \<and> er_attempts r = n"
  shows "\<exists>db'. try_message c ev og ts n db = Some (Inr (), db')
    \<and> (\<exists>r. map_of (dd_receipts db') (ev_event_id ev) = Some r \<and> er_status r = ''terminal'')"
  using assms
proof (induction ts arbitrary: n db)
  case (Cons t ts)
  then obtain e where e: "\<not> tn_stopping t" "tn_error t = Some e" by auto
  let ?db = "note_error (ev_event_id ev) e db"
  show ?case
  proof (cases "dc_retry_limit c \<le> n")
    case True
    with e show ?thesis
      by (simp add: Let_def record_dashboard_terminal_def add_relay_row_def relay_topics_def)
  next
    case False
    obtain r where r: "map_of (dd_receipts db) (ev_event_id ev) = Some r" "er_attempts r = n" using Cons.prems(4) by auto
    obtain db2 where a: "receipt_attempts ev og ?db = (n + 1, db2)"
      and r2: "\<exists>r. map_of (dd_receipts db2) (ev_event_id ev) = Some r \<and> er_attempts r = n + 1"
      using r by (simp add: receipt_attempts_def note_error_def Let_def)
    have "ts \<noteq> []" using Cons.prems(2) False by auto
    then have "1 \<le> length ts" by (cases ts) auto
    with Cons.IH [of "n + 1" db2] Cons.prems(1,2) r2 e False a show ?thesis by simp
  qed
qed simp

section \<open>Dead letters\<close>

lemma receipts_frame:
  assumes "i \<noteq> ev_event_id ev"
  shows "map_of (dd_receipts (snd (receipt_attempts ev og db))) i = map_of (dd_receipts db) i"
    and "map_of (dd_receipts (complete_dashboard_receipt ev og n now db)) i = map_of (dd_receipts db) i"
    and "map_of (dd_receipts (note_error (ev_event_id ev) message db)) i = map_of (dd_receipts db) i"
    and "map_of (dd_receipts (snd (record_dashboard_terminal c dw ev og n message db))) i = map_of (dd_receipts db) i"
  using assms
  by (simp_all add: receipt_attempts_def complete_dashboard_receipt_def note_error_def record_dashboard_terminal_def
      add_relay_row_def Let_def split: option.split)

lemma try_frame:
  assumes "try_message c ev og ts n db = Some (r, db')" "i \<noteq> ev_event_id ev"
  shows "map_of (dd_receipts db') i = map_of (dd_receipts db) i"
  using assms
proof (induction c ev og ts n db rule: try_message.induct)
  case (2 c ev og t ts n db)
  note fr = receipts_frame [OF "2.prems"(2)]
  show ?case
  proof (cases "tn_stopping t \<or> tn_error t = None \<or> dc_retry_limit c \<le> n")
    case True
    with "2.prems"(1) show ?thesis
      by (auto simp: fr Let_def split: if_splits option.splits dest!: arg_cong [where f = snd])
  next
    case False
    then obtain e where e: "\<not> tn_stopping t" "tn_error t = Some e" "\<not> dc_retry_limit c \<le> n" by auto
    obtain n' db2 where a: "receipt_attempts ev og (note_error (ev_event_id ev) e db) = (n', db2)" by force
    have "try_message c ev og ts n' db2 = Some (r, db')" using "2.prems"(1) e a by simp
    note ih = "2.IH" [OF e(1,2) refl e(3) a [symmetric] refl this "2.prems"(2)]
    have "map_of (dd_receipts db2) i = map_of (dd_receipts db) i"
      using fr(1) [of og "note_error (ev_event_id ev) e db"] a fr(3) [of e db] by simp
    with ih show ?thesis by simp
  qed
qed simp

lemma settled_stays:
  assumes "receipted db i" "is_ok (message_event (ar_message a)) \<or> dashboard_event_id c (km_offset (ar_message a)) \<noteq> i"
  shows "map_of (dd_receipts (snd (handle_arrival c a (f, db)))) i = map_of (dd_receipts db) i"
proof (cases "ar_skipped a \<or> process_message c a db = None")
  case True
  then show ?thesis by (auto simp: handle_arrival_def)
next
  case False
  then obtain r db' where p: "process_message c a db = Some (r, db')" by auto
  have "map_of (dd_receipts db') i = map_of (dd_receipts db) i"
  proof (cases "message_event (ar_message a)")
    case (Inl e)
    let ?ev = "invalid_dashboard_event (dashboard_event_id c (km_offset (ar_message a))) (dw_now (ar_draws a)) (ar_raw a)"
    have "i \<noteq> ev_event_id ?ev" using assms(2) Inl by (auto simp: invalid_dashboard_event_def)
    with p Inl receipts_frame(4) [OF this] show ?thesis
      by (auto simp: process_message_def message_event_def Let_def split: option.splits dest!: arg_cong [where f = snd])
  next
    case (Inr ev)
    then obtain parsed where v: "km_value (ar_message a) = Some parsed" "parse_event_envelope parsed = Inr ev"
      by (auto simp: message_event_def split: option.splits)
    obtain n db1 where n: "receipt_attempts ev (place_of c (ar_message a)) db = (n, db1)" by force
    show ?thesis
    proof (cases "receipted db (ev_event_id ev)")
      case True
      with p v show ?thesis by (simp add: process_message_def Let_def)
    next
      case other: False
      then have "i \<noteq> ev_event_id ev" using assms(1) by auto
      moreover have "try_message c ev (place_of c (ar_message a)) (ar_turns a) n db1 = Some (r, db')"
        using p v n other by (simp add: process_message_def Let_def)
      ultimately show ?thesis using try_frame receipts_frame(1) [of i ev "place_of c (ar_message a)" db] n by fastforce
    qed
  qed
  with p False show ?thesis by (auto simp: handle_arrival_def split: sum.split)
qed

lemma terminal_receipted: "terminal_receipt_of i (dd_receipts db) \<noteq> None \<Longrightarrow> receipted db i"
  by (auto simp: terminal_receipt_of_def receipted_def split: option.splits if_splits)

lemma terminal_stays:
  assumes "\<forall>a \<in> set order. \<not> is_ok (message_event (ar_message a)) \<longrightarrow> dashboard_event_id c (km_offset (ar_message a)) \<noteq> i"
    and "terminal_receipt_of i (dd_receipts db) \<noteq> None" "fold (handle_arrival c) order (f, db) = (f', db')"
  shows "terminal_receipt_of i (dd_receipts db') = terminal_receipt_of i (dd_receipts db)"
  using assms
proof (induction order arbitrary: f db)
  case (Cons a order)
  obtain f1 db1 where one: "handle_arrival c a (f, db) = (f1, db1)" by force
  have "map_of (dd_receipts (snd (handle_arrival c a (f, db)))) i = map_of (dd_receipts db) i"
    using Cons.prems(1,2) by (intro settled_stays terminal_receipted) auto
  with one have same: "terminal_receipt_of i (dd_receipts db1) = terminal_receipt_of i (dd_receipts db)"
    by (simp add: terminal_receipt_of_def)
  with Cons.IH [of db1 f1] Cons.prems one show ?case by simp
qed simp

lemma dashboard_retry_outcome:
  "retry_dlq tp dw DashboardDlq i actor correlation db =
     (case terminal_receipt_of i (dd_receipts db) of
        None \<Rightarrow> (Inl ''DLQ event was not found'', db)
      | Some r \<Rightarrow> (Inr (dw_event_id dw, dw_now dw),
          log_retry DashboardDlq i actor correlation (dw_event_id dw) (dw_now dw)
            (db\<lparr>dd_outbox := dd_outbox db @
               [\<lparr>ry_id = next_row_id (dd_outbox db), ry_event_id = dw_event_id dw, ry_event_type = ''dashboard.dlq_retry_requested.v1'',
                 ry_event_version = 1, ry_aggregate_id = ''dashboard'', ry_payload = Some (JObject [(''failedEventId'', JString i)]),
                 ry_topic = tp_dashboard tp, ry_correlation_id = correlation, ry_causation_id = Some i, ry_occurred_at = dw_now dw,
                 ry_attempts = 0, ry_available_at = dw_now dw, ry_delivered_at = None, ry_terminal_at = None, ry_last_error = None\<rparr>]\<rparr>)))"
  by (simp add: retry_dlq_def add_relay_row_def relay_topics_def split: option.split)

text \<open>C40: A retry of a dead letter of the dashboard is accepted and logged, and yet nothing comes of it: whatever the
  consumer handles afterwards, the failed event again or the event the retry sent, the receipt stays terminal, so
  that the event stays on the list and can be retried again without end.\<close>

theorem dashboard_retry_heals_nothing:
  assumes "retry_dlq tp dw DashboardDlq event_id actor correlation db = (Inr r, db1)"
    and "\<forall>a \<in> set order. \<not> is_ok (message_event (ar_message a)) \<longrightarrow> dashboard_event_id c (km_offset (ar_message a)) \<noteq> event_id"
    and "fold (handle_arrival c) order (None, db1) = (failed, db2)"
  shows "terminal_receipt_of event_id (dd_receipts db2) = terminal_receipt_of event_id (dd_receipts db)
    \<and> terminal_receipt_of event_id (dd_receipts db) \<noteq> None
    \<and> is_ok (fst (retry_dlq tp dw' DashboardDlq event_id actor' correlation' db2))"
proof -
  have t: "terminal_receipt_of event_id (dd_receipts db) \<noteq> None"
    using assms(1) by (auto simp: dashboard_retry_outcome split: option.splits)
  then have same: "dd_receipts db1 = dd_receipts db"
    using assms(1) by (auto simp: dashboard_retry_outcome log_retry_def split: option.splits)
  with terminal_stays [OF assms(2) _ assms(3)] t
  have "terminal_receipt_of event_id (dd_receipts db2) = terminal_receipt_of event_id (dd_receipts db)" by simp
  with t show ?thesis by (auto simp: dashboard_retry_outcome)
qed

text \<open>A dead letter of the notifications leaves the list, goes out once more under a new identifier, and cannot be retried
  twice; one of the outbox is due at once.\<close>

lemma notification_retry:
  assumes "retry_dlq tp dw NotificationDlq i actor correlation db = (Inr r, db1)"
  shows "\<exists>er row. terminal_receipt_of i (dd_notified db) = Some er \<and> dd_outbox db1 = dd_outbox db @ [row]
    \<and> ry_event_id row = dw_event_id dw \<and> ry_event_type row = er_type er \<and> ry_payload row = Some (er_payload er)
    \<and> ry_causation_id row = Some i \<and> retry_dlq tp dw' NotificationDlq i actor' correlation' db1 = (Inl ''DLQ event was not found'', db1)"
  using assms
  by (auto simp: retry_dlq_def add_relay_row_def log_retry_def terminal_receipt_of_def split: option.splits if_splits sum.splits)

lemma outbox_retry:
  assumes "retry_dlq tp dw OutboxDlq i actor correlation db = (Inr r, db1)"
  shows "\<exists>row \<in> set (dd_outbox db). ry_event_id row = i \<and> ry_terminal_at row \<noteq> None
    \<and> revive_row (dw_now dw) row \<in> set (dd_outbox db1)
    \<and> (ry_delivered_at row = None \<longrightarrow> dw_now dw \<le> now \<longrightarrow> ry_id row \<notin> locked \<longrightarrow> claimable locked now (revive_row (dw_now dw) row))"
  using assms
  by (auto simp: retry_dlq_def log_retry_def revive_row_def claimable_def find_Some_iff split: option.splits if_splits)

section \<open>A shared refresh\<close>

text \<open>A call that finds a refresh in the air is answered by it, although the refresh may have read the tables before the
  change the call is about.\<close>

lemma shared_refresh_misses_change:
  assumes "fl_reading s = None"
  shows "fl_shown (fold fly [Call, Change d, Call, Land] s) = Some (fl_data s)
    \<and> fl_answered (fold fly [Call, Change d, Call, Land] s) = fl_answered s + 2
    \<and> fl_reading (fold fly [Call, Change d, Call, Land] s) = None"
  using assms by simp

lemma call_after_change_shows_it:
  assumes "fl_reading s = None"
  shows "fl_shown (fold fly [Change d, Call, Land] s) = Some d"
  using assms by simp

section \<open>Exports\<close>

text \<open>A reader of the text: quoted cells between commas, rows between line ends.\<close>

fun read_quoted :: "string \<Rightarrow> (string \<times> string) option" where
  "read_quoted [] = None"
| "read_quoted [c] = (if c = CHR 0x22 then Some ([], []) else None)"
| "read_quoted (c # d # cs) =
     (if c = CHR 0x22 then if d = CHR 0x22 then map_option (apfst (Cons c)) (read_quoted cs) else Some ([], d # cs)
      else map_option (apfst (Cons c)) (read_quoted (d # cs)))"

lemma read_quoted_shorter: "read_quoted s = Some (cell, rest) \<Longrightarrow> length rest < length s"
  by (induction s arbitrary: cell rest rule: read_quoted.induct) (fastforce split: if_splits)+

function read_csv :: "string \<Rightarrow> string list list option" where
  "read_csv s =
     (case s of [] \<Rightarrow> None
      | q # t \<Rightarrow> if q \<noteq> CHR 0x22 then None
          else case read_quoted t of
            None \<Rightarrow> None
          | Some (cell, rest) \<Rightarrow>
              if rest = [] then Some [[cell]]
              else if hd rest = CHR '','' then
                (case read_csv (tl rest) of Some (row # rows) \<Rightarrow> Some ((cell # row) # rows) | _ \<Rightarrow> None)
              else if take 2 rest = [CHR 0x0D, CHR 0x0A] then map_option (Cons [cell]) (read_csv (drop 2 rest))
              else None)"
  by pat_completeness auto
termination
  by (relation "measure length") (auto dest!: read_quoted_shorter)

declare read_csv.simps [simp del]

lemma read_doubled:
  "rest = [] \<or> hd rest \<noteq> CHR 0x22 \<Longrightarrow> read_quoted (double_quotes s @ CHR 0x22 # rest) = Some (s, rest)"
proof (induction s)
  case Nil
  then show ?case by (cases rest) auto
next
  case (Cons c s)
  obtain d ds where d: "double_quotes s @ CHR 0x22 # rest = d # ds" by (cases "double_quotes s @ CHR 0x22 # rest") auto
  with Cons show ?case by auto
qed

lemma read_cell:
  "rest = [] \<or> hd rest \<noteq> CHR 0x22 \<Longrightarrow> read_csv (escape_csv_cell v @ rest) =
     (if rest = [] then Some [[guarded_text v]]
      else if hd rest = CHR '','' then
        (case read_csv (tl rest) of Some (row # rows) \<Rightarrow> Some ((guarded_text v # row) # rows) | _ \<Rightarrow> None)
      else if take 2 rest = [CHR 0x0D, CHR 0x0A] then map_option (Cons [guarded_text v]) (read_csv (drop 2 rest))
      else None)"
  by (subst read_csv.simps) (simp add: escape_csv_cell_def read_doubled)

lemma read_row:
  assumes "cells \<noteq> []" "rest = [] \<or> take 2 rest = [CHR 0x0D, CHR 0x0A]"
  shows "read_csv (csv_row cells @ rest) =
     (if rest = [] then Some [map guarded_text cells] else map_option (Cons (map guarded_text cells)) (read_csv (drop 2 rest)))"
  using assms(1)
proof (induction cells)
  case (Cons v cells)
  have rest: "rest = [] \<or> hd rest \<noteq> CHR 0x22 \<and> hd rest \<noteq> CHR '',''" using assms(2) by (cases rest) auto
  show ?case
  proof (cases cells)
    case Nil
    with rest assms(2) read_cell [of rest v] show ?thesis by (cases "rest = []") (auto simp: csv_row_def)
  next
    case (Cons w ws)
    then have "csv_row (v # cells) @ rest = escape_csv_cell v @ '','' @ csv_row cells @ rest" by (simp add: csv_row_def)
    moreover have "read_csv (escape_csv_cell v @ '','' @ csv_row cells @ rest) =
        (case read_csv (csv_row cells @ rest) of Some (row # rows) \<Rightarrow> Some ((guarded_text v # row) # rows) | _ \<Rightarrow> None)"
      by (subst read_cell) simp_all
    ultimately show ?thesis using Cons.IH Cons by (auto split: option.split)
  qed
qed simp

text \<open>An exported table reads back as the texts of its cells, whatever quotes, commas and line ends they hold, and no
  cell of it begins with a sign that a spreadsheet takes for a formula.\<close>

theorem export_reads_back:
  assumes "rows \<noteq> []" "\<forall>row \<in> set rows. row \<noteq> []"
  shows "read_csv (csv_text rows) = Some (map (map guarded_text) rows)
    \<and> (\<forall>v. \<not> starts_formula (guarded_text v))"
proof -
  have "read_csv (csv_text rows) = Some (map (map guarded_text) rows)"
    using assms
  proof (induction rows)
    case (Cons row rows)
    show ?case
    proof (cases rows)
      case Nil
      with Cons.prems read_row [of row "[]"] show ?thesis by (simp add: csv_text_def)
    next
      case (Cons row2 rest)
      then have "csv_text (row # rows) = csv_row row @ [CHR 0x0D, CHR 0x0A] @ csv_text rows" by (simp add: csv_text_def)
      with Cons.IH Cons.prems Cons read_row [of row "[CHR 0x0D, CHR 0x0A] @ csv_text rows"] show ?thesis by simp
    qed
  qed simp
  then show ?thesis by (simp add: guarded_text_def starts_formula_def Let_def)
qed

theorem export_reads_back_witness:
  "read_csv (csv_text [[Some [CHR ''='', CHR 0x22, CHR '',''], None], [Some ''b'']])
     = Some [[[CHR 0x27, CHR ''='', CHR 0x22, CHR '',''], ''''], [''b'']]"
  using export_reads_back [of "[[Some [CHR ''='', CHR 0x22, CHR '',''], None], [Some ''b'']]"]
  by (simp add: guarded_text_def starts_formula_def)

section \<open>Examples\<close>

definition example_dash_config :: dash_config where
  "example_dash_config = \<lparr>dc_topics = kafka_topics None None None None None, dc_group = ''g'', dc_retry_limit = 5,
     dc_topic = ''bidding_events'', dc_partition = 0, dc_sha256 = (\<lambda>s. s)\<rparr>"

definition example_dash_db :: dash_db where
  "example_dash_db = \<lparr>dd_stats = None, dd_receipts = [], dd_notified = [], dd_outbox = [], dd_logs = []\<rparr>"

definition example_draws :: row_draws where
  "example_draws = \<lparr>dw_event_id = ''r'', dw_correlation = ''k'', dw_now = 9\<rparr>"

definition example_arrival :: "json option option \<Rightarrow> arrival" where
  "example_arrival v = \<lparr>ar_message = \<lparr>km_offset = 4, km_value = v\<rparr>, ar_raw = ''x'', ar_skipped = False, ar_draws = example_draws,
     ar_turns = [\<lparr>tn_stopping = False, tn_error = None, tn_draws = example_draws\<rparr>]\<rparr>"

definition dash_event :: envelope where
  "dash_event = \<lparr>ev_event_id = ''e'', ev_event_type = ''t'', ev_event_version = 1, ev_aggregate_id = ''7'',
     ev_occurred_at = ''o'', ev_correlation_id = ''c'', ev_causation_id = None, ev_payload = JObject []\<rparr>"

lemma dash_event_parsed: "parse_event_envelope (Some (envelope_json dash_event)) = Inr dash_event"
  by (simp add: dash_event_def parse_event_envelope_def envelope_json_def field_of_def)

theorem committed_batch_settles_witness:
  "\<exists>db1 db2 s1 s2. dashboard_batch example_dash_config False [ar_message (example_arrival (Some (Some (envelope_json dash_event))))]
      [example_arrival (Some (Some (envelope_json dash_event)))] None (Inr JNull) 1 9 example_dash_db = (Inr (Some 5), db1)
    \<and> receipted db1 ''e'' \<and> dd_stats db1 = Some s1 \<and> st_source_events s1 = 1
    \<and> dashboard_batch example_dash_config False [ar_message (example_arrival (Some (Some (envelope_json dash_event))))]
      [example_arrival (Some (Some (envelope_json dash_event)))] (Some (Inr (JInt 2), \<lparr>ri_reason = ''scheduled_recovery'',
        ri_source_events = None, ri_duration = 1, ri_now = 8\<rparr>)) (Inr JNull) 1 9 example_dash_db = (Inr (Some 5), db2)
    \<and> receipted db2 ''e'' \<and> dd_stats db2 = Some s2 \<and> st_source_events s2 = 0"
proof -
  let ?a = "example_arrival (Some (Some (envelope_json dash_event)))"
  let ?air = "Some (Inr (JInt 2), \<lparr>ri_reason = ''scheduled_recovery'', ri_source_events = None, ri_duration = 1, ri_now = 8\<rparr>)"
  have id: "arrival_id example_dash_config ?a = ''e''"
    by (simp add: arrival_id_def message_event_def example_arrival_def dash_event_parsed) (simp add: dash_event_def)
  let ?batch = "\<lambda>air. dashboard_batch example_dash_config False [ar_message ?a] [?a] air (Inr JNull) 1 9 example_dash_db"
  have own: "\<exists>db'. ?batch None = (Inr (Some 5), db')" and shared: "\<exists>db'. ?batch ?air = (Inr (Some 5), db')"
    by (simp_all add: dashboard_batch_def handle_arrival_def process_message_def example_arrival_def dash_event_parsed Let_def
        receipted_def receipt_attempts_def example_dash_db_def single_flight_refresh_def refresh_dashboard_snapshot_def write_snapshot_def
        split: prod.split)
  obtain db1 where 1: "?batch None = (Inr (Some 5), db1)" using own by blast
  obtain db2 where 2: "?batch ?air = (Inr (Some 5), db2)" using shared by blast
  have "receipted db1 ''e''" "\<exists>s. dd_stats db1 = Some s \<and> st_source_events s = 1"
    using committed_batch_settles [OF 1] id by (auto simp: example_arrival_def snapshot_written_def batch_input_def coalesce_def)
  moreover have "receipted db2 ''e''" "\<exists>s. dd_stats db2 = Some s \<and> st_source_events s = 0"
    using committed_batch_settles [OF 2] id by (auto simp: example_arrival_def snapshot_written_def coalesce_def)
  ultimately show ?thesis using 1 2 by blast
qed

theorem empty_message_blocks_partition_witness:
  "\<exists>e db'. dashboard_batch example_dash_config False [ar_message (example_arrival None)] [example_arrival None] None (Inr JNull) 1 9
     example_dash_db = (Inl e, db')"
  by (rule empty_message_blocks_partition [of "example_arrival None"]) (simp_all add: example_arrival_def)

definition example_failed_db :: dash_db where
  "example_failed_db = example_dash_db\<lparr>dd_receipts := [(''e'',
     (new_receipt dash_event (place_of example_dash_config \<lparr>km_offset = 4, km_value = None\<rparr>) ''terminal''))]\<rparr>"

theorem dashboard_retry_heals_nothing_witness:
  "\<exists>r db1 failed db2. retry_dlq (dc_topics example_dash_config) example_draws DashboardDlq ''e'' 1 ''c'' example_failed_db = (Inr r, db1)
    \<and> fold (handle_arrival example_dash_config) [example_arrival (Some (Some (envelope_json dash_event)))] (None, db1) = (failed, db2)
    \<and> terminal_receipt_of ''e'' (dd_receipts db2) \<noteq> None"
proof -
  let ?as = "[example_arrival (Some (Some (envelope_json dash_event)))]"
  obtain r db1 where r: "retry_dlq (dc_topics example_dash_config) example_draws DashboardDlq ''e'' 1 ''c'' example_failed_db = (Inr r, db1)"
    by (simp add: dashboard_retry_outcome terminal_receipt_of_def example_failed_db_def new_receipt_def)
  obtain failed db2 where f: "fold (handle_arrival example_dash_config) ?as (None, db1) = (failed, db2)" by force
  have "\<forall>a \<in> set ?as. \<not> is_ok (message_event (ar_message a)) \<longrightarrow> dashboard_event_id example_dash_config (km_offset (ar_message a)) \<noteq> ''e''"
    by (simp add: message_event_def example_arrival_def dash_event_parsed)
  from dashboard_retry_heals_nothing [OF r this f] r f show ?thesis by metis
qed

end
