(* ===== verification/Auction_Close.thy ===== *)
theory Auction_Close
  imports Auction_Properties Mutation_Client
begin

text \<open>
  Closing the auctions whose deadline has passed: jobs/redis-auction-close.job.ts over the commands of
  mutate-auction.use-case.ts. A shard of Redis has the keys of its auctions and, for all of them together, one sorted
  set of deadlines and one stream. A pass of the job reads the due deadlines of a shard and sends a CLOSE for each.
\<close>

section \<open>Shards\<close>

text \<open>\<open>sh_deadlines\<close> is the sorted set in its order; the fields \<open>k_deadlines\<close> and \<open>k_stream\<close> of \<open>sh_keys\<close> are those of the
  shard. \<open>sh_up\<close>: the server answers.\<close>

record shard =
  sh_up :: bool
  sh_keys :: "nat \<Rightarrow> auction_store"
  sh_deadlines :: "(string \<times> int) list"
  sh_stream :: "stream_event list"

definition store_for :: "shard \<Rightarrow> nat \<Rightarrow> auction_store" where
  "store_for sh pid = (sh_keys sh pid)\<lparr>k_deadlines := map_of (sh_deadlines sh), k_stream := sh_stream sh\<rparr>"

text \<open>\<open>ZREM\<close>, and \<open>ZADD\<close> behind the members with no greater score.\<close>

definition zset_remove :: "string \<Rightarrow> (string \<times> int) list \<Rightarrow> (string \<times> int) list" where
  "zset_remove x ds = filter (\<lambda>d. fst d \<noteq> x) ds"

fun zset_insert :: "string \<Rightarrow> int \<Rightarrow> (string \<times> int) list \<Rightarrow> (string \<times> int) list" where
  "zset_insert x s [] = [(x, s)]"
| "zset_insert x s (d # ds) = (if snd d \<le> s then d # zset_insert x s ds else (x, s) # d # ds)"

definition zset_put :: "string \<Rightarrow> int \<Rightarrow> (string \<times> int) list \<Rightarrow> (string \<times> int) list" where
  "zset_put x s ds = zset_insert x s (zset_remove x ds)"

definition put_store :: "nat \<Rightarrow> auction_store \<Rightarrow> shard \<Rightarrow> shard" where
  "put_store pid st sh =
     sh\<lparr>sh_keys := (sh_keys sh)(pid := st), sh_stream := k_stream st,
        sh_deadlines := (if k_deadlines st (show_nat pid) = map_of (sh_deadlines sh) (show_nat pid) then sh_deadlines sh
          else case k_deadlines st (show_nat pid) of
            None \<Rightarrow> zset_remove (show_nat pid) (sh_deadlines sh)
          | Some s \<Rightarrow> zset_put (show_nat pid) s (sh_deadlines sh))\<rparr>"

section \<open>One pass\<close>

text \<open>What a pass runs in: the settings of the authority, the engine, the worker's clock and Redis' own, the digest of an
  idempotency key, what is drawn for a product, and whether enough replicas acknowledge.\<close>

record close_env =
  ce_config :: mutation_config
  ce_redis_engine :: bool
  ce_now :: int
  ce_clock :: int
  ce_limit :: nat
  ce_slot :: "string \<Rightarrow> string"
  ce_event :: "nat \<Rightarrow> string"
  ce_order :: "nat \<Rightarrow> string"
  ce_correlation :: "nat \<Rightarrow> string"
  ce_acknowledged :: "nat \<Rightarrow> bool"

definition close_request :: "close_env \<Rightarrow> nat \<Rightarrow> int \<Rightarrow> request" where
  "close_request e pid deadline =
     payload (ce_config e) (close_command pid (show_int deadline) (ce_correlation e pid) (ce_now e)) (ce_event e pid)
       (ce_order e pid) (ce_now e)"

definition close_slot :: "close_env \<Rightarrow> nat \<Rightarrow> int \<Rightarrow> string" where
  "close_slot e pid deadline = ce_slot e (rq_idempotency_key (close_request e pid deadline))"

text \<open>\<open>close\<close>: whether its promise resolves.\<close>

definition close_auction :: "close_env \<Rightarrow> nat \<Rightarrow> int \<Rightarrow> shard \<Rightarrow> bool \<times> shard" where
  "close_auction e pid deadline sh =
     (if \<not> ce_redis_engine e then (False, sh)
      else case mutate_script (ce_clock e) (close_slot e pid deadline) (close_request e pid deadline) (store_for sh pid) of
        (out, st) \<Rightarrow> ((case out of Some (ReplySuccess _) \<Rightarrow> ce_acknowledged e pid | _ \<Rightarrow> False), put_store pid st sh))"

definition due_deadlines :: "close_env \<Rightarrow> shard \<Rightarrow> (string \<times> int) list" where
  "due_deadlines e sh = take (ce_limit e) (filter (\<lambda>d. 0 \<le> snd d \<and> snd d \<le> ce_now e) (sh_deadlines sh))"

definition close_step :: "close_env \<Rightarrow> string \<times> int \<Rightarrow> nat \<times> shard \<Rightarrow> nat \<times> shard" where
  "close_step e d s =
     (let (ok, sh') = close_auction e (dec_val (fst d)) (snd d) (snd s) in (if ok then fst s + 1 else fst s, sh'))"

definition close_each :: "close_env \<Rightarrow> (string \<times> int) list \<Rightarrow> shard \<Rightarrow> nat \<times> shard" where
  "close_each e ds sh = fold (close_step e) ds (0, sh)"

text \<open>A shard that does not answer ends the pass; those before it have been served.\<close>

fun close_shards :: "close_env \<Rightarrow> shard list \<Rightarrow> (string, nat) result \<times> shard list" where
  "close_shards e [] = (returns 0, [])"
| "close_shards e (sh # shs) =
     (if \<not> sh_up sh then (throws ''Connection is closed.'', sh # shs)
      else let (n, sh') = close_each e (due_deadlines e sh) sh; (rest, shs') = close_shards e shs
           in (case rest of Inl err \<Rightarrow> throws err | Inr k \<Rightarrow> returns (n + k), sh' # shs'))"

definition close_due_redis_auctions :: "close_env \<Rightarrow> bool \<Rightarrow> shard list \<Rightarrow> (string, nat) result \<times> shard list" where
  "close_due_redis_auctions e running shs = (if running then (returns 0, shs) else close_shards e shs)"

section \<open>Stores of a shard\<close>

lemma store_for_fields [simp]:
  "k_deadlines (store_for sh pid) = map_of (sh_deadlines sh)" "k_stream (store_for sh pid) = sh_stream sh"
  by (simp_all add: store_for_def)

lemma map_of_zset_remove: "map_of (zset_remove x ds) y = (if y = x then None else map_of ds y)"
  by (induction ds) (auto simp: zset_remove_def)

lemma map_of_zset_insert:
  "x \<notin> fst ` set ds \<Longrightarrow> map_of (zset_insert x s ds) y = (if y = x then Some s else map_of ds y)"
  by (induction ds) auto

lemma map_of_zset_put: "map_of (zset_put x s ds) y = (if y = x then Some s else map_of ds y)"
proof -
  have "x \<notin> fst ` set (zset_remove x ds)" by (auto simp: zset_remove_def)
  then show ?thesis by (simp add: zset_put_def map_of_zset_insert map_of_zset_remove)
qed

lemma deadlines_after:
  "map_of (sh_deadlines (put_store pid st sh)) x =
     (if x = show_nat pid then k_deadlines st (show_nat pid) else map_of (sh_deadlines sh) x)"
  by (simp add: put_store_def map_of_zset_remove map_of_zset_put split: option.split)

lemma store_for_put_other:
  assumes "q \<noteq> pid"
  shows "store_for (put_store pid st sh) q =
    (store_for sh q)\<lparr>k_deadlines := map_of (sh_deadlines (put_store pid st sh)), k_stream := k_stream st\<rparr>"
  using assms by (simp add: store_for_def put_store_def)

text \<open>Both are read only at the auction's own deadline.\<close>

lemma represents_shared:
  "d (show_nat pid) = k_deadlines st (show_nat pid) \<Longrightarrow> represents pid m (st\<lparr>k_deadlines := d, k_stream := s\<rparr>) = represents pid m st"
  by (simp add: represents_def)

lemma fresh_shared: "fresh_run clock slot rq (st\<lparr>k_deadlines := d, k_stream := s\<rparr>) = fresh_run clock slot rq st"
  by (auto simp: fresh_run_def find_replay_def within_rate_def split: option.splits)

lemma represents_put:
  assumes "represents q m (store_for sh q)" "q \<noteq> pid"
  shows "represents q m (store_for (put_store pid st sh) q)"
  unfolding store_for_put_other [OF assms(2)]
  by (rule represents_shared [THEN iffD2, OF _ assms(1)]) (simp add: deadlines_after assms(2))

lemma fresh_put:
  assumes "fresh_run clock slot rq (store_for sh q)" "q \<noteq> pid"
  shows "fresh_run clock slot rq (store_for (put_store pid st sh) q)"
  using assms by (simp add: store_for_put_other fresh_shared)

lemma represents_own:
  assumes "represents pid m st"
  shows "represents pid m (store_for (put_store pid st sh) pid)"
proof -
  have "store_for (put_store pid st sh) pid = st\<lparr>k_deadlines := map_of (sh_deadlines (put_store pid st sh)), k_stream := k_stream st\<rparr>"
    by (simp add: store_for_def put_store_def)
  then show ?thesis by (simp only:) (rule represents_shared [THEN iffD2, OF _ assms], simp add: deadlines_after)
qed

section \<open>What is due closes\<close>

definition closed_auction :: "bidding \<Rightarrow> bidding" where
  "closed_auction m = tick m\<lparr>b_status := ENDED\<rparr>"

definition closable :: "close_env \<Rightarrow> shard \<Rightarrow> nat \<Rightarrow> int \<Rightarrow> bidding \<Rightarrow> bool" where
  "closable e sh pid deadline m =
     (represents pid m (store_for sh pid) \<and> ranking_ok (b_ranking m) \<and> b_status m = ACTIVE \<and> b_end_at m = deadline
      \<and> fresh_run (ce_clock e) (close_slot e pid deadline) (close_request e pid deadline) (store_for sh pid)
      \<and> b_sequence m < max_amount \<and> b_version m < max_amount)"

lemma closable_put: "closable e sh q D m \<Longrightarrow> q \<noteq> pid \<Longrightarrow> closable e (put_store pid st sh) q D m"
  by (simp add: closable_def represents_put fresh_put)

lemma asks_close: "asks (close_request e pid deadline) Close_it"
  by (simp add: asks_def close_request_def payload_def close_command_def)

lemma close_auction_closes:
  assumes "ce_redis_engine e" "closable e sh pid deadline m" "deadline \<le> ce_now e"
  shows "\<exists>sh' ev st. close_auction e pid deadline sh = (ce_acknowledged e pid, sh') \<and> sh' = put_store pid st sh
    \<and> represents pid (closed_auction m) (store_for sh' pid) \<and> map_of (sh_deadlines sh') (show_nat pid) = None
    \<and> sh_stream sh' = sh_stream sh @ [ev] \<and> e_product_id ev = show_nat pid \<and> e_type ev = ''AUCTION_CLOSED''"
proof -
  let ?rq = "close_request e pid deadline" and ?st = "store_for sh pid"
  let ?out = "mutate_script (ce_clock e) (close_slot e pid deadline) ?rq ?st"
  have rq: "rq_product_id ?rq = pid" "lua_tonumber (rq_now ?rq) = Some (ce_now e)"
    by (simp_all add: close_request_def payload_def close_command_def)
  have spec: "spec_mutate m Close_it (ce_now e) = Inr (closed_auction m)"
    using assms by (simp add: spec_mutate_def spec_close_def status_at_def closable_def closed_auction_def)
  have "accepted pid Close_it m (closed_auction m) ?rq ?st ?out"
    using script_refines_run [of pid m ?st ?rq Close_it "ce_now e" "ce_clock e" "close_slot e pid deadline"] assms(2) rq asks_close spec
    by (simp add: closable_def in_range_def refines_run_def)
  then obtain d ev where o: "fst ?out = Some (ReplySuccess d)" "represents pid (closed_auction m) (snd ?out)"
    "k_stream (snd ?out) = k_stream ?st @ [ev]" "event_shows pid Close_it m (closed_auction m) ?rq ev"
    by (auto simp: accepted_def committed_def)
  have "k_deadlines (snd ?out) (show_nat pid) = None"
    using o(2) by (simp add: represents_def closed_auction_def)
  then have "map_of (sh_deadlines (put_store pid (snd ?out) sh)) (show_nat pid) = None" by (simp add: deadlines_after)
  moreover have "close_auction e pid deadline sh = (ce_acknowledged e pid, put_store pid (snd ?out) sh)"
    using assms(1) o(1) by (simp add: close_auction_def split_beta)
  moreover have "sh_stream (put_store pid (snd ?out) sh) = sh_stream sh @ [ev]" using o(3) by (simp add: put_store_def)
  ultimately show ?thesis
    using o(4) represents_own [OF o(2), of sh] by (auto simp: event_shows_def event_kind_def)
qed

lemma step_other:
  assumes "pid \<noteq> dec_val (fst d)" "represents pid m (store_for (snd s) pid)" "map_of (sh_deadlines (snd s)) (show_nat pid) = None"
  shows "represents pid m (store_for (snd (close_step e d s)) pid)
    \<and> map_of (sh_deadlines (snd (close_step e d s))) (show_nat pid) = None"
  using assms by (auto simp: close_step_def close_auction_def represents_put deadlines_after split_beta)

lemma others_kept:
  assumes "pid \<notin> (dec_val \<circ> fst) ` set ds" "represents pid m (store_for (snd s) pid)"
    "map_of (sh_deadlines (snd s)) (show_nat pid) = None"
  shows "represents pid m (store_for (snd (fold (close_step e) ds s)) pid)
    \<and> map_of (sh_deadlines (snd (fold (close_step e) ds s))) (show_nat pid) = None"
  using assms by (induction ds arbitrary: s) (auto simp: step_other)

text \<open>Whatever a CLOSE comes to, it writes events of its own product only.\<close>

lemma commit_stream: "k_stream (snd (commit clock slot l rq p st)) = k_stream st @ [event_of l rq p]"
proof -
  have [simp]: "k_stream (bump_rate clock rq st') = k_stream st'" for st' by (simp add: bump_rate_def Let_def)
  have [simp]: "k_stream (snd (apply_bidders l rq p st')) = k_stream st'" for st'
    by (cases "rq_operation rq") (simp_all add: apply_bidders_def apply_bid_def apply_ban_def Let_def)
  show ?thesis by (simp add: commit_def Let_def split_beta remember_def save_state_def)
qed

lemma loaded_product: "load_state h rq = Inr l \<Longrightarrow> l_product_id l = show_nat (rq_product_id rq)"
  by (auto simp: load_state_def Let_def split: option.splits if_splits)

lemma script_stream:
  "\<exists>evs. k_stream (snd (mutate_script clock slot rq st)) = k_stream st @ evs
     \<and> (\<forall>ev \<in> set evs. e_product_id ev = show_nat (rq_product_id rq))"
proof -
  obtain found st' where f: "find_replay clock slot rq st = (found, st')" by force
  have same: "k_stream st' = k_stream st" using find_replay_frame [OF f] by blast
  have loaded: "\<exists>evs. k_stream (snd (mutate_loaded clock slot l rq st')) = k_stream st @ evs
      \<and> (\<forall>ev \<in> set evs. e_product_id ev = show_nat (rq_product_id rq))" if "load_state h rq = Inr l" for h l
  proof (cases "decide st' l rq")
    case (Accept p)
    with commit_stream [of clock slot l rq p st'] loaded_product [OF that] same show ?thesis
      by (auto simp: mutate_loaded_def split_beta event_of_def)
  qed (simp_all add: mutate_loaded_def Let_def remember_def same)
  show ?thesis
    using loaded by (auto simp: mutate_script_def f same split: option.splits sum.splits)
qed

lemma step_events:
  "\<exists>evs. sh_stream (snd (close_step e d s)) = sh_stream (snd s) @ evs
     \<and> (\<forall>ev \<in> set evs. e_product_id ev = show_nat (dec_val (fst d)))"
  using script_stream [of "ce_clock e" "close_slot e (dec_val (fst d)) (snd d)" "close_request e (dec_val (fst d)) (snd d)"
      "store_for (snd s) (dec_val (fst d))"]
  by (auto simp: close_step_def close_auction_def split_beta put_store_def close_request_def payload_def close_command_def)

lemma step_shard:
  "(\<exists>st. snd (close_step e d s) = put_store (dec_val (fst d)) st (snd s)) \<or> snd (close_step e d s) = snd s"
  by (auto simp: close_step_def close_auction_def split_beta)

lemma step_count: "fst s \<le> fst (close_step e d s)"
  by (simp add: close_step_def split_beta)

text \<open>The members of a deadline set are products, each once.\<close>

definition deadlines_ok :: "(string \<times> int) list \<Rightarrow> bool" where
  "deadlines_ok ds = (distinct (map fst ds) \<and> (\<forall>d \<in> set ds. \<exists>pid. fst d = show_nat pid))"

definition can_close :: "close_env \<Rightarrow> (nat \<Rightarrow> bidding) \<Rightarrow> shard \<Rightarrow> string \<times> int \<Rightarrow> bool" where
  "can_close e m sh d = closable e sh (dec_val (fst d)) (snd d) (m (dec_val (fst d)))"

definition counted :: "close_env \<Rightarrow> (nat \<Rightarrow> bidding) \<Rightarrow> shard \<Rightarrow> (string \<times> int) list \<Rightarrow> nat" where
  "counted e m sh ds = length (filter (\<lambda>d. can_close e m sh d \<and> ce_acknowledged e (dec_val (fst d))) ds)"

definition closed_in :: "close_env \<Rightarrow> (nat \<Rightarrow> bidding) \<Rightarrow> shard \<Rightarrow> string \<times> int \<Rightarrow> stream_event list \<Rightarrow> shard \<Rightarrow> bool" where
  "closed_in e m sh d evs sh' =
     (can_close e m sh d \<longrightarrow>
        represents (dec_val (fst d)) (closed_auction (m (dec_val (fst d)))) (store_for sh' (dec_val (fst d)))
        \<and> map_of (sh_deadlines sh') (fst d) = None
        \<and> (\<exists>ev. filter (\<lambda>ev. e_product_id ev = fst d) evs = [ev] \<and> e_type ev = ''AUCTION_CLOSED''))"

definition due_closed :: "close_env \<Rightarrow> (nat \<Rightarrow> bidding) \<Rightarrow> (string \<times> int) list \<Rightarrow> shard \<Rightarrow> shard \<Rightarrow> bool" where
  "due_closed e m ds sh sh' =
     (\<exists>evs. sh_stream sh' = sh_stream sh @ evs \<and> e_product_id ` set evs \<subseteq> fst ` set ds
        \<and> (\<forall>d \<in> set ds. closed_in e m sh d evs sh'))"

lemma can_close_step:
  assumes "can_close e m (snd s) d'" "dec_val (fst d') \<noteq> dec_val (fst d)"
  shows "can_close e m (snd (close_step e d s)) d'"
  using step_shard [of e d s] assms closable_put by (auto simp: can_close_def)

lemma close_step_closes:
  assumes "ce_redis_engine e" "can_close e m sh d" "snd d \<le> ce_now e" "fst d = show_nat (dec_val (fst d))"
  shows "\<exists>sh' ev. close_step e d (n, sh) = (if ce_acknowledged e (dec_val (fst d)) then n + 1 else n, sh')
    \<and> represents (dec_val (fst d)) (closed_auction (m (dec_val (fst d)))) (store_for sh' (dec_val (fst d)))
    \<and> map_of (sh_deadlines sh') (fst d) = None \<and> sh_stream sh' = sh_stream sh @ [ev]
    \<and> e_product_id ev = fst d \<and> e_type ev = ''AUCTION_CLOSED''"
proof -
  from close_auction_closes [OF assms(1) assms(2) [unfolded can_close_def] assms(3)] obtain sh' ev
    where "close_auction e (dec_val (fst d)) (snd d) sh = (ce_acknowledged e (dec_val (fst d)), sh')"
      "represents (dec_val (fst d)) (closed_auction (m (dec_val (fst d)))) (store_for sh' (dec_val (fst d)))"
      "map_of (sh_deadlines sh') (show_nat (dec_val (fst d))) = None" "sh_stream sh' = sh_stream sh @ [ev]"
      "e_product_id ev = show_nat (dec_val (fst d))" "e_type ev = ''AUCTION_CLOSED''" by blast
  with assms(4) show ?thesis by (intro exI [of _ sh'] exI [of _ ev]) (simp add: close_step_def)
qed

lemma filter_length_mono:
  "(\<And>x. x \<in> set xs \<Longrightarrow> P x \<Longrightarrow> Q x) \<Longrightarrow> length (filter P xs) \<le> length (filter Q xs)"
  by (induction xs) (auto simp: le_SucI)

lemma close_each_from:
  assumes "ce_redis_engine e" "deadlines_ok ds" "\<forall>d \<in> set ds. snd d \<le> ce_now e"
  shows "due_closed e m ds sh (snd (fold (close_step e) ds (n, sh)))
    \<and> n + counted e m sh ds \<le> fst (fold (close_step e) ds (n, sh))"
  using assms(2,3)
proof (induction ds arbitrary: n sh)
  case Nil
  then show ?case by (simp add: due_closed_def counted_def)
next
  case (Cons d ds)
  obtain n' sh' where step: "close_step e d (n, sh) = (n', sh')" by force
  let ?out = "fold (close_step e) ds (n', sh')"
  obtain pid where pid: "fst d = show_nat pid" using Cons.prems(1) by (auto simp: deadlines_ok_def)
  have other: "dec_val (fst d') \<noteq> pid \<and> fst d' \<noteq> fst d" if "d' \<in> set ds" for d'
    using that Cons.prems(1) pid by (force simp: deadlines_ok_def)
  have kept: "can_close e m sh d' \<Longrightarrow> can_close e m sh' d'" if "d' \<in> set ds" for d'
    using can_close_step [of e m "(n, sh)" d' d] other [OF that] step pid by simp
  have ih: "due_closed e m ds sh' (snd ?out)" "n' + counted e m sh' ds \<le> fst ?out"
    using Cons.IH [of sh' n'] Cons.prems by (simp_all add: deadlines_ok_def)
  have more: "counted e m sh ds \<le> counted e m sh' ds"
    unfolding counted_def using kept by (intro filter_length_mono) blast
  obtain evs where evs: "sh_stream (snd ?out) = sh_stream sh' @ evs" "e_product_id ` set evs \<subseteq> fst ` set ds"
    "\<forall>d' \<in> set ds. closed_in e m sh' d' evs (snd ?out)" using ih(1) by (auto simp: due_closed_def)
  obtain own where own: "sh_stream sh' = sh_stream sh @ own" "\<forall>ev \<in> set own. e_product_id ev = fst d"
    using step_events [of e d "(n, sh)"] step pid by auto
  have rest: "closed_in e m sh d' (own @ evs) (snd ?out)" if "d' \<in> set ds" for d'
  proof -
    have "filter (\<lambda>ev. e_product_id ev = fst d') own = []" using own(2) other [OF that] by (auto simp: filter_empty_conv)
    then show ?thesis using evs(3) kept [OF that] that by (auto simp: closed_in_def)
  qed
  have none: "filter (\<lambda>ev. e_product_id ev = fst d) evs = []" using evs(2) other by (auto simp: filter_empty_conv)
  have first: "closed_in e m sh d (own @ evs) (snd ?out)
      \<and> n + (if can_close e m sh d \<and> ce_acknowledged e (dec_val (fst d)) then 1 else 0) \<le> n'"
  proof (cases "can_close e m sh d")
    case False
    then show ?thesis using step_count [of "(n, sh)" e d] step by (simp add: closed_in_def)
  next
    case True
    with close_step_closes [OF assms(1) True, of n] Cons.prems(2) pid step obtain ev
      where c: "n' = (if ce_acknowledged e pid then n + 1 else n)" "represents pid (closed_auction (m pid)) (store_for sh' pid)"
        "map_of (sh_deadlines sh') (fst d) = None" "sh_stream sh' = sh_stream sh @ [ev]" "e_product_id ev = fst d"
        "e_type ev = ''AUCTION_CLOSED''" by auto
    have "pid \<notin> (dec_val \<circ> fst) ` set ds" using other by auto
    from others_kept [OF this, of "closed_auction (m pid)" "(n', sh')" e] c(2,3) pid
    have "represents pid (closed_auction (m pid)) (store_for (snd ?out) pid)" "map_of (sh_deadlines (snd ?out)) (fst d) = None"
      by simp_all
    then show ?thesis using c own(1) none pid by (auto simp: closed_in_def)
  qed
  have "counted e m sh (d # ds) = (if can_close e m sh d \<and> ce_acknowledged e (dec_val (fst d)) then 1 else 0) + counted e m sh ds"
    by (simp add: counted_def)
  moreover have "e_product_id ` set (own @ evs) \<subseteq> fst ` set (d # ds)" using own(2) evs(2) by auto
  ultimately show ?case
    using rest first more ih(2) evs(1) own(1) step
    by (auto simp: due_closed_def intro!: exI [of _ "own @ evs"])
qed

lemma due_entries_ok:
  "deadlines_ok (sh_deadlines sh) \<Longrightarrow>
   deadlines_ok (due_deadlines e sh) \<and> (\<forall>d \<in> set (due_deadlines e sh). snd d \<le> ce_now e)"
  by (auto simp: deadlines_ok_def due_deadlines_def take_map [symmetric] dest!: in_set_takeD intro!: distinct_take distinct_map_filter)


section \<open>What stands in the way\<close>

lemma stuck_script:
  assumes "k_state st = None"
  shows "k_state (snd (mutate_script clock slot rq st)) = None
    \<and> k_deadlines (snd (mutate_script clock slot rq st)) = k_deadlines st
    \<and> k_stream (snd (mutate_script clock slot rq st)) = k_stream st"
  using assms by (auto simp: mutate_script_def find_replay_def split: option.splits if_splits)

definition stuck :: "shard \<Rightarrow> nat \<Rightarrow> bool" where
  "stuck sh pid = (k_state (sh_keys sh pid) = None)"

text \<open>Nothing but the remembered answers of the stuck auctions differs.\<close>

definition unmoved :: "shard \<Rightarrow> shard \<Rightarrow> bool" where
  "unmoved sh sh' =
     (sh_deadlines sh' = sh_deadlines sh \<and> sh_stream sh' = sh_stream sh \<and> sh_up sh' = sh_up sh
      \<and> (\<forall>q. stuck sh' q = stuck sh q) \<and> (\<forall>q. \<not> stuck sh q \<longrightarrow> sh_keys sh' q = sh_keys sh q))"

lemma unmoved_refl: "unmoved sh sh" by (simp add: unmoved_def)

lemma unmoved_trans: "unmoved a b \<Longrightarrow> unmoved b c \<Longrightarrow> unmoved a c"
  by (simp add: unmoved_def)

lemma stuck_step:
  assumes "stuck (snd s) (dec_val (fst d))"
  shows "unmoved (snd s) (snd (close_step e d s))"
proof -
  have "k_state (store_for (snd s) (dec_val (fst d))) = None" using assms by (simp add: stuck_def store_for_def)
  from stuck_script [OF this, of "ce_clock e" "close_slot e (dec_val (fst d)) (snd d)" "close_request e (dec_val (fst d)) (snd d)"] assms
  show ?thesis
    by (auto simp: close_step_def close_auction_def unmoved_def split_beta put_store_def stuck_def)
qed

lemma stuck_fold:
  assumes "\<forall>d \<in> set ds. stuck (snd s) (dec_val (fst d))"
  shows "unmoved (snd s) (snd (fold (close_step e) ds s))"
  using assms
proof (induction ds arbitrary: s)
  case (Cons d ds)
  then have one: "unmoved (snd s) (snd (close_step e d s))" by (intro stuck_step) simp
  then have "\<forall>x \<in> set ds. stuck (snd (close_step e d s)) (dec_val (fst x))" using Cons.prems by (auto simp: unmoved_def)
  from Cons.IH [OF this] one show ?case by (auto intro: unmoved_trans)
qed (simp add: unmoved_refl)

lemma due_head:
  assumes "sorted (map snd ds)" "\<forall>d \<in> set ds. 0 \<le> snd d"
  shows "set (take n (filter (\<lambda>d. 0 \<le> snd d \<and> snd d \<le> now) ds)) \<subseteq> set (take n ds)"
  using assms
proof (induction ds arbitrary: n)
  case (Cons d ds)
  have "filter (\<lambda>d. 0 \<le> snd d \<and> snd d \<le> now) ds = []" if "now < snd d"
    using Cons.prems(1) that by (fastforce simp: filter_empty_conv)
  with Cons show ?case by (cases n) auto
qed simp

text \<open>C11: A shard whose earliest deadlines, as many as a pass reads, belong to auctions without their keys, closes
  nothing ever: no pass, however late, changes a deadline, appends an event, or touches an auction that still has its
  keys, so that every auction behind them stays open past its end.\<close>

theorem stuck_auctions_starve_others:
  assumes "sorted (map snd (sh_deadlines sh))" "\<forall>d \<in> set (sh_deadlines sh). 0 \<le> snd d" "sh_up sh"
    and "\<forall>d \<in> set (take limit (sh_deadlines sh)). stuck sh (dec_val (fst d))"
    and "\<forall>e \<in> set es. ce_limit e = limit"
  shows "\<exists>sh'. fold (\<lambda>e shs. snd (close_due_redis_auctions e False shs)) es [sh] = [sh'] \<and> unmoved sh sh'"
  using assms
proof (induction es arbitrary: sh)
  case Nil
  then show ?case by (simp add: unmoved_refl)
next
  case (Cons e es)
  let ?sh = "snd (close_each e (due_deadlines e sh) sh)"
  have "set (due_deadlines e sh) \<subseteq> set (take limit (sh_deadlines sh))"
    using due_head [OF Cons.prems(1,2)] Cons.prems(5) by (simp add: due_deadlines_def)
  then have one: "unmoved sh ?sh"
    using stuck_fold [of "due_deadlines e sh" "(0, sh)" e] Cons.prems(4) by (auto simp: close_each_def)
  then have "\<exists>sh'. fold (\<lambda>e shs. snd (close_due_redis_auctions e False shs)) es [?sh] = [sh'] \<and> unmoved ?sh sh'"
    using Cons.prems by (intro Cons.IH) (auto simp: unmoved_def)
  moreover have "snd (close_due_redis_auctions e False [sh]) = [?sh]"
    using Cons.prems(3) by (simp add: close_due_redis_auctions_def split_beta)
  ultimately show ?case using one by (auto intro: unmoved_trans)
qed

text \<open>A shard that does not answer keeps the job from those behind it.\<close>

lemma dead_shard_stops_pass:
  "\<not> sh_up sh \<Longrightarrow> close_due_redis_auctions e False (sh # shs) = (Inl ''Connection is closed.'', sh # shs)"
  by (simp add: close_due_redis_auctions_def)

section \<open>Examples\<close>

definition example_close_env :: close_env where
  "example_close_env = \<lparr>ce_config = \<lparr>g_rate_limit = 5, g_rate_window = 1000, g_ttl = 1000, g_replicas = 0\<rparr>, ce_redis_engine = True,
     ce_now = 2000, ce_clock = 0, ce_limit = 1, ce_slot = (\<lambda>k. k), ce_event = (\<lambda>_. ''e''), ce_order = (\<lambda>_. ''o''),
     ce_correlation = (\<lambda>_. ''c''), ce_acknowledged = (\<lambda>_. True)\<rparr>"

definition example_shard :: "auction_hash option \<Rightarrow> shard" where
  "example_shard h = \<lparr>sh_up = True, sh_keys = (\<lambda>pid. if pid = 7 then store_of 7 example_bidding else (store_of 7 example_bidding)\<lparr>k_state := h\<rparr>),
     sh_deadlines = (case h of None \<Rightarrow> [(show_nat 3, 500), (show_nat 7, 1000)] | Some _ \<Rightarrow> [(show_nat 7, 1000)]), sh_stream = []\<rparr>"


theorem stuck_auctions_starve_others_witness:
  "\<exists>sh'. fold (\<lambda>e shs. snd (close_due_redis_auctions e False shs)) [example_close_env, example_close_env] [example_shard None] = [sh']
     \<and> sh_deadlines sh' = [(show_nat 3, 500), (show_nat 7, 1000)] \<and> sh_keys sh' 7 = store_of 7 example_bidding"
proof -
  have stuck7: "\<not> stuck (example_shard None) 7" by (simp add: stuck_def example_shard_def store_of_def)
  have "\<exists>sh'. fold (\<lambda>e shs. snd (close_due_redis_auctions e False shs)) [example_close_env, example_close_env] [example_shard None] = [sh']
      \<and> unmoved (example_shard None) sh'"
    by (rule stuck_auctions_starve_others [where limit = 1])
      (simp_all add: example_shard_def stuck_def example_close_env_def)
  then obtain sh' where "fold (\<lambda>e shs. snd (close_due_redis_auctions e False shs)) [example_close_env, example_close_env] [example_shard None] = [sh']"
    and u: "unmoved (example_shard None) sh'" by blast
  then show ?thesis using stuck7 by (intro exI [of _ sh']) (simp add: unmoved_def, simp add: example_shard_def)
qed

end
