(* ===== verification/Bid_Api.thy ===== *)
theory Bid_Api
  imports Pg_Properties Mutation_Client Notifications
begin

text \<open>
  The requests about bids from the route to the answer: bids.controller.ts with bids.schemas.ts, over the use cases of
  both engines. \<open>run_command\<close> is a mutation of the Redis authority from the check of the command to its outcome, on a
  connection that has been leased; the PostgreSQL engine runs its transactions. The authenticated account is its
  identifier and role. What Joi makes of a body is given; the patterns the schemas add are modelled.
\<close>

section \<open>Bodies\<close>

text \<open>\<open>/^[1-9]\d{0,18}$/\<close>.\<close>

definition bid_money :: "string \<Rightarrow> bool" where
  "bid_money s = (case s of [] \<Rightarrow> False | c # cs \<Rightarrow> is_digit c \<and> c \<noteq> CHR ''0'' \<and> digits cs \<and> length cs \<le> 18)"

definition valid_offer :: "int \<Rightarrow> string \<Rightarrow> bool" where
  "valid_offer product amount = (0 < product \<and> bid_money amount)"

definition valid_reason :: "string \<Rightarrow> bool" where
  "valid_reason reason = (trim_spaces reason \<noteq> '''' \<and> length (trim_spaces reason) \<le> 2000)"

section \<open>Answers\<close>

datatype api_answer = Api int json

definition durability_details :: "mutation_data \<Rightarrow> json" where
  "durability_details d = JObject [(''acceptedOnPrimary'', JBool True), (''eventId'', JString (d_event_id d)),
     (''productId'', JString (d_product_id d)), (''sequence'', JString (d_sequence d)), (''version'', JString (d_version d))]"

fun error_message :: "bid_error \<Rightarrow> string" where
  "error_message (BidDomainError m _ _) = m"
| "error_message (BidInfrastructureError m) = m"
| "error_message (BidDurabilityUnconfirmedError _) =
     ''Bid mutation was accepted by Redis primary but replica acknowledgement was not confirmed''"
| "error_message (BidUnexpectedError m) = m"

fun error_details :: "bid_error \<Rightarrow> (string \<times> json) list" where
  "error_details (BidDurabilityUnconfirmedError d) = [(''details'', durability_details d)]"
| "error_details _ = []"

definition legacy_error :: "bid_error \<Rightarrow> string \<Rightarrow> api_answer" where
  "legacy_error e fallback =
     (let status = coalesce (bid_status_code e) 500
      in Api status (JObject ([(''status'', JString ''error''), (''code'', JString (coalesce (bid_error_code e) ''INTERNAL_ERROR'')),
           (''message'', JString (if status = 500 then fallback else error_message e))] @ error_details e)))"

definition require_idempotency_key :: "string option \<Rightarrow> (bid_error, string) result" where
  "require_idempotency_key header =
     (let key = trim_spaces (coalesce header '''')
      in if key = '''' \<or> length key > 255
         then throws (BidDomainError ''A valid Idempotency-Key header is required'' 400 ''IDEMPOTENCY_KEY_REQUIRED'')
         else returns key)"

definition require_authenticated_user :: "(nat \<times> string) option \<Rightarrow> (bid_error, nat \<times> string) result" where
  "require_authenticated_user account =
     (case account of
        None \<Rightarrow> throws (BidUnexpectedError ''Authenticated user is required before controller execution'')
      | Some a \<Rightarrow> returns a)"

section \<open>The use cases on either engine\<close>

text \<open>The clocks, the settings, the lease, the digest of a key and what is drawn; \<open>ae_replicas\<close> is the outcome of the probe
  and of \<open>WAIT\<close>.\<close>

record api_env =
  ae_engine :: bid_engine
  ae_topics :: topics
  ae_now :: int
  ae_clock :: int
  ae_config :: mutation_config
  ae_shard :: nat
  ae_connection :: nat
  ae_digest :: "string \<Rightarrow> string"
  ae_event :: string
  ae_order :: string
  ae_draws :: draws
  ae_request_id :: string
  ae_replicas :: "(string, int) result"

record 'w api_state =
  as_pg :: pg_store
  as_shadow :: shadow_counters
  as_keys :: auction_store
  as_client :: "'w client"

definition run_command :: "api_env \<Rightarrow> command \<Rightarrow> 'w api_state \<Rightarrow> (bid_error, mutation_data) result \<times> 'w api_state" where
  "run_command e c s =
     (case check_command c of
        Inl err \<Rightarrow> (throws err, s)
      | Inr _ \<Rightarrow>
          (let (out, keys) = mutate_script (ae_clock e) (ae_digest e (c_idempotency_key c))
                 (payload (ae_config e) c (ae_event e) (ae_order e) (ae_now e)) (as_keys s);
               (r, client) = finish_mutation (ae_config e) (ae_shard e) (ae_connection e)
                 (case out of None \<Rightarrow> Inl ''ERR Error running script'' | Some reply \<Rightarrow> Inr (RawReply reply)) (ae_replicas e) (as_client s)
           in (r, s\<lparr>as_keys := keys, as_client := client\<rparr>)))"

text \<open>\<open>leader_id\<close> and \<open>order_id\<close> are \<open>null\<close> when absent.\<close>

definition nullable :: "string option \<Rightarrow> json" where
  "nullable v = (case v of None \<Rightarrow> JNull | Some s \<Rightarrow> JString s)"

definition data_json :: "mutation_data \<Rightarrow> json" where
  "data_json d = JObject [(''event_id'', JString (d_event_id d)), (''product_id'', JString (d_product_id d)),
     (''current_price'', JString (d_current_price d)), (''leader_id'', nullable (d_leader_id d)),
     (''end_time_ms'', JString (d_end_time_ms d)), (''sequence'', JString (d_sequence d)), (''version'', JString (d_version d)),
     (''order_id'', nullable (d_order_id d))]"

definition success_json :: "json \<Rightarrow> json" where
  "success_json v = JObject [(''status'', JString ''success''), (''data'', v)]"

definition by_command :: "api_env \<Rightarrow> command \<Rightarrow> 'w api_state \<Rightarrow> (bid_error, json) result \<times> 'w api_state" where
  "by_command e c s =
     (let (r, s') = run_command e c s in (bind_result r (\<lambda>d. returns (success_json (data_json d))), s'))"

definition place_bid_use_case :: "api_env \<Rightarrow> nat \<Rightarrow> string \<Rightarrow> offer \<Rightarrow> 'w api_state \<Rightarrow> (bid_error, json) result \<times> 'w api_state" where
  "place_bid_use_case e user role i s =
     (if ae_engine e = RedisEngine
      then by_command e (place_bid_command user (of_product i) (of_amount i) (of_key i) (ae_request_id e) (Some role)) s
      else case place_bid (ae_topics e) (ae_engine e) (ae_now e) (ae_draws e) i (as_pg s) (as_shadow s) of
        (Inl err, c) \<Rightarrow> (throws err, s\<lparr>as_shadow := c\<rparr>)
      | (Inr (response, pg), c) \<Rightarrow> (returns response, s\<lparr>as_pg := pg, as_shadow := c\<rparr>))"

definition buy_now_use_case :: "api_env \<Rightarrow> nat \<Rightarrow> string \<Rightarrow> offer \<Rightarrow> 'w api_state \<Rightarrow> (bid_error, json) result \<times> 'w api_state" where
  "buy_now_use_case e user role i s =
     (if ae_engine e = RedisEngine
      then by_command e (buy_now_command user (of_product i) (of_amount i) (of_key i) (ae_request_id e) (Some role)) s
      else case buy_now (ae_topics e) (ae_now e) (ae_draws e) i (as_pg s) of
        Inl err \<Rightarrow> (throws err, s)
      | Inr (response, pg) \<Rightarrow> (returns response, s\<lparr>as_pg := pg\<rparr>))"

definition ban_use_case ::
    "api_env \<Rightarrow> nat \<Rightarrow> string \<Rightarrow> nat \<Rightarrow> nat \<Rightarrow> string \<Rightarrow> string \<Rightarrow> 'w api_state \<Rightarrow> (bid_error, json) result \<times> 'w api_state" where
  "ban_use_case e user role product banned reason key s =
     (if ae_engine e = RedisEngine
      then by_command e (ban_command user role product banned reason key (ae_request_id e)) s
      else case ban_bidder (ae_topics e) (ae_now e) (ae_draws e) user role product banned reason (ae_request_id e) (as_pg s) of
        Inl err \<Rightarrow> (throws err, s)
      | Inr pg \<Rightarrow> (returns (success_json (JObject [(''product_id'', JInt (int product)), (''banned_user_id'', JInt (int banned))])),
                   s\<lparr>as_pg := pg\<rparr>))"

definition cancel_use_case ::
    "api_env \<Rightarrow> nat \<Rightarrow> string \<Rightarrow> nat \<Rightarrow> string option \<Rightarrow> string \<Rightarrow> 'w api_state \<Rightarrow> (bid_error, json) result \<times> 'w api_state" where
  "cancel_use_case e user role product reason key s =
     (if ae_engine e \<noteq> RedisEngine
      then (throws (BidDomainError ''Redis engine is required for authoritative cancel'' 409 ''WRONG_BID_ENGINE''), s)
      else by_command e (cancel_command product user role key (ae_request_id e) reason) s)"

section \<open>Handlers\<close>

datatype bid_request =
    PlayBid nat string
  | BuyNowProduct nat string
  | BanBidder nat nat string
  | CancelAuction nat "string option"

definition fallback_message :: "bid_request \<Rightarrow> string" where
  "fallback_message rq =
     (case rq of PlayBid _ _ \<Rightarrow> ''Server error'' | BuyNowProduct _ _ \<Rightarrow> ''Server error on buy now''
      | BanBidder _ _ _ \<Rightarrow> ''Server error banning bidder'' | CancelAuction _ _ \<Rightarrow> ''Server error cancelling auction'')"

text \<open>The key is checked when the input of the use case is built, before it runs.\<close>

definition perform :: "api_env \<Rightarrow> nat \<times> string \<Rightarrow> string \<Rightarrow> bid_request \<Rightarrow> 'w api_state \<Rightarrow> (bid_error, json) result \<times> 'w api_state" where
  "perform e account key rq s =
     (let (user, role) = account in
      case rq of
        PlayBid product amount \<Rightarrow>
          place_bid_use_case e user role \<lparr>of_user = user, of_product = product, of_amount = amount, of_key = key\<rparr> s
      | BuyNowProduct product amount \<Rightarrow>
          buy_now_use_case e user role \<lparr>of_user = user, of_product = product, of_amount = amount, of_key = key\<rparr> s
      | BanBidder product banned reason \<Rightarrow> ban_use_case e user role product banned reason key s
      | CancelAuction product reason \<Rightarrow> cancel_use_case e user role product reason key s)"

definition serve_bid ::
    "api_env \<Rightarrow> (nat \<times> string) option \<Rightarrow> string option \<Rightarrow> bid_request \<Rightarrow> 'w api_state \<Rightarrow> api_answer \<times> 'w api_state" where
  "serve_bid e account header rq s =
     (case bind_result (require_authenticated_user account) (\<lambda>a. bind_result (require_idempotency_key header) (\<lambda>k. returns (a, k))) of
        Inl err \<Rightarrow> (legacy_error err (fallback_message rq), s)
      | Inr (a, key) \<Rightarrow>
          (case perform e a key rq s of
             (Inl err, s') \<Rightarrow> (legacy_error err (fallback_message rq), s')
           | (Inr response, s') \<Rightarrow> (Api 200 response, s')))"

section \<open>The history of a product\<close>

record history_item =
  ht_user :: int
  ht_username :: "string option"
  ht_max_price :: int
  ht_product_price :: int
  ht_owner :: "int option"
  ht_owner_username :: "string option"
  ht_status :: "string option"

text \<open>Newest first; the rows are in the order of their insertion.\<close>

definition bid_history :: "(int \<Rightarrow> string option) \<Rightarrow> int \<Rightarrow> pg_store \<Rightarrow> history_item list" where
  "bid_history usernames product pg =
     map (\<lambda>h. \<lparr>ht_user = hi_user h, ht_username = usernames (hi_user h), ht_max_price = hi_max h, ht_product_price = hi_price h,
            ht_owner = hi_owner h, ht_owner_username = Option.bind (hi_owner h) usernames, ht_status = hi_status h\<rparr>)
       (rev (filter (\<lambda>h. hi_product h = product) (db_histories (pg_db pg))))"

definition get_bid_history :: "(int \<Rightarrow> string option) \<Rightarrow> nat \<Rightarrow> nat \<Rightarrow> pg_store \<Rightarrow> bool \<times> history_item list" where
  "get_bid_history usernames product user pg =
     ((case db_products (pg_db pg) (int product) of None \<Rightarrow> False | Some p \<Rightarrow> pr_seller p = int user),
      bid_history usernames (int product) pg)"

end
