(* ===== verification/Bid_Api_Properties.thy ===== *)
theory Bid_Api_Properties
  imports Bid_Api
begin

text \<open>
  What a client of the bidding API sees: with the Redis engine every request is answered as the specification of the
  auction, the fences, the rate and the replicas decide, and requests that do not identify themselves change nothing.
\<close>

section \<open>The engine is Redis\<close>

definition command_of :: "api_env \<Rightarrow> nat \<Rightarrow> string \<Rightarrow> string \<Rightarrow> bid_request \<Rightarrow> command" where
  "command_of e user role key rq =
     (case rq of
        PlayBid product amount \<Rightarrow> place_bid_command user product amount key (ae_request_id e) (Some role)
      | BuyNowProduct product amount \<Rightarrow> buy_now_command user product amount key (ae_request_id e) (Some role)
      | BanBidder product banned reason \<Rightarrow> ban_command user role product banned reason key (ae_request_id e)
      | CancelAuction product reason \<Rightarrow> cancel_command product user role key (ae_request_id e) reason)"

definition script_request :: "api_env \<Rightarrow> nat \<Rightarrow> string \<Rightarrow> string \<Rightarrow> bid_request \<Rightarrow> request" where
  "script_request e user role key rq = payload (ae_config e) (command_of e user role key rq) (ae_event e) (ae_order e) (ae_now e)"

definition mutation_of :: "nat \<Rightarrow> string \<Rightarrow> bid_request \<Rightarrow> mutation" where
  "mutation_of user role rq =
     (case rq of
        PlayBid _ amount \<Rightarrow> Bid_by user (dec_val amount)
      | BuyNowProduct _ amount \<Rightarrow> Buy_by user (dec_val amount)
      | BanBidder _ banned _ \<Rightarrow> Ban_by user (role = ''admin'') (Some banned)
      | CancelAuction _ _ \<Rightarrow> Cancel_by user (role = ''admin''))"

fun product_of :: "bid_request \<Rightarrow> nat" where
  "product_of (PlayBid product _) = product"
| "product_of (BuyNowProduct product _) = product"
| "product_of (BanBidder product _ _) = product"
| "product_of (CancelAuction product _) = product"

fun amount_of :: "bid_request \<Rightarrow> string option" where
  "amount_of (PlayBid _ amount) = Some amount"
| "amount_of (BuyNowProduct _ amount) = Some amount"
| "amount_of _ = None"

text \<open>The body passed its schema, and its amount, if it has one, is a BIGINT.\<close>

definition well_formed :: "bid_request \<Rightarrow> bool" where
  "well_formed rq =
     (case amount_of rq of None \<Rightarrow> True | Some amount \<Rightarrow> bid_money amount \<and> int (dec_val amount) \<le> max_vnd)"

lemma bid_money_parses:
  assumes "bid_money s" "int (dec_val s) \<le> max_vnd"
  shows "parse_money_vnd s field = Inr (int (dec_val s)) \<and> s = show_nat (dec_val s) \<and> dec_val s < rank_bound"
proof -
  have p: "vnd_pattern s" using assms(1) by (auto simp: bid_money_def vnd_pattern_def split: list.splits)
  then have "canonical s" by (simp add: vnd_pattern_canonical)
  then have s: "s = show_nat (dec_val s)" by (rule canonical_show [symmetric])
  have "s \<noteq> show_nat 0" using assms(1) by (auto simp: bid_money_def show_nat_small digit_zero split: list.splits)
  with s have "0 < dec_val s" by (metis neq0_conv)
  with p assms(2) s show ?thesis by (simp add: parse_money_Inr max_vnd_def rank_bound_def)
qed

lemma perform_redis:
  "ae_engine e = RedisEngine \<Longrightarrow> perform e (user, role) key rq s = by_command e (command_of e user role key rq) s"
  by (cases rq) (simp_all add: perform_def place_bid_use_case_def buy_now_use_case_def ban_use_case_def cancel_use_case_def command_of_def)

lemma key_fits: "require_idempotency_key header = Inr key \<Longrightarrow> key \<noteq> '''' \<and> length key \<le> 255"
  by (auto simp: require_idempotency_key_def Let_def split: if_splits)

lemma command_checks:
  assumes "well_formed rq" "require_idempotency_key header = Inr key"
  shows "check_command (command_of e user role key rq) = Inr ()"
  using key_fits [OF assms(2)] assms(1) bid_money_parses
  by (cases rq) (auto simp: check_command_def command_of_def place_bid_command_def buy_now_command_def ban_command_def
      cancel_command_def well_formed_def)

lemma request_asks:
  assumes "well_formed rq"
  shows "asks (script_request e user role key rq) (mutation_of user role rq)"
    and "rq_product_id (script_request e user role key rq) = product_of rq"
    and "lua_tonumber (rq_now (script_request e user role key rq)) = Some (ae_now e)"
  using assms bid_money_parses
  by (cases rq; fastforce simp: asks_def script_request_def payload_def command_of_def place_bid_command_def buy_now_command_def
      ban_command_def cancel_command_def mutation_of_def well_formed_def)+

section \<open>A run of the script on an auction\<close>

lemma spec_decides:
  assumes rep: "represents pid m st" and x: "asks rq x"
  shows "case spec_mutate m x now of
      Inl code \<Rightarrow> \<exists>message status. decide st (loaded_of pid m now) rq = Reject code message status
    | Inr m' \<Rightarrow> \<exists>p. decide st (loaded_of pid m now) rq = Accept p"
proof (cases x)
  case (Bid_by actor amount)
  with x decide_bid_spec [OF rep, of rq amount actor now] show ?thesis
    by (auto simp: asks_def spec_mutate_def split: sum.splits)
next
  case (Buy_by actor amount)
  with x decide_buy_now_spec [OF rep, of rq amount actor now] show ?thesis
    by (auto simp: asks_def spec_mutate_def split: sum.splits)
next
  case (Ban_by actor admin target)
  with x decide_ban_spec [OF rep, of rq actor admin now] show ?thesis
    by (auto simp: asks_def spec_mutate_def split: sum.splits)
next
  case Close_it
  with x decide_close_spec [OF rep, of rq now] show ?thesis
    by (auto simp: asks_def spec_mutate_def split: sum.splits)
next
  case (Cancel_by actor admin)
  with x decide_cancel_spec [OF rep, of rq actor admin now] show ?thesis
    by (auto simp: asks_def spec_mutate_def split: sum.splits)
qed

text \<open>The authority does not answer: a key of the wrong type, or a fence.\<close>

definition blocked :: "auction_store \<Rightarrow> bool" where
  "blocked st = (k_mistyped st \<or> k_fence st \<or> k_auction_fence st)"

lemma blocked_run:
  "blocked st \<Longrightarrow> \<exists>code message. mutate_script clock slot rq st = (Some (ReplyError code message 503), st)
     \<and> code \<noteq> ''AUCTION_STATE_NOT_READY''"
  by (auto simp: blocked_def mutate_script_def corrupt_def recovering_def)

lemma unblocked_run:
  assumes rep: "represents pid m st" and free: "\<not> blocked st" "find_replay clock slot rq st = (None, st)"
    and rq: "rq_product_id rq = pid" "lua_tonumber (rq_now rq) = Some now"
    and room: "b_sequence m < max_amount" "b_version m < max_amount"
  shows "mutate_script clock slot rq st = mutate_loaded clock slot (loaded_of pid m now) rq st"
proof -
  obtain le where "k_state st = Some (hash_of pid m le)" using rep by (rule represents_state)
  with free load_state_represented [OF room rq(2,1)] show ?thesis
    by (simp add: mutate_script_def blocked_def)
qed

text \<open>A refusal of the script is an error of the client.\<close>

lemma decide_client_error:
  assumes "decide st l rq = Reject code message status"
  shows "status \<in> {400, 403, 409}"
proof (cases "rq_operation rq")
  case BID
  with assms show ?thesis
    by (auto simp: decide_def throttled_def bidding_guard_def decide_bid_def Let_def split: if_splits option.splits)
next
  case BUY_NOW
  with assms show ?thesis
    by (auto simp: decide_def throttled_def bidding_guard_def decide_buy_now_def split: if_splits option.splits)
next
  case BAN
  with assms show ?thesis by (auto simp: decide_def throttled_def decide_ban_def split: if_splits option.splits)
next
  case CLOSE
  with assms show ?thesis by (auto simp: decide_def throttled_def decide_close_def split: if_splits)
next
  case CANCEL
  with assms show ?thesis by (auto simp: decide_def throttled_def decide_cancel_def split: if_splits)
next
  case OtherOperation
  with assms show ?thesis by (auto simp: decide_def throttled_def)
qed

lemma throttled_run:
  assumes "decide st l rq = Accept p" "\<not> within_rate clock rq st"
  shows "mutate_loaded clock slot l rq st = (Some (ReplyError ''RATE_LIMITED'' ''Too many auction mutations'' 429), st)"
  using assms by (simp add: mutate_loaded_def within_rate_def)

definition script_outcome ::
    "nat \<Rightarrow> bidding \<Rightarrow> mutation \<Rightarrow> int \<Rightarrow> int \<Rightarrow> request \<Rightarrow> auction_store \<Rightarrow> reply option \<times> auction_store \<Rightarrow> bool" where
  "script_outcome pid m x now clock rq st out =
     (case spec_mutate m x now of
        Inl code \<Rightarrow> (\<exists>message status. fst out = Some (ReplyError code message status) \<and> 400 \<le> status \<and> status < 500)
          \<and> represents pid m (snd out) \<and> k_stream (snd out) = k_stream st
      | Inr m' \<Rightarrow>
          if within_rate clock rq st then accepted pid x m m' rq st out
          else out = (Some (ReplyError ''RATE_LIMITED'' ''Too many auction mutations'' 429), st))"

lemma script_outcome_unblocked:
  assumes "represents pid m st" "ranking_ok (b_ranking m)" "asks rq x" "in_range (x, now)"
    and "\<not> blocked st" "find_replay clock slot rq st = (None, st)"
    and "rq_product_id rq = pid" "lua_tonumber (rq_now rq) = Some now" "b_sequence m < max_amount" "b_version m < max_amount"
  shows "script_outcome pid m x now clock rq st (mutate_script clock slot rq st)"
  unfolding unblocked_run [OF assms(1,5-10)]
proof (cases "spec_mutate m x now")
  case (Inl code)
  with spec_decides [OF assms(1,3), of now] obtain message status
    where d: "decide st (loaded_of pid m now) rq = Reject code message status" by auto
  with decide_client_error [OF d] assms(1) Inl
  show "script_outcome pid m x now clock rq st (mutate_loaded clock slot (loaded_of pid m now) rq st)"
    by (auto simp: script_outcome_def mutate_loaded_reject)
next
  case (Inr m')
  with spec_decides [OF assms(1,3), of now] obtain p where d: "decide st (loaded_of pid m now) rq = Accept p" by auto
  with Inr mutate_loaded_refines [OF assms(1-4)] throttled_run [OF d]
  show "script_outcome pid m x now clock rq st (mutate_loaded clock slot (loaded_of pid m now) rq st)"
    by (simp add: script_outcome_def refines_run_def)
qed

section \<open>Every answer is the specification's\<close>

definition error_answer :: "int \<Rightarrow> string \<Rightarrow> api_answer \<Rightarrow> bool" where
  "error_answer status code a =
     (\<exists>message. a = Api status (JObject [(''status'', JString ''error''), (''code'', JString code), (''message'', JString message)]))"

lemma legacy_error_answers:
  "error_answer status code (legacy_error (BidDomainError message status code) fallback)"
  "error_answer 503 ''BID_AUTHORITY_UNAVAILABLE'' (legacy_error (BidInfrastructureError message) fallback)"
  "error_answer 500 ''INTERNAL_ERROR'' (legacy_error (BidUnexpectedError message) fallback)"
  by (simp_all add: error_answer_def legacy_error_def Let_def)

text \<open>How an applied mutation is answered: as a success when no replica has to acknowledge it or enough of them have,
  as unconfirmed with its figures when too few have, as an internal error when the question fails.\<close>

definition applied_answer :: "api_env \<Rightarrow> bid_request \<Rightarrow> mutation_data \<Rightarrow> api_answer \<Rightarrow> bool" where
  "applied_answer e rq d a =
     (if g_replicas (ae_config e) \<le> 0 then a = Api 200 (success_json (data_json d))
      else case ae_replicas e of
        Inl _ \<Rightarrow> error_answer 500 ''INTERNAL_ERROR'' a
      | Inr n \<Rightarrow>
          if g_replicas (ae_config e) \<le> n then a = Api 200 (success_json (data_json d))
          else a = Api 503 (JObject [(''status'', JString ''error''), (''code'', JString ''BID_DURABILITY_UNCONFIRMED''),
            (''message'', JString ''Bid mutation was accepted by Redis primary but replica acknowledgement was not confirmed''),
            (''details'', durability_details d)]))"

definition answered ::
    "api_env \<Rightarrow> nat \<Rightarrow> string \<Rightarrow> string \<Rightarrow> bid_request \<Rightarrow> bidding \<Rightarrow> 'w api_state \<Rightarrow> api_answer \<times> 'w api_state \<Rightarrow> bool" where
  "answered e user role key rq m s out =
     (let pid = product_of rq; x = mutation_of user role rq; sent = script_request e user role key rq; keys = as_keys (snd out)
      in if blocked (as_keys s) then error_answer 503 ''BID_AUTHORITY_UNAVAILABLE'' (fst out) \<and> keys = as_keys s
         else case spec_mutate m x (ae_now e) of
           Inl code \<Rightarrow> (\<exists>status. 400 \<le> status \<and> status < 500 \<and> error_answer status code (fst out))
             \<and> represents pid m keys \<and> k_stream keys = k_stream (as_keys s)
         | Inr m' \<Rightarrow>
             if \<not> within_rate (ae_clock e) sent (as_keys s)
             then error_answer 429 ''RATE_LIMITED'' (fst out) \<and> keys = as_keys s
             else (\<exists>d. applied_answer e rq d (fst out) \<and> answers pid x m m' sent d)
               \<and> represents pid m' keys \<and> (\<exists>ev. k_stream keys = k_stream (as_keys s) @ [ev] \<and> event_shows pid x m m' sent ev))"

lemma run_command_outcome:
  assumes "check_command c = Inr ()"
    and "mutate_script (ae_clock e) (ae_digest e (c_idempotency_key c))
      (payload (ae_config e) c (ae_event e) (ae_order e) (ae_now e)) (as_keys s) = (Some reply, keys)"
  shows "as_keys (snd (run_command e c s)) = keys
    \<and> fst (run_command e c s) = (case reply of
        ReplyError code message status \<Rightarrow> Inl (translate_error code message status)
      | ReplySuccess d \<Rightarrow>
          if g_replicas (ae_config e) \<le> 0 then Inr d
          else case ae_replicas e of
            Inl err \<Rightarrow> Inl (BidUnexpectedError err)
          | Inr n \<Rightarrow> if g_replicas (ae_config e) \<le> n then Inr d else Inl (BidDurabilityUnconfirmedError d))"
  using assms by (simp add: run_command_def finish_mutation_def Let_def split_beta split: reply.split sum.split)

lemma command_of_key [simp]: "c_idempotency_key (command_of e user role key rq) = key"
  by (cases rq) (simp_all add: command_of_def place_bid_command_def buy_now_command_def ban_command_def cancel_command_def)

lemma served_outcome:
  assumes "ae_engine e = RedisEngine" "require_idempotency_key header = Inr key" "well_formed rq"
    and "mutate_script (ae_clock e) (ae_digest e key) (script_request e user role key rq) (as_keys s) = (Some reply, keys)"
  shows "as_keys (snd (serve_bid e (Some (user, role)) header rq s)) = keys
    \<and> (case reply of
        ReplyError code message status \<Rightarrow>
          fst (serve_bid e (Some (user, role)) header rq s) = legacy_error (translate_error code message status) (fallback_message rq)
      | ReplySuccess d \<Rightarrow> applied_answer e rq d (fst (serve_bid e (Some (user, role)) header rq s)))"
proof -
  let ?c = "command_of e user role key rq"
  have serve: "serve_bid e (Some (user, role)) header rq s =
      (case by_command e ?c s of (Inl err, s') \<Rightarrow> (legacy_error err (fallback_message rq), s') | (Inr v, s') \<Rightarrow> (Api 200 v, s'))"
    using assms(2) by (simp add: serve_bid_def require_authenticated_user_def perform_redis [OF assms(1)])
  note outcome = run_command_outcome [OF command_checks [OF assms(3,2), of e user role], of e s reply keys, simplified,
      OF assms(4) [unfolded script_request_def]]
  show ?thesis
  proof (cases reply)
    case (ReplyError code message status)
    with outcome show ?thesis by (simp add: serve by_command_def split_beta)
  next
    case (ReplySuccess d)
    with outcome legacy_error_answers(3) show ?thesis
      by (auto simp: serve by_command_def split_beta applied_answer_def legacy_error_def split: sum.splits if_splits)
  qed
qed

text \<open>C2: With the Redis engine every request of an authenticated account, with a key that was not used and a well-formed
  body, on keys that hold an auction, is answered as the specification and the state of the authority decide. Behind a
  fence, or on a key of the wrong type, it is answered 503 and nothing changes. What the specification refuses is an error
  of the client with the code of the specification, and leaves the auction and its stream. What it accepts is answered
  429 with nothing changed when the account is over its rate; otherwise the keys hold the specification's next auction, one
  event shows it, and the answer is a success with its figures when no replica is asked or enough acknowledge, 503
  with the figures as details when too few do, and 500 when asking them fails.\<close>

theorem api_answers_specification:
  assumes "ae_engine e = RedisEngine" "require_idempotency_key header = Inr key" "well_formed rq"
    and "represents (product_of rq) m (as_keys s)" "bidding_ok m" "user < rank_bound"
    and "find_replay (ae_clock e) (ae_digest e key) (script_request e user role key rq) (as_keys s) = (None, as_keys s)"
    and "b_sequence m < max_amount" "b_version m < max_amount"
  shows "answered e user role key rq m s (serve_bid e (Some (user, role)) header rq s)"
proof -
  let ?rq = "script_request e user role key rq" and ?x = "mutation_of user role rq"
  let ?run = "mutate_script (ae_clock e) (ae_digest e key) ?rq (as_keys s)"
  note served = served_outcome [OF assms(1-3), of user role s _ "snd ?run"]
  show ?thesis
  proof (cases "blocked (as_keys s)")
    case True
    with blocked_run obtain code message
      where b: "?run = (Some (ReplyError code message 503), as_keys s)" "code \<noteq> ''AUCTION_STATE_NOT_READY''" by metis
    with served [of "ReplyError code message 503"] True legacy_error_answers(2) show ?thesis
      by (simp add: answered_def translate_error_def Let_def)
  next
    case False
    have "in_range (?x, ae_now e)"
      using assms(3,6) bid_money_parses by (cases rq) (auto simp: in_range_def mutation_of_def well_formed_def)
    then have out: "script_outcome (product_of rq) m ?x (ae_now e) (ae_clock e) ?rq (as_keys s) ?run"
      using assms(4,5,7-9) False request_asks [OF assms(3)] by (intro script_outcome_unblocked) (simp_all add: bidding_ok_def)
    show ?thesis
    proof (cases "spec_mutate m ?x (ae_now e)")
      case (Inl code)
      with out obtain message status where o: "fst ?run = Some (ReplyError code message status)" "400 \<le> status" "status < 500"
        "represents (product_of rq) m (snd ?run)" "k_stream (snd ?run) = k_stream (as_keys s)"
        by (auto simp: script_outcome_def)
      with served [of "ReplyError code message status"] Inl False legacy_error_answers(1) show ?thesis
        by (auto simp: answered_def translate_error_def Let_def prod_eq_iff)
    next
      case (Inr m')
      show ?thesis
      proof (cases "within_rate (ae_clock e) ?rq (as_keys s)")
        case True
        with Inr out obtain d ev where o: "fst ?run = Some (ReplySuccess d)" "answers (product_of rq) ?x m m' ?rq d"
          "represents (product_of rq) m' (snd ?run)" "k_stream (snd ?run) = k_stream (as_keys s) @ [ev]"
          "event_shows (product_of rq) ?x m m' ?rq ev"
          by (auto simp: script_outcome_def accepted_def committed_def)
        with served [of "ReplySuccess d"] Inr False True show ?thesis by (auto simp: answered_def Let_def prod_eq_iff)
      next
        case limited: False
        with Inr out have "?run = (Some (ReplyError ''RATE_LIMITED'' ''Too many auction mutations'' 429), as_keys s)"
          by (simp add: script_outcome_def)
        with served [of "ReplyError ''RATE_LIMITED'' ''Too many auction mutations'' 429"] Inr False limited
          legacy_error_answers(1) show ?thesis
          by (simp add: answered_def translate_error_def Let_def)
      qed
    qed
  qed
qed

section \<open>Requests without an account or a key\<close>

lemma unidentified_request:
  "account = None \<or> \<not> is_ok (require_idempotency_key header) \<Longrightarrow>
   snd (serve_bid e account header rq s) = s
   \<and> (account = None \<longrightarrow> fst (serve_bid e account header rq s) =
        legacy_error (BidUnexpectedError ''Authenticated user is required before controller execution'') (fallback_message rq))"
  by (cases "require_idempotency_key header") (auto simp: serve_bid_def require_authenticated_user_def split: option.split)

lemma unexpected_error_is_500:
  "legacy_error (BidUnexpectedError message) fallback =
   Api 500 (JObject [(''status'', JString ''error''), (''code'', JString ''INTERNAL_ERROR''), (''message'', JString fallback)])"
  by (simp add: legacy_error_def)

text \<open>The history of a product shows every account the maximum of every bidder, the standing one of the leader included,
  which the proxy rule keeps from the price.\<close>

lemma history_discloses_maxima:
  assumes "h \<in> set (db_histories (pg_db pg))" "hi_product h = int product"
  shows "\<exists>t \<in> set (snd (get_bid_history usernames product user pg)). ht_user t = hi_user h \<and> ht_max_price t = hi_max h"
  using assms by (force simp: get_bid_history_def bid_history_def)

section \<open>Examples\<close>

definition example_api_env :: api_env where
  "example_api_env = \<lparr>ae_engine = RedisEngine, ae_topics = example_topics, ae_now = 500, ae_clock = 0,
     ae_config = \<lparr>g_rate_limit = 5, g_rate_window = 1000, g_ttl = 1000, g_replicas = 1\<rparr>, ae_shard = 0, ae_connection = 0,
     ae_digest = (\<lambda>k. k), ae_event = ''e1'', ae_order = ''o1'', ae_draws = example_draws, ae_request_id = ''c1'', ae_replicas = Inr 0\<rparr>"

definition example_api_state :: "nat api_state" where
  "example_api_state = \<lparr>as_pg = example_pg, as_shadow = \<lparr>sc_matched = 0, sc_mismatched = 0\<rparr>, as_keys = store_of 7 example_bidding,
     as_client = \<lparr>t_pools = initial_pools, t_durability_unconfirmed = 0, t_indeterminate = 0\<rparr>\<rparr>"

theorem api_answers_specification_witness:
  "answered example_api_env 3 ''user'' ''k'' (PlayBid 7 ''200'') example_bidding example_api_state
     (serve_bid example_api_env (Some (3, ''user'')) (Some ''k'') (PlayBid 7 ''200'') example_api_state)"
proof (rule api_answers_specification)
  show "require_idempotency_key (Some ''k'') = Inr ''k''"
    by (simp add: require_idempotency_key_def trim_spaces_def is_space_def)
  show "well_formed (PlayBid 7 ''200'')"
    by (simp add: well_formed_def bid_money_def is_digit_def dec_val_def digit_val_def max_vnd_def)
  show "represents (product_of (PlayBid 7 ''200'')) example_bidding (as_keys example_api_state)"
    by (simp add: example_api_state_def)
  show "find_replay (ae_clock example_api_env) (ae_digest example_api_env ''k'')
      (script_request example_api_env 3 ''user'' ''k'' (PlayBid 7 ''200'')) (as_keys example_api_state) = (None, as_keys example_api_state)"
    by (simp add: example_api_state_def store_of_def find_replay_def live_def)
  show "bidding_ok example_bidding" by (rule example_bidding_ok)
qed (simp_all add: example_api_env_def rank_bound_def example_bidding_def max_amount_def)

end
