(* ===== verification/Spec2Isabelle.thy ===== *)
theory Spec2Isabelle
  imports Mutation_Client Projector_Batch Recovery_Properties Outbox_Relay Email_Delivery Pg_Properties Account_Properties Order_Properties Agent_Properties Category_Properties Catalog_Properties Product_Properties Dashboard_Properties
    Auction_Close Bid_Api_Properties
begin

text \<open>
  A verification library for an auction platform: a backend in TypeScript (src/Backend) in which bids are decided
  either by PostgreSQL or by a Lua script inside Redis, the events that carry the decisions to PostgreSQL, Kafka and the
  mail server, the accounts, orders, categories and products around them, and a service that runs programming agents
  (src/AgentService). Every definition is translated from the source and can be evaluated.

  \<^bold>\<open>The program and its parts.\<close> A bid, purchase, ban, cancellation or closing reaches
  \<open>mutate-auction.use-case.ts\<close>, which asks the authority. With the Redis engine the script \<open>auction-mutate.lua\<close> reads the
  auction from one hash, one sorted set and one set of its shard, decides, writes them back, and appends an event to the
  stream of the shard; the answer is kept under the request identifier, so that a retry gets it again. The projector
  reads the streams and writes products, history, bans, orders and the outbox of PostgreSQL, each event in sequence and
  once. The relay publishes the outbox to Kafka; consumers queue mails; a courier sends them; another consumer refreshes
  the dashboard. When Redis loses an auction, the recovery closes the fences, drains the streams, loads the auctions
  from PostgreSQL again and opens the fences. With the PostgreSQL engine one transaction decides and writes everything,
  and a shadow mode compares its decisions with the reference model of the script.

  \<^bold>\<open>How the code is modelled.\<close> Fallible code gives a value of \<open>result\<close>, an \<open>option\<close>, or an outcome with the state it
  reached; a transaction that throws leaves its tables, a sequence of statements outside one keeps what was done. Tables
  are lists of rows in the order of their insertion, with unique indexes as clashes of two rows (interface
  \<open>unique_table\<close>). Amounts are integers, in Redis the decimal strings the script computes on. Times are milliseconds.
  What is not under src/ is an argument: the Kafka broker, the SMTP server, JWT and bcrypt (\<open>auth_lib\<close>), SHA-256,
  slugify, uploads, the answers of the command line tools the agents are, JSON text, clocks and random draws, which statements and commands fail, and how much Redis trims.

  \<^bold>\<open>The theories.\<close>
  \<^item> \<open>Prelude\<close>, \<open>Text_Patterns\<close>, \<open>Json\<close>: shared lemmas and the interfaces \<open>idempotent_consumer\<close> and \<open>kept_invariant\<close>;
    what the code uses of regular expressions and JavaScript values.
  \<^item> \<open>Decimal_Strings\<close>, \<open>Lua_Decimals\<close>, \<open>Money\<close>: decimal strings, the arithmetic of the script on them, and amounts (interface
    \<open>amounts\<close>, interpreted on integers and on the strings of the script).
  \<^item> \<open>Auction_Policy\<close> (bids/domain, shadow-comparison.ts), \<open>Auction_Spec\<close> (the auction over numbers, what the authority
    promises), \<open>Auction_Authority\<close> (auction-mutate.lua), \<open>Auction_Refinement\<close> and \<open>Auction_Properties\<close>: the script implements
    the specification on every branch, keeps its invariants, replays its answers, and agrees with the reference model.
  \<^item> \<open>Mutation_Client\<close> (redis-auction.authority.ts, redis.config.ts): commands and fingerprints, the pool of connections,
    scripts that are lost, replicas, and the outcome a caller sees.
  \<^item> \<open>Event_Contract\<close>, \<open>Postgres_Store\<close>: names and envelopes of events, and the tables with their indexes.
  \<^item> \<open>Projector\<close>, \<open>Projector_Lane\<close>, \<open>Projector_Batch\<close>, \<open>Worker_Pool\<close> (redis-stream.projector.ts, bounded-map.ts): one entry,
    a lane of entries in one transaction, a batch with its fallback, retries and dead letters in a stream of bounded length,
    compaction, and the two pools that interleave the lanes. A lane equals its entries one by one; nothing is acknowledged
    that is not written, dead letters included as long as they are among the newest the stream keeps.
  \<^item> \<open>Bootstrap\<close>, \<open>Reconciliation\<close>, \<open>Convergence\<close>: loading an auction into Redis, comparing both sides, and the composition of
    script and projector: an auction in step stays in step, unless its leader is banned.
  \<^item> \<open>Recovery_Lease\<close>, \<open>Recovery\<close>, \<open>Recovery_Properties\<close> (redis-authority.recovery.ts): the lease of the control row under
    interleaved processes, and the recovery as a sequence of acts: before each, other processes may use the control row and
    the fences, and a statement may throw (\<open>meanwhile\<close>); of the commands on several clients some may go through although
    the whole fails. The interface \<open>recovery_invariant\<close> carries what every act keeps.
  \<^item> \<open>Outbox_Relay\<close>, \<open>Notifications\<close>, \<open>Email_Delivery\<close>: claims, publishing and dead letters; which mails an event asks for
    and their queueing; sending with leases, at the grain of batches and of single statements, with crashes and with the
    update after a sent mail failing.
  \<^item> \<open>Pg_Engine\<close>, \<open>Pg_Properties\<close>: the three transactions of the PostgreSQL engine, and where both engines agree.
  \<^item> \<open>Auth_Snapshot\<close>, \<open>Accounts\<close>, \<open>Account_Handlers\<close>, \<open>User_Admin\<close>, \<open>Account_Properties\<close>: the cached versions of accounts,
    tokens, sessions, one-time passwords, every handler of the accounts, and what administrators change.
  \<^item> \<open>Orders\<close>, \<open>Order_Properties\<close>: orders and their histories under stale reads.
  \<^item> \<open>Agent_Store\<close>, \<open>Agent_Workflow\<close>, \<open>Agent_Properties\<close>: runs of agents, the graph of their nodes with its commands and
    prompts, and what becomes of a run.
  \<^item> \<open>Categories\<close>, \<open>Category_Properties\<close>, \<open>Catalog\<close>, \<open>Catalog_Properties\<close>, \<open>Products\<close>, \<open>Product_Properties\<close>: the tree of
    categories with the products a deletion takes along, the statement behind the list of products as text, and products
    outside their auctions.
  \<^item> \<open>Dashboard\<close>, \<open>Dashboard_Properties\<close> (dashboard.worker.ts, dashboard-summary.use-case.ts): receipts of every event,
    batches, the refresh of the stored snapshot that a batch runs or shares with a caller whose refresh is in the air, dead
    letters and their retries, the audit log and its export as a table.
  \<^item> \<open>Auction_Close\<close> (redis-auction-close.job.ts): a pass of the closing job over the shards, each with its deadlines.
  \<^item> \<open>Bid_Api\<close>, \<open>Bid_Api_Properties\<close> (bids.controller.ts): requests about bids from the route to the answer, over both
    engines.

  \<^bold>\<open>What the properties show.\<close> The composition first: an accepted mutation and its projected event keep both sides in step
  (\<open>Convergence\<close>), so that a lost auction is rebuilt (\<open>Convergence\<close>, \<open>Recovery_Properties\<close>); a recovery that fails leaves
  shut what it shut and had not lifted, one that completes lifts the fences of its scope alone; events are applied once and
  without gaps; mails are queued once, and sent once by workers that keep their leases, but for crashes and lost updates;
  orders are decided once; revoked tokens die within the lifetime of the caches, and a version of an account stands for one
  role, status and password. Several properties state where the code falls short, on the inputs
  where it does: a ban of the leader, a pending auction that has started, an unsold pending auction, a purchase at
  PostgreSQL, a recovery of mails after the fact, a reset of a password, an agent run that throws, and a category of
  three levels. The remaining lemmas say what single operations do on their branches.

  A client of the bidding API sees the specification, or a fence, the limit of requests, or missing replicas in its place:
  \<open>Bid_Api_Properties\<close> composes handler, command, script and translation of the outcome. A pass of the closing job closes
  every closable auction among the first due ones of each shard, and a shard whose earliest deadlines are stuck
  closes nothing (\<open>Auction_Close\<close>). A committed batch of the dashboard has receipted its events, and its dead letters never
  heal (\<open>Dashboard_Properties\<close>).

  \<^bold>\<open>Bounds and fuel.\<close> The graph of an agent run takes answers from a list; five and three for every iteration behind the
  second are enough (\<open>Agent_Properties\<close>). The recursions over categories run on a stack of given depth: more frames than
  there are rows are enough exactly when no category is its own ancestor (\<open>Category_Properties\<close>). Loops that wait or repeat
  (the projector, the relay, the courier) are modelled as one round; their histories are lists of rounds or steps.
  Numbers Lua reads with \<open>tonumber\<close> are below ten to the fourteenth; the widths of columns are checks of the tables.

  \<^bold>\<open>Not modelled.\<close> HTML of the mails and the mail library; SQL that only reads (aggregates of the dashboard, visitor
  analytics, lists with joins and counts); the search itself that the statement of the catalog asks of PostgreSQL;
  schemas of the validation library, so requests are those that passed them; the wiring of processes, timers, ports,
  configuration and logs; child processes, git and the file system of the agent service, and its unused second
  workflow; settings; scripts, tests and load generators; type declarations; and the React views of src/Frontend,
  which ask the server for every decision.
\<close>

end
